(* ===== verification/Prelude.thy ===== *)
theory Prelude
  imports Main "HOL-Library.Char_ord" "HOL-Library.List_Lexorder" "HOL-Library.AList"
    "HOL-Library.Multiset" "HOL-Library.Sublist"
begin

text \<open>
  The part of the Go language and of its standard library that the other theories use.

  \<^item> A Go string is a \<^typ>\<open>string\<close>, a list of bytes; \<open><\<close> on strings is the bytewise order
    \<^verbatim>\<open>sort.Strings\<close> uses (\<open>Char_ord\<close> and \<open>List_Lexorder\<close>).
  \<^item> A Go map is an association list with distinct keys (\<open>wf_map\<close>). The order of the list is
    the iteration order the Go runtime happens to choose: Go leaves it unspecified, so a
    theorem that holds for every list holds for every iteration order, and a determinism
    theorem says that two lists with the same entries give the same result. A nil map is the
    empty list; where the source tells nil from empty the model has an \<open>option\<close>.
  \<^item> A Go \<^verbatim>\<open>(value, error)\<close> pair is a sum: \<open>Inl\<close> the error, \<open>Inr\<close> the value.
\<close>

section \<open>Names and collections\<close>

type_synonym 'v gomap = "(string \<times> 'v) list"

named_theorems go_simps "rewrite rules for Go strings, slices and maps"
named_theorems go_defs "definitions of the Go library functions"

section \<open>Maps\<close>

definition wf_map :: "'v gomap \<Rightarrow> bool" where
  "wf_map m \<longleftrightarrow> distinct (map fst m)"

definition mput :: "string \<Rightarrow> 'v \<Rightarrow> 'v gomap \<Rightarrow> 'v gomap" where
  "mput k v m = AList.update k v m"

definition mdel :: "string \<Rightarrow> 'v gomap \<Rightarrow> 'v gomap" where
  "mdel k m = filter (\<lambda>p. fst p \<noteq> k) m"

text \<open>The loop \<^verbatim>\<open>for k, v := range n { m[k] = v }\<close>.\<close>

fun mputall :: "'v gomap \<Rightarrow> 'v gomap \<Rightarrow> 'v gomap" where
  "mputall m [] = m"
| "mputall m ((k, v) # n) = mputall (mput k v m) n"

text \<open>A read of a string-valued map: a missing key gives the empty string.\<close>

definition mget :: "string gomap \<Rightarrow> string \<Rightarrow> string" where
  "mget m k = (case map_of m k of None \<Rightarrow> [] | Some v \<Rightarrow> v)"

definition sortedKeys :: "'v gomap \<Rightarrow> string list" where
  "sortedKeys m = sort (map fst m)"

lemma map_of_mput [simp, go_simps]: "map_of (mput k v m) = (map_of m)(k \<mapsto> v)"
  by (simp add: mput_def update_conv')

lemma set_keys_mput [simp, go_simps]: "fst ` set (mput k v m) = insert k (fst ` set m)"
  by (simp add: mput_def dom_update)

lemma wf_map_Nil [simp, go_simps]: "wf_map []"
  by (simp add: wf_map_def)

lemma wf_map_Cons [simp, go_simps]: "wf_map (p # m) \<longleftrightarrow> fst p \<notin> fst ` set m \<and> wf_map m"
  by (simp add: wf_map_def)

lemma wf_map_mput [simp, go_simps]: "wf_map m \<Longrightarrow> wf_map (mput k v m)"
  by (simp add: wf_map_def mput_def distinct_update)

lemma map_of_mdel [simp, go_simps]: "map_of (mdel k m) = (map_of m)(k := None)"
  by (induction m) (auto simp: mdel_def fun_eq_iff)

lemma wf_map_mdel [simp, go_simps]: "wf_map m \<Longrightarrow> wf_map (mdel k m)"
  unfolding wf_map_def mdel_def by (induction m) auto

lemma map_of_mputall [simp, go_simps]:
  "wf_map n \<Longrightarrow> map_of (mputall m n) = map_of m ++ map_of n"
proof (induction m n rule: mputall.induct)
  case (1 m)
  then show ?case by simp
next
  case (2 m k v n)
  then have "map_of n k = None" by (auto simp: map_of_eq_None_iff)
  with 2 show ?case by (auto simp: map_add_def fun_eq_iff split: option.splits)
qed

lemma wf_map_mputall [simp, go_simps]: "wf_map m \<Longrightarrow> wf_map (mputall m n)"
  by (induction m n rule: mputall.induct) auto

lemma keys_mputall [simp, go_simps]: "fst ` set (mputall m n) = fst ` set m \<union> fst ` set n"
  by (induction m n rule: mputall.induct) auto

lemma mputall_eq_Nil [simp, go_simps]: "mputall m n = [] \<longleftrightarrow> m = [] \<and> n = []"
proof -
  have "fst ` set (mputall m n) = {} \<longleftrightarrow> m = [] \<and> n = []"
    unfolding keys_mputall by simp
  then show ?thesis by (simp del: keys_mputall)
qed

lemma sortedKeys_set [simp, go_simps]: "set (sortedKeys m) = fst ` set m"
  by (simp add: sortedKeys_def)

lemma sortedKeys_sorted [simp, go_simps]: "sorted (sortedKeys m)"
  by (simp add: sortedKeys_def)

lemma sortedKeys_distinct [simp, go_simps]: "wf_map m \<Longrightarrow> distinct (sortedKeys m)"
  by (simp add: sortedKeys_def wf_map_def)

text \<open>Sorting after a \<^verbatim>\<open>range\<close> loop erases the iteration order.\<close>

lemma sort_mset_cong: "mset xs = mset ys \<Longrightarrow> sort xs = (sort ys :: 'a::linorder list)"
  by (metis properties_for_sort mset_sort sorted_sort)

lemma sort_set_cong:
  "distinct xs \<Longrightarrow> distinct ys \<Longrightarrow> set xs = set ys \<Longrightarrow> sort xs = (sort ys :: 'a::linorder list)"
  by (rule sort_mset_cong) (simp add: set_eq_iff_mset_eq_distinct [symmetric])

lemma sort_Nil_iff [simp, go_simps]: "sort xs = [] \<longleftrightarrow> xs = []"
  by (metis length_0_conv length_sort)

lemma sortedKeys_cong: "mset m = mset n \<Longrightarrow> sortedKeys m = sortedKeys n"
  unfolding sortedKeys_def by (rule sort_mset_cong) (metis mset_map)

section \<open>Strings\<close>

text \<open>\<^verbatim>\<open>strings.HasPrefix(s, p)\<close>.\<close>

fun hasPrefix :: "string \<Rightarrow> string \<Rightarrow> bool" where
  "hasPrefix s [] = True"
| "hasPrefix [] (c # p) = False"
| "hasPrefix (d # s) (c # p) = (d = c \<and> hasPrefix s p)"

lemma hasPrefix_iff: "hasPrefix s p \<longleftrightarrow> prefix p s"
  by (induction s p rule: hasPrefix.induct) (auto simp: prefix_Cons)

lemma hasPrefix_append [simp, go_simps]: "hasPrefix (p @ s) p"
  by (simp add: hasPrefix_iff)

text \<open>\<^verbatim>\<open>strings.Split(s, sep)\<close> for a separator of one byte: never the empty slice.\<close>

fun splitc :: "char \<Rightarrow> string \<Rightarrow> string list" where
  "splitc c [] = [[]]"
| "splitc c (d # s) =
     (if d = c then [] # splitc c s
      else case splitc c s of [] \<Rightarrow> [[d]] | p # ps \<Rightarrow> (d # p) # ps)"

text \<open>\<^verbatim>\<open>strings.Join(parts, sep)\<close>.\<close>

fun joinWith :: "string \<Rightarrow> string list \<Rightarrow> string" where
  "joinWith sep [] = []"
| "joinWith sep [x] = x"
| "joinWith sep (x # y # ys) = x @ sep @ joinWith sep (y # ys)"

lemma splitc_nonempty [simp, go_simps]: "splitc c s \<noteq> []"
  by (induction s) (auto split: list.splits)

lemma join_splitc [simp, go_simps]: "joinWith [c] (splitc c s) = s"
proof (induction s)
  case Nil
  then show ?case by simp
next
  case (Cons d s)
  obtain p ps where sp: "splitc c s = p # ps"
    by (cases "splitc c s") auto
  with Cons.IH show ?case by (cases ps) auto
qed

lemma splitc_no_sep: "c \<notin> set s \<Longrightarrow> splitc c s = [s]"
  by (induction s) auto

lemma splitc_sep_free: "p \<in> set (splitc c s) \<Longrightarrow> c \<notin> set p"
proof (induction s arbitrary: p)
  case Nil
  then show ?case by simp
next
  case (Cons d s)
  obtain q qs where "splitc c s = q # qs" by (cases "splitc c s") auto
  with Cons show ?case by (auto split: if_splits)
qed

lemma splitc_append_sep: "c \<notin> set s \<Longrightarrow> splitc c (s @ c # t) = s # splitc c t"
  by (induction s) auto

lemma splitc_join:
  "xs \<noteq> [] \<Longrightarrow> (\<And>x. x \<in> set xs \<Longrightarrow> c \<notin> set x) \<Longrightarrow> splitc c (joinWith [c] xs) = xs"
proof (induction "[c]" xs rule: joinWith.induct)
  case 1
  then show ?case by simp
next
  case (2 x)
  then show ?case by (simp add: splitc_no_sep)
next
  case (3 x y ys)
  then show ?case by (simp add: splitc_append_sep)
qed

text \<open>\<^verbatim>\<open>strings.Cut(s, sep)\<close> for a separator of one byte: \<open>None\<close> when it is absent.\<close>

fun cutc :: "char \<Rightarrow> string \<Rightarrow> (string \<times> string) option" where
  "cutc c [] = None"
| "cutc c (d # s) =
     (if d = c then Some ([], s)
      else map_option (\<lambda>(a, b). (d # a, b)) (cutc c s))"

lemma cutc_Some: "cutc c s = Some (a, b) \<longleftrightarrow> s = a @ c # b \<and> c \<notin> set a"
proof (induction s arbitrary: a)
  case Nil
  then show ?case by simp
next
  case (Cons d s)
  then show ?case by (cases a) (auto split: if_splits)
qed

lemma cutc_None: "cutc c s = None \<longleftrightarrow> c \<notin> set s"
  by (induction s) auto

text \<open>\<^verbatim>\<open>strings.LastIndex(s, c)\<close> for one byte, as the split at that index.\<close>

definition cutLast :: "char \<Rightarrow> string \<Rightarrow> (string \<times> string) option" where
  "cutLast c s = map_option (\<lambda>(a, b). (rev b, rev a)) (cutc c (rev s))"

lemma cutLast_Some: "cutLast c s = Some (a, b) \<longleftrightarrow> s = a @ c # b \<and> c \<notin> set b"
proof -
  have "cutLast c s = Some (a, b) \<longleftrightarrow> cutc c (rev s) = Some (rev b, rev a)"
    by (auto simp: cutLast_def)
  then show ?thesis unfolding cutc_Some
    by (metis append.assoc append_Cons append_Nil rev.simps(2) rev_append rev_rev_ident set_rev)
qed

lemma cutLast_None: "cutLast c s = None \<longleftrightarrow> c \<notin> set s"
  by (simp add: cutLast_def cutc_None)

text \<open>\<^verbatim>\<open>strings.Contains(s, sub)\<close>.\<close>

fun containsSub :: "string \<Rightarrow> string \<Rightarrow> bool" where
  "containsSub [] sub = (sub = [])"
| "containsSub (c # s) sub = (hasPrefix (c # s) sub \<or> containsSub s sub)"

text \<open>\<^verbatim>\<open>strings.TrimPrefix\<close>, \<^verbatim>\<open>TrimSuffix\<close>, \<^verbatim>\<open>TrimLeft\<close>, \<^verbatim>\<open>TrimRight\<close> (the last two with a
  cutset).\<close>

definition trimPrefix :: "string \<Rightarrow> string \<Rightarrow> string" where
  "trimPrefix s p = (if hasPrefix s p then drop (length p) s else s)"

definition trimSuffix :: "string \<Rightarrow> string \<Rightarrow> string" where
  "trimSuffix s p = (if hasPrefix (rev s) (rev p) then take (length s - length p) s else s)"

definition trimLeft :: "char list \<Rightarrow> string \<Rightarrow> string" where
  "trimLeft cs s = dropWhile (\<lambda>c. c \<in> set cs) s"

definition trimRight :: "char list \<Rightarrow> string \<Rightarrow> string" where
  "trimRight cs s = rev (dropWhile (\<lambda>c. c \<in> set cs) (rev s))"

text \<open>
  \<^verbatim>\<open>strings.ToLower\<close> and \<^verbatim>\<open>ToUpper\<close> on the ASCII letters; other bytes are unchanged.
\<close>

definition lowerc :: "char \<Rightarrow> char" where
  "lowerc c = (let n = of_char c :: nat in if 65 \<le> n \<and> n \<le> 90 then char_of (n + 32) else c)"

definition upperc :: "char \<Rightarrow> char" where
  "upperc c = (let n = of_char c :: nat in if 97 \<le> n \<and> n \<le> 122 then char_of (n - 32) else c)"

definition toLower :: "string \<Rightarrow> string" where
  "toLower s = map lowerc s"

definition toUpper :: "string \<Rightarrow> string" where
  "toUpper s = map upperc s"

text \<open>\<^verbatim>\<open>strconv.Itoa\<close> of a non-negative number, and \<^verbatim>\<open>strconv.Atoi\<close>.\<close>

definition digitc :: "nat \<Rightarrow> char" where
  "digitc d = char_of (48 + d)"

fun itoaNat :: "nat \<Rightarrow> string" where
  "itoaNat n = (if n < 10 then [digitc n] else itoaNat (n div 10) @ [digitc (n mod 10)])"

declare itoaNat.simps [simp del]

definition itoa :: "int \<Rightarrow> string" where
  "itoa i = (if i < 0 then CHR ''-'' # itoaNat (nat (- i)) else itoaNat (nat i))"

definition digitVal :: "char \<Rightarrow> nat option" where
  "digitVal c = (let n = of_char c :: nat in if 48 \<le> n \<and> n \<le> 57 then Some (n - 48) else None)"

fun atoiDigits :: "nat \<Rightarrow> string \<Rightarrow> nat option" where
  "atoiDigits acc [] = Some acc"
| "atoiDigits acc (c # s) =
     (case digitVal c of None \<Rightarrow> None | Some d \<Rightarrow> atoiDigits (10 * acc + d) s)"

text \<open>
  \<^verbatim>\<open>Atoi\<close> accepts an optional sign and at least one decimal digit, and fails outside the
  range of a 64-bit \<^verbatim>\<open>int\<close>.
\<close>

definition inIntRange :: "int \<Rightarrow> bool" where
  "inIntRange i \<longleftrightarrow> - (2 ^ 63) \<le> i \<and> i < 2 ^ 63"

definition atoi :: "string \<Rightarrow> int option" where
  "atoi s =
     (let body = (case s of [] \<Rightarrow> [] | c # t \<Rightarrow> if c = CHR ''-'' \<or> c = CHR ''+'' then t else s);
          neg = (case s of [] \<Rightarrow> False | c # t \<Rightarrow> c = CHR ''-'')
      in if body = [] then None
         else case atoiDigits 0 body of
                None \<Rightarrow> None
              | Some n \<Rightarrow> (let i = (if neg then - int n else int n)
                          in if inIntRange i then Some i else None))"

text \<open>
  \<^verbatim>\<open>strconv.Quote\<close> for ASCII, which is also \<^verbatim>\<open>%q\<close>: a backslash before a quote or a backslash, the letter
  escapes and \<^verbatim>\<open>\x\<close> for the other control bytes; the bytes of printable non-ASCII text are kept.
\<close>

definition hexDigit :: "nat \<Rightarrow> char" where
  "hexDigit n = (if n < 10 then char_of (48 + n) else char_of (87 + n))"

definition quoteChar :: "char \<Rightarrow> string" where
  "quoteChar c =
     (let n = of_char c :: nat; bs = CHR 0x5C in
      if c = CHR 0x22 \<or> c = bs then [bs, c]
      else if n = 7 then [bs, CHR ''a''] else if n = 8 then [bs, CHR ''b'']
      else if n = 12 then [bs, CHR ''f''] else if n = 10 then [bs, CHR ''n'']
      else if n = 13 then [bs, CHR ''r''] else if n = 9 then [bs, CHR ''t'']
      else if n = 11 then [bs, CHR ''v'']
      else if n < 32 \<or> n = 127 then [bs, CHR ''x'', hexDigit (n div 16), hexDigit (n mod 16)]
      else [c])"

definition goQuote :: "string \<Rightarrow> string" where
  "goQuote s = [CHR 0x22] @ concat (map quoteChar s) @ [CHR 0x22]"

lemmas go_string_defs [go_defs] =
  trimPrefix_def trimSuffix_def trimLeft_def trimRight_def toLower_def toUpper_def lowerc_def
  upperc_def cutLast_def

lemma digitVal_digitc: "d < 10 \<Longrightarrow> digitVal (digitc d) = Some d"
  by (auto simp: digitVal_def digitc_def Let_def)

lemma atoiDigits_append:
  "atoiDigits acc (s @ t) = (case atoiDigits acc s of None \<Rightarrow> None | Some n \<Rightarrow> atoiDigits n t)"
  by (induction s arbitrary: acc) (auto split: option.splits)

lemma atoiDigits_itoaNat: "\<exists>k. \<forall>acc. atoiDigits acc (itoaNat n) = Some (acc * k + n)"
proof (induction n rule: itoaNat.induct)
  case (1 n)
  show ?case
  proof (cases "n < 10")
    case True
    then have "\<forall>acc. atoiDigits acc (itoaNat n) = Some (acc * 10 + n)"
      by (simp add: itoaNat.simps [of n] digitVal_digitc)
    then show ?thesis by blast
  next
    case False
    with 1 obtain k where k: "\<And>acc. atoiDigits acc (itoaNat (n div 10)) = Some (acc * k + n div 10)"
      by blast
    have "atoiDigits acc (itoaNat n) = Some (acc * (k * 10) + n)" for acc
    proof -
      have "10 * (acc * k + n div 10) + n mod 10 = acc * (k * 10) + n"
        by (simp add: algebra_simps)
      with False show ?thesis
        by (simp add: itoaNat.simps [of n] atoiDigits_append k digitVal_digitc)
    qed
    then show ?thesis by blast
  qed
qed

lemma itoaNat_hd: "\<exists>d s. d < 10 \<and> itoaNat n = digitc d # s"
proof (induction n rule: itoaNat.induct)
  case (1 n)
  then show ?case by (cases "n < 10") (auto simp: itoaNat.simps [of n])
qed

lemma digitc_not_sign: "d < 10 \<Longrightarrow> digitc d \<noteq> CHR ''-'' \<and> digitc d \<noteq> CHR ''+''"
  using digitVal_digitc [of d] by (auto simp: digitVal_def Let_def)

lemma atoiDigits_itoaNat_0: "atoiDigits 0 (itoaNat n) = Some n"
  using atoiDigits_itoaNat [of n] by auto

lemma atoi_itoa: "inIntRange i \<Longrightarrow> atoi (itoa i) = Some i"
proof (cases "i < 0")
  case True
  assume r: "inIntRange i"
  have "itoaNat (nat (- i)) \<noteq> []" using itoaNat_hd [of "nat (- i)"] by auto
  with True r show ?thesis
    by (simp add: atoi_def itoa_def Let_def atoiDigits_itoaNat_0)
next
  case False
  assume r: "inIntRange i"
  obtain d s where d: "d < 10" "itoaNat (nat i) = digitc d # s"
    using itoaNat_hd by blast
  with digitc_not_sign [OF d(1)] False r show ?thesis
    using atoiDigits_itoaNat_0 [of "nat i"] by (simp add: atoi_def itoa_def Let_def)
qed

section \<open>Slices\<close>

text \<open>Keep the first occurrence of every element, in order.\<close>

fun dedupFrom :: "'a set \<Rightarrow> 'a list \<Rightarrow> 'a list" where
  "dedupFrom seen [] = []"
| "dedupFrom seen (x # xs) =
     (if x \<in> seen then dedupFrom seen xs else x # dedupFrom (insert x seen) xs)"

lemma dedupFrom_props:
  "set (dedupFrom seen xs) = set xs - seen" "distinct (dedupFrom seen xs)"
  by (induction xs arbitrary: seen) auto

lemma dedupFrom_append:
  "dedupFrom seen (xs @ ys) = dedupFrom seen xs @ dedupFrom (seen \<union> set xs) ys"
  by (induction xs arbitrary: seen) (auto simp: insert_absorb)

lemma dedupFrom_id: "distinct xs \<Longrightarrow> set xs \<inter> seen = {} \<Longrightarrow> dedupFrom seen xs = xs"
  by (induction xs arbitrary: seen) auto

lemma dedupFrom_subset: "set xs \<subseteq> seen \<Longrightarrow> dedupFrom seen xs = []"
  by (induction xs arbitrary: seen) auto

lemma subseq_dedupFrom: "subseq (dedupFrom seen xs) xs"
  by (induction xs arbitrary: seen) auto

end
