(* ===== verification/Compose_Types.thy ===== *)
theory Compose_Types
  imports Prelude Complex_Main
begin

text \<open>
  The data the compose orchestrator exchanges with its two neighbours: the container runtime
  (the structs of \<^verbatim>\<open>runtime/runtime.go\<close>, \<^verbatim>\<open>runtime/compose_primitives.go\<close> and the errors of
  \<^verbatim>\<open>runtime/errors.go\<close>) and the compose loader, a third-party package. Of the loader's types
  only the fields the repository reads or writes are kept; \<open>svc_Rest\<close> stands for every other
  field of a service, so that an equality of two services is an equality of all their fields.
  Time is a number of nanoseconds. A pointer is an \<open>option\<close>; slices are lists.
\<close>

section \<open>Runtime structs\<close>

record capabilities =
  cap_Healthchecks :: bool
  cap_ExitCodes :: bool
  cap_ServiceNameDNS :: bool

record container =
  ct_ID :: string
  ct_Name :: string
  ct_Image :: string
  ct_State :: string
  ct_Labels :: "string gomap"

definition StateCreated :: string where [simp]: "StateCreated = ''created''"
definition StateRunning :: string where [simp]: "StateRunning = ''running''"
definition StateExited :: string where [simp]: "StateExited = ''exited''"

definition HealthNone :: string where [simp]: "HealthNone = []"
definition HealthStarting :: string where [simp]: "HealthStarting = ''starting''"
definition HealthHealthy :: string where [simp]: "HealthHealthy = ''healthy''"
definition HealthUnhealthy :: string where [simp]: "HealthUnhealthy = ''unhealthy''"

record mount_inspect =
  mi_Type :: string
  mi_Source :: string
  mi_Target :: string
  mi_ReadOnly :: bool

text \<open>The embedded \<^verbatim>\<open>Container\<close> is the first field; the outer \<^verbatim>\<open>Labels\<close> hide the inner ones.\<close>

record container_details =
  cd_Container :: container
  cd_Created :: int
  cd_StartedAt :: int
  cd_User :: string
  cd_Env :: "string list"
  cd_Mounts :: "mount_inspect list"
  cd_Labels :: "string gomap"
  cd_ImageRef :: string
  cd_Privileged :: bool
  cd_CapAdd :: "string list"
  cd_SecurityOpt :: "string list"
  cd_ExitCode :: int
  cd_FinishedAt :: int
  cd_Health :: string

record image_ref =
  ir_ID :: string
  ir_Tags :: "string list"

record image_details =
  im_ID :: string
  im_Tags :: "string list"
  im_Labels :: "string gomap"
  im_Env :: "string list"
  im_User :: string
  im_Entrypoint :: "string list"

definition MountBind :: string where [simp]: "MountBind = ''bind''"
definition MountVolume :: string where [simp]: "MountVolume = ''volume''"
definition MountTmpfs :: string where [simp]: "MountTmpfs = ''tmpfs''"

record mount_spec =
  ms_Type :: string
  ms_Source :: string
  ms_Target :: string
  ms_ReadOnly :: bool
  ms_Propagation :: string

record port_binding =
  pb_HostIP :: string
  pb_HostPort :: string
  pb_ContainerPort :: int
  pb_Protocol :: string

record health_check_spec =
  hs_Test :: "string list"
  hs_Interval :: int
  hs_Timeout :: int
  hs_Retries :: int
  hs_StartPeriod :: int
  hs_StartInterval :: int
  hs_Disable :: bool

datatype restart_policy = RestartNo | RestartAlways | RestartOnFailure | RestartUnlessStopped

record run_spec =
  rs_Image :: string
  rs_Name :: string
  rs_Cmd :: "string list"
  rs_Entrypoint :: "string list"
  rs_User :: string
  rs_WorkingDir :: string
  rs_Env :: "string gomap"
  rs_Labels :: "string gomap"
  rs_Mounts :: "mount_spec list"
  rs_RunArgs :: "string list"
  rs_Init :: bool
  rs_Privileged :: bool
  rs_CapAdd :: "string list"
  rs_SecurityOpt :: "string list"
  rs_HealthCheck :: "health_check_spec option"
  rs_Networks :: "string list"
  rs_NetworkMode :: string
  rs_PidMode :: string
  rs_IpcMode :: string
  rs_Ports :: "port_binding list"
  rs_RestartPolicy :: restart_policy
  rs_OverrideCommand :: bool
  rs_MemoryBytes :: int
  rs_NanoCPUs :: int

record network_spec =
  ns_Name :: string
  ns_Labels :: "string gomap"

record volume_spec =
  vs_Name :: string
  vs_Labels :: "string gomap"

record label_filter =
  lf_Match :: "string gomap"

record exec_result =
  er_ExitCode :: int
  er_Stdout :: string
  er_Stderr :: string

section \<open>Runtime errors\<close>

text \<open>
  An error a runtime returns, as far as the orchestrator looks at it: \<^verbatim>\<open>errors.As\<close> follows the
  chain of wrapped errors to an \<^verbatim>\<open>ImageNotFoundError\<close>.
\<close>

datatype runtime_error =
    ImageNotFoundError string
  | ContainerNotFoundError string
  | DaemonUnavailableError string
  | ErrNotImplemented
  | ContextError
  | OtherError string
  | WrappedError string runtime_error

fun asImageNotFound :: "runtime_error \<Rightarrow> string option" where
  "asImageNotFound (ImageNotFoundError ref) = Some ref"
| "asImageNotFound (WrappedError m e) = asImageNotFound e"
| "asImageNotFound e = None"

section \<open>The compose project\<close>

record service_dependency =
  dep_Condition :: string
  dep_Required :: bool

record volume_volume =
  vv_NoCopy :: bool

record volume_tmpfs =
  vt_Size :: int
  vt_Mode :: nat

record service_volume =
  sv_Type :: string
  sv_Source :: string
  sv_Target :: string
  sv_ReadOnly :: bool
  sv_Volume :: "volume_volume option"
  sv_Tmpfs :: "volume_tmpfs option"

record service_port =
  sp_HostIP :: string
  sp_Published :: string
  sp_Target :: int
  sp_Protocol :: string

record health_check_config =
  hc_Test :: "string list"
  hc_Interval :: "int option"
  hc_Timeout :: "int option"
  hc_Retries :: "int option"
  hc_StartPeriod :: "int option"
  hc_StartInterval :: "int option"
  hc_Disable :: bool

record limits =
  lim_MemoryBytes :: int
  lim_NanoCPUs :: rat
  lim_Pids :: int
  lim_Devices :: "string list"
  lim_GenericResources :: "string list"

record resources =
  res_Limits :: "limits option"
  res_Reservations :: "string option"

record deploy_config =
  dc_Mode :: string
  dc_Replicas :: "int option"
  dc_Labels :: "string gomap"
  dc_UpdateConfig :: "string option"
  dc_RollbackConfig :: "string option"
  dc_RestartPolicy :: "string option"
  dc_EndpointMode :: string
  dc_Constraints :: "string list"
  dc_Preferences :: "string list"
  dc_MaxReplicas :: int
  dc_Resources :: resources

record build_config =
  bc_Context :: string
  bc_Dockerfile :: string
  bc_Args :: "string option gomap"
  bc_Target :: string

record service_config =
  svc_Name :: string
  svc_Image :: string
  svc_Build :: "build_config option"
  svc_PullPolicy :: string
  svc_Scale :: "int option"
  svc_Deploy :: "deploy_config option"
  svc_DependsOn :: "service_dependency gomap"
  svc_Profiles :: "string list"
  svc_PreStart :: "string list"
  svc_PostStart :: "string list"
  svc_PreStop :: "string list"
  svc_Command :: "string list"
  svc_Entrypoint :: "string list"
  svc_User :: string
  svc_WorkingDir :: string
  svc_Environment :: "string option gomap"
  svc_Labels :: "string gomap"
  svc_Volumes :: "service_volume list"
  svc_Ports :: "service_port list"
  svc_NetworkMode :: string
  svc_Pid :: string
  svc_Ipc :: string
  svc_Restart :: string
  svc_HealthCheck :: "health_check_config option"
  svc_Init :: "bool option"
  svc_CapAdd :: "string list"
  svc_SecurityOpt :: "string list"
  svc_Privileged :: bool
  svc_MemLimit :: int
  svc_CPUS :: rat
  svc_Secrets :: "string list"
  svc_Configs :: "string list"
  svc_Develop :: "string option"
  svc_Links :: "string list"
  svc_Rest :: string

record project =
  pj_Name :: string
  pj_Services :: "service_config gomap"
  pj_Volumes :: "string gomap"
  pj_Networks :: "string gomap"
  pj_Secrets :: "string gomap"
  pj_Configs :: "string gomap"

text \<open>
  Two loaded projects are the same project seen under another map iteration order when they
  agree but for the order of the service list.
\<close>

definition project_reordered :: "project \<Rightarrow> project \<Rightarrow> bool" where
  "project_reordered p q \<longleftrightarrow> mset (pj_Services p) = mset (pj_Services q)"

definition wf_project :: "project \<Rightarrow> bool" where
  "wf_project p \<longleftrightarrow> wf_map (pj_Services p)
     \<and> (\<forall>(n, s) \<in> set (pj_Services p). svc_Name s = n \<and> wf_map (svc_DependsOn s))"

lemma mset_eq_map_of: "wf_map m \<Longrightarrow> mset m = mset n \<Longrightarrow> map_of m = map_of n"
proof -
  assume "wf_map m" "mset m = mset n"
  then have "distinct (map fst m)" "distinct (map fst n)" "set m = set n"
    by (auto simp: wf_map_def dest: mset_eq_setD) (metis mset_eq_imp_distinct_iff mset_map)
  then show ?thesis by (metis map_of_inject_set)
qed

lemma project_reordered_lookup:
  "wf_project p \<Longrightarrow> project_reordered p q \<Longrightarrow> map_of (pj_Services p) = map_of (pj_Services q)"
  by (simp add: wf_project_def project_reordered_def mset_eq_map_of)

text \<open>A service that sets nothing, and the empty project: the starting point of examples.\<close>

definition blank_service :: service_config where
  "blank_service = \<lparr>svc_Name = [], svc_Image = [], svc_Build = None, svc_PullPolicy = [],
     svc_Scale = None, svc_Deploy = None, svc_DependsOn = [], svc_Profiles = [],
     svc_PreStart = [], svc_PostStart = [], svc_PreStop = [], svc_Command = [],
     svc_Entrypoint = [], svc_User = [], svc_WorkingDir = [], svc_Environment = [],
     svc_Labels = [], svc_Volumes = [], svc_Ports = [], svc_NetworkMode = [], svc_Pid = [],
     svc_Ipc = [], svc_Restart = [], svc_HealthCheck = None, svc_Init = None, svc_CapAdd = [],
     svc_SecurityOpt = [], svc_Privileged = False, svc_MemLimit = 0, svc_CPUS = 0,
     svc_Secrets = [], svc_Configs = [], svc_Develop = None, svc_Links = [], svc_Rest = []\<rparr>"

definition blank_project :: project where
  "blank_project = \<lparr>pj_Name = [], pj_Services = [], pj_Volumes = [], pj_Networks = [],
     pj_Secrets = [], pj_Configs = []\<rparr>"

end
