(* ===== verification/Dependency_Order.thy ===== *)
theory Dependency_Order
  imports Prelude
begin

text \<open>
  The contract shared by the two topological sorts of the repository, \<^verbatim>\<open>compose.TopoSort\<close> (services)
  and \<^verbatim>\<open>feature.topoSort\<close> (features), and what their clients get from it. A sort takes a graph and
  either fails or lists its nodes, every node once and after everything it depends on.
\<close>

section \<open>Dependency relation and cycles\<close>

definition dep_rel :: "'n set \<Rightarrow> ('n \<Rightarrow> 'n set) \<Rightarrow> ('n \<times> 'n) set" where
  "dep_rel N D = {(x, d). x \<in> N \<and> d \<in> D x}"

text \<open>A closed walk: it ends where it starts and every step follows a dependency.\<close>

fun walk :: "('n \<Rightarrow> 'n set) \<Rightarrow> 'n list \<Rightarrow> bool" where
  "walk D (x # y # ys) = (y \<in> D x \<and> walk D (y # ys))"
| "walk D _ = True"

definition closed_walk :: "('n \<Rightarrow> 'n set) \<Rightarrow> 'n list \<Rightarrow> bool" where
  "closed_walk D c \<longleftrightarrow> 2 \<le> length c \<and> hd c = last c \<and> walk D c"

lemma walk_append: "walk D (xs @ [x]) \<Longrightarrow> walk D (x # ys) \<Longrightarrow> walk D (xs @ x # ys)"
proof (induction xs)
  case Nil
  then show ?case by simp
next
  case (Cons a xs)
  then show ?case by (cases xs) auto
qed

lemma walk_tl: "walk D (x # xs) \<Longrightarrow> walk D xs"
  by (cases xs) auto

lemma walk_drop: "walk D xs \<Longrightarrow> walk D (drop k xs)"
proof (induction k arbitrary: xs)
  case 0
  then show ?case by simp
next
  case (Suc k)
  then show ?case by (cases xs) (auto dest: walk_tl)
qed

lemma walk_snoc: "xs \<noteq> [] \<Longrightarrow> walk D xs \<Longrightarrow> y \<in> D (last xs) \<Longrightarrow> walk D (xs @ [y])"
proof (induction xs)
  case Nil
  then show ?case by simp
next
  case (Cons a xs)
  then show ?case by (cases xs) auto
qed

lemma walk_reach:
  "walk D (x # xs) \<Longrightarrow> set (butlast (x # xs)) \<subseteq> N \<Longrightarrow> xs \<noteq> [] \<Longrightarrow> (x, last xs) \<in> (dep_rel N D)\<^sup>+"
proof (induction xs arbitrary: x)
  case Nil
  then show ?case by simp
next
  case (Cons y ys)
  then have edge: "(x, y) \<in> dep_rel N D" by (auto simp: dep_rel_def)
  show ?case
  proof (cases "ys = []")
    case True
    with edge show ?thesis by auto
  next
    case False
    with Cons have "(y, last ys) \<in> (dep_rel N D)\<^sup>+" by auto
    with edge False show ?thesis by (auto intro: trancl_into_trancl2)
  qed
qed

lemma closed_walk_cyclic:
  assumes "closed_walk D c" "set (butlast c) \<subseteq> N"
  shows "\<not> acyclic (dep_rel N D)"
proof -
  from assms obtain x xs where c: "c = x # xs" "xs \<noteq> []" "x = last xs"
    by (cases c) (auto simp: closed_walk_def Suc_le_eq)
  with assms have "(x, last xs) \<in> (dep_rel N D)\<^sup>+"
    by (intro walk_reach) (auto simp: closed_walk_def)
  with c show ?thesis by (auto simp: acyclic_def)
qed

section \<open>The contract\<close>

locale dependency_order =
  fixes sortOp :: "'g \<Rightarrow> 'e + 'n list"
    and wf :: "'g \<Rightarrow> bool"
    and nodes :: "'g \<Rightarrow> 'n set"
    and deps :: "'g \<Rightarrow> 'n \<Rightarrow> 'n set"
  assumes distinct_out: "wf g \<Longrightarrow> sortOp g = Inr xs \<Longrightarrow> distinct xs"
    and covers: "wf g \<Longrightarrow> sortOp g = Inr xs \<Longrightarrow> set xs = nodes g"
    and deps_first: "wf g \<Longrightarrow> sortOp g = Inr (as @ x # bs) \<Longrightarrow> deps g x \<subseteq> set as"
begin

lemma deps_in_nodes: "wf g \<Longrightarrow> sortOp g = Inr xs \<Longrightarrow> x \<in> nodes g \<Longrightarrow> deps g x \<subseteq> nodes g"
  by (metis Un_iff covers deps_first set_append split_list subsetD subsetI)

lemma no_self_dep: "wf g \<Longrightarrow> sortOp g = Inr xs \<Longrightarrow> x \<in> nodes g \<Longrightarrow> x \<notin> deps g x"
  by (metis covers deps_first distinct_out not_distinct_conv_prefix split_list subsetD
      append.assoc append_Cons append_Nil)

lemma earlier:
  assumes "wf g" "sortOp g = Inr xs" "x \<in> nodes g" "d \<in> deps g x"
  shows "\<exists>as bs cs. xs = as @ d # bs @ x # cs"
proof -
  obtain as cs where xs: "xs = as @ x # cs"
    using assms(1-3) covers by (metis split_list)
  with assms deps_first have "d \<in> set as" by blast
  then show ?thesis using xs by (metis append.assoc append_Cons split_list)
qed

text \<open>The position in the output strictly decreases along a dependency.\<close>

definition pos :: "'n list \<Rightarrow> 'n \<Rightarrow> nat" where
  "pos xs x = length (takeWhile (\<lambda>y. y \<noteq> x) xs)"

lemma pos_append: "x \<notin> set as \<Longrightarrow> pos (as @ x # bs) x = length as"
  by (induction as) (auto simp: pos_def)

lemma pos_less:
  assumes "wf g" "sortOp g = Inr xs" "x \<in> nodes g" "d \<in> deps g x"
  shows "pos xs d < pos xs x"
proof -
  obtain as bs cs where xs: "xs = as @ d # bs @ x # cs"
    using earlier [OF assms] by blast
  moreover have "distinct xs" using assms distinct_out by blast
  ultimately have "pos xs d = length as" "pos xs x = length (as @ d # bs)"
    using pos_append [of d as "bs @ x # cs"] pos_append [of x "as @ d # bs" cs] by auto
  then show ?thesis by simp
qed

lemma success_acyclic:
  assumes "wf g" "sortOp g = Inr xs"
  shows "acyclic (dep_rel (nodes g) (deps g))"
proof (rule acyclicI_order [where f = "pos xs"])
  fix a b
  assume "(a, b) \<in> dep_rel (nodes g) (deps g)"
  then show "pos xs b < pos xs a"
    using assms pos_less by (auto simp: dep_rel_def)
qed

text \<open>Whatever has been processed at any moment is closed under dependencies.\<close>

lemma prefix_closed:
  assumes "wf g" "sortOp g = Inr (as @ bs)" "x \<in> set as"
  shows "deps g x \<subseteq> set as"
proof -
  obtain us vs where "as = us @ x # vs" using assms(3) by (metis split_list)
  with assms have "deps g x \<subseteq> set us" using deps_first [of g us x "vs @ bs"] by simp
  with \<open>as = us @ x # vs\<close> show ?thesis by auto
qed

text \<open>Read backwards the output is a teardown order: no node goes before its dependents.\<close>

lemma reverse_teardown:
  assumes "wf g" "sortOp g = Inr xs" "rev xs = as @ d # bs" "x \<in> nodes g" "d \<in> deps g x"
  shows "x \<in> set as"
proof -
  from assms(3) have xs: "xs = rev bs @ d # rev as" by (metis rev_append rev_rev_ident
      append_Nil append_assoc rev.simps(2) append_Cons)
  have "x \<notin> insert d (set bs)"
    using assms xs prefix_closed [of g "rev bs" "d # rev as" x] no_self_dep [of g xs x]
      distinct_out [of g xs] by auto
  moreover have "x \<in> set xs" using assms covers by blast
  ultimately show ?thesis using xs by auto
qed

end

end
