(* ===== verification/Compose_Graph.thy ===== *)
theory Compose_Graph
  imports Compose_Types Dependency_Order
begin

text \<open>
  \<^verbatim>\<open>compose/graph.go\<close>: the dependency edges of a service, the levelled topological sort that
  orders the start of the services, the cycle reported when there is none, and the closure of a
  set of services under their dependencies.
\<close>

section \<open>Edges\<close>

definition serviceRefTarget :: "string \<Rightarrow> string" where
  "serviceRefTarget v =
     (if length v > length ''service:'' \<and> take (length ''service:'') v = ''service:''
      then drop (length ''service:'') v else [])"

definition serviceEdges :: "service_config \<Rightarrow> string list" where
  "serviceEdges svc =
     map fst (svc_DependsOn svc)
     @ filter (\<lambda>peer. peer \<noteq> [])
         (map serviceRefTarget [svc_NetworkMode svc, svc_Pid svc, svc_Ipc svc])"

text \<open>The map \<^verbatim>\<open>deps\<close> of \<^verbatim>\<open>TopoSort\<close>: edges to other services of the project.\<close>

definition depsMap :: "service_config gomap \<Rightarrow> string list gomap" where
  "depsMap services =
     map (\<lambda>(name, svc). (name,
       remdups (filter (\<lambda>dep. dep \<in> fst ` set services \<and> dep \<noteq> name) (serviceEdges svc)))) services"

definition depsAt :: "string list gomap \<Rightarrow> string \<Rightarrow> string list" where
  "depsAt deps name = (case map_of deps name of None \<Rightarrow> [] | Some ds \<Rightarrow> ds)"

section \<open>The cycle of an error\<close>

fun indexOf :: "string \<Rightarrow> string list \<Rightarrow> nat option" where
  "indexOf x [] = None"
| "indexOf x (y # ys) = (if x = y then Some 0 else map_option Suc (indexOf x ys))"

lemma indexOf_None: "indexOf x xs = None \<longleftrightarrow> x \<notin> set xs"
  by (induction xs) auto

lemma indexOf_Some: "indexOf x xs = Some i \<Longrightarrow> i < length xs \<and> xs ! i = x"
  by (induction xs arbitrary: i) (auto split: if_splits)

text \<open>The \<^verbatim>\<open>for\<close> loop: \<^verbatim>\<open>path\<close> is the walk so far and \<^verbatim>\<open>cur\<close> its last element.\<close>

function cycleLoop ::
  "string list gomap \<Rightarrow> string list \<Rightarrow> string list \<Rightarrow> string list \<Rightarrow> string \<Rightarrow> string list" where
  "cycleLoop deps remaining seeds path cur =
     (let nexts = filter (\<lambda>d. d \<in> set remaining) (depsAt deps cur) in
      if nexts = [] then seeds
      else let nxt = hd (sort nexts) in
        case indexOf nxt path of
          Some idx \<Rightarrow> drop idx path @ [nxt]
        | None \<Rightarrow> cycleLoop deps remaining seeds (path @ [nxt]) nxt)"
  by pat_completeness auto

lemma hd_sort_in: "xs \<noteq> [] \<Longrightarrow> hd (sort xs) \<in> set xs"
  by (metis hd_in_set set_sort set_empty)

termination cycleLoop
proof (relation "measure (\<lambda>(deps, remaining, seeds, path, cur).
    card (set remaining - set path))", goal_cases)
  case 1
  then show ?case by simp
next
  case (2 deps remaining seeds path cur nexts nxt)
  then have "nxt \<in> set remaining - set path"
    using hd_sort_in [of nexts] by (auto simp: indexOf_None)
  then have "set remaining - set (path @ [nxt]) \<subset> set remaining - set path" by auto
  then show ?case by (simp add: psubset_card_mono del: set_append)
qed

definition findCycle :: "string list gomap \<Rightarrow> string list \<Rightarrow> string list" where
  "findCycle deps remaining =
     (let seeds = sort remaining in
      if seeds = [] then [] else cycleLoop deps remaining seeds [hd seeds] (hd seeds))"

section \<open>Levels\<close>

datatype topo_error = TopoNilProject | CycleError "string list"

function topoLoop :: "string list gomap \<Rightarrow> string list \<Rightarrow> string list + string list list" where
  "topoLoop deps remaining =
     (if remaining = [] then Inr []
      else let ready = filter (\<lambda>name. \<forall>dep \<in> set (depsAt deps name). dep \<notin> set remaining) remaining in
        if ready = [] then Inl (findCycle deps remaining)
        else case topoLoop deps (filter (\<lambda>name. name \<notin> set ready) remaining) of
               Inl c \<Rightarrow> Inl c
             | Inr levels \<Rightarrow> Inr (sort ready # levels))"
  by pat_completeness auto

termination topoLoop
proof (relation "measure (\<lambda>(deps, remaining). length remaining)", goal_cases)
  case 1
  then show ?case by simp
next
  case (2 deps remaining ready)
  then have "ready \<noteq> []" by simp
  then obtain x where "x \<in> set ready" using hd_in_set by blast
  moreover from this have "x \<in> set remaining" using 2 by auto
  ultimately have "length (filter (\<lambda>name. name \<notin> set ready) remaining) < length remaining"
    by (intro length_filter_less [of x]) auto
  then show ?case by simp
qed

declare cycleLoop.simps [simp del] topoLoop.simps [simp del]

definition TopoSort :: "project option \<Rightarrow> topo_error + string list list" where
  "TopoSort project =
     (case project of
        None \<Rightarrow> Inl TopoNilProject
      | Some p \<Rightarrow>
          (case topoLoop (depsMap (pj_Services p)) (map fst (pj_Services p)) of
             Inl c \<Rightarrow> Inl (CycleError c)
           | Inr levels \<Rightarrow> Inr levels))"

section \<open>Closure\<close>

function closureLoop :: "service_config gomap \<Rightarrow> string list \<Rightarrow> string list \<Rightarrow> string list" where
  "closureLoop services seen [] = seen"
| "closureLoop services seen (name # queue) =
     (if name \<in> set seen then closureLoop services seen queue
      else case map_of services name of
             None \<Rightarrow> closureLoop services (name # seen) queue
           | Some svc \<Rightarrow> closureLoop services (name # seen) (queue @ serviceEdges svc))"
  by pat_completeness auto

termination closureLoop
proof (relation "measures [\<lambda>(services, seen, queue). card (fst ` set services - set seen),
    \<lambda>(services, seen, queue). length queue]", goal_cases)
  case 1
  then show ?case by simp
next
  case (2 services seen name queue)
  then show ?case by simp
next
  case (3 services seen name queue)
  then have "name \<notin> fst ` set services" by (simp add: map_of_eq_None_iff)
  then have "fst ` set services - set (name # seen) = fst ` set services - set seen" by auto
  then show ?case by (simp del: set_simps)
next
  case (4 services seen name queue svc)
  then have "name \<in> fst ` set services - set seen" by (force dest: map_of_SomeD)
  then have "fst ` set services - set (name # seen) \<subset> fst ` set services - set seen" by auto
  then show ?case by (simp add: psubset_card_mono del: set_simps)
qed

definition ServiceClosure :: "project option \<Rightarrow> string list \<Rightarrow> string list" where
  "ServiceClosure project names =
     (case project of
        None \<Rightarrow> names
      | Some p \<Rightarrow> sort (closureLoop (pj_Services p) [] names))"

section \<open>The sort is right\<close>

abbreviation depSet :: "string list gomap \<Rightarrow> string \<Rightarrow> string set" where
  "depSet deps name \<equiv> set (depsAt deps name)"

text \<open>One round of the loop, in the form the remaining proofs use.\<close>

definition readyOf :: "string list gomap \<Rightarrow> string list \<Rightarrow> string list" where
  "readyOf deps remaining =
     filter (\<lambda>name. \<forall>dep \<in> depSet deps name. dep \<notin> set remaining) remaining"

lemma topoLoop_step:
  "topoLoop deps remaining =
     (if remaining = [] then Inr []
      else if readyOf deps remaining = [] then Inl (findCycle deps remaining)
      else case topoLoop deps (filter (\<lambda>name. name \<notin> set (readyOf deps remaining)) remaining) of
             Inl c \<Rightarrow> Inl c
           | Inr levels \<Rightarrow> Inr (sort (readyOf deps remaining) # levels))"
  by (subst topoLoop.simps) (simp only: readyOf_def Let_def)

lemma readyOf_subset: "set (readyOf deps remaining) \<subseteq> set remaining"
  by (auto simp: readyOf_def)

lemma topoLoop_cases:
  assumes "topoLoop deps remaining = Inr levels" "remaining \<noteq> []"
  obtains ready rest ls where
    "ready = filter (\<lambda>name. \<forall>dep \<in> depSet deps name. dep \<notin> set remaining) remaining"
    "rest = filter (\<lambda>name. name \<notin> set ready) remaining"
    "topoLoop deps rest = Inr ls" "levels = sort ready # ls" "length rest < length remaining"
    "ready \<noteq> []"
proof -
  let ?ready = "readyOf deps remaining"
  let ?rest = "filter (\<lambda>name. name \<notin> set ?ready) remaining"
  from assms have ne: "?ready \<noteq> []"
    by (subst (asm) topoLoop_step) (simp split: if_splits)
  with assms obtain ls where ls: "topoLoop deps ?rest = Inr ls" "levels = sort ?ready # ls"
    by (subst (asm) topoLoop_step) (simp split: sum.splits)
  have hd: "hd ?ready \<in> set ?ready" using ne by simp
  then have "hd ?ready \<in> set remaining" using readyOf_subset by blast
  then have len: "length ?rest < length remaining"
    by (rule length_filter_less) (simp add: hd)
  show thesis by (rule that [OF readyOf_def refl ls len ne])
qed

lemma topoLoop_set:
  "distinct remaining \<Longrightarrow> topoLoop deps remaining = Inr levels \<Longrightarrow>
     distinct (concat levels) \<and> set (concat levels) = set remaining"
proof (induction "length remaining" arbitrary: remaining levels rule: less_induct)
  case less
  show ?case
  proof (cases "remaining = []")
    case True
    with less.prems show ?thesis by (simp add: topoLoop.simps [of deps])
  next
    case False
    from less.prems(2) False show ?thesis
    proof (rule topoLoop_cases)
      fix ready rest ls
      assume h: "ready = filter (\<lambda>name. \<forall>dep \<in> depSet deps name. dep \<notin> set remaining) remaining"
        "rest = filter (\<lambda>name. name \<notin> set ready) remaining"
        "topoLoop deps rest = Inr ls" "levels = sort ready # ls" "length rest < length remaining"
      have "distinct rest" using h less.prems by simp
      then have "distinct (concat ls)" "set (concat ls) = set rest"
        using less.hyps [OF h(5) _ h(3)] by auto
      moreover have "set ready \<inter> set rest = {}" "set ready \<union> set rest = set remaining"
          "distinct ready"
        using h less.prems by auto
      ultimately show ?thesis using h by auto
    qed
  qed
qed

lemma topoLoop_order:
  "topoLoop deps remaining = Inr levels \<Longrightarrow> i < length levels \<Longrightarrow> x \<in> set (levels ! i) \<Longrightarrow>
     d \<in> depSet deps x \<Longrightarrow> d \<in> set remaining \<Longrightarrow> \<exists>j<i. d \<in> set (levels ! j)"
proof (induction "length remaining" arbitrary: remaining levels i rule: less_induct)
  case less
  show ?case
  proof (cases "remaining = []")
    case True
    with less.prems show ?thesis by (simp add: topoLoop.simps [of deps])
  next
    case False
    from less.prems(1) False show ?thesis
    proof (rule topoLoop_cases)
      fix ready rest ls
      assume h: "ready = filter (\<lambda>name. \<forall>dep \<in> depSet deps name. dep \<notin> set remaining) remaining"
        "rest = filter (\<lambda>name. name \<notin> set ready) remaining"
        "topoLoop deps rest = Inr ls" "levels = sort ready # ls" "length rest < length remaining"
      show ?thesis
      proof (cases i)
        case 0
        with h less.prems show ?thesis by auto
      next
        case (Suc k)
        with h less.prems have k: "k < length ls" "x \<in> set (ls ! k)" by auto
        show ?thesis
        proof (cases "d \<in> set ready")
          case True
          with h Suc show ?thesis by (auto intro!: exI [of _ 0])
        next
          case False
          with h less.prems have "d \<in> set rest" by auto
          then obtain j where "j < k" "d \<in> set (ls ! j)"
            using less.hyps [OF h(5,3) k] less.prems by blast
          with h Suc show ?thesis by (auto intro!: exI [of _ "Suc j"])
        qed
      qed
    qed
  qed
qed

lemma topoLoop_tight:
  "topoLoop deps remaining = Inr levels \<Longrightarrow> Suc i < length levels \<Longrightarrow> x \<in> set (levels ! Suc i) \<Longrightarrow>
     \<exists>d \<in> depSet deps x. d \<in> set (levels ! i)"
proof (induction "length remaining" arbitrary: remaining levels i rule: less_induct)
  case less
  show ?case
  proof (cases "remaining = []")
    case True
    with less.prems show ?thesis by (simp add: topoLoop.simps [of deps])
  next
    case False
    from less.prems(1) False show ?thesis
    proof (rule topoLoop_cases)
      fix ready rest ls
      assume h: "ready = filter (\<lambda>name. \<forall>dep \<in> depSet deps name. dep \<notin> set remaining) remaining"
        "rest = filter (\<lambda>name. name \<notin> set ready) remaining"
        "topoLoop deps rest = Inr ls" "levels = sort ready # ls" "length rest < length remaining"
      show ?thesis
      proof (cases i)
        case (Suc k)
        with h less.prems less.hyps [OF h(5,3), of k] show ?thesis by auto
      next
        case 0
        with h less.prems have x: "0 < length ls" "x \<in> set (ls ! 0)" by auto
        then have "rest \<noteq> []" using h(3) by (auto simp: topoLoop.simps [of deps])
        with h(3) obtain ready' ls' where
          "ready' = filter (\<lambda>name. \<forall>dep \<in> depSet deps name. dep \<notin> set rest) rest"
          "ls = sort ready' # ls'"
          by (rule topoLoop_cases) blast
        with x have "x \<in> set rest" "\<forall>dep \<in> depSet deps x. dep \<notin> set rest" by auto
        moreover from this h have "\<exists>d \<in> depSet deps x. d \<in> set remaining" by auto
        ultimately show ?thesis using h 0 by auto
      qed
    qed
  qed
qed

lemma topoLoop_level_props:
  "topoLoop deps remaining = Inr levels \<Longrightarrow> l \<in> set levels \<Longrightarrow> sorted l \<and> l \<noteq> []"
proof (induction "length remaining" arbitrary: remaining levels rule: less_induct)
  case less
  show ?case
  proof (cases "remaining = []")
    case True
    with less.prems show ?thesis by (simp add: topoLoop.simps [of deps])
  next
    case False
    from less.prems(1) False show ?thesis
    proof (rule topoLoop_cases)
      fix ready rest ls
      assume h: "topoLoop deps rest = Inr ls" "levels = sort ready # ls"
        "length rest < length remaining" "ready \<noteq> []"
      with less show ?thesis by auto
    qed
  qed
qed

section \<open>The reported cycle is one\<close>

lemma cycleLoop_closed:
  assumes "\<forall>n \<in> set remaining. \<exists>d \<in> depSet deps n. d \<in> set remaining"
    and "path \<noteq> []" "last path = cur" "set path \<subseteq> set remaining" "walk (depSet deps) path"
    and "distinct path"
  shows "closed_walk (depSet deps) (cycleLoop deps remaining seeds path cur)
    \<and> set (cycleLoop deps remaining seeds path cur) \<subseteq> set remaining
    \<and> distinct (tl (cycleLoop deps remaining seeds path cur))"
  using assms
proof (induction deps remaining seeds path cur rule: cycleLoop.induct)
  case (1 deps remaining seeds path cur)
  define nexts where "nexts = filter (\<lambda>d. d \<in> set remaining) (depsAt deps cur)"
  define nxt where "nxt = hd (sort nexts)"
  have "cur \<in> set remaining" using 1 by (metis last_in_set subsetD)
  with 1 have ne: "nexts \<noteq> []" by (auto simp: nexts_def filter_empty_conv)
  then have nxt: "nxt \<in> depSet deps cur" "nxt \<in> set remaining"
    using hd_sort_in [of nexts] by (auto simp: nxt_def nexts_def)
  have step: "cycleLoop deps remaining seeds path cur =
      (case indexOf nxt path of
         Some idx \<Rightarrow> drop idx path @ [nxt]
       | None \<Rightarrow> cycleLoop deps remaining seeds (path @ [nxt]) nxt)"
    using ne by (subst cycleLoop.simps) (simp only: nexts_def nxt_def Let_def if_False)
  show ?case
  proof (cases "indexOf nxt path")
    case None
    then have "nxt \<notin> set path" by (simp add: indexOf_None)
    moreover have "walk (depSet deps) (path @ [nxt])" using 1 nxt by (auto intro: walk_snoc)
    ultimately show ?thesis
      unfolding step None option.case using 1(1) [OF nexts_def ne nxt_def None] 1(2-) nxt by simp
  next
    case (Some idx)
    let ?c = "drop idx path @ [nxt]"
    from Some have idx: "idx < length path" "path ! idx = nxt" by (auto dest: indexOf_Some)
    have "walk (depSet deps) ?c" using 1 nxt idx by (auto intro: walk_snoc walk_drop)
    moreover have "hd ?c = nxt" using idx by (simp add: hd_drop_conv_nth)
    ultimately have "closed_walk (depSet deps) ?c" using idx by (auto simp: closed_walk_def)
    moreover have "set ?c \<subseteq> set remaining" using 1 nxt set_drop_subset by fastforce
    moreover have "distinct (tl ?c)"
    proof -
      have "drop idx path = nxt # drop (Suc idx) path" using idx by (metis Cons_nth_drop_Suc)
      moreover have "distinct (drop idx path)" using 1 by simp
      ultimately show ?thesis by simp
    qed
    ultimately show ?thesis unfolding step using Some by simp
  qed
qed

lemma findCycle_closed:
  assumes "remaining \<noteq> []" "readyOf deps remaining = []"
  shows "closed_walk (depSet deps) (findCycle deps remaining)
    \<and> set (findCycle deps remaining) \<subseteq> set remaining \<and> distinct (tl (findCycle deps remaining))"
proof -
  let ?start = "hd (sort remaining)"
  have pending: "\<forall>n \<in> set remaining. \<exists>d \<in> depSet deps n. d \<in> set remaining"
    using assms(2) by (auto simp: readyOf_def filter_empty_conv)
  have "findCycle deps remaining = cycleLoop deps remaining (sort remaining) [?start] ?start"
    using assms(1) by (simp add: findCycle_def Let_def)
  moreover have "set [?start] \<subseteq> set remaining" using hd_sort_in [OF assms(1)] by simp
  ultimately show ?thesis using cycleLoop_closed [OF pending, of "[?start]"] by simp
qed

lemma topoLoop_error:
  "topoLoop deps remaining = Inl c \<Longrightarrow>
     closed_walk (depSet deps) c \<and> set c \<subseteq> set remaining \<and> distinct (tl c)"
proof (induction "length remaining" arbitrary: remaining rule: less_induct)
  case less
  let ?ready = "readyOf deps remaining"
  let ?rest = "filter (\<lambda>name. name \<notin> set ?ready) remaining"
  have ne: "remaining \<noteq> []" using less.prems by (auto simp: topoLoop.simps [of deps])
  show ?case
  proof (cases "?ready = []")
    case True
    with ne less.prems have "c = findCycle deps remaining"
      by (subst (asm) topoLoop_step) simp
    with findCycle_closed [OF ne True] show ?thesis by simp
  next
    case False
    with ne less.prems have "topoLoop deps ?rest = Inl c"
      by (subst (asm) topoLoop_step) (simp split: sum.splits)
    moreover have hd: "hd ?ready \<in> set ?ready" using False by simp
    then have "hd ?ready \<in> set remaining" using readyOf_subset by blast
    then have "length ?rest < length remaining" by (rule length_filter_less) (simp add: hd)
    ultimately show ?thesis using less.hyps by fastforce
  qed
qed

section \<open>Contract of TopoSort\<close>

definition projectDeps :: "project \<Rightarrow> string \<Rightarrow> string set" where
  "projectDeps p name =
     {d. \<exists>svc. map_of (pj_Services p) name = Some svc \<and> d \<in> set (serviceEdges svc)
         \<and> d \<in> fst ` set (pj_Services p) \<and> d \<noteq> name}"

definition projectNodes :: "project \<Rightarrow> string set" where
  "projectNodes p = fst ` set (pj_Services p)"

definition flatTopoSort :: "project \<Rightarrow> topo_error + string list" where
  "flatTopoSort p = (case TopoSort (Some p) of Inl e \<Rightarrow> Inl e | Inr ls \<Rightarrow> Inr (concat ls))"

lemma map_of_depsMap:
  "map_of (depsMap services) name =
     map_option (\<lambda>svc. remdups (filter (\<lambda>d. d \<in> fst ` set services \<and> d \<noteq> name) (serviceEdges svc)))
       (map_of services name)"
proof -
  have "map_of (map (\<lambda>(n, s). (n, f n s)) xs) name = map_option (f name) (map_of xs name)"
    for f :: "string \<Rightarrow> service_config \<Rightarrow> string list" and xs
    by (induction xs) auto
  then show ?thesis by (simp add: depsMap_def)
qed

lemma depSet_depsMap: "depSet (depsMap (pj_Services p)) n = projectDeps p n"
  by (cases "map_of (pj_Services p) n") (simp_all add: depsAt_def map_of_depsMap projectDeps_def)

lemma depSet_depsMap_fun: "depSet (depsMap (pj_Services p)) = projectDeps p"
  by (rule ext) (rule depSet_depsMap)

lemma TopoSort_Inr:
  "TopoSort (Some p) = Inr levels \<longleftrightarrow>
     topoLoop (depsMap (pj_Services p)) (map fst (pj_Services p)) = Inr levels"
  by (auto simp: TopoSort_def split: sum.splits)

lemma TopoSort_Inl:
  "TopoSort (Some p) = Inl e \<longleftrightarrow>
     (\<exists>c. e = CycleError c \<and> topoLoop (depsMap (pj_Services p)) (map fst (pj_Services p)) = Inl c)"
  by (auto simp: TopoSort_def split: sum.splits)

lemma level_deps:
  assumes "TopoSort (Some p) = Inr levels" "i < length levels" "x \<in> set (levels ! i)"
    and "d \<in> projectDeps p x"
  shows "\<exists>j<i. d \<in> set (levels ! j)"
proof -
  have "d \<in> set (map fst (pj_Services p))" using assms(4) by (auto simp: projectDeps_def)
  with assms topoLoop_order show ?thesis by (auto simp: TopoSort_Inr simp flip: depSet_depsMap)
qed

lemma concat_split:
  "concat ls = as @ x # bs \<Longrightarrow>
     \<exists>i us vs. i < length ls \<and> ls ! i = us @ x # vs \<and> as = concat (take i ls) @ us"
proof (induction ls arbitrary: as)
  case Nil
  then show ?case by simp
next
  case (Cons l ls)
  show ?case
  proof (cases "length as < length l")
    case True
    with Cons.prems obtain vs where "l = as @ x # vs"
      by (auto simp: append_eq_append_conv2 append_eq_Cons_conv)
    then show ?thesis by (intro exI [of _ 0]) auto
  next
    case False
    with Cons.prems obtain as' where "as = l @ as'" "concat ls = as' @ x # bs"
      by (auto simp: append_eq_append_conv2 append_eq_Cons_conv Cons_eq_append_conv)
    with Cons.IH obtain i us vs where
      "i < length ls" "ls ! i = us @ x # vs" "as' = concat (take i ls) @ us" by blast
    with \<open>as = l @ as'\<close> show ?thesis by (intro exI [of _ "Suc i"]) auto
  qed
qed

lemma flat_deps_first:
  assumes "flatTopoSort p = Inr (as @ x # bs)"
  shows "projectDeps p x \<subseteq> set as"
proof
  fix d
  assume d: "d \<in> projectDeps p x"
  from assms obtain ls where ls: "TopoSort (Some p) = Inr ls" "concat ls = as @ x # bs"
    by (auto simp: flatTopoSort_def split: sum.splits)
  obtain i us vs where i: "i < length ls" "ls ! i = us @ x # vs" "as = concat (take i ls) @ us"
    using concat_split [OF ls(2)] by auto
  then obtain j where "j < i" "d \<in> set (ls ! j)" using level_deps [OF ls(1), of i x d] d by auto
  moreover from this i(1) have "ls ! j \<in> set (take i ls)"
    by (auto simp: set_conv_nth intro!: exI [of _ j])
  ultimately show "d \<in> set as" using i(3) by auto
qed

interpretation compose_order:
  dependency_order flatTopoSort wf_project projectNodes projectDeps
proof unfold_locales
  fix p xs
  assume h: "wf_project p" "flatTopoSort p = Inr xs"
  from h(2) obtain ls where
    "topoLoop (depsMap (pj_Services p)) (map fst (pj_Services p)) = Inr ls" "xs = concat ls"
    by (auto simp: flatTopoSort_def TopoSort_Inr split: sum.splits)
  moreover have "distinct (map fst (pj_Services p))"
    using h(1) by (simp add: wf_project_def wf_map_def)
  ultimately have "distinct xs \<and> set xs = fst ` set (pj_Services p)"
    using topoLoop_set [of "map fst (pj_Services p)"] by (metis list.set_map)
  then show "distinct xs" "set xs = projectNodes p" by (auto simp: projectNodes_def)
qed (rule flat_deps_first)

section \<open>Independence of the map iteration order\<close>

lemma hd_sort_cong: "set xs = set ys \<Longrightarrow> xs \<noteq> [] \<Longrightarrow> hd (sort xs) = (hd (sort ys) :: string)"
proof -
  assume eq: "set xs = set ys" and ne: "xs \<noteq> []"
  have hd: "hd (sort zs) = Min (set zs)" if z: "zs \<noteq> []" for zs :: "string list"
  proof -
    obtain a as where s: "sort zs = a # as" using z by (cases "sort zs") auto
    then have "set zs = insert a (set as)" by (metis list.simps(15) set_sort)
    moreover have "\<forall>b \<in> set as. a \<le> b" using s by (metis sorted_simps(2) sorted_sort)
    ultimately have "Min (set zs) = a" by (auto intro!: Min_eqI)
    with s show ?thesis by simp
  qed
  from ne eq have "ys \<noteq> []" by auto
  with ne eq show ?thesis by (simp add: hd)
qed

lemma cycleLoop_cong:
  "(\<And>n. depSet deps n = depSet deps' n) \<Longrightarrow> set remaining = set remaining' \<Longrightarrow>
     cycleLoop deps remaining seeds path cur = cycleLoop deps' remaining' seeds path cur"
proof (induction deps remaining seeds path cur rule: cycleLoop.induct)
  case (1 deps remaining seeds path cur)
  define nexts where "nexts = filter (\<lambda>d. d \<in> set remaining) (depsAt deps cur)"
  define nexts' where "nexts' = filter (\<lambda>d. d \<in> set remaining') (depsAt deps' cur)"
  have eq: "set nexts = set nexts'" using 1 by (simp add: nexts_def nexts'_def)
  show ?case
  proof (cases "nexts = []")
    case True
    then have "nexts' = []" using eq by simp
    with True show ?thesis
      by (subst (1 2) cycleLoop.simps) (simp add: nexts_def nexts'_def)
  next
    case False
    then have ne: "nexts' \<noteq> []" and hd: "hd (sort nexts) = hd (sort nexts')"
      using eq hd_sort_cong [of nexts nexts'] by auto
    have "cycleLoop deps remaining seeds path cur =
        (case indexOf (hd (sort nexts)) path of
           Some idx \<Rightarrow> drop idx path @ [hd (sort nexts)]
         | None \<Rightarrow> cycleLoop deps remaining seeds (path @ [hd (sort nexts)]) (hd (sort nexts)))"
      using False by (subst cycleLoop.simps) (simp only: nexts_def Let_def if_False)
    moreover have "cycleLoop deps' remaining' seeds path cur =
        (case indexOf (hd (sort nexts')) path of
           Some idx \<Rightarrow> drop idx path @ [hd (sort nexts')]
         | None \<Rightarrow> cycleLoop deps' remaining' seeds (path @ [hd (sort nexts')]) (hd (sort nexts')))"
      using ne by (subst cycleLoop.simps) (simp only: nexts'_def Let_def if_False)
    ultimately show ?thesis
      using 1(1) [OF nexts_def False refl _ 1(2,3)] hd by (simp split: option.split)
  qed
qed

lemma findCycle_cong:
  assumes "\<And>n. depSet deps n = depSet deps' n" "set remaining = set remaining'"
    and "distinct remaining" "distinct remaining'"
  shows "findCycle deps remaining = findCycle deps' remaining'"
proof -
  have "sort remaining = sort remaining'" using assms by (intro sort_set_cong) auto
  with cycleLoop_cong [OF assms(1,2)] show ?thesis by (simp add: findCycle_def Let_def)
qed

lemma topoLoop_cong:
  "(\<And>n. depSet deps n = depSet deps' n) \<Longrightarrow> set remaining = set remaining' \<Longrightarrow>
     distinct remaining \<Longrightarrow> distinct remaining' \<Longrightarrow> topoLoop deps remaining = topoLoop deps' remaining'"
proof (induction "length remaining" arbitrary: remaining remaining' rule: less_induct)
  case less
  let ?r = "readyOf deps remaining" and ?r' = "readyOf deps' remaining'"
  let ?s = "filter (\<lambda>name. name \<notin> set ?r) remaining"
  let ?s' = "filter (\<lambda>name. name \<notin> set ?r') remaining'"
  have r: "set ?r = set ?r'" using less.prems by (simp add: readyOf_def)
  then have nil: "?r = [] \<longleftrightarrow> ?r' = []" by (metis set_empty)
  have sort: "sort ?r = sort ?r'"
    using r less.prems(3,4) by (intro sort_set_cong) (simp_all add: readyOf_def)
  have nil': "remaining = [] \<longleftrightarrow> remaining' = []" using less.prems(2) by auto
  show ?case
  proof (cases "remaining = [] \<or> ?r = []")
    case True
    with nil nil' findCycle_cong [OF less.prems] show ?thesis
      by (subst (1 2) topoLoop_step) auto
  next
    case False
    then have hd: "hd ?r \<in> set ?r" by simp
    then have "hd ?r \<in> set remaining" using readyOf_subset by blast
    then have "length ?s < length remaining" by (rule length_filter_less) (simp add: hd)
    moreover have "set ?s = set ?s'" using less.prems(2) r by simp
    ultimately have "topoLoop deps ?s = topoLoop deps' ?s'"
      using less.prems by (intro less.hyps) auto
    with False nil nil' sort show ?thesis by (subst (1 2) topoLoop_step) (simp split: sum.split)
  qed
qed

section \<open>The closure is reachability\<close>

definition edgeRel :: "service_config gomap \<Rightarrow> (string \<times> string) set" where
  "edgeRel services =
     {(n, d). \<exists>svc. map_of services n = Some svc \<and> d \<in> set (serviceEdges svc)}"

lemma closureLoop_sound:
  "set (closureLoop services seen queue) \<subseteq> set seen \<union> (edgeRel services)\<^sup>* `` set queue"
proof (induction services seen queue rule: closureLoop.induct)
  case (1 services seen)
  then show ?case by simp
next
  case (2 services seen name queue)
  show ?case
  proof (cases "name \<in> set seen")
    case True
    with 2(1) show ?thesis by auto
  next
    case False
    show ?thesis
    proof (cases "map_of services name")
      case None
      with 2(2) False show ?thesis by auto
    next
      case (Some svc)
      have "set (closureLoop services (name # seen) (queue @ serviceEdges svc))
          \<subseteq> set (name # seen) \<union> (edgeRel services)\<^sup>* `` set queue
             \<union> (edgeRel services)\<^sup>* `` set (serviceEdges svc)"
        using 2(3) [OF False Some] by (simp add: Image_Un Un_assoc)
      moreover have "set (serviceEdges svc) \<subseteq> (edgeRel services) `` {name}"
        using Some by (auto simp: edgeRel_def)
      then have "(edgeRel services)\<^sup>* `` set (serviceEdges svc) \<subseteq> (edgeRel services)\<^sup>* `` {name}"
        by (auto intro: converse_rtrancl_into_rtrancl)
      ultimately show ?thesis using False Some by auto
    qed
  qed
qed

lemma closureLoop_complete:
  "(edgeRel services) `` set seen \<subseteq> set seen \<union> set queue \<Longrightarrow>
     set seen \<union> set queue \<subseteq> set (closureLoop services seen queue)
     \<and> (edgeRel services) `` set (closureLoop services seen queue)
         \<subseteq> set (closureLoop services seen queue)"
proof (induction services seen queue rule: closureLoop.induct)
  case (1 services seen)
  then show ?case by simp
next
  case (2 services seen name queue)
  show ?case
  proof (cases "name \<in> set seen")
    case True
    with 2(1,4) show ?thesis by (auto simp: Image_def)
  next
    case False
    show ?thesis
    proof (cases "map_of services name")
      case None
      then have "(edgeRel services) `` set (name # seen) \<subseteq> set (name # seen) \<union> set queue"
        using 2(4) by (auto simp: edgeRel_def)
      from 2(2) [OF False None this] False None show ?thesis by auto
    next
      case (Some svc)
      then have "(edgeRel services) `` set (name # seen)
          \<subseteq> set (name # seen) \<union> set (queue @ serviceEdges svc)"
        using 2(4) by (auto simp: edgeRel_def)
      from 2(3) [OF False Some this] False Some show ?thesis by auto
    qed
  qed
qed

lemma closureLoop_reach: "set (closureLoop services [] queue) = (edgeRel services)\<^sup>* `` set queue"
proof
  show "set (closureLoop services [] queue) \<subseteq> (edgeRel services)\<^sup>* `` set queue"
    using closureLoop_sound [of services "[]" queue] by simp
  have c: "set queue \<subseteq> set (closureLoop services [] queue)"
      "(edgeRel services) `` set (closureLoop services [] queue)
         \<subseteq> set (closureLoop services [] queue)"
    using closureLoop_complete [of services "[]" queue] by auto
  show "(edgeRel services)\<^sup>* `` set queue \<subseteq> set (closureLoop services [] queue)"
    using c Image_closed_trancl [OF c(2)] Image_mono [OF subset_refl c(1)] by blast
qed

lemma closureLoop_distinct: "distinct seen \<Longrightarrow> distinct (closureLoop services seen queue)"
  by (induction services seen queue rule: closureLoop.induct) (auto split: option.splits)

section \<open>Properties\<close>

text \<open>
  C1. When \<^verbatim>\<open>TopoSort\<close> succeeds the levels hold every service of the project exactly once, each
  level is non-empty and in lexicographic order, everything a service of level \<open>i\<close> depends on is
  in a strictly earlier level, and the levels are as early as possible: a service of level
  \<open>i + 1\<close> has a dependency in level \<open>i\<close>.
\<close>

theorem TopoSort_levels:
  assumes "wf_project p" "TopoSort (Some p) = Inr levels"
  shows "distinct (concat levels) \<and> set (concat levels) = projectNodes p
    \<and> (\<forall>l \<in> set levels. l \<noteq> [] \<and> sorted l)
    \<and> (\<forall>i < length levels. \<forall>x \<in> set (levels ! i). \<forall>d \<in> projectDeps p x. \<exists>j<i. d \<in> set (levels ! j))
    \<and> (\<forall>i. Suc i < length levels \<longrightarrow>
         (\<forall>x \<in> set (levels ! Suc i). \<exists>d \<in> projectDeps p x. d \<in> set (levels ! i)))"
proof (intro conjI)
  have flat: "flatTopoSort p = Inr (concat levels)" using assms by (simp add: flatTopoSort_def)
  show "distinct (concat levels)" by (rule compose_order.distinct_out [OF assms(1) flat])
  show "set (concat levels) = projectNodes p" by (rule compose_order.covers [OF assms(1) flat])
  show "\<forall>l \<in> set levels. l \<noteq> [] \<and> sorted l"
    using assms topoLoop_level_props by (auto simp: TopoSort_Inr)
  show "\<forall>i < length levels. \<forall>x \<in> set (levels ! i). \<forall>d \<in> projectDeps p x. \<exists>j<i. d \<in> set (levels ! j)"
    using level_deps [OF assms(2)] by blast
  show "\<forall>i. Suc i < length levels \<longrightarrow>
      (\<forall>x \<in> set (levels ! Suc i). \<exists>d \<in> projectDeps p x. d \<in> set (levels ! i))"
    using assms topoLoop_tight by (auto simp: TopoSort_Inr simp flip: depSet_depsMap)
qed

definition demo_project :: project where
  "demo_project = blank_project\<lparr>pj_Services :=
     [(''app'', blank_service\<lparr>svc_Name := ''app'',
         svc_DependsOn := [(''db'', \<lparr>dep_Condition = ''service_healthy'', dep_Required = True\<rparr>)]\<rparr>),
      (''db'', blank_service\<lparr>svc_Name := ''db''\<rparr>),
      (''vpn'', blank_service\<lparr>svc_Name := ''vpn'', svc_NetworkMode := ''service:app''\<rparr>)]\<rparr>"

lemma demo_project_levels: "TopoSort (Some demo_project) = Inr [[''db''], [''app''], [''vpn'']]"
  by code_simp

lemma demo_project_wf: "wf_project demo_project"
  by code_simp

theorem TopoSort_levels_witness:
  "set (concat [[''db''], [''app''], [''vpn'']]) = projectNodes demo_project"
  using TopoSort_levels [OF demo_project_wf demo_project_levels] by simp

text \<open>
  C2. \<^verbatim>\<open>TopoSort\<close> fails on a loaded project exactly when the dependency graph has a cycle, and the
  error carries one: the reported list is a closed walk along dependencies whose services are all
  in the project and which repeats no service but its first.
\<close>

theorem TopoSort_cycle:
  assumes "wf_project p"
  shows "((\<exists>e. TopoSort (Some p) = Inl e) \<longleftrightarrow> \<not> acyclic (dep_rel (projectNodes p) (projectDeps p)))
    \<and> (\<forall>e. TopoSort (Some p) = Inl e \<longrightarrow>
        (\<exists>c. e = CycleError c \<and> closed_walk (projectDeps p) c \<and> set c \<subseteq> projectNodes p
             \<and> distinct (tl c)))"
proof -
  have cyc: "\<exists>c. e = CycleError c \<and> closed_walk (projectDeps p) c \<and> set c \<subseteq> projectNodes p
      \<and> distinct (tl c)" if err: "TopoSort (Some p) = Inl e" for e
  proof -
    from err obtain c where
      "e = CycleError c" "topoLoop (depsMap (pj_Services p)) (map fst (pj_Services p)) = Inl c"
      by (auto simp: TopoSort_Inl)
    with topoLoop_error [of "depsMap (pj_Services p)" "map fst (pj_Services p)" c] show ?thesis
      by (simp add: projectNodes_def depSet_depsMap_fun)
  qed
  have "\<not> acyclic (dep_rel (projectNodes p) (projectDeps p))" if "TopoSort (Some p) = Inl e" for e
    using cyc [OF that] by (meson closed_walk_cyclic in_set_butlastD subset_iff)
  moreover have "\<exists>e. TopoSort (Some p) = Inl e"
    if "\<not> acyclic (dep_rel (projectNodes p) (projectDeps p))"
    using that compose_order.success_acyclic [OF assms]
    by (cases "TopoSort (Some p)") (auto simp: flatTopoSort_def)
  ultimately show ?thesis using cyc by blast
qed

definition demo_cycle :: project where
  "demo_cycle = blank_project\<lparr>pj_Services :=
     [(''c'', blank_service\<lparr>svc_Name := ''c'',
         svc_DependsOn := [(''b'', \<lparr>dep_Condition = ''service_started'', dep_Required = True\<rparr>)]\<rparr>),
      (''b'', blank_service\<lparr>svc_Name := ''b'', svc_Pid := ''service:c''\<rparr>)]\<rparr>"

theorem TopoSort_cycle_witness:
  "TopoSort (Some demo_cycle) = Inl (CycleError [''b'', ''c'', ''b''])
   \<and> \<not> acyclic (dep_rel (projectNodes demo_cycle) (projectDeps demo_cycle))"
proof -
  have "TopoSort (Some demo_cycle) = Inl (CycleError [''b'', ''c'', ''b''])" by code_simp
  moreover have "wf_project demo_cycle" by code_simp
  ultimately show ?thesis using TopoSort_cycle [of demo_cycle] by blast
qed

text \<open>
  The result of \<^verbatim>\<open>TopoSort\<close>, error included, does not depend on the iteration order of any of
  the Go maps it ranges over: two projects with the same service names and the same edge sets
  give the same levels and the same cycle.
\<close>

theorem TopoSort_deterministic:
  assumes "wf_project p" "wf_project q" "projectNodes p = projectNodes q"
    and "projectDeps p = projectDeps q"
  shows "TopoSort (Some p) = TopoSort (Some q)"
proof -
  have "topoLoop (depsMap (pj_Services p)) (map fst (pj_Services p)) =
      topoLoop (depsMap (pj_Services q)) (map fst (pj_Services q))"
    using assms by (intro topoLoop_cong)
      (auto simp: depSet_depsMap projectNodes_def wf_project_def wf_map_def)
  then show ?thesis by (simp add: TopoSort_def)
qed

theorem TopoSort_deterministic_witness:
  "TopoSort (Some demo_project) = TopoSort (Some (demo_project\<lparr>pj_Services := rev (pj_Services demo_project)\<rparr>))"
proof (rule TopoSort_deterministic)
  let ?q = "demo_project\<lparr>pj_Services := rev (pj_Services demo_project)\<rparr>"
  show "wf_project demo_project" by (rule demo_project_wf)
  show wf: "wf_project ?q" by code_simp
  show "projectNodes demo_project = projectNodes ?q" by (simp add: projectNodes_def)
  have "map_of (pj_Services ?q) = map_of (pj_Services demo_project)"
    using wf by (intro mset_eq_map_of) (auto simp: wf_project_def)
  then show "projectDeps demo_project = projectDeps ?q"
    by (auto simp: projectDeps_def fun_eq_iff)
qed

text \<open>
  C4. \<^verbatim>\<open>ServiceClosure\<close> returns, sorted and without repetitions, exactly the given names and every
  service reachable from them along dependency edges; its loop always ends. Names the project
  does not know are kept.
\<close>

theorem ServiceClosure_reachable:
  "set (ServiceClosure (Some p) names) = (edgeRel (pj_Services p))\<^sup>* `` set names
   \<and> sorted (ServiceClosure (Some p) names) \<and> distinct (ServiceClosure (Some p) names)"
  by (simp add: ServiceClosure_def closureLoop_reach closureLoop_distinct)

end
