(* ===== verification/Compose_Plan.thy ===== *)
theory Compose_Plan
  imports Compose_Graph "HOL-Library.Product_Lexorder"
begin

text \<open>
  \<^verbatim>\<open>compose/plan.go\<close>, \<^verbatim>\<open>compose/errors.go\<close> and \<^verbatim>\<open>compose/hash.go\<close>: the plan handed to the orchestrator,
  its validation against the fields that are always refused and against the capabilities of the
  backend, and the configuration hash that decides whether a container is reused. The hash
  function itself (SHA-256 over the JSON encoding of a third-party struct) is the parameter \<open>H\<close>.
\<close>

section \<open>Plans and errors\<close>

record plan =
  plan_Project :: "project option"
  plan_ProjectName :: string
  plan_Services :: "string list"
  plan_Labels :: "string gomap"
  plan_AdoptExisting :: bool

record down_plan =
  dp_ProjectName :: string
  dp_RemoveVolumes :: bool
  dp_RemoveImages :: bool
  dp_Project :: "project option"

record unsupported_field =
  uf_Service :: string
  uf_Field :: string
  uf_Reason :: string

datatype plan_error =
    NilPlanOrProject
  | UnsupportedFieldError "unsupported_field list"
  | UnsupportedFeatureOnBackendError string string string

definition uf :: "string \<Rightarrow> string \<Rightarrow> string \<Rightarrow> unsupported_field" where
  "uf service field reason = \<lparr>uf_Service = service, uf_Field = field, uf_Reason = reason\<rparr>"

text \<open>\<^verbatim>\<open>if cond { found = append(found, x) }\<close>.\<close>

definition appendIf :: "bool \<Rightarrow> 'a \<Rightarrow> 'a list" where
  "appendIf b x = (if b then [x] else [])"

lemma set_appendIf [simp]: "set (appendIf b x) = (if b then {x} else {})"
  by (cases b) (simp_all add: appendIf_def)

lemma appendIf_Nil [simp]: "appendIf b x = [] \<longleftrightarrow> \<not> b"
  by (simp add: appendIf_def)

definition fieldKey :: "unsupported_field \<Rightarrow> string \<times> string" where
  "fieldKey f = (uf_Service f, uf_Field f)"

definition sortFields :: "unsupported_field list \<Rightarrow> unsupported_field list" where
  "sortFields fs = sort_key fieldKey fs"

section \<open>Refused fields\<close>

definition unsupportedHooks :: "string \<Rightarrow> service_config \<Rightarrow> unsupported_field list" where
  "unsupportedHooks service svc =
     concat (map (\<lambda>(field, hooks). appendIf (hooks \<noteq> [])
         (uf service field ''lifecycle hooks are not executed by the native orchestrator''))
       [(''pre_start'', svc_PreStart svc), (''post_start'', svc_PostStart svc),
        (''pre_stop'', svc_PreStop svc)])"

definition resourcesUnsupported :: "string \<Rightarrow> resources \<Rightarrow> unsupported_field list" where
  "resourcesUnsupported service r =
     appendIf (res_Reservations r \<noteq> None)
       (uf service ''deploy.resources.reservations''
          ''soft-limit reservations are not honored on this runtime'')
     @ (case res_Limits r of
          None \<Rightarrow> []
        | Some l \<Rightarrow>
            appendIf (lim_Pids l \<noteq> 0)
              (uf service ''deploy.resources.limits.pids'' ''pids limit is not implemented'')
            @ appendIf (lim_Devices l \<noteq> [])
              (uf service ''deploy.resources.limits.devices'' ''device requests are not implemented'')
            @ appendIf (lim_GenericResources l \<noteq> [])
              (uf service ''deploy.resources.limits.generic_resources''
                 ''generic resources are not implemented''))"

definition deployUnsupported :: "string \<Rightarrow> deploy_config \<Rightarrow> unsupported_field list" where
  "deployUnsupported service d =
     appendIf (dc_Mode d \<noteq> [] \<and> dc_Mode d \<noteq> ''replicated'')
       (uf service ''deploy.mode'' ''only the implicit single-replica mode is supported'')
     @ appendIf (dc_Replicas d \<noteq> None \<and> dc_Replicas d \<noteq> Some 1)
       (uf service ''deploy.replicas'' ''multi-replica services are not supported'')
     @ appendIf (dc_Labels d \<noteq> [])
       (uf service ''deploy.labels'' ''use service-level labels instead'')
     @ appendIf (dc_UpdateConfig d \<noteq> None)
       (uf service ''deploy.update_config'' ''Swarm rolling-update; not implemented'')
     @ appendIf (dc_RollbackConfig d \<noteq> None)
       (uf service ''deploy.rollback_config'' ''Swarm rolling-update; not implemented'')
     @ appendIf (dc_RestartPolicy d \<noteq> None)
       (uf service ''deploy.restart_policy'' ''use the top-level restart: field instead'')
     @ appendIf (dc_EndpointMode d \<noteq> [])
       (uf service ''deploy.endpoint_mode'' ''Swarm load balancing; not implemented'')
     @ appendIf (dc_Constraints d \<noteq> [] \<or> dc_Preferences d \<noteq> [] \<or> dc_MaxReplicas d \<noteq> 0)
       (uf service ''deploy.placement'' ''Swarm scheduling; not implemented'')
     @ resourcesUnsupported service (dc_Resources d)"

definition serviceUnsupported :: "string \<Rightarrow> service_config \<Rightarrow> unsupported_field list" where
  "serviceUnsupported name svc =
     appendIf (svc_Secrets svc \<noteq> [])
       (uf name ''secrets'' ''Swarm-only construct; not implemented'')
     @ appendIf (svc_Configs svc \<noteq> [])
       (uf name ''configs'' ''Swarm-only construct; not implemented'')
     @ (case svc_Deploy svc of None \<Rightarrow> [] | Some d \<Rightarrow> deployUnsupported name d)
     @ appendIf (svc_Develop svc \<noteq> None)
       (uf name ''develop'' ''file-sync feature; out of scope for our runtime'')
     @ appendIf (svc_Links svc \<noteq> [])
       (uf name ''links'' ''legacy; replaced by network DNS in compose v2'')
     @ appendIf (case svc_Scale svc of None \<Rightarrow> False | Some n \<Rightarrow> n > 1)
       (uf name ''scale'' ''multi-replica services not supported'')
     @ unsupportedHooks name svc"

definition networkUnsupported :: "string \<Rightarrow> unsupported_field list" where
  "networkUnsupported name =
     appendIf (name \<noteq> ''default'')
       (uf [] (''networks.'' @ name) ''only the project's default network is supported'')"

definition foundFields :: "project \<Rightarrow> unsupported_field list" where
  "foundFields proj =
     appendIf (pj_Secrets proj \<noteq> [])
       (uf [] ''secrets'' ''Swarm-only construct; not implemented'')
     @ appendIf (pj_Configs proj \<noteq> [])
       (uf [] ''configs'' ''Swarm-only construct; not implemented'')
     @ concat (map (\<lambda>(name, _). networkUnsupported name) (pj_Networks proj))
     @ concat (map (\<lambda>(name, svc). serviceUnsupported name svc) (pj_Services proj))"

definition refuseUnsupportedFields :: "project \<Rightarrow> plan_error option" where
  "refuseUnsupportedFields proj =
     (if foundFields proj = [] then None
      else Some (UnsupportedFieldError (sortFields (foundFields proj))))"

section \<open>Refused conditions\<close>

definition conditionRefusal ::
  "capabilities \<Rightarrow> string \<Rightarrow> service_dependency \<Rightarrow> plan_error option" where
  "conditionRefusal caps name dep =
     (if dep_Condition dep = ''service_healthy'' then
        if \<not> cap_Healthchecks caps then
          Some (UnsupportedFeatureOnBackendError ''Healthchecks'' name
            ''depends_on.condition: service_healthy requires backend healthcheck support'')
        else None
      else if dep_Condition dep = ''service_completed_successfully'' then
        if \<not> cap_ExitCodes caps then
          Some (UnsupportedFeatureOnBackendError ''ExitCodes'' name
            ''depends_on.condition: service_completed_successfully requires backend exit-code surfacing'')
        else None
      else None)"

text \<open>The first refusal in iteration order, over the services and their dependencies.\<close>

fun firstSome :: "'a option list \<Rightarrow> 'a option" where
  "firstSome [] = None"
| "firstSome (Some x # xs) = Some x"
| "firstSome (None # xs) = firstSome xs"

lemma firstSome_None: "firstSome xs = None \<longleftrightarrow> set xs \<subseteq> {None}"
  by (induction xs rule: firstSome.induct) auto

lemma firstSome_Some: "firstSome xs = Some y \<Longrightarrow> Some y \<in> set xs"
  by (induction xs rule: firstSome.induct) auto

definition refuseUnsupportedConditions :: "capabilities \<Rightarrow> project \<Rightarrow> plan_error option" where
  "refuseUnsupportedConditions caps proj =
     firstSome (concat (map (\<lambda>(name, svc).
       map (\<lambda>(_, dep). conditionRefusal caps name dep) (svc_DependsOn svc)) (pj_Services proj)))"

definition Validate :: "capabilities \<Rightarrow> plan option \<Rightarrow> plan_error option" where
  "Validate caps p =
     (case p of
        None \<Rightarrow> Some NilPlanOrProject
      | Some pl \<Rightarrow>
          (case plan_Project pl of
             None \<Rightarrow> Some NilPlanOrProject
           | Some proj \<Rightarrow>
               (case refuseUnsupportedFields proj of
                  Some e \<Rightarrow> Some e
                | None \<Rightarrow> refuseUnsupportedConditions caps proj)))"

section \<open>Configuration hash\<close>

definition stripForHash :: "service_config \<Rightarrow> service_config" where
  "stripForHash svc = svc\<lparr>svc_Build := None, svc_PullPolicy := [], svc_Scale := None,
     svc_Deploy := None, svc_DependsOn := [], svc_Profiles := [], svc_PreStart := [],
     svc_PostStart := [], svc_PreStop := []\<rparr>"

definition ConfigHash ::
  "(string \<Rightarrow> service_config \<Rightarrow> string) \<Rightarrow> string \<Rightarrow> service_config \<Rightarrow> string" where
  "ConfigHash H imageID svc = H imageID (stripForHash svc)"

section \<open>What is accepted\<close>

definition deploySupported :: "deploy_config \<Rightarrow> bool" where
  "deploySupported d \<longleftrightarrow>
     dc_Mode d \<in> {[], ''replicated''} \<and> dc_Replicas d \<in> {None, Some 1} \<and> dc_Labels d = []
     \<and> dc_UpdateConfig d = None \<and> dc_RollbackConfig d = None \<and> dc_RestartPolicy d = None
     \<and> dc_EndpointMode d = [] \<and> dc_Constraints d = [] \<and> dc_Preferences d = []
     \<and> dc_MaxReplicas d = 0 \<and> res_Reservations (dc_Resources d) = None
     \<and> (case res_Limits (dc_Resources d) of
          None \<Rightarrow> True
        | Some l \<Rightarrow> lim_Pids l = 0 \<and> lim_Devices l = [] \<and> lim_GenericResources l = [])"

definition conditionSupported :: "capabilities \<Rightarrow> service_dependency \<Rightarrow> bool" where
  "conditionSupported caps dep \<longleftrightarrow>
     (dep_Condition dep = ''service_healthy'' \<longrightarrow> cap_Healthchecks caps)
     \<and> (dep_Condition dep = ''service_completed_successfully'' \<longrightarrow> cap_ExitCodes caps)"

definition serviceSupported :: "capabilities \<Rightarrow> service_config \<Rightarrow> bool" where
  "serviceSupported caps svc \<longleftrightarrow>
     svc_Secrets svc = [] \<and> svc_Configs svc = [] \<and> svc_Develop svc = None \<and> svc_Links svc = []
     \<and> (case svc_Scale svc of None \<Rightarrow> True | Some n \<Rightarrow> n \<le> 1)
     \<and> svc_PreStart svc = [] \<and> svc_PostStart svc = [] \<and> svc_PreStop svc = []
     \<and> (case svc_Deploy svc of None \<Rightarrow> True | Some d \<Rightarrow> deploySupported d)
     \<and> (\<forall>dep \<in> snd ` set (svc_DependsOn svc). conditionSupported caps dep)"

definition projectSupported :: "capabilities \<Rightarrow> project \<Rightarrow> bool" where
  "projectSupported caps proj \<longleftrightarrow>
     pj_Secrets proj = [] \<and> pj_Configs proj = [] \<and> fst ` set (pj_Networks proj) \<subseteq> {''default''}
     \<and> (\<forall>svc \<in> snd ` set (pj_Services proj). serviceSupported caps svc)"

lemma deployUnsupported_Nil: "deployUnsupported name d = [] \<longleftrightarrow> deploySupported d"
  by (auto simp: deployUnsupported_def deploySupported_def resourcesUnsupported_def
      split: option.splits)

lemma unsupportedHooks_Nil:
  "unsupportedHooks name svc = [] \<longleftrightarrow>
     svc_PreStart svc = [] \<and> svc_PostStart svc = [] \<and> svc_PreStop svc = []"
  by (auto simp: unsupportedHooks_def)

lemma conditionRefusal_None: "conditionRefusal caps name dep = None \<longleftrightarrow> conditionSupported caps dep"
  by (auto simp: conditionRefusal_def conditionSupported_def)

lemma serviceSupported_iff:
  "serviceSupported caps svc \<longleftrightarrow> serviceUnsupported name svc = []
     \<and> (\<forall>dep \<in> snd ` set (svc_DependsOn svc). conditionRefusal caps name dep = None)"
  by (auto simp: serviceSupported_def serviceUnsupported_def conditionRefusal_None
      unsupportedHooks_Nil deployUnsupported_Nil split: option.splits)

lemma refuseUnsupportedFields_None:
  "refuseUnsupportedFields proj = None \<longleftrightarrow>
     pj_Secrets proj = [] \<and> pj_Configs proj = [] \<and> fst ` set (pj_Networks proj) \<subseteq> {''default''}
     \<and> (\<forall>(name, svc) \<in> set (pj_Services proj). serviceUnsupported name svc = [])"
  by (auto simp: refuseUnsupportedFields_def foundFields_def networkUnsupported_def)

lemma refuseUnsupportedConditions_None:
  "refuseUnsupportedConditions caps proj = None \<longleftrightarrow>
     (\<forall>(name, svc) \<in> set (pj_Services proj).
        \<forall>dep \<in> snd ` set (svc_DependsOn svc). conditionRefusal caps name dep = None)"
  unfolding refuseUnsupportedConditions_def firstSome_None
  by (fastforce simp: image_subset_iff)

section \<open>The listing of refused fields\<close>

text \<open>The reason is a function of the field, so a (service, field) pair names one entry.\<close>

definition reasonOf :: "string \<Rightarrow> string" where
  "reasonOf field =
     (if hasPrefix field ''networks.'' then ''only the project's default network is supported''
      else mget
       [(''secrets'', ''Swarm-only construct; not implemented''),
        (''configs'', ''Swarm-only construct; not implemented''),
        (''develop'', ''file-sync feature; out of scope for our runtime''),
        (''links'', ''legacy; replaced by network DNS in compose v2''),
        (''scale'', ''multi-replica services not supported''),
        (''pre_start'', ''lifecycle hooks are not executed by the native orchestrator''),
        (''post_start'', ''lifecycle hooks are not executed by the native orchestrator''),
        (''pre_stop'', ''lifecycle hooks are not executed by the native orchestrator''),
        (''deploy.mode'', ''only the implicit single-replica mode is supported''),
        (''deploy.replicas'', ''multi-replica services are not supported''),
        (''deploy.labels'', ''use service-level labels instead''),
        (''deploy.update_config'', ''Swarm rolling-update; not implemented''),
        (''deploy.rollback_config'', ''Swarm rolling-update; not implemented''),
        (''deploy.restart_policy'', ''use the top-level restart: field instead''),
        (''deploy.endpoint_mode'', ''Swarm load balancing; not implemented''),
        (''deploy.placement'', ''Swarm scheduling; not implemented''),
        (''deploy.resources.reservations'',
           ''soft-limit reservations are not honored on this runtime''),
        (''deploy.resources.limits.pids'', ''pids limit is not implemented''),
        (''deploy.resources.limits.devices'', ''device requests are not implemented''),
        (''deploy.resources.limits.generic_resources'', ''generic resources are not implemented'')]
        field)"

lemma uf_sel [simp]:
  "uf_Service (uf s f r) = s" "uf_Field (uf s f r) = f" "uf_Reason (uf s f r) = r"
  by (simp_all add: uf_def)

lemma reasonOf_simps:
  "reasonOf ''secrets'' = ''Swarm-only construct; not implemented''"
  "reasonOf ''configs'' = ''Swarm-only construct; not implemented''"
  "reasonOf ''develop'' = ''file-sync feature; out of scope for our runtime''"
  "reasonOf ''links'' = ''legacy; replaced by network DNS in compose v2''"
  "reasonOf ''scale'' = ''multi-replica services not supported''"
  "reasonOf ''pre_start'' = ''lifecycle hooks are not executed by the native orchestrator''"
  "reasonOf ''post_start'' = ''lifecycle hooks are not executed by the native orchestrator''"
  "reasonOf ''pre_stop'' = ''lifecycle hooks are not executed by the native orchestrator''"
  "reasonOf ''deploy.mode'' = ''only the implicit single-replica mode is supported''"
  "reasonOf ''deploy.replicas'' = ''multi-replica services are not supported''"
  "reasonOf ''deploy.labels'' = ''use service-level labels instead''"
  "reasonOf ''deploy.update_config'' = ''Swarm rolling-update; not implemented''"
  "reasonOf ''deploy.rollback_config'' = ''Swarm rolling-update; not implemented''"
  "reasonOf ''deploy.restart_policy'' = ''use the top-level restart: field instead''"
  "reasonOf ''deploy.endpoint_mode'' = ''Swarm load balancing; not implemented''"
  "reasonOf ''deploy.placement'' = ''Swarm scheduling; not implemented''"
  "reasonOf ''deploy.resources.reservations'' = ''soft-limit reservations are not honored on this runtime''"
  "reasonOf ''deploy.resources.limits.pids'' = ''pids limit is not implemented''"
  "reasonOf ''deploy.resources.limits.devices'' = ''device requests are not implemented''"
  "reasonOf ''deploy.resources.limits.generic_resources'' = ''generic resources are not implemented''"
  by code_simp+

lemma reasonOf_network:
  "reasonOf (''networks.'' @ name) = ''only the project's default network is supported''"
  unfolding reasonOf_def by (simp only: hasPrefix_append if_True)

definition reasoned :: "unsupported_field \<Rightarrow> bool" where
  "reasoned f \<longleftrightarrow> uf_Reason f = reasonOf (uf_Field f)"

lemma list_all_appendIf: "list_all P (appendIf b x) \<longleftrightarrow> (b \<longrightarrow> P x)"
  by (simp add: appendIf_def)

lemma reasoned_uf: "reasoned (uf s f r) \<longleftrightarrow> r = reasonOf f"
  by (simp add: reasoned_def)

lemma resources_reason: "list_all reasoned (resourcesUnsupported name r)"
  unfolding resourcesUnsupported_def
  by (simp add: list_all_appendIf reasoned_uf reasonOf_simps split: option.split)

lemma deploy_reason: "list_all reasoned (deployUnsupported name d)"
  unfolding deployUnsupported_def
  by (simp add: list_all_appendIf reasoned_uf reasonOf_simps resources_reason)

lemma hooks_reason: "list_all reasoned (unsupportedHooks name svc)"
  unfolding unsupportedHooks_def by (simp add: list_all_appendIf reasoned_uf reasonOf_simps)

lemma service_reason: "list_all reasoned (serviceUnsupported name svc)"
  unfolding serviceUnsupported_def
  by (simp add: list_all_appendIf reasoned_uf reasonOf_simps deploy_reason hooks_reason
      split: option.split)

lemma network_reason: "list_all reasoned (networkUnsupported name)"
  unfolding networkUnsupported_def by (simp only: list_all_appendIf reasoned_uf reasonOf_network simp_thms)

lemma list_all_concat_map: "(\<And>x. list_all P (f x)) \<Longrightarrow> list_all P (concat (map f xs))"
  by (induction xs) simp_all

lemma found_reason: "f \<in> set (foundFields proj) \<Longrightarrow> reasoned f"
proof -
  have "list_all reasoned (foundFields proj)"
    unfolding foundFields_def
    by (simp add: list_all_appendIf reasoned_uf reasonOf_simps list_all_concat_map
        network_reason service_reason split: prod.split)
  then show "f \<in> set (foundFields proj) \<Longrightarrow> reasoned f" by (simp add: list_all_iff)
qed

lemma fieldKey_inj: "inj_on fieldKey (set (foundFields proj))"
  by (rule inj_onI) (auto simp: fieldKey_def reasoned_def dest!: found_reason)

lemma sortFields_cong:
  "mset (foundFields p) = mset (foundFields q) \<Longrightarrow> sortFields (foundFields p) = sortFields (foundFields q)"
  unfolding sortFields_def
  by (rule sort_key_inj_key_eq) (simp_all add: fieldKey_inj)

lemma mset_concat_map_cong: "mset xs = mset ys \<Longrightarrow> mset (concat (map f xs)) = mset (concat (map f ys))"
  by (simp add: mset_concat) (metis mset_map image_mset.comp sum_mset_sum_list mset_map)

lemma foundFields_cong:
  assumes "mset (pj_Services p) = mset (pj_Services q)" "mset (pj_Networks p) = mset (pj_Networks q)"
    and "pj_Secrets p = [] \<longleftrightarrow> pj_Secrets q = []" "pj_Configs p = [] \<longleftrightarrow> pj_Configs q = []"
  shows "mset (foundFields p) = mset (foundFields q)"
  unfolding foundFields_def mset_append
  using assms(3,4) mset_concat_map_cong [OF assms(1), of "\<lambda>(name, svc). serviceUnsupported name svc"]
    mset_concat_map_cong [OF assms(2), of "\<lambda>(name, _). networkUnsupported name"] by simp

section \<open>Properties\<close>

text \<open>
  C5. \<^verbatim>\<open>Plan.Validate\<close> accepts a plan exactly when it has a project inside the supported subset:
  no secrets, configs or extra networks, every service free of the refused fields (the allowed
  part of \<^verbatim>\<open>deploy\<close> being the memory and CPU limits), and no \<^verbatim>\<open>depends_on\<close> condition that needs a
  capability the backend lacks.
\<close>

theorem Validate_accepts_iff:
  "Validate caps (Some pl) = None \<longleftrightarrow>
     (\<exists>proj. plan_Project pl = Some proj \<and> projectSupported caps proj)"
proof (cases "plan_Project pl")
  case None
  then show ?thesis by (simp add: Validate_def)
next
  case (Some proj)
  then have "Validate caps (Some pl) = None \<longleftrightarrow>
      refuseUnsupportedFields proj = None \<and> refuseUnsupportedConditions caps proj = None"
    by (auto simp: Validate_def split: option.splits)
  also have "\<dots> \<longleftrightarrow> projectSupported caps proj"
    unfolding refuseUnsupportedFields_None refuseUnsupportedConditions_None projectSupported_def
    using serviceSupported_iff [of caps] by fastforce
  finally show ?thesis using Some by simp
qed

text \<open>
  The refusal names every offending field of the project at once: the list in the
  \<^verbatim>\<open>UnsupportedFieldError\<close> has the same entries as the scan found, is sorted by service and field,
  takes precedence over a capability refusal, and is the same whatever the iteration order of the
  service and network maps.
\<close>

theorem refuseUnsupportedFields_complete:
  assumes "plan_Project pl = Some p" "foundFields p \<noteq> []"
    and "mset (pj_Services q) = mset (pj_Services p)" "mset (pj_Networks q) = mset (pj_Networks p)"
    and "pj_Secrets q = pj_Secrets p" "pj_Configs q = pj_Configs p"
  shows "\<exists>fs. Validate caps (Some pl) = Some (UnsupportedFieldError fs)
    \<and> mset fs = mset (foundFields p) \<and> sorted (map fieldKey fs)
    \<and> Validate caps (Some (pl\<lparr>plan_Project := Some q\<rparr>)) = Some (UnsupportedFieldError fs)"
proof -
  have m: "mset (foundFields q) = mset (foundFields p)" using assms by (intro foundFields_cong) auto
  then have "sortFields (foundFields q) = sortFields (foundFields p)" by (rule sortFields_cong)
  moreover have "foundFields q \<noteq> []" using m assms(2) by (metis mset_zero_iff)
  ultimately show ?thesis using assms(1,2)
    by (intro exI [of _ "sortFields (foundFields p)"])
      (simp add: Validate_def refuseUnsupportedFields_def sortFields_def)
qed

definition demo_swarm :: project where
  "demo_swarm = demo_project\<lparr>pj_Secrets := [(''tok'', [])], pj_Networks := [(''default'', []), (''back'', [])]\<rparr>"

definition demo_swarm_plan :: plan where
  "demo_swarm_plan = \<lparr>plan_Project = Some demo_swarm, plan_ProjectName = ''dc'', plan_Services = [],
     plan_Labels = [], plan_AdoptExisting = False\<rparr>"

definition no_caps :: capabilities where
  "no_caps = \<lparr>cap_Healthchecks = False, cap_ExitCodes = False, cap_ServiceNameDNS = True\<rparr>"

theorem refuseUnsupportedFields_complete_witness:
  "\<exists>fs. Validate no_caps (Some demo_swarm_plan) = Some (UnsupportedFieldError fs) \<and> length fs = 2"
proof -
  have len: "length (foundFields demo_swarm) = 2"
    by (simp add: foundFields_def demo_swarm_def demo_project_def blank_project_def
        blank_service_def networkUnsupported_def serviceUnsupported_def unsupportedHooks_def
        appendIf_def)
  then have ne: "foundFields demo_swarm \<noteq> []" by auto
  have pl: "plan_Project demo_swarm_plan = Some demo_swarm" by (simp add: demo_swarm_plan_def)
  obtain fs where "Validate no_caps (Some demo_swarm_plan) = Some (UnsupportedFieldError fs)"
      "mset fs = mset (foundFields demo_swarm)"
    using refuseUnsupportedFields_complete [OF pl ne refl refl refl refl, of no_caps] by auto
  then show ?thesis using len mset_eq_length by metis
qed

end
