(* ===== verification/Contracts.thy ===== *)
theory Contracts
  imports Prelude
begin

text \<open>
  Two small contracts several components of the repository implement independently: the overlay
  of one string map on another (environments, labels) and the ordered union of two string slices
  (capabilities, security options). Each is stated once with the facts its clients need.
\<close>

section \<open>Overlay of maps\<close>

locale overlay =
  fixes merge :: "'v gomap \<Rightarrow> 'v gomap \<Rightarrow> 'v gomap"
  assumes merge_lookup:
      "wf_map base \<Longrightarrow> wf_map over \<Longrightarrow> map_of (merge base over) = map_of base ++ map_of over"
    and merge_wf: "wf_map base \<Longrightarrow> wf_map over \<Longrightarrow> wf_map (merge base over)"
begin

lemma over_wins:
  "wf_map base \<Longrightarrow> wf_map over \<Longrightarrow> map_of over k = Some v \<Longrightarrow> map_of (merge base over) k = Some v"
  by (simp add: merge_lookup)

lemma base_survives:
  "wf_map base \<Longrightarrow> wf_map over \<Longrightarrow> map_of over k = None \<Longrightarrow>
     map_of (merge base over) k = map_of base k"
  by (simp add: merge_lookup map_add_def)

lemma merge_keys:
  assumes "wf_map base" "wf_map over"
  shows "fst ` set (merge base over) = fst ` set base \<union> fst ` set over"
proof -
  have "dom (map_of (merge base over)) = dom (map_of base) \<union> dom (map_of over)"
    using assms by (simp add: merge_lookup Un_commute)
  then show ?thesis by (simp add: dom_map_of_conv_image_fst)
qed

text \<open>Applying the same overlay twice reads like applying it once.\<close>

lemma merge_idem:
  "wf_map base \<Longrightarrow> wf_map over \<Longrightarrow>
     map_of (merge (merge base over) over) = map_of (merge base over)"
  by (simp add: merge_lookup merge_wf map_add_def fun_eq_iff split: option.splits)

lemma merge_assoc:
  "wf_map a \<Longrightarrow> wf_map b \<Longrightarrow> wf_map c \<Longrightarrow>
     map_of (merge (merge a b) c) = map_of (merge a (merge b c))"
  by (simp add: merge_lookup merge_wf)

end

interpretation range_assign: overlay mputall
  by unfold_locales simp_all

section \<open>Ordered union of slices\<close>

locale string_union =
  fixes union_op :: "string list \<Rightarrow> string list \<Rightarrow> string list"
  assumes union_set: "set (union_op a b) = set a \<union> set b"
    and union_distinct: "distinct a \<Longrightarrow> distinct (union_op a b)"
    and union_prefix: "distinct a \<Longrightarrow> prefix a (union_op a b)"
begin

text \<open>Nothing new to add: the slice is unchanged.\<close>

lemma union_absorb:
  assumes "distinct a" "set b \<subseteq> set a"
  shows "union_op a b = a"
proof -
  obtain c where c: "union_op a b = a @ c" using union_prefix [OF assms(1)] by (auto elim: prefixE)
  have "distinct (a @ c)" using union_distinct [OF assms(1)] c by metis
  moreover have "set (a @ c) = set a" using union_set [of a b] assms(2) c by auto
  ultimately have "c = []" by (cases c) auto
  with c show ?thesis by simp
qed

lemma union_idem: "distinct a \<Longrightarrow> union_op (union_op a b) b = union_op a b"
  by (rule union_absorb) (simp_all add: union_distinct union_set)

lemma union_monotone: "set a \<subseteq> set (union_op a b)" "set b \<subseteq> set (union_op a b)"
  by (simp_all add: union_set)

end

end
