(* ===== verification/Compose_Override.thy ===== *)
theory Compose_Override
  imports Compose_Graph Contracts
begin

text \<open>
  \<^verbatim>\<open>compose/override.go\<close> and \<^verbatim>\<open>compose/apply_override.go\<close>: what the engine adds to the primary
  service, once as an in-memory edit of the loaded project (the native orchestrator) and once as
  a YAML document merged by \<^verbatim>\<open>docker compose\<close> (the shell-out path). The YAML library is the
  parameter \<open>marshal\<close> of \<open>WriteRunOverride\<close>; the file written is the string returned.
\<close>

section \<open>Data\<close>

record bind_mount =
  bm_Source :: string
  bm_Target :: string
  bm_ReadOnly :: bool

record omount =
  om_Type :: string
  om_Source :: string
  om_Target :: string
  om_ReadOnly :: bool
  om_NoCopy :: bool
  om_TmpfsSize :: int
  om_TmpfsMode :: nat

record override =
  ov_Service :: string
  ov_Image :: string
  ov_ExtraBindMounts :: "bind_mount list"
  ov_ExtraMounts :: "omount list"
  ov_ExtraEnvironment :: "string gomap"
  ov_Labels :: "string gomap"
  ov_Privileged :: "bool option"
  ov_Init :: "bool option"
  ov_CapAdd :: "string list"
  ov_SecurityOpt :: "string list"
  ov_Entrypoints :: "string list"
  ov_OriginalEntrypoint :: "string list"

datatype override_error =
    NilProject
  | ServiceRequired
  | ImageRequired
  | ServiceNotFound string
  | MountNoTarget string string
  | TmpfsWithSource string string
  | MountUnsupportedType string string

section \<open>Mounts\<close>

fun validateMounts :: "omount list \<Rightarrow> override_error option" where
  "validateMounts [] = None"
| "validateMounts (m # ms) =
     (if om_Target m = [] then Some (MountNoTarget (om_Type m) (om_Source m))
      else if om_Type m = MountVolume then validateMounts ms
      else if om_Type m = MountTmpfs then
        (if om_Source m \<noteq> [] then Some (TmpfsWithSource (om_Target m) (om_Source m))
         else validateMounts ms)
      else Some (MountUnsupportedType (om_Target m) (om_Type m)))"

definition serviceVolume :: "omount \<Rightarrow> service_volume" where
  "serviceVolume m =
     \<lparr>sv_Type = om_Type m, sv_Source = om_Source m, sv_Target = om_Target m,
      sv_ReadOnly = om_ReadOnly m,
      sv_Volume = (if om_Type m = MountVolume \<and> om_NoCopy m then Some \<lparr>vv_NoCopy = True\<rparr> else None),
      sv_Tmpfs = (if om_Type m = MountTmpfs \<and> (om_TmpfsSize m \<noteq> 0 \<or> om_TmpfsMode m \<noteq> 0)
                  then Some \<lparr>vt_Size = om_TmpfsSize m, vt_Mode = om_TmpfsMode m\<rparr> else None)\<rparr>"

definition namedVolume :: "omount \<Rightarrow> bool" where
  "namedVolume m \<longleftrightarrow> om_Type m = MountVolume \<and> om_Source m \<noteq> []"

definition bindVolume :: "bind_mount \<Rightarrow> service_volume" where
  "bindVolume b = \<lparr>sv_Type = MountBind, sv_Source = bm_Source b, sv_Target = bm_Target b,
     sv_ReadOnly = bm_ReadOnly b, sv_Volume = None, sv_Tmpfs = None\<rparr>"

section \<open>Slices and the entrypoint wrapper\<close>

definition unionStrings :: "string list \<Rightarrow> string list \<Rightarrow> string list" where
  "unionStrings existing add =
     (if add = [] then existing
      else dedupFrom {} existing @ dedupFrom (set existing) add)"

definition nl :: string where
  "nl = [CHR 0x0A]"

definition escapeDollars :: "string \<Rightarrow> string" where
  "escapeDollars s = concat (map (\<lambda>c. if c = CHR ''$'' then ''$$'' else [c]) s)"

definition RenderEntrypointWrapper :: "string list \<Rightarrow> string list \<Rightarrow> bool \<Rightarrow> string list" where
  "RenderEntrypointWrapper entrypoints original escapeDollar =
     (let script = ''echo Container started'' @ nl
            @ ''trap '' @ [CHR 0x22] @ ''exit 0'' @ [CHR 0x22] @ '' 15'' @ nl
            @ joinWith nl entrypoints @ nl
            @ ''exec '' @ [CHR 0x22] @ ''$@'' @ [CHR 0x22] @ nl
            @ ''while sleep 1 & wait $!; do :; done'';
          arr = [''/bin/sh'', ''-c'', script, ''-''] @ original
      in if escapeDollar then map escapeDollars arr else arr)"

section \<open>In-memory overrides\<close>

definition ApplyBuildOverride ::
  "project option \<Rightarrow> string \<Rightarrow> string \<Rightarrow> override_error + project" where
  "ApplyBuildOverride project service imageRef =
     (case project of
        None \<Rightarrow> Inl NilProject
      | Some p \<Rightarrow>
          if service = [] then Inl ServiceRequired
          else if imageRef = [] then Inl ImageRequired
          else case map_of (pj_Services p) service of
                 None \<Rightarrow> Inl (ServiceNotFound service)
               | Some svc \<Rightarrow>
                   Inr (p\<lparr>pj_Services :=
                     mput service (svc\<lparr>svc_Image := imageRef, svc_Build := None\<rparr>) (pj_Services p)\<rparr>))"

text \<open>
  The two loops over the mounts. The state is the service's volume list, the targets seen and,
  for the second, the project's declared volumes.
\<close>

fun addBinds ::
  "bind_mount list \<Rightarrow> service_volume list \<Rightarrow> string set \<Rightarrow> service_volume list \<times> string set" where
  "addBinds [] vols targets = (vols, targets)"
| "addBinds (b # bs) vols targets =
     (if bm_Target b \<in> targets then addBinds bs vols targets
      else addBinds bs (vols @ [bindVolume b]) (insert (bm_Target b) targets))"

fun addMounts ::
  "string \<Rightarrow> omount list \<Rightarrow> service_volume list \<Rightarrow> string set \<Rightarrow> string gomap \<Rightarrow>
     service_volume list \<times> string gomap" where
  "addMounts pname [] vols targets declared = (vols, declared)"
| "addMounts pname (m # ms) vols targets declared =
     (if om_Target m \<in> targets then addMounts pname ms vols targets declared
      else
        addMounts pname ms (vols @ [serviceVolume m]) (insert (om_Target m) targets)
          (if \<not> namedVolume m then declared
           else if map_of declared (om_Source m) \<noteq> None then declared
           else mput (om_Source m)
                  (if pname \<noteq> [] then pname @ ''_'' @ om_Source m else []) declared))"

definition overrideService :: "override \<Rightarrow> service_volume list \<Rightarrow> service_config \<Rightarrow> service_config" where
  "overrideService ov vols svc =
     svc\<lparr>svc_Volumes := vols,
         svc_Environment := mputall (svc_Environment svc)
           (map (\<lambda>(k, v). (k, Some v)) (ov_ExtraEnvironment ov)),
         svc_Labels := mputall (svc_Labels svc) (ov_Labels ov),
         svc_Privileged := (case ov_Privileged ov of None \<Rightarrow> svc_Privileged svc | Some b \<Rightarrow> b),
         svc_Init := (case ov_Init ov of None \<Rightarrow> svc_Init svc | Some b \<Rightarrow> Some b),
         svc_CapAdd := unionStrings (svc_CapAdd svc) (ov_CapAdd ov),
         svc_SecurityOpt := unionStrings (svc_SecurityOpt svc) (ov_SecurityOpt ov),
         svc_Entrypoint :=
           (if ov_Entrypoints ov \<noteq> []
            then RenderEntrypointWrapper (ov_Entrypoints ov) (ov_OriginalEntrypoint ov) False
            else svc_Entrypoint svc)\<rparr>"

definition ApplyRunOverride ::
  "project option \<Rightarrow> string \<Rightarrow> override \<Rightarrow> override_error + project" where
  "ApplyRunOverride project primaryService ov =
     (case project of
        None \<Rightarrow> Inl NilProject
      | Some p \<Rightarrow>
          if primaryService = [] then Inl ServiceRequired
          else case map_of (pj_Services p) primaryService of
                 None \<Rightarrow> Inl (ServiceNotFound primaryService)
               | Some svc \<Rightarrow>
                   (case validateMounts (ov_ExtraMounts ov) of
                      Some e \<Rightarrow> Inl e
                    | None \<Rightarrow>
                        let (vols1, targets) = addBinds (ov_ExtraBindMounts ov) (svc_Volumes svc)
                              (sv_Target ` set (svc_Volumes svc));
                            (vols2, declared) = addMounts (pj_Name p) (ov_ExtraMounts ov) vols1
                              targets (pj_Volumes p)
                        in Inr (p\<lparr>pj_Volumes := declared,
                              pj_Services := mput primaryService (overrideService ov vols2 svc)
                                               (pj_Services p)\<rparr>)))"

section \<open>Dropped host ports\<close>

record dropped_host_port =
  dh_Service :: string
  dh_HostIP :: string
  dh_Published :: string
  dh_Target :: int
  dh_Protocol :: string

definition DroppedHostPort_String :: "dropped_host_port \<Rightarrow> string" where
  "DroppedHostPort_String d =
     (let proto = (if dh_Protocol d = [] then ''tcp'' else dh_Protocol d);
          out1 = itoa (dh_Target d) @ ''/'' @ proto;
          out2 = (if dh_Published d \<noteq> [] then dh_Published d @ '':'' @ out1 else out1)
      in if dh_HostIP d \<noteq> [] then dh_HostIP d @ '':'' @ out2 else out2)"

definition droppedOf :: "string \<Rightarrow> service_port \<Rightarrow> dropped_host_port" where
  "droppedOf name p = \<lparr>dh_Service = name, dh_HostIP = sp_HostIP p, dh_Published = sp_Published p,
     dh_Target = sp_Target p, dh_Protocol = sp_Protocol p\<rparr>"

fun dropPorts ::
  "string list \<Rightarrow> service_config gomap \<Rightarrow> service_config gomap \<times> dropped_host_port list" where
  "dropPorts [] services = (services, [])"
| "dropPorts (name # names) services =
     (case map_of services name of
        None \<Rightarrow> dropPorts names services
      | Some svc \<Rightarrow>
          if svc_Ports svc = [] then dropPorts names services
          else let (services', dropped) = dropPorts names (mput name (svc\<lparr>svc_Ports := []\<rparr>) services)
               in (services', map (droppedOf name) (svc_Ports svc) @ dropped))"

definition ApplyDropHostPorts :: "project option \<Rightarrow> project option \<times> dropped_host_port list" where
  "ApplyDropHostPorts project =
     (case project of
        None \<Rightarrow> (None, [])
      | Some p \<Rightarrow>
          let (services, dropped) = dropPorts (sortedKeys (pj_Services p)) (pj_Services p)
          in (Some (p\<lparr>pj_Services := services\<rparr>), dropped))"

section \<open>The YAML path\<close>

datatype yaml = YStr string | YBool bool | YInt int | YList "yaml list" | YMap "(string \<times> yaml) list"

definition serializeServiceVolume :: "service_volume \<Rightarrow> yaml" where
  "serializeServiceVolume v =
     YMap ([(''type'', YStr (sv_Type v))]
       @ (if sv_Source v = [] then [] else [(''source'', YStr (sv_Source v))])
       @ [(''target'', YStr (sv_Target v))]
       @ (if sv_ReadOnly v then [(''read_only'', YBool True)] else [])
       @ (case sv_Volume v of
            None \<Rightarrow> []
          | Some vv \<Rightarrow> if vv_NoCopy vv then [(''volume'', YMap [(''nocopy'', YBool True)])] else [])
       @ (case sv_Tmpfs v of
            None \<Rightarrow> []
          | Some t \<Rightarrow>
              let tmpfs = (if vt_Size t \<noteq> 0 then [(''size'', YInt (vt_Size t))] else [])
                    @ (if vt_Mode t \<noteq> 0 then [(''mode'', YInt (int (vt_Mode t)))] else [])
              in if tmpfs \<noteq> [] then [(''tmpfs'', YMap tmpfs)] else []))"

definition serializeBind :: "bind_mount \<Rightarrow> yaml" where
  "serializeBind b = YMap [(''type'', YStr ''bind''), (''source'', YStr (bm_Source b)),
     (''target'', YStr (bm_Target b)), (''read_only'', YBool (bm_ReadOnly b))]"

fun mergeExtra ::
  "omount list \<Rightarrow> yaml list \<Rightarrow> string set \<Rightarrow> string list \<Rightarrow> yaml list \<times> string list" where
  "mergeExtra [] out targets named = (out, named)"
| "mergeExtra (m # ms) out targets named =
     (if om_Target m \<in> targets then mergeExtra ms out targets named
      else mergeExtra ms (out @ [serializeServiceVolume (serviceVolume m)])
             (insert (om_Target m) targets)
             (if namedVolume m \<and> om_Source m \<notin> set named then named @ [om_Source m] else named))"

definition mergedVolumes :: "project option \<Rightarrow> override \<Rightarrow> yaml list \<times> string list" where
  "mergedVolumes project ov =
     (let existing = (case project of
            None \<Rightarrow> []
          | Some p \<Rightarrow> (case map_of (pj_Services p) (ov_Service ov) of
                        None \<Rightarrow> [] | Some svc \<Rightarrow> svc_Volumes svc))
      in mergeExtra (ov_ExtraMounts ov)
           (map serializeServiceVolume existing @ map serializeBind (ov_ExtraBindMounts ov))
           (sv_Target ` set existing \<union> bm_Target ` set (ov_ExtraBindMounts ov)) [])"

definition buildServiceOverride :: "yaml list \<Rightarrow> override \<Rightarrow> yaml" where
  "buildServiceOverride volumes ov =
     YMap ((if volumes \<noteq> [] then [(''volumes'', YList volumes)] else [])
       @ (if ov_ExtraEnvironment ov \<noteq> [] then
            [(''environment'', YMap (map (\<lambda>k. (k, YStr (mget (ov_ExtraEnvironment ov) k)))
                (sortedKeys (ov_ExtraEnvironment ov))))] else [])
       @ (if ov_Labels ov \<noteq> [] then
            [(''labels'', YMap (map (\<lambda>k. (k, YStr (mget (ov_Labels ov) k)))
                (sortedKeys (ov_Labels ov))))] else [])
       @ (case ov_Privileged ov of None \<Rightarrow> [] | Some b \<Rightarrow> [(''privileged'', YBool b)])
       @ (case ov_Init ov of None \<Rightarrow> [] | Some b \<Rightarrow> [(''init'', YBool b)])
       @ (if ov_CapAdd ov \<noteq> [] then [(''cap_add'', YList (map YStr (ov_CapAdd ov)))] else [])
       @ (if ov_SecurityOpt ov \<noteq> [] then
            [(''security_opt'', YList (map YStr (ov_SecurityOpt ov)))] else [])
       @ (if ov_Entrypoints ov \<noteq> [] then
            [(''entrypoint'', YList (map YStr
                (RenderEntrypointWrapper (ov_Entrypoints ov) (ov_OriginalEntrypoint ov) True)))]
          else []))"

definition runOverrideDoc :: "project option \<Rightarrow> override \<Rightarrow> yaml list \<Rightarrow> string list \<Rightarrow> yaml" where
  "runOverrideDoc project ov merged named =
     (let emit = (case project of
            None \<Rightarrow> ov
          | Some p \<Rightarrow> (case map_of (pj_Services p) (ov_Service ov) of
                None \<Rightarrow> ov
              | Some svc \<Rightarrow> ov\<lparr>ov_CapAdd := unionStrings (svc_CapAdd svc) (ov_CapAdd ov),
                               ov_SecurityOpt := unionStrings (svc_SecurityOpt svc) (ov_SecurityOpt ov)\<rparr>));
          undeclared = filter (\<lambda>name. case project of
              None \<Rightarrow> True | Some p \<Rightarrow> map_of (pj_Volumes p) name = None) named
      in YMap ([(''services'', YMap [(ov_Service ov, buildServiceOverride merged emit)])]
           @ (if undeclared \<noteq> [] then
                [(''volumes'', YMap (map (\<lambda>name. (name, YMap [])) undeclared))] else [])))"

text \<open>The first line of a generated file; the three bytes are the em dash of the source.\<close>

definition generatedHeader :: string where
  "generatedHeader = ''# Generated by devcontainer-go '' @ [CHR 0xE2, CHR 0x80, CHR 0x94]
     @ '' do not edit by hand.'' @ nl"

text \<open>The body \<^verbatim>\<open>writeFile\<close> writes: it ends in a newline.\<close>

definition fileBody :: "string \<Rightarrow> string" where
  "fileBody body = (if body \<noteq> [] \<and> last body = CHR 0x0A then body else body @ nl)"

text \<open>
  \<^verbatim>\<open>yamlScalar\<close>: quote when a byte is outside the plain set.
\<close>

definition plainYaml :: "char \<Rightarrow> bool" where
  "plainYaml c \<longleftrightarrow> (let n = of_char c :: nat in
     97 \<le> n \<and> n \<le> 122 \<or> 65 \<le> n \<and> n \<le> 90 \<or> 48 \<le> n \<and> n \<le> 57) \<or> c \<in> set ''-_./:@''"

definition yamlScalar :: "string \<Rightarrow> string" where
  "yamlScalar s = (if list_all plainYaml s then s else goQuote s)"

definition WriteBuildOverride :: "override \<Rightarrow> override_error + string" where
  "WriteBuildOverride ov =
     (if ov_Service ov = [] then Inl ServiceRequired
      else if ov_Image ov = [] then Inl ImageRequired
      else Inr (fileBody (generatedHeader
        @ ''# Pins the primary service's image to a tag built by the engine and'' @ nl
        @ ''# clears any base build: directive (mutually exclusive with image:).'' @ nl
        @ ''services:'' @ nl
        @ ''  '' @ yamlScalar (ov_Service ov) @ '':'' @ nl
        @ ''    image: '' @ yamlScalar (ov_Image ov) @ nl
        @ ''    build: !reset null'' @ nl)))"

definition WriteRunOverride ::
  "(yaml \<Rightarrow> string) \<Rightarrow> project option \<Rightarrow> override \<Rightarrow> override_error + string" where
  "WriteRunOverride marshal project ov =
     (if ov_Service ov = [] then Inl ServiceRequired
      else case validateMounts (ov_ExtraMounts ov) of
             Some e \<Rightarrow> Inl e
           | None \<Rightarrow>
               let (merged, named) = mergedVolumes project ov
               in Inr (fileBody (generatedHeader
                       @ marshal (runOverrideDoc project ov merged named))))"

section \<open>Unions\<close>

interpretation compose_union: string_union unionStrings
proof unfold_locales
  fix a b :: "string list"
  show "set (unionStrings a b) = set a \<union> set b"
    by (simp add: unionStrings_def dedupFrom_props)
  show "distinct (unionStrings a b)" if "distinct a"
    using that by (auto simp: unionStrings_def dedupFrom_props)
  show "prefix a (unionStrings a b)" if "distinct a"
    using that by (simp add: unionStrings_def dedupFrom_id)
qed

section \<open>The mount loops\<close>

text \<open>
  What both loops keep: the volumes are the old ones followed by new ones, whose targets are new
  and pairwise different, and every requested target ends up covered.
\<close>

definition extends_mounts ::
  "service_volume list \<Rightarrow> string set \<Rightarrow> service_volume list \<Rightarrow> bool" where
  "extends_mounts vols req vols' \<longleftrightarrow>
     (\<exists>new. vols' = vols @ new \<and> distinct (map sv_Target new)
        \<and> sv_Target ` set new \<inter> sv_Target ` set vols = {}
        \<and> sv_Target ` set new = req - sv_Target ` set vols)"

lemma extends_mounts_refl: "req \<subseteq> sv_Target ` set vols \<Longrightarrow> extends_mounts vols req vols"
  by (auto simp: extends_mounts_def)

lemma extends_mounts_skip:
  "t \<in> sv_Target ` set vols \<Longrightarrow> extends_mounts vols req vols' \<Longrightarrow> extends_mounts vols (insert t req) vols'"
  by (auto simp: extends_mounts_def)

lemma extends_mounts_step:
  assumes "sv_Target v \<notin> sv_Target ` set vols" "extends_mounts (vols @ [v]) req vols'"
  shows "extends_mounts vols (insert (sv_Target v) req) vols'"
proof -
  from assms(2) obtain new where new: "vols' = (vols @ [v]) @ new" "distinct (map sv_Target new)"
      "sv_Target ` set new = req - sv_Target ` set (vols @ [v])"
    by (auto simp: extends_mounts_def)
  then have "sv_Target v \<notin> sv_Target ` set new" by auto
  with new assms(1) show ?thesis
    unfolding extends_mounts_def by (intro exI [of _ "v # new"]) auto
qed

lemma extends_mounts_trans:
  assumes "extends_mounts a r b" "extends_mounts b q c"
  shows "extends_mounts a (r \<union> q) c"
proof -
  from assms obtain x y where
    "b = a @ x" "distinct (map sv_Target x)" "sv_Target ` set x = r - sv_Target ` set a"
    "c = b @ y" "distinct (map sv_Target y)" "sv_Target ` set y = q - sv_Target ` set b"
    by (auto simp: extends_mounts_def)
  then show ?thesis unfolding extends_mounts_def by (intro exI [of _ "x @ y"]) auto
qed

lemma bindVolume_target [simp]: "sv_Target (bindVolume b) = bm_Target b"
  by (simp add: bindVolume_def)

lemma serviceVolume_target [simp]: "sv_Target (serviceVolume m) = om_Target m"
  by (simp add: serviceVolume_def)

lemma addBinds_extends:
  "T = sv_Target ` set vols \<Longrightarrow> addBinds bs vols T = (vols', T') \<Longrightarrow>
     extends_mounts vols (bm_Target ` set bs) vols' \<and> T' = sv_Target ` set vols'"
proof (induction bs vols T rule: addBinds.induct)
  case (1 vols targets)
  then show ?case by (auto intro: extends_mounts_refl)
next
  case (2 b bs vols targets)
  show ?case
  proof (cases "bm_Target b \<in> targets")
    case True
    with 2 show ?thesis by (auto intro: extends_mounts_skip)
  next
    case False
    with 2 show ?thesis using extends_mounts_step [of "bindVolume b" vols] by auto
  qed
qed

lemma addMounts_extends:
  "T = sv_Target ` set vols \<Longrightarrow> addMounts pn ms vols T decl = (vols', decl') \<Longrightarrow>
     extends_mounts vols (om_Target ` set ms) vols'"
proof (induction pn ms vols T decl rule: addMounts.induct)
  case (1 pname vols targets declared)
  then show ?case by (auto intro: extends_mounts_refl)
next
  case (2 pname m ms vols targets declared)
  show ?case
  proof (cases "om_Target m \<in> targets")
    case True
    with 2 show ?thesis by (auto intro: extends_mounts_skip)
  next
    case False
    with 2 show ?thesis using extends_mounts_step [of "serviceVolume m" vols] by auto
  qed
qed

text \<open>A named volume the service mounts.\<close>

definition usesVolume :: "service_volume \<Rightarrow> string \<Rightarrow> bool" where
  "usesVolume v name \<longleftrightarrow> sv_Type v = MountVolume \<and> sv_Source v = name \<and> name \<noteq> []"

lemma usesVolume_service: "usesVolume (serviceVolume m) name \<longleftrightarrow> namedVolume m \<and> om_Source m = name"
  by (auto simp: usesVolume_def serviceVolume_def namedVolume_def)

lemma usesVolume_bind: "\<not> usesVolume (bindVolume b) name"
  by (simp add: usesVolume_def bindVolume_def)

lemma addBinds_uses:
  "addBinds bs vols T = (vols', T') \<Longrightarrow> v \<in> set vols' \<Longrightarrow> usesVolume v n \<Longrightarrow> v \<in> set vols"
  by (induction bs vols T rule: addBinds.induct) (auto simp: usesVolume_bind split: if_splits)

lemma addMounts_declares:
  "addMounts pn ms vols T decl = (vols', decl') \<Longrightarrow>
     map_of decl \<subseteq>\<^sub>m map_of decl'
     \<and> (\<forall>v \<in> set vols' - set vols. \<forall>n. usesVolume v n \<longrightarrow> n \<in> dom (map_of decl'))"
proof (induction pn ms vols T decl rule: addMounts.induct)
  case (1 pname vols targets declared)
  then show ?case by simp
next
  case (2 pname m ms vols targets declared)
  show ?case
  proof (cases "om_Target m \<in> targets")
    case True
    with 2 show ?thesis by auto
  next
    case False
    define d where "d = (if \<not> namedVolume m then declared
           else if map_of declared (om_Source m) \<noteq> None then declared
           else mput (om_Source m)
                  (if pname \<noteq> [] then pname @ ''_'' @ om_Source m else []) declared)"
    from 2(3) False have run:
      "addMounts pname ms (vols @ [serviceVolume m]) (insert (om_Target m) targets) d = (vols', decl')"
      by (simp add: d_def)
    have ih: "map_of d \<subseteq>\<^sub>m map_of decl'"
      "\<forall>v \<in> set vols' - set (vols @ [serviceVolume m]). \<forall>n. usesVolume v n \<longrightarrow> n \<in> dom (map_of decl')"
      using 2(2) [OF False] run unfolding d_def by blast+
    have "map_of declared \<subseteq>\<^sub>m map_of d" by (auto simp: d_def map_le_def)
    then have le: "map_of declared \<subseteq>\<^sub>m map_of decl'" using ih(1) by (rule map_le_trans)
    have dom: "dom (map_of d) \<subseteq> dom (map_of decl')" by (rule map_le_implies_dom_le [OF ih(1)])
    have uses: "usesVolume (serviceVolume m) n \<Longrightarrow> n \<in> dom (map_of d)" for n
      by (auto simp: d_def usesVolume_service)
    show ?thesis
    proof (intro conjI ballI allI impI)
      fix v n
      assume "v \<in> set vols' - set vols" "usesVolume v n"
      then show "n \<in> dom (map_of decl')"
        using ih(2) dom uses [of n] by (cases "v = serviceVolume m") auto
    qed (rule le)
  qed
qed

lemma ApplyRunOverride_Inr:
  assumes "ApplyRunOverride (Some p) prim ov = Inr p'"
  obtains svc vols1 targets vols2 decl where
    "prim \<noteq> []" "map_of (pj_Services p) prim = Some svc"
    "validateMounts (ov_ExtraMounts ov) = None"
    "addBinds (ov_ExtraBindMounts ov) (svc_Volumes svc) (sv_Target ` set (svc_Volumes svc))
       = (vols1, targets)"
    "addMounts (pj_Name p) (ov_ExtraMounts ov) vols1 targets (pj_Volumes p) = (vols2, decl)"
    "p' = p\<lparr>pj_Volumes := decl,
       pj_Services := mput prim (overrideService ov vols2 svc) (pj_Services p)\<rparr>"
  using assms
  by (auto simp: ApplyRunOverride_def Let_def split: if_splits option.splits prod.splits)

section \<open>Properties\<close>

text \<open>
  What an added volume must be: that of the first request for its target, the binds before the mounts.
\<close>

definition carriesBind :: "bind_mount \<Rightarrow> service_volume \<Rightarrow> bool" where
  "carriesBind b v \<longleftrightarrow> sv_Type v = ''bind'' \<and> sv_Source v = bm_Source b \<and> sv_Target v = bm_Target b
     \<and> sv_ReadOnly v = bm_ReadOnly b \<and> sv_Volume v = None \<and> sv_Tmpfs v = None"

definition carriesMount :: "omount \<Rightarrow> service_volume \<Rightarrow> bool" where
  "carriesMount m v \<longleftrightarrow> sv_Type v = om_Type m \<and> sv_Source v = om_Source m \<and> sv_Target v = om_Target m
     \<and> sv_ReadOnly v = om_ReadOnly m
     \<and> (case sv_Volume v of None \<Rightarrow> om_Type m = ''volume'' \<longrightarrow> \<not> om_NoCopy m
        | Some x \<Rightarrow> om_Type m = ''volume'' \<and> om_NoCopy m \<and> vv_NoCopy x)
     \<and> (case sv_Tmpfs v of None \<Rightarrow> om_Type m = ''tmpfs'' \<longrightarrow> om_TmpfsSize m = 0 \<and> om_TmpfsMode m = 0
        | Some x \<Rightarrow> om_Type m = ''tmpfs'' \<and> vt_Size x = om_TmpfsSize m \<and> vt_Mode x = om_TmpfsMode m)"

definition carriesRequest :: "override \<Rightarrow> service_volume \<Rightarrow> bool" where
  "carriesRequest ov v \<longleftrightarrow>
     (case find (\<lambda>b. bm_Target b = sv_Target v) (ov_ExtraBindMounts ov) of
        Some b \<Rightarrow> carriesBind b v
      | None \<Rightarrow> (case find (\<lambda>m. om_Target m = sv_Target v) (ov_ExtraMounts ov) of
                   Some m \<Rightarrow> carriesMount m v
                 | None \<Rightarrow> False))"

lemma carriesBind_bindVolume: "carriesBind b (bindVolume b)"
  by (simp add: carriesBind_def bindVolume_def MountBind_def)

lemma carriesMount_serviceVolume: "carriesMount m (serviceVolume m)"
  by (simp add: carriesMount_def serviceVolume_def MountVolume_def MountTmpfs_def)

lemma addBinds_new:
  "addBinds bs vols T = (vols', T') \<Longrightarrow>
     \<exists>new. vols' = vols @ new \<and> map sv_Target new = dedupFrom T (map bm_Target bs)
       \<and> T' = T \<union> bm_Target ` set bs
       \<and> (\<forall>v \<in> set new. sv_Target v \<notin> T \<and> (\<exists>b. find (\<lambda>b. bm_Target b = sv_Target v) bs = Some b \<and> carriesBind b v))"
proof (induction bs vols T rule: addBinds.induct)
  case (1 vols targets)
  then show ?case by simp
next
  case (2 b bs vols targets)
  show ?case
  proof (cases "bm_Target b \<in> targets")
    case True
    with 2 show ?thesis by (auto simp: insert_absorb)
  next
    case False
    with 2(3) have "addBinds bs (vols @ [bindVolume b]) (insert (bm_Target b) targets) = (vols', T')" by simp
    from 2(2) [OF False this] obtain new where new: "vols' = (vols @ [bindVolume b]) @ new"
      "map sv_Target new = dedupFrom (insert (bm_Target b) targets) (map bm_Target bs)"
      "T' = insert (bm_Target b) targets \<union> bm_Target ` set bs"
      "\<forall>v \<in> set new. sv_Target v \<notin> insert (bm_Target b) targets
         \<and> (\<exists>b. find (\<lambda>b. bm_Target b = sv_Target v) bs = Some b \<and> carriesBind b v)"
      by (elim exE conjE) (rule that)
    then show ?thesis using False carriesBind_bindVolume [of b]
      by (intro exI [of _ "bindVolume b # new"]) auto
  qed
qed

lemma addMounts_new:
  "addMounts pn ms vols T decl = (vols', decl') \<Longrightarrow>
     \<exists>new. vols' = vols @ new \<and> map sv_Target new = dedupFrom T (map om_Target ms)
       \<and> (\<forall>v \<in> set new. sv_Target v \<notin> T \<and> (\<exists>m. find (\<lambda>m. om_Target m = sv_Target v) ms = Some m \<and> carriesMount m v))"
proof (induction pn ms vols T decl rule: addMounts.induct)
  case (1 pname vols targets declared)
  then show ?case by simp
next
  case (2 pname m ms vols targets declared)
  show ?case
  proof (cases "om_Target m \<in> targets")
    case True
    with 2 show ?thesis by (auto simp: insert_absorb)
  next
    case False
    note 2(3) [unfolded addMounts.simps if_not_P [OF False]]
    from 2(2) [OF False this] obtain new where new: "vols' = (vols @ [serviceVolume m]) @ new"
      "map sv_Target new = dedupFrom (insert (om_Target m) targets) (map om_Target ms)"
      "\<forall>v \<in> set new. sv_Target v \<notin> insert (om_Target m) targets
         \<and> (\<exists>m. find (\<lambda>m. om_Target m = sv_Target v) ms = Some m \<and> carriesMount m v)"
      by (elim exE conjE) (rule that)
    then show ?thesis using False carriesMount_serviceVolume [of m]
      by (intro exI [of _ "serviceVolume m # new"]) auto
  qed
qed

lemma addMounts_carries:
  assumes "addBinds (ov_ExtraBindMounts ov) vols (sv_Target ` set vols) = (vols1, T1)"
    and "addMounts pn (ov_ExtraMounts ov) vols1 T1 decl = (vols2, decl')"
  shows "\<exists>new. vols2 = vols @ new
    \<and> map sv_Target new = dedupFrom (sv_Target ` set vols)
        (map bm_Target (ov_ExtraBindMounts ov) @ map om_Target (ov_ExtraMounts ov))
    \<and> (\<forall>v \<in> set new. carriesRequest ov v)"
proof -
  from addBinds_new [OF assms(1)] obtain x where x: "vols1 = vols @ x"
    "map sv_Target x = dedupFrom (sv_Target ` set vols) (map bm_Target (ov_ExtraBindMounts ov))"
    "T1 = sv_Target ` set vols \<union> bm_Target ` set (ov_ExtraBindMounts ov)"
    "\<forall>v \<in> set x. sv_Target v \<notin> sv_Target ` set vols
       \<and> (\<exists>b. find (\<lambda>b. bm_Target b = sv_Target v) (ov_ExtraBindMounts ov) = Some b \<and> carriesBind b v)"
    by (elim exE conjE) (rule that)
  from addMounts_new [OF assms(2)] obtain y where y: "vols2 = vols1 @ y"
    "map sv_Target y = dedupFrom T1 (map om_Target (ov_ExtraMounts ov))"
    "\<forall>v \<in> set y. sv_Target v \<notin> T1
       \<and> (\<exists>m. find (\<lambda>m. om_Target m = sv_Target v) (ov_ExtraMounts ov) = Some m \<and> carriesMount m v)"
    by (elim exE conjE) (rule that)
  have "carriesRequest ov v" if "v \<in> set y" for v
  proof -
    from y(3) that x(3) have "sv_Target v \<notin> bm_Target ` set (ov_ExtraBindMounts ov)" by blast
    then have "find (\<lambda>b. bm_Target b = sv_Target v) (ov_ExtraBindMounts ov) = None"
      unfolding find_None_iff by force
    with y(3) that show ?thesis by (auto simp: carriesRequest_def)
  qed
  moreover have "carriesRequest ov v" if "v \<in> set x" for v
    using x(4) that by (auto simp: carriesRequest_def)
  ultimately show ?thesis using x(1-3) y(1,2)
    by (intro exI [of _ "x @ y"]) (auto simp: dedupFrom_append)
qed

text \<open>
  C7. When the run override is applied to the loaded project, the primary service keeps every
  volume the user declared, in order, and gains new ones, one for each requested bind or mount target that
  collides with none of the user's and with no earlier request, in the order of the requests. Each new volume is what its
  request says: a bind with its source, target and read-only flag and no other option, or a mount
  with its type, source, target, read-only flag, and the no-copy or tmpfs options of its type. Every
  named volume that was added is declared at the project level and no existing declaration
  changes; the other services are untouched.
\<close>

theorem ApplyRunOverride_mounts:
  assumes "ApplyRunOverride (Some p) prim ov = Inr p'" "map_of (pj_Services p) prim = Some svc"
  shows "\<exists>svc' new. map_of (pj_Services p') = (map_of (pj_Services p))(prim \<mapsto> svc')
    \<and> svc_Volumes svc' = svc_Volumes svc @ new \<and> distinct (map sv_Target new)
    \<and> sv_Target ` set new =
        (bm_Target ` set (ov_ExtraBindMounts ov) \<union> om_Target ` set (ov_ExtraMounts ov))
        - sv_Target ` set (svc_Volumes svc)
    \<and> map sv_Target new = dedupFrom (sv_Target ` set (svc_Volumes svc))
        (map bm_Target (ov_ExtraBindMounts ov) @ map om_Target (ov_ExtraMounts ov))
    \<and> (\<forall>v \<in> set new. carriesRequest ov v)
    \<and> map_of (pj_Volumes p) \<subseteq>\<^sub>m map_of (pj_Volumes p')
    \<and> (\<forall>v \<in> set new - set (svc_Volumes svc). \<forall>n. usesVolume v n \<longrightarrow> n \<in> dom (map_of (pj_Volumes p')))"
  using assms(1)
proof (rule ApplyRunOverride_Inr)
  fix svc0 vols1 targets vols2 decl
  assume h: "map_of (pj_Services p) prim = Some svc0"
    "addBinds (ov_ExtraBindMounts ov) (svc_Volumes svc0) (sv_Target ` set (svc_Volumes svc0))
       = (vols1, targets)"
    "addMounts (pj_Name p) (ov_ExtraMounts ov) vols1 targets (pj_Volumes p) = (vols2, decl)"
    "p' = p\<lparr>pj_Volumes := decl,
       pj_Services := mput prim (overrideService ov vols2 svc0) (pj_Services p)\<rparr>"
  have [simp]: "svc0 = svc" using h(1) assms(2) by simp
  have b: "extends_mounts (svc_Volumes svc) (bm_Target ` set (ov_ExtraBindMounts ov)) vols1"
      "targets = sv_Target ` set vols1"
    using addBinds_extends [OF refl h(2)] by auto
  have "extends_mounts (svc_Volumes svc)
      (bm_Target ` set (ov_ExtraBindMounts ov) \<union> om_Target ` set (ov_ExtraMounts ov)) vols2"
    using b(1) addMounts_extends [OF b(2) h(3)] by (rule extends_mounts_trans)
  then obtain new where new: "vols2 = svc_Volumes svc @ new" "distinct (map sv_Target new)"
      "sv_Target ` set new =
        (bm_Target ` set (ov_ExtraBindMounts ov) \<union> om_Target ` set (ov_ExtraMounts ov))
        - sv_Target ` set (svc_Volumes svc)"
    by (auto simp: extends_mounts_def)
  have d: "map_of (pj_Volumes p) \<subseteq>\<^sub>m map_of decl"
      "\<forall>v \<in> set vols2 - set vols1. \<forall>n. usesVolume v n \<longrightarrow> n \<in> dom (map_of decl)"
    using addMounts_declares [OF h(3)] by auto
  have "\<forall>v \<in> set new - set (svc_Volumes svc). \<forall>n. usesVolume v n \<longrightarrow> n \<in> dom (map_of decl)"
    using d(2) addBinds_uses [OF h(2)] new(1) by auto
  moreover from addMounts_carries [OF h(2,3)] new(1)
  have "map sv_Target new = dedupFrom (sv_Target ` set (svc_Volumes svc))
      (map bm_Target (ov_ExtraBindMounts ov) @ map om_Target (ov_ExtraMounts ov))"
    "\<forall>v \<in> set new. carriesRequest ov v" by auto
  ultimately show ?thesis using new d(1) h(4)
    by (intro exI [of _ "overrideService ov vols2 svc"] exI [of _ new]) (simp add: overrideService_def)
qed

definition demo_override :: override where
  "demo_override = \<lparr>ov_Service = ''app'', ov_Image = ''img'',
     ov_ExtraBindMounts = [\<lparr>bm_Source = ''/home/me/ws'', bm_Target = ''/workspaces/ws'', bm_ReadOnly = False\<rparr>],
     ov_ExtraMounts =
       [\<lparr>om_Type = ''volume'', om_Source = ''dind'', om_Target = ''/var/lib/docker'', om_ReadOnly = False,
         om_NoCopy = False, om_TmpfsSize = 0, om_TmpfsMode = 0\<rparr>],
     ov_ExtraEnvironment = [(''A'', ''1'')], ov_Labels = [(''dev.containers.id'', ''x'')],
     ov_Privileged = Some True, ov_Init = None, ov_CapAdd = [''SYS_PTRACE''], ov_SecurityOpt = [],
     ov_Entrypoints = [''/init.sh''], ov_OriginalEntrypoint = []\<rparr>"

theorem ApplyRunOverride_mounts_witness:
  "\<exists>p'. ApplyRunOverride (Some demo_project) ''app'' demo_override = Inr p'
     \<and> map_of (pj_Volumes demo_project) \<subseteq>\<^sub>m map_of (pj_Volumes p')"
proof -
  obtain p' where p': "ApplyRunOverride (Some demo_project) ''app'' demo_override = Inr p'"
    by (simp add: ApplyRunOverride_def demo_project_def demo_override_def blank_project_def
        blank_service_def)
  obtain svc where "map_of (pj_Services demo_project) ''app'' = Some svc"
    by (simp add: demo_project_def)
  with ApplyRunOverride_mounts [OF p'] p' show ?thesis by blast
qed

text \<open>
  Applying the run override succeeds exactly when the primary service exists and every extra
  mount is valid. Then, for well-formed maps, the overrides win on environment and label keys and
  every other key keeps the user's value; an absent \<^verbatim>\<open>privileged\<close> or \<^verbatim>\<open>init\<close> request never changes
  the user's setting; capabilities and security options are the union; image, command, ports,
  dependencies and health check are untouched.
\<close>

theorem ApplyRunOverride_fields:
  "((\<exists>p'. ApplyRunOverride (Some p) prim ov = Inr p') \<longleftrightarrow>
      prim \<noteq> [] \<and> prim \<in> fst ` set (pj_Services p) \<and> validateMounts (ov_ExtraMounts ov) = None)
   \<and> (\<forall>p' svc svc'. ApplyRunOverride (Some p) prim ov = Inr p'
        \<longrightarrow> map_of (pj_Services p) prim = Some svc \<longrightarrow> map_of (pj_Services p') prim = Some svc'
        \<longrightarrow> wf_map (ov_ExtraEnvironment ov) \<longrightarrow> wf_map (ov_Labels ov)
        \<longrightarrow> map_of (svc_Environment svc')
              = map_of (svc_Environment svc) ++ (map_option Some \<circ> map_of (ov_ExtraEnvironment ov))
          \<and> map_of (svc_Labels svc') = map_of (svc_Labels svc) ++ map_of (ov_Labels ov)
          \<and> (ov_Privileged ov = None \<longrightarrow> svc_Privileged svc' = svc_Privileged svc)
          \<and> (ov_Init ov = None \<longrightarrow> svc_Init svc' = svc_Init svc)
          \<and> set (svc_CapAdd svc') = set (svc_CapAdd svc) \<union> set (ov_CapAdd ov)
          \<and> set (svc_SecurityOpt svc') = set (svc_SecurityOpt svc) \<union> set (ov_SecurityOpt ov)
          \<and> svc_Image svc' = svc_Image svc \<and> svc_Command svc' = svc_Command svc
          \<and> svc_Ports svc' = svc_Ports svc \<and> svc_DependsOn svc' = svc_DependsOn svc
          \<and> svc_HealthCheck svc' = svc_HealthCheck svc)"
proof (intro conjI allI impI)
  show "(\<exists>p'. ApplyRunOverride (Some p) prim ov = Inr p') \<longleftrightarrow>
      prim \<noteq> [] \<and> prim \<in> fst ` set (pj_Services p) \<and> validateMounts (ov_ExtraMounts ov) = None"
    by (auto simp: ApplyRunOverride_def Let_def map_of_eq_None_iff split: option.splits prod.splits
        dest: map_of_SomeD intro: rev_image_eqI)
next
  fix p' svc svc'
  assume run: "ApplyRunOverride (Some p) prim ov = Inr p'"
    and svc: "map_of (pj_Services p) prim = Some svc" "map_of (pj_Services p') prim = Some svc'"
    and wf: "wf_map (ov_ExtraEnvironment ov)" "wf_map (ov_Labels ov)"
  from run obtain vols where svc': "svc' = overrideService ov vols svc"
    by (rule ApplyRunOverride_Inr) (use svc in auto)
  have wf': "wf_map (map (\<lambda>(k, v). (k, Some v)) (ov_ExtraEnvironment ov))"
    using wf(1) by (simp add: wf_map_def case_prod_unfold comp_def)
  have lift: "map_of (map (\<lambda>(k, v). (k, Some v)) (ov_ExtraEnvironment ov))
      = map_option Some \<circ> map_of (ov_ExtraEnvironment ov)"
    by (simp add: map_of_map)
  show "map_of (svc_Environment svc')
      = map_of (svc_Environment svc) ++ (map_option Some \<circ> map_of (ov_ExtraEnvironment ov))"
    using wf' lift by (simp add: svc' overrideService_def range_assign.merge_lookup)
  show "map_of (svc_Labels svc') = map_of (svc_Labels svc) ++ map_of (ov_Labels ov)"
    using wf(2) by (simp add: svc' overrideService_def)
  show "ov_Privileged ov = None \<Longrightarrow> svc_Privileged svc' = svc_Privileged svc"
    "ov_Init ov = None \<Longrightarrow> svc_Init svc' = svc_Init svc"
    "set (svc_CapAdd svc') = set (svc_CapAdd svc) \<union> set (ov_CapAdd ov)"
    "set (svc_SecurityOpt svc') = set (svc_SecurityOpt svc) \<union> set (ov_SecurityOpt ov)"
    "svc_Image svc' = svc_Image svc" "svc_Command svc' = svc_Command svc"
    "svc_Ports svc' = svc_Ports svc" "svc_DependsOn svc' = svc_DependsOn svc"
    "svc_HealthCheck svc' = svc_HealthCheck svc"
    by (simp_all add: svc' overrideService_def compose_union.union_set)
qed

theorem ApplyRunOverride_fields_witness:
  "\<exists>p'. ApplyRunOverride (Some demo_project) ''app'' demo_override = Inr p'"
proof -
  have "validateMounts (ov_ExtraMounts demo_override) = None"
    by (simp add: demo_override_def)
  moreover have "''app'' \<in> fst ` set (pj_Services demo_project)"
    by (simp add: demo_project_def)
  ultimately show ?thesis
    using ApplyRunOverride_fields [of demo_project "''app''" demo_override] by blast
qed

lemma dropPorts_spec:
  "distinct names \<Longrightarrow> set names \<subseteq> fst ` set services \<Longrightarrow> dropPorts names services = (services', dropped) \<Longrightarrow>
     (\<forall>n. map_of services' n = (if n \<in> set names
            then map_option (\<lambda>svc. svc\<lparr>svc_Ports := []\<rparr>) (map_of services n) else map_of services n))
     \<and> fst ` set services' = fst ` set services
     \<and> dropped = concat (map (\<lambda>n. map (droppedOf n) (svc_Ports (the (map_of services n)))) names)"
proof (induction names services arbitrary: services' dropped rule: dropPorts.induct)
  case (1 services)
  then show ?case by simp
next
  case (2 name names services)
  from 2(5) obtain svc where svc: "map_of services name = Some svc"
    by (cases "map_of services name") (auto simp: map_of_eq_None_iff)
  have d: "distinct names" "name \<notin> set names" using 2(4) by auto
  show ?case
  proof (cases "svc_Ports svc = []")
    case True
    then have "svc\<lparr>svc_Ports := []\<rparr> = svc" by (cases svc) simp
    with 2(2) [OF svc True d(1)] 2(5,6) svc True d show ?thesis by auto
  next
    case False
    let ?m = "mput name (svc\<lparr>svc_Ports := []\<rparr>) services"
    obtain ss dd where run: "dropPorts names ?m = (ss, dd)" by fastforce
    have sub: "set names \<subseteq> fst ` set ?m" using 2(5) by auto
    have ih: "\<forall>n. map_of ss n = (if n \<in> set names
        then map_option (\<lambda>svc. svc\<lparr>svc_Ports := []\<rparr>) (map_of ?m n) else map_of ?m n)"
      "fst ` set ss = fst ` set ?m"
      "dd = concat (map (\<lambda>n. map (droppedOf n) (svc_Ports (the (map_of ?m n)))) names)"
      using 2(3) [OF svc False d(1) sub run] by blast+
    have rest: "map (\<lambda>n. map (droppedOf n) (svc_Ports (the (map_of ?m n)))) names
        = map (\<lambda>n. map (droppedOf n) (svc_Ports (the (map_of services n)))) names"
      using d(2) by (intro map_cong) auto
    have keys: "fst ` set ss = fst ` set services" using ih(2) 2(5) by auto
    have out: "services' = ss" "dropped = map (droppedOf name) (svc_Ports svc) @ dd"
      using 2(6) svc False run by auto
    have "map_of ss n = (if n \<in> set (name # names)
        then map_option (\<lambda>svc. svc\<lparr>svc_Ports := []\<rparr>) (map_of services n) else map_of services n)" for n
      using ih(1) svc d(2) by simp
    moreover note keys out ih(3) [unfolded rest]
    ultimately show ?thesis using svc by simp
  qed
qed

text \<open>
  \<^verbatim>\<open>ApplyDropHostPorts\<close> leaves no service with a published port and changes nothing else; it
  reports every entry it removed, in service-name order and, within a service, in declaration
  order; a second call finds nothing to remove.
\<close>

theorem ApplyDropHostPorts_spec:
  assumes "wf_project p"
  shows "\<exists>p' dropped. ApplyDropHostPorts (Some p) = (Some p', dropped)
    \<and> p' = p\<lparr>pj_Services := pj_Services p'\<rparr>
    \<and> (\<forall>n. map_of (pj_Services p') n =
         map_option (\<lambda>svc. svc\<lparr>svc_Ports := []\<rparr>) (map_of (pj_Services p) n))
    \<and> dropped = concat (map (\<lambda>n. map (droppedOf n) (svc_Ports (the (map_of (pj_Services p) n))))
                  (sortedKeys (pj_Services p)))
    \<and> snd (ApplyDropHostPorts (Some p')) = []"
proof -
  let ?keys = "sortedKeys (pj_Services p)"
  obtain ss dd where run: "dropPorts ?keys (pj_Services p) = (ss, dd)" by fastforce
  have "distinct ?keys" using assms by (simp add: wf_project_def)
  from dropPorts_spec [OF this _ run]
  have spec: "\<forall>n. map_of ss n = (if n \<in> fst ` set (pj_Services p)
        then map_option (\<lambda>svc. svc\<lparr>svc_Ports := []\<rparr>) (map_of (pj_Services p) n)
        else map_of (pj_Services p) n)"
    "dd = concat (map (\<lambda>n. map (droppedOf n) (svc_Ports (the (map_of (pj_Services p) n)))) ?keys)"
    by auto
  then have look: "map_of ss n = map_option (\<lambda>svc. svc\<lparr>svc_Ports := []\<rparr>) (map_of (pj_Services p) n)" for n
    by (cases "map_of (pj_Services p) n") (auto dest: map_of_SomeD intro: rev_image_eqI)
  have quiet: "snd (dropPorts names ss) = []" for names
    using look
    by (induction names ss rule: dropPorts.induct) (auto split: option.splits)
  show ?thesis
    using run spec(2) look quiet
    by (intro exI [of _ "p\<lparr>pj_Services := ss\<rparr>"] exI [of _ dd])
      (simp add: ApplyDropHostPorts_def Let_def case_prod_unfold)
qed

definition demo_ports :: project where
  "demo_ports = blank_project\<lparr>pj_Services := [(''app'', blank_service\<lparr>svc_Name := ''app'', svc_Ports :=
     [\<lparr>sp_HostIP = [], sp_Published = ''8080'', sp_Target = 80, sp_Protocol = ''tcp''\<rparr>]\<rparr>),
     (''db'', blank_service\<lparr>svc_Name := ''db''\<rparr>)]\<rparr>"

theorem ApplyDropHostPorts_spec_witness:
  "\<exists>p' dropped. ApplyDropHostPorts (Some demo_ports) = (Some p', dropped)
     \<and> length dropped = 1 \<and> snd (ApplyDropHostPorts (Some p')) = []"
proof -
  have "wf_project demo_ports" by code_simp
  moreover have "sortedKeys (pj_Services demo_ports) = [''app'', ''db'']" by code_simp
  ultimately show ?thesis
    using ApplyDropHostPorts_spec [of demo_ports] by (auto simp: demo_ports_def blank_service_def)
qed

text \<open>Compose interpolation of a text without variable references; \<open>None\<close> when there is one.\<close>

fun undouble :: "string \<Rightarrow> string option" where
  "undouble [] = Some []"
| "undouble (c # s) =
     (if c = CHR ''$'' then
        (case s of
           d # t \<Rightarrow> if d = CHR ''$'' then map_option (Cons c) (undouble t) else None
         | [] \<Rightarrow> None)
      else map_option (Cons c) (undouble s))"

lemma undouble_escape: "undouble (escapeDollars s) = Some s"
  by (induction s) (auto simp: escapeDollars_def)

text \<open>
  C10. The wrapper entrypoint written to the YAML override survives the interpolation of
  \<^verbatim>\<open>docker compose\<close>: it contains no variable reference (every dollar is doubled), and after the
  doubled dollars are halved it is the entrypoint the in-memory path installs.
\<close>

theorem RenderEntrypointWrapper_paths_agree:
  "map undouble (RenderEntrypointWrapper eps orig True) = map Some (RenderEntrypointWrapper eps orig False)"
  unfolding RenderEntrypointWrapper_def Let_def if_True if_False
  by (simp only: map_map comp_def undouble_escape)

end
