(* ===== verification/Config_Types.thy ===== *)
theory Config_Types
  imports Prelude
begin

text \<open>
  The resolved devcontainer configuration of \<^verbatim>\<open>config/resolved.go\<close>: the structs the metadata
  merge, the feature pipeline and the lifecycle runner exchange. Typed strings
  (\<^verbatim>\<open>UserEnvProbe\<close>, \<^verbatim>\<open>LifecyclePhase\<close>, \<^verbatim>\<open>ShutdownAction\<close>, \<^verbatim>\<open>MountType\<close>) are strings, a pointer is an
  \<open>option\<close>, \<^verbatim>\<open>json.RawMessage\<close> is the text of the document.

  A value of type \<^verbatim>\<open>any\<close> is a decoded JSON document. A \<^verbatim>\<open>float64\<close> is given by the text
  \<^verbatim>\<open>fmt.Sprint\<close> prints for it, which identifies the number; a nested object lists its members in
  key order, so that equality of two documents is \<^verbatim>\<open>reflect.DeepEqual\<close>.
\<close>

section \<open>Values of type any\<close>

datatype json =
    JNull
  | JBool bool
  | JNum string
  | JStr string
  | JArr "json list"
  | JObj "(string \<times> json) list"

text \<open>\<^verbatim>\<open>reflect.DeepEqual\<close> of two non-nil maps.\<close>

definition deepEqualMaps :: "json gomap \<Rightarrow> json gomap \<Rightarrow> bool" where
  "deepEqualMaps m n \<longleftrightarrow>
     length m = length n \<and> list_all (\<lambda>(k, v). map_of n k = Some v) m"

lemma deepEqualMaps_iff:
  assumes "wf_map m" "wf_map n"
  shows "deepEqualMaps m n \<longleftrightarrow> map_of m = map_of n"
proof
  assume e: "deepEqualMaps m n"
  have sub: "set m \<subseteq> set n"
    using e assms(2) by (auto simp: deepEqualMaps_def list_all_iff wf_map_def dest!: map_of_SomeD)
  have "card (set m) = card (set n)"
    using e assms distinct_card [of m] distinct_card [of n]
    by (simp add: deepEqualMaps_def wf_map_def distinct_map)
  then have "set m = set n" using sub by (simp add: card_subset_eq)
  then show "map_of m = map_of n" using assms by (metis map_of_inject_set wf_map_def)
next
  assume e: "map_of m = map_of n"
  then have "set m = set n"
    using assms map_of_inject_set [of m n] by (simp add: wf_map_def)
  moreover have "distinct m" "distinct n"
    using assms by (auto simp: wf_map_def distinct_map)
  ultimately have "length m = length n" by (metis distinct_card)
  then show "deepEqualMaps m n"
    using e [symmetric] assms(1) by (auto simp: deepEqualMaps_def list_all_iff wf_map_def)
qed

section \<open>Commands and mounts\<close>

record command =
  cm_Shell :: string
  cm_Exec :: "string list"

record lifecycle_command =
  lc_Single :: "command option"
  lc_Parallel :: "command gomap"

definition lifecycleCommand_IsEmpty :: "lifecycle_command \<Rightarrow> bool" where
  "lifecycleCommand_IsEmpty l \<longleftrightarrow> lc_Single l = None \<and> lc_Parallel l = []"

definition command_IsEmpty :: "command \<Rightarrow> bool" where
  "command_IsEmpty c \<longleftrightarrow> cm_Shell c = [] \<and> cm_Exec c = []"

record lifecycle_commands =
  lcs_Initialize :: "lifecycle_command list"
  lcs_OnCreate :: "lifecycle_command list"
  lcs_UpdateContent :: "lifecycle_command list"
  lcs_PostCreate :: "lifecycle_command list"
  lcs_PostStart :: "lifecycle_command list"
  lcs_PostAttach :: "lifecycle_command list"

definition LifecycleInitialize :: string where [simp]: "LifecycleInitialize = ''initialize''"
definition LifecycleOnCreate :: string where [simp]: "LifecycleOnCreate = ''onCreate''"
definition LifecycleUpdateContent :: string where
  [simp]: "LifecycleUpdateContent = ''updateContent''"
definition LifecyclePostCreate :: string where [simp]: "LifecyclePostCreate = ''postCreate''"
definition LifecyclePostStart :: string where [simp]: "LifecyclePostStart = ''postStart''"
definition LifecyclePostAttach :: string where [simp]: "LifecyclePostAttach = ''postAttach''"

record bind_options =
  bo_Propagation :: string
  bo_CreateHostPath :: bool

record volume_driver_config =
  vd_Name :: string
  vd_Options :: "string gomap"

record volume_options =
  vo_NoCopy :: bool
  vo_Labels :: "string gomap"
  vo_DriverConfig :: "volume_driver_config option"

record tmpfs_options =
  to_SizeBytes :: int
  to_Mode :: int

record mount =
  m_Type :: string
  m_Source :: string
  m_Target :: string
  m_ReadOnly :: bool
  m_BindOptions :: "bind_options option"
  m_VolumeOptions :: "volume_options option"
  m_TmpfsOptions :: "tmpfs_options option"

section \<open>Features\<close>

text \<open>\<^verbatim>\<open>Default\<close> is nil when the declaration has none.\<close>

record feature_option =
  fo_Type :: string
  fo_Default :: "json option"
  fo_Enum :: "json list"
  fo_Proposals :: "json list"
  fo_Description :: string

record gpu_requirement =
  gpu_Optional :: bool

record host_requirements =
  hr_CPUs :: int
  hr_Memory :: string
  hr_Storage :: string
  hr_GPU :: "gpu_requirement option"

record feature_metadata =
  fm_ID :: string
  fm_Version :: string
  fm_Name :: string
  fm_Description :: string
  fm_DocumentationURL :: string
  fm_LicenseURL :: string
  fm_ResolvedRef :: string
  fm_Options :: "feature_option gomap"
  fm_RemoteUser :: string
  fm_ContainerUser :: string
  fm_UserEnvProbe :: string
  fm_WaitFor :: string
  fm_ShutdownAction :: string
  fm_UpdateRemoteUserUID :: "bool option"
  fm_ContainerEnv :: "string gomap"
  fm_RemoteEnv :: "string gomap"
  fm_Mounts :: "mount list"
  fm_Init :: "bool option"
  fm_Privileged :: "bool option"
  fm_OverrideCommand :: "bool option"
  fm_CapAdd :: "string list"
  fm_SecurityOpt :: "string list"
  fm_Entrypoint :: string
  fm_HostRequirements :: "host_requirements option"
  fm_InstallsAfter :: "string list"
  fm_DependsOn :: "json gomap gomap option"
  fm_OnCreateCommand :: lifecycle_command
  fm_UpdateContentCommand :: lifecycle_command
  fm_PostCreateCommand :: lifecycle_command
  fm_PostStartCommand :: lifecycle_command
  fm_PostAttachCommand :: lifecycle_command
  fm_Customizations :: "string gomap"

text \<open>\<^verbatim>\<open>Options\<close> tells a nil map from an empty one: the two marshal differently.\<close>

record resolved_feature =
  rf_Ref :: string
  rf_ResolvedRef :: string
  rf_Dir :: string
  rf_Metadata :: feature_metadata
  rf_Options :: "json gomap option"
  rf_SourceKind :: string
  rf_AlreadyInstalled :: bool

section \<open>The resolved configuration\<close>

record build_source =
  bs_Dockerfile :: string
  bs_Context :: string
  bs_Args :: "string gomap"
  bs_Target :: string
  bs_CacheFrom :: "string list"
  bs_Options :: "string gomap"

record compose_source =
  cs_Files :: "string list"
  cs_Service :: string
  cs_RunServices :: "string list"

datatype source = ImageSource string | BuildSource build_source | ComposeSource compose_source

record port_spec =
  ps_Container :: int
  ps_Host :: int
  ps_Label :: string

record port_attributes =
  pa_Label :: string
  pa_Protocol :: string
  pa_OnAutoForward :: string
  pa_ElevateIfNeeded :: bool
  pa_RequireLocalPort :: bool

record warning =
  w_Code :: string
  w_Message :: string
  w_Path :: string
  w_Source :: string

record resolved_config =
  cfg_DevcontainerID :: string
  cfg_Source :: "source option"
  cfg_Name :: string
  cfg_LocalWorkspaceFolder :: string
  cfg_ContainerWorkspaceFolder :: string
  cfg_WorkspaceMount :: "mount option"
  cfg_ContainerUser :: string
  cfg_RemoteUser :: string
  cfg_UpdateRemoteUserUID :: "bool option"
  cfg_UserEnvProbe :: string
  cfg_ContainerEnv :: "string gomap"
  cfg_RemoteEnv :: "string gomap"
  cfg_Mounts :: "mount list"
  cfg_RunArgs :: "string list"
  cfg_Init :: "bool option"
  cfg_Privileged :: "bool option"
  cfg_CapAdd :: "string list"
  cfg_SecurityOpt :: "string list"
  cfg_OverrideCommand :: "bool option"
  cfg_ShutdownAction :: string
  cfg_Entrypoints :: "string list"
  cfg_Features :: "resolved_feature list"
  cfg_Lifecycle :: lifecycle_commands
  cfg_WaitFor :: string
  cfg_SecretsCommand :: lifecycle_command
  cfg_ForwardPorts :: "port_spec list"
  cfg_PortsAttributes :: "port_attributes gomap"
  cfg_OtherPortsAttributes :: "port_attributes option"
  cfg_HostRequirements :: "host_requirements option"
  cfg_Customizations :: "string gomap"
  cfg_Warnings :: "warning list"

definition UserEnvProbeLoginInteractive :: string where
  "UserEnvProbeLoginInteractive = ''loginInteractiveShell''"

definition Finalize :: "resolved_config \<Rightarrow> resolved_config" where
  "Finalize c = c\<lparr>
     cfg_OverrideCommand :=
       (if cfg_OverrideCommand c = None then Some True else cfg_OverrideCommand c),
     cfg_UserEnvProbe :=
       (if cfg_UserEnvProbe c = [] then UserEnvProbeLoginInteractive else cfg_UserEnvProbe c),
     cfg_WaitFor :=
       (if cfg_WaitFor c = []
        then if lcs_UpdateContent (cfg_Lifecycle c) \<noteq> [] then LifecycleUpdateContent
             else LifecyclePostCreate
        else cfg_WaitFor c)\<rparr>"

definition BoolOr :: "bool option \<Rightarrow> bool \<Rightarrow> bool" where
  "BoolOr p def = (case p of None \<Rightarrow> def | Some b \<Rightarrow> b)"

lemma Finalize_idem: "Finalize (Finalize c) = Finalize c"
  by (simp add: Finalize_def UserEnvProbeLoginInteractive_def)

definition emptyCommand :: lifecycle_command where
  "emptyCommand = \<lparr>lc_Single = None, lc_Parallel = []\<rparr>"

definition emptyMetadata :: feature_metadata where
  "emptyMetadata = \<lparr>fm_ID = [], fm_Version = [], fm_Name = [], fm_Description = [],
     fm_DocumentationURL = [], fm_LicenseURL = [], fm_ResolvedRef = [], fm_Options = [],
     fm_RemoteUser = [], fm_ContainerUser = [], fm_UserEnvProbe = [], fm_WaitFor = [],
     fm_ShutdownAction = [], fm_UpdateRemoteUserUID = None, fm_ContainerEnv = [],
     fm_RemoteEnv = [], fm_Mounts = [], fm_Init = None, fm_Privileged = None,
     fm_OverrideCommand = None, fm_CapAdd = [], fm_SecurityOpt = [], fm_Entrypoint = [],
     fm_HostRequirements = None, fm_InstallsAfter = [], fm_DependsOn = None,
     fm_OnCreateCommand = emptyCommand, fm_UpdateContentCommand = emptyCommand,
     fm_PostCreateCommand = emptyCommand, fm_PostStartCommand = emptyCommand,
     fm_PostAttachCommand = emptyCommand, fm_Customizations = []\<rparr>"

definition emptyConfig :: resolved_config where
  "emptyConfig = \<lparr>cfg_DevcontainerID = [], cfg_Source = None, cfg_Name = [],
     cfg_LocalWorkspaceFolder = [], cfg_ContainerWorkspaceFolder = [], cfg_WorkspaceMount = None,
     cfg_ContainerUser = [], cfg_RemoteUser = [], cfg_UpdateRemoteUserUID = None,
     cfg_UserEnvProbe = [], cfg_ContainerEnv = [], cfg_RemoteEnv = [], cfg_Mounts = [],
     cfg_RunArgs = [], cfg_Init = None, cfg_Privileged = None, cfg_CapAdd = [],
     cfg_SecurityOpt = [], cfg_OverrideCommand = None, cfg_ShutdownAction = [],
     cfg_Entrypoints = [], cfg_Features = [],
     cfg_Lifecycle = \<lparr>lcs_Initialize = [], lcs_OnCreate = [], lcs_UpdateContent = [],
       lcs_PostCreate = [], lcs_PostStart = [], lcs_PostAttach = []\<rparr>,
     cfg_WaitFor = [], cfg_SecretsCommand = emptyCommand, cfg_ForwardPorts = [],
     cfg_PortsAttributes = [], cfg_OtherPortsAttributes = None, cfg_HostRequirements = None,
     cfg_Customizations = [], cfg_Warnings = []\<rparr>"

end
