(* ===== verification/Runtime_Prog.thy ===== *)
theory Runtime_Prog
  imports Compose_Types Config_Types
begin

text \<open>
  Code that drives a container runtime, as data. A \<open>'a prog\<close> is a Go function body: it returns a
  value or makes one call of the \<^verbatim>\<open>runtime.Runtime\<close> interface (or reads the clock, sleeps, polls
  the context, runs a command on the host, emits an event, or reads the shared container map) and continues with the response. The runtime is
  not under \<^verbatim>\<open>src/\<close> as far as its behaviour goes (it talks to a daemon), so a response is
  arbitrary: \<open>trace p tr x\<close> says that \<open>p\<close> can return \<open>x\<close> after the calls and responses \<open>tr\<close>, for some
  runtime. A response of the wrong shape, which no runtime gives, decodes to an error. \<open>runProg\<close>
  executes a program against a concrete backend.

  \<open>interleave\<close> runs the goroutines of one \<^verbatim>\<open>sync.WaitGroup\<close>: at every step a scheduler picks the one
  that makes its next call; a statement about every scheduler covers every interleaving of calls.
\<close>

section \<open>Calls and programs\<close>

text \<open>
  The streams and terminal fields of \<^verbatim>\<open>runtime.ExecOptions\<close> are not modelled: without them output is
  captured in the result.
\<close>

record exec_options =
  xo_Cmd :: "string list"
  xo_Env :: "string gomap"
  xo_User :: string
  xo_WorkingDir :: string

record host_command =
  hx_Shell :: string
  hx_Exec :: "string list"
  hx_Env :: "string gomap"
  hx_WorkingDir :: string

datatype event =
    LifecycleStartEvent string string
  | LifecycleSkippedEvent string string
  | LifecycleCompletedEvent string int int
  | ExecStartEvent string "string list"
  | ExecCompletedEvent string int int
  | ConfigResolvedEvent resolved_config
  | ConfigWarningEvent string string
  | FeatureSkippedEvent string string
  | FeatureResolveStartEvent string
  | FeatureResolvedEvent string string
  | BuildStartEvent string string
  | ContainerCreatingEvent string
  | ContainerCreatedEvent string string
  | ContainerStartedEvent string int
  | ContainerStoppedEvent string int
  | ContainerRemovedEvent string
  | WarnEvent string string

text \<open>The specifications of image builds and of the \<^verbatim>\<open>docker compose\<close> calls, and a fetched feature.\<close>

record build_spec =
  bd_ContextPath :: string
  bd_Dockerfile :: string
  bd_Tag :: string
  bd_Args :: "string gomap"
  bd_Target :: string
  bd_CacheFrom :: "string list"
  bd_NoCache :: bool
  bd_Platform :: string

record compose_up_spec =
  cu_Files :: "string list"
  cu_ProjectName :: string
  cu_Services :: "string list"
  cu_WorkingDir :: string
  cu_NoRecreate :: bool

record compose_ps_spec =
  cp_Files :: "string list"
  cp_ProjectName :: string
  cp_WorkingDir :: string

record load_options =
  lo_Files :: "string list"
  lo_WorkingDir :: string
  lo_ProjectName :: string
  lo_Env :: "string list"

record fetched =
  fe_Dir :: string
  fe_ResolvedRef :: string
  fe_Metadata :: feature_metadata

record file_info =
  fi_Regular :: bool
  fi_Perm :: nat
  fi_Size :: int

text \<open>
  The last group are calls of the feature store, of the compose loader, of \<^verbatim>\<open>docker compose\<close> and of the
  file system of the host: paths are strings, the contents of a file are its text.
\<close>

datatype call =
    CreateNetwork network_spec
  | CreateVolume volume_spec
  | ListContainers label_filter
  | InspectContainer string
  | InspectImage string
  | StartContainer string
  | StopContainer string
  | RemoveContainer string
  | RunContainer run_spec
  | PullImage string
  | RemoveNetwork string
  | RemoveVolume string
  | ListImages label_filter
  | RemoveImage string
  | ExecContainer string exec_options
  | ExecHost host_command
  | Emit event
  | ResolveContainer string
  | CtxErr
  | Now
  | Sleep int
  | FindContainerByLabel string string
  | RemoveContainerOpts string bool
  | BuildImage build_spec
  | FetchFeature string string
  | LoadProject load_options
  | ComposeUp compose_up_spec
  | ComposeContainerID compose_ps_spec string
  | ComposeDown string bool
  | StatPath string
  | StatOwner string
  | ReadFile string
  | WriteFile string string
  | MkdirTemp string
  | MkdirAll string
  | CopyDir string string
  | RemoveAll string
  | EvalSymlinks string
  | WalkDir string
  | Chtimes string

datatype resp =
    RErr runtime_error
  | RUnit
  | RStr string
  | RContainers "container list"
  | RContainer container
  | RDetails "container_details option"
  | RImage "image_details option"
  | RImages "image_ref list"
  | RExec exec_result
  | RTime int
  | RFound "container option"
  | RFetched fetched
  | RProject project
  | RFile "string option"
  | RInfo file_info
  | ROwner int int
  | RStrs "string list"

datatype 'a prog = Ret 'a | Do call "resp \<Rightarrow> 'a prog"

lemma prog_induct [case_names Ret Do, induct type: prog]:
  assumes "\<And>x. P (Ret x)" "\<And>c k. (\<And>r. P (k r)) \<Longrightarrow> P (Do c k)"
  shows "P p"
  by (rule prog.induct) (auto intro: assms)

primrec andThen :: "'a prog \<Rightarrow> ('a \<Rightarrow> 'b prog) \<Rightarrow> 'b prog" where
  "andThen (Ret x) f = f x"
| "andThen (Do c k) f = Do c (\<lambda>r. andThen (k r) f)"

lemma andThen_assoc: "andThen (andThen p f) g = andThen p (\<lambda>x. andThen (f x) g)"
  by (induction p) auto

lemma andThen_Ret: "andThen p Ret = p"
  by (induction p) auto

section \<open>Responses\<close>

definition errOf :: "resp \<Rightarrow> runtime_error option" where
  "errOf r = (case r of RErr e \<Rightarrow> Some e | _ \<Rightarrow> None)"

definition badShape :: runtime_error where
  "badShape = OtherError ''response of another call''"

definition asStr :: "resp \<Rightarrow> runtime_error + string" where
  "asStr r = (case r of RErr e \<Rightarrow> Inl e | RStr s \<Rightarrow> Inr s | _ \<Rightarrow> Inl badShape)"

definition asContainers :: "resp \<Rightarrow> runtime_error + container list" where
  "asContainers r = (case r of RErr e \<Rightarrow> Inl e | RContainers cs \<Rightarrow> Inr cs | _ \<Rightarrow> Inl badShape)"

definition asContainer :: "resp \<Rightarrow> runtime_error + container" where
  "asContainer r = (case r of RErr e \<Rightarrow> Inl e | RContainer c \<Rightarrow> Inr c | _ \<Rightarrow> Inl badShape)"

definition asExec :: "resp \<Rightarrow> runtime_error + exec_result" where
  "asExec r = (case r of RErr e \<Rightarrow> Inl e | RExec x \<Rightarrow> Inr x | _ \<Rightarrow> Inl badShape)"

text \<open>\<^verbatim>\<open>err == nil && details != nil\<close>.\<close>

definition asDetails :: "resp \<Rightarrow> container_details option" where
  "asDetails r = (case r of RDetails d \<Rightarrow> d | _ \<Rightarrow> None)"

definition asImage :: "resp \<Rightarrow> image_details option" where
  "asImage r = (case r of RImage d \<Rightarrow> d | _ \<Rightarrow> None)"

definition asImages :: "resp \<Rightarrow> image_ref list option" where
  "asImages r = (case r of RImages is \<Rightarrow> Some is | _ \<Rightarrow> None)"

definition asFound :: "resp \<Rightarrow> runtime_error + container option" where
  "asFound r = (case r of RErr e \<Rightarrow> Inl e | RFound c \<Rightarrow> Inr c | _ \<Rightarrow> Inl badShape)"

definition asFetched :: "resp \<Rightarrow> runtime_error + fetched" where
  "asFetched r = (case r of RErr e \<Rightarrow> Inl e | RFetched f \<Rightarrow> Inr f | _ \<Rightarrow> Inl badShape)"

definition asProject :: "resp \<Rightarrow> runtime_error + project" where
  "asProject r = (case r of RErr e \<Rightarrow> Inl e | RProject p \<Rightarrow> Inr p | _ \<Rightarrow> Inl badShape)"

text \<open>The contents of a file; \<^verbatim>\<open>None\<close> when it does not exist.\<close>

definition asFile :: "resp \<Rightarrow> runtime_error + string option" where
  "asFile r = (case r of RErr e \<Rightarrow> Inl e | RFile f \<Rightarrow> Inr f | _ \<Rightarrow> Inl badShape)"

definition asInfo :: "resp \<Rightarrow> runtime_error + file_info" where
  "asInfo r = (case r of RErr e \<Rightarrow> Inl e | RInfo i \<Rightarrow> Inr i | _ \<Rightarrow> Inl badShape)"

definition asOwner :: "resp \<Rightarrow> (int \<times> int) option" where
  "asOwner r = (case r of ROwner u g \<Rightarrow> Some (u, g) | _ \<Rightarrow> None)"

definition asStrs :: "resp \<Rightarrow> runtime_error + string list" where
  "asStrs r = (case r of RErr e \<Rightarrow> Inl e | RStrs xs \<Rightarrow> Inr xs | _ \<Rightarrow> Inl badShape)"

definition asTime :: "resp \<Rightarrow> int" where
  "asTime r = (case r of RTime t \<Rightarrow> t | _ \<Rightarrow> 0)"

lemmas resp_defs = errOf_def asStr_def asContainers_def asContainer_def asExec_def asDetails_def
  asImage_def asImages_def asTime_def asFound_def asFetched_def asProject_def asFile_def asInfo_def
  asOwner_def asStrs_def

section \<open>Traces\<close>

inductive trace :: "'a prog \<Rightarrow> (call \<times> resp) list \<Rightarrow> 'a \<Rightarrow> bool" where
  trace_Ret: "trace (Ret x) [] x"
| trace_Do: "trace (k r) tr x \<Longrightarrow> trace (Do c k) ((c, r) # tr) x"

inductive_simps trace_Ret_iff [simp]: "trace (Ret y) tr x"
inductive_simps trace_Do_iff: "trace (Do c k) tr x"
inductive_cases trace_DoE [elim]: "trace (Do c k) tr x"

lemma trace_Do_Cons [simp]: "trace (Do c k) ((d, r) # tr) x \<longleftrightarrow> d = c \<and> trace (k r) tr x"
  by (auto intro: trace_Do)

lemma trace_andThen:
  "trace (andThen p f) tr y \<longleftrightarrow> (\<exists>t1 t2 x. tr = t1 @ t2 \<and> trace p t1 x \<and> trace (f x) t2 y)"
proof (induction p arbitrary: tr)
  case (Ret x)
  then show ?case by simp
next
  case (Do c k)
  show ?case
  proof
    assume "trace (andThen (Do c k) f) tr y"
    then obtain r tr' where "tr = (c, r) # tr'" "trace (andThen (k r) f) tr' y"
      by (auto simp: trace_Do_iff)
    with Do [of r] show "\<exists>t1 t2 x. tr = t1 @ t2 \<and> trace (Do c k) t1 x \<and> trace (f x) t2 y"
      by (metis append_Cons trace_Do_Cons)
  next
    assume "\<exists>t1 t2 x. tr = t1 @ t2 \<and> trace (Do c k) t1 x \<and> trace (f x) t2 y"
    then obtain t1 t2 x r t1' where "tr = t1 @ t2" "trace (f x) t2 y" "t1 = (c, r) # t1'"
        "trace (k r) t1' x"
      by (auto simp: trace_Do_iff)
    with Do [of r] show "trace (andThen (Do c k) f) tr y" by auto
  qed
qed

text \<open>Execution against a backend: a state and a handler for calls.\<close>

primrec runProg ::
  "'a prog \<Rightarrow> (call \<Rightarrow> 'w \<Rightarrow> resp \<times> 'w) \<Rightarrow> 'w \<Rightarrow> 'a \<times> 'w \<times> (call \<times> resp) list" where
  "runProg (Ret x) h w = (x, w, [])"
| "runProg (Do c k) h w =
     (case h c w of (r, w') \<Rightarrow> case runProg (k r) h w' of (x, w'', tr) \<Rightarrow> (x, w'', (c, r) # tr))"

lemma runProg_trace: "runProg p h w = (x, w', tr) \<Longrightarrow> trace p tr x"
  by (induction p arbitrary: w tr) (auto split: prod.splits)

section \<open>All calls and all results of a program\<close>

primrec allCalls :: "(call \<Rightarrow> bool) \<Rightarrow> 'a prog \<Rightarrow> bool" where
  "allCalls P (Ret x) = True"
| "allCalls P (Do c k) = (P c \<and> (\<forall>r. allCalls P (k r)))"

primrec allRets :: "('a \<Rightarrow> bool) \<Rightarrow> 'a prog \<Rightarrow> bool" where
  "allRets Q (Ret x) = Q x"
| "allRets Q (Do c k) = (\<forall>r. allRets Q (k r))"

lemma allCalls_trace: "trace p tr x \<Longrightarrow> allCalls P p \<Longrightarrow> (c, r) \<in> set tr \<Longrightarrow> P c"
  by (induction rule: trace.induct) auto

lemma allRets_trace: "trace p tr x \<Longrightarrow> allRets Q p \<Longrightarrow> Q x"
  by (induction rule: trace.induct) auto

lemma allRets_mono: "allRets Q p \<Longrightarrow> (\<And>x. Q x \<Longrightarrow> R x) \<Longrightarrow> allRets R p"
  by (induction p) auto

lemma allRets_True [simp]: "allRets (\<lambda>x. True) p"
  by (induction p) auto

lemma allRets_andThen [simp]: "allRets Q (andThen p f) \<longleftrightarrow> allRets (\<lambda>x. allRets Q (f x)) p"
  by (induction p) auto

lemma allCalls_andThen:
  "allCalls P p \<Longrightarrow> allRets (\<lambda>x. allCalls P (f x)) p \<Longrightarrow> allCalls P (andThen p f)"
  by (induction p) auto

lemma allCalls_andThenI:
  "allCalls P p \<Longrightarrow> (\<And>x. allCalls P (f x)) \<Longrightarrow> allCalls P (andThen p f)"
  by (rule allCalls_andThen) (auto intro: allRets_mono [OF allRets_True])

section \<open>Goroutines of a wait group\<close>

definition subprog :: "('a prog \<times> 'a prog) set" where
  "subprog = {(k r, Do c k) | c k r. True}"

lemma wf_subprog: "wf (subprog :: ('a prog \<times> 'a prog) set)"
proof (rule wfUNIVI)
  fix P :: "'a prog \<Rightarrow> bool" and p
  assume step: "\<forall>x. (\<forall>y. (y, x) \<in> subprog \<longrightarrow> P y) \<longrightarrow> P x"
  show "P p"
  proof (induction p)
    case (Ret x)
    then show ?case using step by (auto simp: subprog_def)
  next
    case (Do c k)
    have "P y" if "(y, Do c k) \<in> subprog" for y using that Do by (auto simp: subprog_def)
    then show ?case using step by blast
  qed
qed

text \<open>
  A goroutine that ends stores its container id under its service name, or its error when it is
  the first (\<^verbatim>\<open>firstErr\<close>, \<^verbatim>\<open>firstSvc\<close>). The state is the pair of the shared map and that error.
\<close>

type_synonym 'e pool = "string gomap \<times> (string \<times> 'e) option"

definition finish :: "string \<Rightarrow> 'e + string \<Rightarrow> 'e pool \<Rightarrow> 'e pool" where
  "finish name r st = (case r of
     Inl e \<Rightarrow> (fst st, if snd st = None then Some (name, e) else snd st)
   | Inr i \<Rightarrow> (mput name i (fst st), snd st))"

definition removeNth :: "nat \<Rightarrow> 'a list \<Rightarrow> 'a list" where
  "removeNth i xs = take i xs @ drop (Suc i) xs"

function interleave ::
  "(nat \<Rightarrow> nat) \<Rightarrow> nat \<Rightarrow> (string \<times> ('e + string) prog) list \<Rightarrow> 'e pool \<Rightarrow> 'e pool prog" where
  "interleave pick n threads st =
     (if threads = [] then Ret st
      else let i = pick n mod length threads; name = fst (threads ! i) in
        case snd (threads ! i) of
          Ret r \<Rightarrow> interleave pick (Suc n) (removeNth i threads) (finish name r st)
        | Do c k \<Rightarrow>
            (case c of
               ResolveContainer x \<Rightarrow>
                 interleave pick (Suc n) (threads[i := (name, k (RStr (mget (fst st) x)))]) st
             | _ \<Rightarrow> Do c (\<lambda>r. interleave pick (Suc n) (threads[i := (name, k r)]) st)))"
  by pat_completeness auto

lemma mset_removeNth: "i < length xs \<Longrightarrow> mset xs = add_mset (xs ! i) (mset (removeNth i xs))"
proof -
  assume "i < length xs"
  then have "xs = take i xs @ xs ! i # drop (Suc i) xs" by (simp add: id_take_nth_drop)
  then have "mset xs = mset (take i xs) + add_mset (xs ! i) (mset (drop (Suc i) xs))"
    by (metis mset.simps(2) mset_append)
  then show ?thesis by (simp add: removeNth_def)
qed

lemma pool_shrinks_end:
  "i < length ts \<Longrightarrow> (mset (map snd (removeNth i ts)), mset (map snd ts)) \<in> mult subprog"
  using mset_removeNth [of i ts] by (auto intro!: one_step_implies_mult [of "{#_#}" "{#}", simplified])

lemma pool_shrinks_step:
  assumes "i < length ts" "snd (ts ! i) = Do c k"
  shows "(mset (map snd (ts[i := (name, k r)])), mset (map snd ts)) \<in> mult subprog"
proof -
  let ?M = "mset (map snd (removeNth i ts))"
  have "mset (map snd ts) = ?M + {#Do c k#}" using mset_removeNth [OF assms(1)] assms(2) by simp
  moreover have "mset (ts[i := (name, k r)]) = add_mset (name, k r) (mset (removeNth i ts))"
    using assms(1) mset_removeNth [of i "ts[i := (name, k r)]"] by (simp add: removeNth_def)
  then have "mset (map snd (ts[i := (name, k r)])) = ?M + {#k r#}" by simp
  moreover have "(?M + {#k r#}, ?M + {#Do c k#}) \<in> mult subprog"
    by (rule one_step_implies_mult) (auto simp: subprog_def)
  ultimately show ?thesis by simp
qed

lemma pick_bound: "ts \<noteq> [] \<Longrightarrow> (p::nat) mod length ts < length ts"
  by simp

termination interleave
proof (relation "inv_image (mult subprog) (\<lambda>(pick, n, threads, st). mset (map snd threads))",
    goal_cases)
  case 1
  then show ?case by (intro wf_inv_image wf_mult wf_subprog)
qed (auto intro!: pool_shrinks_end pool_shrinks_step simp del: mset_map)

declare interleave.simps [simp del]

section \<open>What holds of every interleaving\<close>

definition isResolve :: "call \<Rightarrow> bool" where
  "isResolve c = (case c of ResolveContainer x \<Rightarrow> True | _ \<Rightarrow> False)"

text \<open>One scheduling step, by cases of the goroutine picked.\<close>

lemma interleave_Nil: "interleave pick n [] st = Ret st"
  by (subst interleave.simps) simp

lemma interleave_Ret:
  "ts \<noteq> [] \<Longrightarrow> ts ! (pick n mod length ts) = (name, Ret r) \<Longrightarrow>
     interleave pick n ts st =
       interleave pick (Suc n) (removeNth (pick n mod length ts) ts) (finish name r st)"
  by (subst interleave.simps) (simp add: Let_def)

lemma interleave_Resolve:
  "ts \<noteq> [] \<Longrightarrow> ts ! (pick n mod length ts) = (name, Do (ResolveContainer x) k) \<Longrightarrow>
     interleave pick n ts st =
       interleave pick (Suc n) (ts[pick n mod length ts := (name, k (RStr (mget (fst st) x)))]) st"
  by (subst interleave.simps) (simp add: Let_def)

lemma interleave_Do:
  "ts \<noteq> [] \<Longrightarrow> ts ! (pick n mod length ts) = (name, Do c k) \<Longrightarrow> \<not> isResolve c \<Longrightarrow>
     interleave pick n ts st =
       Do c (\<lambda>r. interleave pick (Suc n) (ts[pick n mod length ts := (name, k r)]) st)"
  by (subst interleave.simps) (cases c; simp add: Let_def isResolve_def)

text \<open>The induction over a pool that all facts about \<open>interleave\<close> use.\<close>

lemma pool_induct [case_names finished returning reading calling]:
  assumes finished: "\<And>n st. P n [] st"
    and returning: "\<And>n ts st name r i. i < length ts \<Longrightarrow> ts ! i = (name, Ret r) \<Longrightarrow>
      P (Suc n) (removeNth i ts) (finish name r st) \<Longrightarrow> i = pick n mod length ts \<Longrightarrow> P n ts st"
    and reading: "\<And>n ts st name x k i. i < length ts \<Longrightarrow> ts ! i = (name, Do (ResolveContainer x) k) \<Longrightarrow>
      P (Suc n) (ts[i := (name, k (RStr (mget (fst st) x)))]) st \<Longrightarrow> i = pick n mod length ts \<Longrightarrow> P n ts st"
    and calling: "\<And>n ts st name c k i. i < length ts \<Longrightarrow> ts ! i = (name, Do c k) \<Longrightarrow> \<not> isResolve c \<Longrightarrow>
      (\<And>r. P (Suc n) (ts[i := (name, k r)]) st) \<Longrightarrow> i = pick n mod length ts \<Longrightarrow> P n ts st"
  shows "P n ts st"
proof (induction "mset (map snd ts)" arbitrary: n ts st rule: wf_induct_rule [OF wf_mult [OF wf_subprog]])
  case (1 ts n st)
  show ?case
  proof (cases "ts = []")
    case True
    then show ?thesis using finished by simp
  next
    case False
    define i where "i = pick n mod length ts"
    have i: "i < length ts" using False by (simp add: i_def)
    obtain name q where q: "ts ! i = (name, q)" by fastforce
    show ?thesis
    proof (cases q)
      case (Ret r)
      have "P (Suc n) (removeNth i ts) (finish name r st)"
        by (rule 1) (rule pool_shrinks_end [OF i])
      then show ?thesis using returning [OF i _ _ i_def] q Ret by blast
    next
      case (Do c k)
      have ih: "P (Suc n) (ts[i := (name, k r)]) st" for r
        by (rule 1) (rule pool_shrinks_step [OF i], use q Do in simp)
      show ?thesis
      proof (cases "isResolve c")
        case True
        then obtain x where "c = ResolveContainer x" by (auto simp: isResolve_def split: call.splits)
        then show ?thesis using reading [OF i _ _ i_def] q Do ih by blast
      next
        case False
        then show ?thesis using calling [OF i _ _ _ i_def] q Do ih by blast
      qed
    qed
  qed
qed

lemma set_removeNth: "set (removeNth i xs) \<subseteq> set xs"
  by (auto simp: removeNth_def dest: in_set_takeD in_set_dropD)

lemma allCalls_interleave:
  "(\<And>t. t \<in> set ts \<Longrightarrow> allCalls (\<lambda>c. isResolve c \<or> P c) (snd t)) \<Longrightarrow> allCalls P (interleave pick n ts st)"
proof (induction n ts st rule: pool_induct [where pick = pick])
  case (finished n st)
  then show ?case by (simp add: interleave_Nil)
next
  case (returning n ts st name r i)
  then have "ts \<noteq> []" by auto
  with returning set_removeNth [of i ts] show ?case by (subst interleave_Ret) auto
next
  case (reading n ts st name x k i)
  then have ne: "ts \<noteq> []" by auto
  have "ts ! i \<in> set ts" using reading.hyps(1) by (rule nth_mem)
  then have "allCalls (\<lambda>c. isResolve c \<or> P c) (snd (ts ! i))" using reading.prems by blast
  then have "\<And>r. allCalls (\<lambda>c. isResolve c \<or> P c) (k r)" by (simp add: reading.hyps(2))
  then have "allCalls P (interleave pick (Suc n) (ts[i := (name, k (RStr (mget (fst st) x)))]) st)"
    using reading.prems by (intro reading.IH) (auto dest!: set_update_subset_insert [THEN subsetD])
  with reading ne show ?case by (subst interleave_Resolve) auto
next
  case (calling n ts st name c k i)
  then have ne: "ts \<noteq> []" by auto
  have "ts ! i \<in> set ts" using calling.hyps(1) by (rule nth_mem)
  then have "allCalls (\<lambda>c. isResolve c \<or> P c) (snd (ts ! i))" using calling.prems by blast
  then have c: "P c" and "\<And>r. allCalls (\<lambda>c. isResolve c \<or> P c) (k r)"
    using calling.hyps(3) by (auto simp: calling.hyps(2))
  then have "allCalls P (interleave pick (Suc n) (ts[i := (name, k r)]) st)" for r
    using calling.prems by (intro calling.IH) (auto dest!: set_update_subset_insert [THEN subsetD])
  with calling ne c show ?case by (subst interleave_Do) auto
qed

text \<open>
  The pool's outcome: nothing but the names of the goroutines is written, an entry per goroutine
  when there is no error, and an error of a goroutine otherwise.
\<close>

definition pool_post :: "string set \<Rightarrow> 'e pool \<Rightarrow> 'e pool \<Rightarrow> bool" where
  "pool_post names st st' \<longleftrightarrow>
     fst ` set (fst st) \<subseteq> fst ` set (fst st')
     \<and> fst ` set (fst st') \<subseteq> fst ` set (fst st) \<union> names
     \<and> (\<forall>k. k \<notin> names \<longrightarrow> map_of (fst st') k = map_of (fst st) k)
     \<and> (wf_map (fst st) \<longrightarrow> wf_map (fst st'))
     \<and> (snd st' = None \<longrightarrow> snd st = None \<and> fst ` set (fst st') = fst ` set (fst st) \<union> names)
     \<and> (snd st = None \<longrightarrow> (\<forall>ne. snd st' = Some ne \<longrightarrow> fst ne \<in> names))
     \<and> (\<forall>ne. snd st = Some ne \<longrightarrow> snd st' = Some ne)"

lemma pool_post_refl: "pool_post {} st st"
  by (simp add: pool_post_def)

lemma pool_post_finish:
  assumes "pool_post names (finish name r st) st'"
  shows "pool_post (insert name names) st st'"
  using assms by (cases r; cases "snd st") (auto simp: pool_post_def finish_def)

lemma names_removeNth:
  "i < length ts \<Longrightarrow> ts ! i = (name, p) \<Longrightarrow> fst ` set ts = insert name (fst ` set (removeNth i ts))"
  using mset_removeNth [of i ts] by (metis (no_types) fst_conv image_insert set_mset_add_mset_insert set_mset_mset)

lemma names_update:
  "i < length ts \<Longrightarrow> ts ! i = (name, p) \<Longrightarrow> fst ` set (ts[i := (name, q)]) = fst ` set ts"
  by (metis fst_conv list.set_map list_update_id map_update)

lemma allRets_interleave: "allRets (pool_post (fst ` set ts) st) (interleave pick n ts st)"
proof (induction n ts st rule: pool_induct [where pick = pick])
  case (finished n st)
  then show ?case by (simp add: interleave_Nil pool_post_refl)
next
  case (returning n ts st name r i)
  then have ne: "ts \<noteq> []" by auto
  have "allRets (pool_post (fst ` set ts) st) (interleave pick (Suc n) (removeNth i ts) (finish name r st))"
    using returning.IH unfolding names_removeNth [OF returning.hyps(1,2)]
    by (rule allRets_mono) (rule pool_post_finish)
  with returning ne show ?case by (subst interleave_Ret) auto
next
  case (reading n ts st name x k i)
  then have ne: "ts \<noteq> []" by auto
  with reading show ?case by (subst interleave_Resolve) (auto simp: names_update)
next
  case (calling n ts st name c k i)
  then have ne: "ts \<noteq> []" by auto
  with calling show ?case by (subst interleave_Do) (auto simp: names_update)
qed

text \<open>The goroutine whose error is reported has left no entry in the map.\<close>

lemma map_removeNth: "map f (removeNth i xs) = removeNth i (map f xs)"
  by (simp add: removeNth_def take_map drop_map)

lemma distinct_removeNth: "distinct xs \<Longrightarrow> distinct (removeNth i xs)"
  by (simp add: removeNth_def set_take_disj_set_drop_if_distinct)

lemma removeNth_notin:
  assumes "distinct xs" "i < length xs"
  shows "xs ! i \<notin> set (removeNth i xs)"
proof -
  have "distinct (xs ! i # removeNth i xs)"
    using assms mset_removeNth [OF assms(2)] by (metis mset.simps(2) mset_eq_imp_distinct_iff)
  then show ?thesis by simp
qed

definition failed_absent :: "'e pool \<Rightarrow> string set \<Rightarrow> bool" where
  "failed_absent st names \<longleftrightarrow>
     (\<forall>n e. snd st = Some (n, e) \<longrightarrow> n \<notin> fst ` set (fst st) \<and> n \<notin> names)"

lemma failed_absent_finish:
  "failed_absent st (insert name names) \<Longrightarrow> name \<notin> names \<Longrightarrow> name \<notin> fst ` set (fst st) \<Longrightarrow>
     failed_absent (finish name r st) names"
  by (cases r; cases "snd st") (auto simp: failed_absent_def finish_def)

lemma keys_finish: "fst ` set (fst (finish name r st)) \<subseteq> insert name (fst ` set (fst st))"
  by (cases r) (auto simp: finish_def)

lemma allRets_interleave_failed:
  "distinct (map fst ts) \<Longrightarrow> fst ` set ts \<inter> fst ` set (fst st) = {} \<Longrightarrow> failed_absent st (fst ` set ts) \<Longrightarrow>
     allRets (\<lambda>st'. failed_absent st' {}) (interleave pick n ts st)"
proof (induction n ts st rule: pool_induct [where pick = pick])
  case (finished n st)
  then show ?case by (simp add: interleave_Nil)
next
  case (returning n ts st name r i)
  then have ne: "ts \<noteq> []" by auto
  have names: "fst ` set ts = insert name (fst ` set (removeNth i ts))"
    by (rule names_removeNth [OF returning.hyps(1,2)])
  have d: "distinct (map fst (removeNth i ts))"
    using returning.prems(1) by (simp add: map_removeNth distinct_removeNth)
  have new: "name \<notin> fst ` set (removeNth i ts)"
    using removeNth_notin [OF returning.prems(1), of i] returning.hyps(1,2)
    by (simp add: map_removeNth [symmetric] del: map_removeNth)
  have "fst ` set (removeNth i ts) \<inter> fst ` set (fst (finish name r st)) = {}"
    using returning.prems(2) names new keys_finish [of name r st] by blast
  moreover have "failed_absent (finish name r st) (fst ` set (removeNth i ts))"
    using returning.prems names new by (intro failed_absent_finish) auto
  ultimately have "allRets (\<lambda>st'. failed_absent st' {})
      (interleave pick (Suc n) (removeNth i ts) (finish name r st))"
    using returning.IH d by blast
  with returning.hyps ne show ?case by (subst interleave_Ret) auto
next
  case (reading n ts st name x k i)
  then have ne: "ts \<noteq> []" by auto
  have m: "map fst (ts[i := (name, k (RStr (mget (fst st) x)))]) = map fst ts"
    using reading.hyps by (metis fst_conv list_update_id map_update)
  with reading.IH reading.prems have "allRets (\<lambda>st'. failed_absent st' {})
      (interleave pick (Suc n) (ts[i := (name, k (RStr (mget (fst st) x)))]) st)"
    by (metis list.set_map)
  with reading.hyps ne show ?case by (subst interleave_Resolve) auto
next
  case (calling n ts st name c k i)
  then have ne: "ts \<noteq> []" by auto
  have m: "map fst (ts[i := (name, k r)]) = map fst ts" for r
    using calling.hyps by (metis fst_conv list_update_id map_update)
  with calling.IH calling.prems have "allRets (\<lambda>st'. failed_absent st' {})
      (interleave pick (Suc n) (ts[i := (name, k r)]) st)" for r
    by (metis list.set_map)
  with calling.hyps ne show ?case by (subst interleave_Do) auto
qed

end
