(* ===== verification/Orchestrator.thy ===== *)
theory Orchestrator
  imports Compose_Plan Compose_Override Runtime_Prog
begin

text \<open>
  \<^verbatim>\<open>compose/orchestrator.go\<close>: bringing a project up (network, volumes, services level by level with
  reuse or recreation, health gates, hosts files) and tearing it down. Every method is a program
  of runtime calls. The parameters of the model are in \<open>orch_env\<close>: the two durations of the
  \<^verbatim>\<open>Orchestrator\<close> struct, the hash function, and the floating-point conversion of a CPU count to
  nano-CPUs (the field's width is the loader's). \<open>fuel\<close> bounds the polls of one health gate.
\<close>

section \<open>Constants, environment, errors\<close>

definition LabelComposeProject :: string where "LabelComposeProject = ''com.docker.compose.project''"
definition LabelComposeService :: string where "LabelComposeService = ''com.docker.compose.service''"
definition LabelComposeOneoff :: string where "LabelComposeOneoff = ''com.docker.compose.oneoff''"
definition LabelEngine :: string where "LabelEngine = ''dev.containers.engine''"
definition LabelConfigHash :: string where "LabelConfigHash = ''dev.containers.config-hash''"
definition LabelImageDigest :: string where "LabelImageDigest = ''dev.containers.image-digest''"
definition EngineDisplayName :: string where "EngineDisplayName = ''devcontainer-go/compose''"

definition reservedLabels :: "string list" where
  "reservedLabels = [LabelComposeProject, LabelComposeService, LabelComposeOneoff, LabelEngine,
     LabelConfigHash, LabelImageDigest]"

lemmas label_defs = LabelComposeProject_def LabelComposeService_def LabelComposeOneoff_def
  LabelEngine_def LabelConfigHash_def LabelImageDigest_def

record orch_env =
  oe_HealthTimeout :: int
  oe_PollInterval :: int
  oe_hash :: "string \<Rightarrow> service_config \<Rightarrow> string"
  oe_nanos :: "rat \<Rightarrow> int"

datatype orch_error =
    ValidateFailed plan_error
  | TopoFailed topo_error
  | NetworkFailed runtime_error
  | VolumeFailed string runtime_error
  | ListFailed string runtime_error
  | StartFailed string runtime_error
  | RemoveFailed string runtime_error
  | NamespaceFailed string string string string
  | PullFailed string string runtime_error
  | RunFailed string runtime_error
  | PartialUpError "string list" string orch_error
  | HealthTimeoutError string string
  | ReportedUnhealthy string
  | ExitedNonZero string int
  | HealthNeverReported string
  | ContextDone runtime_error
  | FuelExhausted
  | ProjectNameRequired

record up_result =
  ur_ContainerIDs :: "string gomap"
  ur_Network :: string

section \<open>Translation of a service\<close>

definition resourcesOf :: "(rat \<Rightarrow> int) \<Rightarrow> service_config \<Rightarrow> int \<times> int" where
  "resourcesOf nanos svc =
     (let (mem0, cpu0) =
            (case svc_Deploy svc of
               None \<Rightarrow> (0, 0)
             | Some d \<Rightarrow>
                 (case res_Limits (dc_Resources d) of
                    None \<Rightarrow> (0, 0)
                  | Some l \<Rightarrow> (lim_MemoryBytes l,
                               if lim_NanoCPUs l > 0 then nanos (lim_NanoCPUs l) else 0)));
          mem = (if mem0 = 0 then svc_MemLimit svc else mem0);
          cpu = (if cpu0 = 0 \<and> svc_CPUS svc > 0 then nanos (svc_CPUS svc) else cpu0)
      in (mem, cpu))"

definition ptrOr0 :: "int option \<Rightarrow> int" where
  "ptrOr0 p = (case p of None \<Rightarrow> 0 | Some v \<Rightarrow> v)"

definition healthCheckOf :: "health_check_config option \<Rightarrow> health_check_spec option" where
  "healthCheckOf hc = (case hc of
     None \<Rightarrow> None
   | Some h \<Rightarrow> Some \<lparr>hs_Test = hc_Test h, hs_Interval = ptrOr0 (hc_Interval h),
       hs_Timeout = ptrOr0 (hc_Timeout h), hs_Retries = ptrOr0 (hc_Retries h),
       hs_StartPeriod = ptrOr0 (hc_StartPeriod h),
       hs_StartInterval = ptrOr0 (hc_StartInterval h), hs_Disable = hc_Disable h\<rparr>)"

definition portsOf :: "service_port list \<Rightarrow> port_binding list" where
  "portsOf ps = map (\<lambda>p. \<lparr>pb_HostIP = sp_HostIP p, pb_HostPort = sp_Published p,
     pb_ContainerPort = sp_Target p, pb_Protocol = sp_Protocol p\<rparr>) ps"

definition restartPolicyOf :: "string \<Rightarrow> restart_policy" where
  "restartPolicyOf s =
     (if s = ''always'' then RestartAlways
      else if s = ''on-failure'' then RestartOnFailure
      else if s = ''unless-stopped'' then RestartUnlessStopped
      else RestartNo)"

definition mountTypeOf :: "string \<Rightarrow> string" where
  "mountTypeOf s =
     (if s = ''bind'' then MountBind else if s = ''volume'' then MountVolume
      else if s = ''tmpfs'' then MountTmpfs else MountBind)"

definition mountSourceOf :: "service_volume \<Rightarrow> string \<Rightarrow> string" where
  "mountSourceOf v projectName =
     (if sv_Type v = ''volume'' \<and> sv_Source v \<noteq> [] then projectName @ ''_'' @ sv_Source v
      else sv_Source v)"

definition serviceLabels ::
  "plan \<Rightarrow> service_config \<Rightarrow> string gomap \<Rightarrow> string \<Rightarrow> string \<Rightarrow> string gomap" where
  "serviceLabels plan svc projectLabels hash imageDigest =
     (let l1 = mputall (mputall [] (plan_Labels plan)) projectLabels;
          l2 = mput LabelComposeService (svc_Name svc) l1;
          l3 = mput LabelComposeOneoff ''False'' l2;
          l4 = mput LabelConfigHash hash l3;
          l5 = (if imageDigest \<noteq> [] then mput LabelImageDigest imageDigest l4 else l4)
      in mputall l5 (filter (\<lambda>(k, v). k \<notin> set reservedLabels) (svc_Labels svc)))"

definition serviceEnv :: "string option gomap \<Rightarrow> string gomap" where
  "serviceEnv e = concat (map (\<lambda>(k, vptr). case vptr of None \<Rightarrow> [] | Some v \<Rightarrow> [(k, v)]) e)"

definition runSpecOf ::
  "orch_env \<Rightarrow> plan \<Rightarrow> service_config \<Rightarrow> string gomap \<Rightarrow> string \<Rightarrow> string \<Rightarrow> string \<Rightarrow> run_spec" where
  "runSpecOf env plan svc labels networkMode pidMode ipcMode =
     (let (memBytes, nanoCPUs) = resourcesOf (oe_nanos env) svc in
      \<lparr>rs_Image = svc_Image svc,
       rs_Name = plan_ProjectName plan @ ''-'' @ svc_Name svc @ ''-1'',
       rs_Cmd = svc_Command svc,
       rs_Entrypoint = svc_Entrypoint svc,
       rs_User = svc_User svc,
       rs_WorkingDir = svc_WorkingDir svc,
       rs_Env = serviceEnv (svc_Environment svc),
       rs_Labels = labels,
       rs_Mounts = map (\<lambda>v. \<lparr>ms_Type = mountTypeOf (sv_Type v),
         ms_Source = mountSourceOf v (plan_ProjectName plan), ms_Target = sv_Target v,
         ms_ReadOnly = sv_ReadOnly v, ms_Propagation = []\<rparr>) (svc_Volumes svc),
       rs_RunArgs = [],
       rs_Init = (svc_Init svc = Some True),
       rs_Privileged = svc_Privileged svc,
       rs_CapAdd = svc_CapAdd svc,
       rs_SecurityOpt = svc_SecurityOpt svc,
       rs_HealthCheck = healthCheckOf (svc_HealthCheck svc),
       rs_Networks = (if networkMode \<noteq> [] then [] else [plan_ProjectName plan @ ''_default'']),
       rs_NetworkMode = networkMode,
       rs_PidMode = pidMode,
       rs_IpcMode = ipcMode,
       rs_Ports = portsOf (svc_Ports svc),
       rs_RestartPolicy = restartPolicyOf (svc_Restart svc),
       rs_OverrideCommand = False,
       rs_MemoryBytes = memBytes,
       rs_NanoCPUs = nanoCPUs\<rparr>)"

definition resolveNamespaceMode :: "string \<Rightarrow> (string \<times> string + string) prog" where
  "resolveNamespaceMode v =
     (let target = serviceRefTarget v in
      if target = [] then Ret (Inr v)
      else Do (ResolveContainer target) (\<lambda>r.
        case asStr r of
          Inl e \<Rightarrow> Ret (Inl (v, target))
        | Inr i \<Rightarrow> if i = [] then Ret (Inl (v, target)) else Ret (Inr (''container:'' @ i))))"

definition serviceToRunSpec ::
  "orch_env \<Rightarrow> plan \<Rightarrow> service_config \<Rightarrow> string gomap \<Rightarrow> string \<Rightarrow> string \<Rightarrow>
     (orch_error + run_spec) prog" where
  "serviceToRunSpec env plan svc projectLabels hash imageDigest =
     (let labels = serviceLabels plan svc projectLabels hash imageDigest in
      andThen (resolveNamespaceMode (svc_NetworkMode svc)) (\<lambda>n.
        case n of
          Inl (v, t) \<Rightarrow> Ret (Inl (NamespaceFailed (svc_Name svc) ''network_mode'' v t))
        | Inr networkMode \<Rightarrow>
            andThen (resolveNamespaceMode (svc_Pid svc)) (\<lambda>p.
              case p of
                Inl (v, t) \<Rightarrow> Ret (Inl (NamespaceFailed (svc_Name svc) ''pid'' v t))
              | Inr pidMode \<Rightarrow>
                  andThen (resolveNamespaceMode (svc_Ipc svc)) (\<lambda>i.
                    case i of
                      Inl (v, t) \<Rightarrow> Ret (Inl (NamespaceFailed (svc_Name svc) ''ipc'' v t))
                    | Inr ipcMode \<Rightarrow>
                        Ret (Inr (runSpecOf env plan svc labels networkMode pidMode ipcMode))))))"

section \<open>One service\<close>

definition resolveImageDigest :: "string \<Rightarrow> string prog" where
  "resolveImageDigest ref =
     (if ref = [] then Ret []
      else Do (InspectImage ref) (\<lambda>r.
        case asImage r of
          None \<Rightarrow> Ret ref
        | Some d \<Rightarrow> Ret (if im_ID d \<noteq> [] then im_ID d else ref)))"

text \<open>\<^verbatim>\<open>if c.State != StateRunning { StartContainer }; return c.ID\<close>.\<close>

definition reuseContainer :: "string \<Rightarrow> container \<Rightarrow> (orch_error + string) prog" where
  "reuseContainer what c =
     (if ct_State c \<noteq> StateRunning then
        Do (StartContainer (ct_ID c)) (\<lambda>r.
          case errOf r of
            Some e \<Rightarrow> Ret (Inl (StartFailed what e))
          | None \<Rightarrow> Ret (Inr (ct_ID c)))
      else Ret (Inr (ct_ID c)))"

definition startFresh :: "service_config \<Rightarrow> container \<Rightarrow> (orch_error + string) prog" where
  "startFresh svc c =
     Do (StartContainer (ct_ID c)) (\<lambda>r.
       case errOf r of
         Some e \<Rightarrow> Ret (Inl (StartFailed (svc_Name svc) e))
       | None \<Rightarrow> Ret (Inr (ct_ID c)))"

text \<open>Create and start, pulling a missing image once.\<close>

definition createService ::
  "orch_env \<Rightarrow> plan \<Rightarrow> service_config \<Rightarrow> string gomap \<Rightarrow> string \<Rightarrow> string \<Rightarrow>
     (orch_error + string) prog" where
  "createService env plan svc projectLabels hash imageDigest =
     andThen (serviceToRunSpec env plan svc projectLabels hash imageDigest) (\<lambda>s.
       case s of
         Inl e \<Rightarrow> Ret (Inl e)
       | Inr spec \<Rightarrow>
           Do (RunContainer spec) (\<lambda>r.
             case asContainer r of
               Inr c \<Rightarrow> startFresh svc c
             | Inl e \<Rightarrow>
                 if asImageNotFound e \<noteq> None \<and> svc_Image svc \<noteq> [] then
                   Do (PullImage (svc_Image svc)) (\<lambda>pr.
                     case errOf pr of
                       Some pe \<Rightarrow> Ret (Inl (PullFailed (svc_Image svc) (svc_Name svc) pe))
                     | None \<Rightarrow>
                         Do (RunContainer spec) (\<lambda>r2.
                           case asContainer r2 of
                             Inr c \<Rightarrow> startFresh svc c
                           | Inl e2 \<Rightarrow> Ret (Inl (RunFailed (svc_Name svc) e2))))
                 else Ret (Inl (RunFailed (svc_Name svc) e))))"

definition serviceFilter :: "plan \<Rightarrow> service_config \<Rightarrow> label_filter" where
  "serviceFilter plan svc = \<lparr>lf_Match = [(LabelComposeProject, plan_ProjectName plan),
     (LabelComposeService, svc_Name svc)]\<rparr>"

definition managed :: "container_details \<Rightarrow> bool" where
  "managed d \<longleftrightarrow> map_of (cd_Labels d) LabelConfigHash \<noteq> None"

definition upToDate :: "container_details \<Rightarrow> string \<Rightarrow> string \<Rightarrow> bool" where
  "upToDate d hash imageDigest \<longleftrightarrow>
     mget (cd_Labels d) LabelConfigHash = hash \<and> mget (cd_Labels d) LabelImageDigest = imageDigest"

definition recreateService ::
  "orch_env \<Rightarrow> plan \<Rightarrow> service_config \<Rightarrow> string gomap \<Rightarrow> string \<Rightarrow> string \<Rightarrow> container \<Rightarrow>
     (orch_error + string) prog" where
  "recreateService env plan svc projectLabels hash imageDigest c =
     Do (StopContainer (ct_ID c)) (\<lambda>_.
       Do (RemoveContainer (ct_ID c)) (\<lambda>r.
         case errOf r of
           Some e \<Rightarrow> Ret (Inl (RemoveFailed (ct_ID c) e))
         | None \<Rightarrow> createService env plan svc projectLabels hash imageDigest))"

definition ensureService ::
  "orch_env \<Rightarrow> plan \<Rightarrow> service_config \<Rightarrow> string gomap \<Rightarrow> (orch_error + string) prog" where
  "ensureService env plan svc projectLabels =
     andThen (resolveImageDigest (svc_Image svc)) (\<lambda>imageDigest.
       let hash = ConfigHash (oe_hash env) imageDigest svc in
       Do (ListContainers (serviceFilter plan svc)) (\<lambda>r.
         case asContainers r of
           Inl e \<Rightarrow> Ret (Inl (ListFailed (svc_Name svc) e))
         | Inr [] \<Rightarrow> createService env plan svc projectLabels hash imageDigest
         | Inr (c # cs) \<Rightarrow>
             if plan_AdoptExisting plan then reuseContainer (svc_Name svc) c
             else Do (InspectContainer (ct_ID c)) (\<lambda>ir.
               case asDetails ir of
                 None \<Rightarrow> recreateService env plan svc projectLabels hash imageDigest c
               | Some d \<Rightarrow>
                   if \<not> managed d then reuseContainer (svc_Name svc) c
                   else if upToDate d hash imageDigest then reuseContainer (svc_Name svc) c
                   else recreateService env plan svc projectLabels hash imageDigest c)))"

section \<open>Health gates\<close>

definition declaresActiveHealthcheck :: "health_check_config option \<Rightarrow> bool" where
  "declaresActiveHealthcheck hc = (case hc of
     None \<Rightarrow> False
   | Some h \<Rightarrow> if hc_Disable h then False
               else if hc_Test h = [] then False else hd (hc_Test h) \<noteq> ''NONE'')"

datatype verdict = Satisfied | Refused orch_error | Pending bool

text \<open>
  One poll: the \<^verbatim>\<open>switch\<close> of \<^verbatim>\<open>waitFor\<close>. \<open>unrep\<close> is the variable \<^verbatim>\<open>healthUnreported\<close>.
\<close>

definition pollVerdict ::
  "string \<Rightarrow> string \<Rightarrow> bool \<Rightarrow> bool \<Rightarrow> container_details option \<Rightarrow> verdict" where
  "pollVerdict svc cond declares unrep details =
     (case details of
        None \<Rightarrow> Pending unrep
      | Some d \<Rightarrow>
          let st = ct_State (cd_Container d) in
          if cond = ''service_healthy'' then
            if cd_Health d = HealthHealthy then Satisfied
            else if cd_Health d = HealthNone then
              if declares then Pending (st = StateRunning)
              else if st = StateRunning then Satisfied else Pending unrep
            else if cd_Health d = HealthUnhealthy then Refused (ReportedUnhealthy svc)
            else Pending unrep
          else if cond = ''service_completed_successfully'' then
            if st = StateExited \<and> cd_ExitCode d = 0 then Satisfied
            else if st = StateExited \<and> cd_ExitCode d \<noteq> 0 then
              Refused (ExitedNonZero svc (cd_ExitCode d))
            else Pending unrep
          else Pending unrep)"

fun waitFor ::
  "orch_env \<Rightarrow> nat \<Rightarrow> string \<Rightarrow> string \<Rightarrow> string \<Rightarrow> bool \<Rightarrow> int \<Rightarrow> bool \<Rightarrow> orch_error option prog" where
  "waitFor env 0 svc cid cond declares deadline unrep = Ret (Some FuelExhausted)"
| "waitFor env (Suc fuel) svc cid cond declares deadline unrep =
     Do CtxErr (\<lambda>cr.
       case errOf cr of
         Some e \<Rightarrow> Ret (Some (ContextDone e))
       | None \<Rightarrow>
           Do (InspectContainer cid) (\<lambda>r.
             case pollVerdict svc cond declares unrep (asDetails r) of
               Satisfied \<Rightarrow> Ret None
             | Refused e \<Rightarrow> Ret (Some e)
             | Pending unrep' \<Rightarrow>
                 Do Now (\<lambda>t.
                   if asTime t > deadline then
                     (if unrep' then Ret (Some (HealthNeverReported svc))
                      else Ret (Some (HealthTimeoutError svc cond)))
                   else Do (Sleep (oe_PollInterval env)) (\<lambda>sr.
                     case errOf sr of
                       Some e \<Rightarrow> Ret (Some (ContextDone e))
                     | None \<Rightarrow> waitFor env fuel svc cid cond declares deadline unrep'))))"

text \<open>
  The requirements a level must meet before the next one starts: an entry per service, its
  condition and whether it is optional.
\<close>

definition isGateCondition :: "string \<Rightarrow> bool" where
  "isGateCondition c \<longleftrightarrow> c = ''service_healthy'' \<or> c = ''service_completed_successfully''"

definition addRequirement ::
  "string list \<Rightarrow> string \<Rightarrow> service_dependency \<Rightarrow> (string \<times> bool) gomap \<Rightarrow> (string \<times> bool) gomap" where
  "addRequirement level depName dep required =
     (if depName \<notin> set level \<or> \<not> isGateCondition (dep_Condition dep) then required
      else if (case map_of required depName of None \<Rightarrow> False | Some prev \<Rightarrow> \<not> snd prev) then required
      else mput depName (dep_Condition dep, \<not> dep_Required dep) required)"

fun addRequirements ::
  "string list \<Rightarrow> service_dependency gomap \<Rightarrow> (string \<times> bool) gomap \<Rightarrow> (string \<times> bool) gomap" where
  "addRequirements level [] required = required"
| "addRequirements level ((depName, dep) # deps) required =
     addRequirements level deps (addRequirement level depName dep required)"

fun levelRequirements ::
  "string list \<Rightarrow> (string \<Rightarrow> bool) \<Rightarrow> service_config gomap \<Rightarrow> (string \<times> bool) gomap \<Rightarrow>
     (string \<times> bool) gomap" where
  "levelRequirements level keep [] required = required"
| "levelRequirements level keep ((n, dt) # services) required =
     levelRequirements level keep services
       (if keep (svc_Name dt) then addRequirements level (svc_DependsOn dt) required
        else required)"

fun gateLoop ::
  "orch_env \<Rightarrow> nat \<Rightarrow> service_config gomap \<Rightarrow> string gomap \<Rightarrow> int \<Rightarrow> (string \<times> bool) gomap \<Rightarrow>
     orch_error option prog" where
  "gateLoop env fuel services ids deadline [] = Ret None"
| "gateLoop env fuel services ids deadline ((svcName, cond, optional) # reqs) =
     (let cid = mget ids svcName in
      if cid = [] then gateLoop env fuel services ids deadline reqs
      else
        let declares = (case map_of services svcName of
              None \<Rightarrow> False | Some cfg \<Rightarrow> declaresActiveHealthcheck (svc_HealthCheck cfg))
        in andThen (waitFor env fuel svcName cid cond declares deadline False) (\<lambda>w.
             case w of
               None \<Rightarrow> gateLoop env fuel services ids deadline reqs
             | Some e \<Rightarrow> if optional then gateLoop env fuel services ids deadline reqs
                         else Ret (Some e)))"

definition gateLevel ::
  "orch_env \<Rightarrow> nat \<Rightarrow> project \<Rightarrow> string list \<Rightarrow> string gomap \<Rightarrow> (string \<Rightarrow> bool) \<Rightarrow>
     orch_error option prog" where
  "gateLevel env fuel proj level ids keep =
     (let required = levelRequirements level keep (pj_Services proj) [] in
      if required = [] then Ret None
      else Do Now (\<lambda>t.
        gateLoop env fuel (pj_Services proj) ids (asTime t + oe_HealthTimeout env) required))"

section \<open>Hosts files\<close>

text \<open>\<^verbatim>\<open>containerIP\<close>: an error and a missing label both give no address.\<close>

definition containerIP :: "string \<Rightarrow> string prog" where
  "containerIP cid =
     Do (InspectContainer cid) (\<lambda>r.
       case asDetails r of
         None \<Rightarrow> Ret []
       | Some d \<Rightarrow> Ret (mget (cd_Labels d) ''dev.containers.network-ip''))"

definition hostsMarker :: string where
  "hostsMarker = ''# devcontainer-go compose hosts patch''"

definition renderHostsBlock :: "string gomap \<Rightarrow> string" where
  "renderHostsBlock ips =
     hostsMarker @ nl @ concat (map (\<lambda>n. mget ips n @ [CHR 0x09] @ n @ nl) (sortedKeys ips))"

definition hostsScript :: "string \<Rightarrow> string" where
  "hostsScript block =
     ''set -e'' @ nl
     @ ''if grep -qF '' @ goQuote hostsMarker @ '' /etc/hosts 2>/dev/null; then'' @ nl
     @ ''  sed -i.bak '' @ [CHR 0x27] @ ''/^'' @ hostsMarker @ ''$/,/^$/d'' @ [CHR 0x27]
     @ '' /etc/hosts || true'' @ nl
     @ ''  rm -f /etc/hosts.bak'' @ nl
     @ ''fi'' @ nl
     @ ''cat >> /etc/hosts <<'' @ [CHR 0x27] @ ''EOF'' @ [CHR 0x27] @ nl
     @ block @ ''EOF'' @ nl"

fun collectIPs :: "string gomap \<Rightarrow> string gomap \<Rightarrow> string gomap prog" where
  "collectIPs [] ips = Ret ips"
| "collectIPs ((svc, cid) # ids) ips =
     andThen (containerIP cid) (\<lambda>ip. collectIPs ids (if ip = [] then ips else mput svc ip ips))"

definition appendHostsBlock :: "string \<Rightarrow> string \<Rightarrow> runtime_error option prog" where
  "appendHostsBlock cid block =
     Do (ExecContainer cid \<lparr>xo_Cmd = [''sh'', ''-c'', hostsScript block], xo_Env = [], xo_User = ''0'',
       xo_WorkingDir = []\<rparr>) (\<lambda>r. Ret (errOf r))"

fun appendHostsBlocks :: "string list \<Rightarrow> string \<Rightarrow> unit prog" where
  "appendHostsBlocks [] block = Ret ()"
| "appendHostsBlocks (cid # cids) block =
     andThen (appendHostsBlock cid block) (\<lambda>_. appendHostsBlocks cids block)"

definition patchHostsFiles :: "string gomap \<Rightarrow> unit prog" where
  "patchHostsFiles ids =
     andThen (collectIPs ids []) (\<lambda>ips.
       if ips = [] then Ret () else appendHostsBlocks (map snd ids) (renderHostsBlock ips))"

section \<open>Up\<close>

definition makeKeepSet :: "plan \<Rightarrow> project \<Rightarrow> string set" where
  "makeKeepSet plan proj =
     (if plan_Services plan = [] then fst ` set (pj_Services proj)
      else set (ServiceClosure (Some proj) (plan_Services plan)))"

definition usedVolumes :: "project \<Rightarrow> string list" where
  "usedVolumes proj =
     remdups (concat (map (\<lambda>(n, svc).
       map sv_Source (filter (\<lambda>v. sv_Type v = ''volume'' \<and> sv_Source v \<noteq> []) (svc_Volumes svc)))
       (pj_Services proj)))"

fun createVolumes ::
  "plan \<Rightarrow> project \<Rightarrow> string gomap \<Rightarrow> string list \<Rightarrow> orch_error option prog" where
  "createVolumes plan proj labels [] = Ret None"
| "createVolumes plan proj labels (name # names) =
     (if map_of (pj_Volumes proj) name = None then createVolumes plan proj labels names
      else Do (CreateVolume \<lparr>vs_Name = plan_ProjectName plan @ ''_'' @ name,
                 vs_Labels = mput ''com.docker.compose.volume'' name labels\<rparr>) (\<lambda>r.
             case asStr r of
               Inl e \<Rightarrow> Ret (Some (VolumeFailed name e))
             | Inr v \<Rightarrow> createVolumes plan proj labels names))"

definition ensureNamedVolumes :: "plan \<Rightarrow> project \<Rightarrow> string gomap \<Rightarrow> orch_error option prog" where
  "ensureNamedVolumes plan proj labels = createVolumes plan proj labels (usedVolumes proj)"

definition levelThreads ::
  "orch_env \<Rightarrow> plan \<Rightarrow> project \<Rightarrow> string gomap \<Rightarrow> string set \<Rightarrow> string list \<Rightarrow>
     (string \<times> (orch_error + string) prog) list" where
  "levelThreads env plan proj labels keep level =
     concat (map (\<lambda>name. case map_of (pj_Services proj) name of
         None \<Rightarrow> [] | Some svc \<Rightarrow> [(name, ensureService env plan svc labels)])
       (filter (\<lambda>name. name \<in> keep) level))"

fun upLevels ::
  "orch_env \<Rightarrow> nat \<Rightarrow> (string list \<Rightarrow> nat \<Rightarrow> nat) \<Rightarrow> capabilities \<Rightarrow> plan \<Rightarrow> project \<Rightarrow> string gomap \<Rightarrow>
     string set \<Rightarrow> string list list \<Rightarrow> string gomap \<Rightarrow> (string gomap \<times> orch_error option) prog" where
  "upLevels env fuel pick caps plan proj labels keep [] ids = Ret (ids, None)"
| "upLevels env fuel pick caps plan proj labels keep (level # levels) ids =
     andThen (interleave (pick level) 0 (levelThreads env plan proj labels keep level) (ids, None))
       (\<lambda>(ids', firstErr).
         case firstErr of
           Some (firstSvc, e) \<Rightarrow> Ret (ids', Some (PartialUpError (sort (map fst ids')) firstSvc e))
         | None \<Rightarrow>
             andThen (gateLevel env fuel proj level ids' (\<lambda>n. n \<in> keep)) (\<lambda>g.
               case g of
                 Some e \<Rightarrow> Ret (ids', Some e)
               | None \<Rightarrow>
                   if \<not> cap_ServiceNameDNS caps then
                     andThen (patchHostsFiles ids') (\<lambda>_.
                       upLevels env fuel pick caps plan proj labels keep levels ids')
                   else upLevels env fuel pick caps plan proj labels keep levels ids'))"

definition projectLabels :: "plan \<Rightarrow> string gomap" where
  "projectLabels plan = [(LabelComposeProject, plan_ProjectName plan), (LabelEngine, EngineDisplayName)]"

definition noResult :: up_result where
  "noResult = \<lparr>ur_ContainerIDs = [], ur_Network = []\<rparr>"

definition Up ::
  "orch_env \<Rightarrow> nat \<Rightarrow> (string list \<Rightarrow> nat \<Rightarrow> nat) \<Rightarrow> capabilities \<Rightarrow> plan option \<Rightarrow>
     (up_result \<times> orch_error option) prog" where
  "Up env fuel pick caps pl =
     (case Validate caps pl of
        Some e \<Rightarrow> Ret (noResult, Some (ValidateFailed e))
      | None \<Rightarrow>
          (case pl of
             None \<Rightarrow> Ret (noResult, Some (ValidateFailed NilPlanOrProject))
           | Some plan \<Rightarrow>
               (case TopoSort (plan_Project plan) of
                  Inl e \<Rightarrow> Ret (noResult, Some (TopoFailed e))
                | Inr levels \<Rightarrow>
                    (case plan_Project plan of
                       None \<Rightarrow> Ret (noResult, Some (TopoFailed TopoNilProject))
                     | Some proj \<Rightarrow>
                         Do (CreateNetwork \<lparr>ns_Name = plan_ProjectName plan @ ''_default'',
                                ns_Labels = projectLabels plan\<rparr>) (\<lambda>r.
                           case asStr r of
                             Inl e \<Rightarrow> Ret (noResult, Some (NetworkFailed e))
                           | Inr netID \<Rightarrow>
                               andThen (ensureNamedVolumes plan proj (projectLabels plan)) (\<lambda>v.
                                 case v of
                                   Some e \<Rightarrow> Ret (noResult\<lparr>ur_Network := netID\<rparr>, Some e)
                                 | None \<Rightarrow>
                                     andThen (upLevels env fuel pick caps plan proj (projectLabels plan)
                                                (makeKeepSet plan proj) levels []) (\<lambda>(ids, err).
                                       Ret (\<lparr>ur_ContainerIDs = ids, ur_Network = netID\<rparr>, err)))))))
     )"

section \<open>Down\<close>

definition serviceLabelOf :: "container \<Rightarrow> string" where
  "serviceLabelOf c =
     (let v = mget (ct_Labels c) LabelComposeService in if v \<noteq> [] then v else ct_Name c)"

fun levelIdxFrom :: "nat \<Rightarrow> string list list \<Rightarrow> nat gomap \<Rightarrow> nat gomap" where
  "levelIdxFrom i [] m = m"
| "levelIdxFrom i (lvl # lvls) m = levelIdxFrom (Suc i) lvls (mputall m (map (\<lambda>s. (s, i)) lvl))"

definition levelIdx :: "string list list \<Rightarrow> string \<Rightarrow> nat" where
  "levelIdx levels s = (case map_of (levelIdxFrom 0 levels []) s of None \<Rightarrow> 0 | Some i \<Rightarrow> i)"

definition orderContainersForTeardown :: "container list \<Rightarrow> down_plan \<Rightarrow> container list" where
  "orderContainersForTeardown cs plan =
     (case dp_Project plan of
        None \<Rightarrow> sort_key ct_Name cs
      | Some p \<Rightarrow>
          (case TopoSort (Some p) of
             Inl e \<Rightarrow> sort_key ct_Name cs
           | Inr levels \<Rightarrow>
               sort_key (\<lambda>c. (- int (levelIdx levels (serviceLabelOf c)), ct_Name c)) cs))"

fun teardown :: "container list \<Rightarrow> orch_error option prog" where
  "teardown [] = Ret None"
| "teardown (c # cs) =
     Do (StopContainer (ct_ID c)) (\<lambda>_.
       Do (RemoveContainer (ct_ID c)) (\<lambda>r.
         case errOf r of
           Some e \<Rightarrow> Ret (Some (RemoveFailed (ct_ID c) e))
         | None \<Rightarrow> teardown cs))"

fun bestEffort :: "call list \<Rightarrow> unit prog" where
  "bestEffort [] = Ret ()"
| "bestEffort (c # cs) = Do c (\<lambda>_. bestEffort cs)"

definition projectFilter :: "string \<Rightarrow> label_filter" where
  "projectFilter name = \<lparr>lf_Match = [(LabelComposeProject, name)]\<rparr>"

definition removeImages :: "down_plan \<Rightarrow> unit prog" where
  "removeImages plan =
     (if dp_RemoveImages plan then
        Do (ListImages (projectFilter (dp_ProjectName plan))) (\<lambda>r.
          case asImages r of
            None \<Rightarrow> Ret ()
          | Some imgs \<Rightarrow> bestEffort (map (\<lambda>i. RemoveImage (ir_ID i)) imgs))
      else Ret ())"

definition volumeRemovals :: "down_plan \<Rightarrow> call list" where
  "volumeRemovals plan =
     (if dp_RemoveVolumes plan then
        (case dp_Project plan of
           None \<Rightarrow> []
         | Some p \<Rightarrow> map (\<lambda>(v, _). RemoveVolume (dp_ProjectName plan @ ''_'' @ v)) (pj_Volumes p))
      else [])"

definition Down :: "down_plan \<Rightarrow> orch_error option prog" where
  "Down plan =
     (if dp_ProjectName plan = [] then Ret (Some ProjectNameRequired)
      else Do (ListContainers (projectFilter (dp_ProjectName plan))) (\<lambda>r.
        case asContainers r of
          Inl e \<Rightarrow> Ret (Some (ListFailed [] e))
        | Inr containers \<Rightarrow>
            andThen (teardown (orderContainersForTeardown containers plan)) (\<lambda>t.
              case t of
                Some e \<Rightarrow> Ret (Some e)
              | None \<Rightarrow>
                  andThen (bestEffort (RemoveNetwork (dp_ProjectName plan @ ''_default'')
                                        # volumeRemovals plan)) (\<lambda>_.
                    andThen (removeImages plan) (\<lambda>_. Ret None)))))"

end
