(* ===== verification/Orchestrator_Correct.thy ===== *)
theory Orchestrator_Correct
  imports Orchestrator
begin

text \<open>
  What the orchestrator guarantees, for every runtime and every interleaving: no side effect
  before validation, containers destroyed only on detected drift or a failed inspection and never on a resume, the set
  of services an \<^verbatim>\<open>Up\<close> leaves running, and the health gates and their termination.
\<close>

section \<open>Calls a component can make\<close>

text \<open>The calls that stop or remove something: a container, a network, a volume, an image, a project.\<close>

definition destructive :: "call \<Rightarrow> bool" where
  "destructive c = (case c of
     StopContainer i \<Rightarrow> True | RemoveContainer i \<Rightarrow> True | RemoveContainerOpts i v \<Rightarrow> True
   | RemoveNetwork i \<Rightarrow> True | RemoveVolume i \<Rightarrow> True | RemoveImage i \<Rightarrow> True
   | ComposeDown p v \<Rightarrow> True | _ \<Rightarrow> False)"

definition gentle :: "call \<Rightarrow> bool" where
  "gentle c \<longleftrightarrow> \<not> destructive c"

lemma resolveNamespaceMode_calls: "(\<And>x. P (ResolveContainer x)) \<Longrightarrow> allCalls P (resolveNamespaceMode v)"
  by (auto simp: resolveNamespaceMode_def Let_def split: sum.split)

lemma serviceToRunSpec_calls:
  "(\<And>x. P (ResolveContainer x)) \<Longrightarrow> allCalls P (serviceToRunSpec env plan svc labels hash dig)"
  unfolding serviceToRunSpec_def Let_def
  by (intro allCalls_andThenI resolveNamespaceMode_calls)
    (auto intro!: allCalls_andThenI resolveNamespaceMode_calls split: sum.split)

lemma createService_gentle: "allCalls gentle (createService env plan svc labels hash dig)"
  unfolding createService_def
  by (intro allCalls_andThenI serviceToRunSpec_calls)
    (auto simp: gentle_def destructive_def startFresh_def split: sum.split option.split)

lemma resolveImageDigest_gentle: "allCalls gentle (resolveImageDigest ref)"
  by (auto simp: resolveImageDigest_def gentle_def destructive_def split: option.split)

lemma reuseContainer_gentle: "allCalls gentle (reuseContainer what c)"
  by (auto simp: reuseContainer_def gentle_def destructive_def split: option.split)

lemma ensureService_adopt_gentle:
  "plan_AdoptExisting plan \<Longrightarrow> allCalls gentle (ensureService env plan svc labels)"
  unfolding ensureService_def Let_def
  by (intro allCalls_andThenI resolveImageDigest_gentle)
    (auto simp: createService_gentle reuseContainer_gentle gentle_def destructive_def
      split: sum.split list.split)

lemma waitFor_gentle: "allCalls gentle (waitFor env fuel svc cid cond declares deadline unrep)"
  by (induction env fuel svc cid cond declares deadline unrep rule: waitFor.induct)
    (auto simp: gentle_def destructive_def split: option.split verdict.split)

lemma gateLoop_gentle: "allCalls gentle (gateLoop env fuel services ids deadline reqs)"
  by (induction env fuel services ids deadline reqs rule: gateLoop.induct)
    (auto simp: Let_def intro!: allCalls_andThenI waitFor_gentle split: option.split)

lemma gateLevel_gentle: "allCalls gentle (gateLevel env fuel proj level ids keep)"
  by (auto simp: gateLevel_def Let_def gateLoop_gentle gentle_def destructive_def)

lemma containerIP_gentle: "allCalls gentle (containerIP cid)"
  by (auto simp: containerIP_def gentle_def destructive_def split: option.split)

lemma collectIPs_gentle: "allCalls gentle (collectIPs ids ips)"
  by (induction ids ips rule: collectIPs.induct)
    (simp_all only: collectIPs.simps allCalls.simps allCalls_andThenI containerIP_gentle)

lemma appendHostsBlocks_gentle: "allCalls gentle (appendHostsBlocks cids block)"
  by (induction cids block rule: appendHostsBlocks.induct)
    (auto simp: appendHostsBlock_def gentle_def destructive_def intro!: allCalls_andThenI)

lemma patchHostsFiles_gentle: "allCalls gentle (patchHostsFiles ids)"
  unfolding patchHostsFiles_def
  by (auto intro!: allCalls_andThenI collectIPs_gentle appendHostsBlocks_gentle)

lemma createVolumes_gentle: "allCalls gentle (createVolumes plan proj labels names)"
  by (induction plan proj labels names rule: createVolumes.induct)
    (auto simp: gentle_def destructive_def split: sum.split)

lemmas gentle_rules = allCalls_andThenI gateLevel_gentle patchHostsFiles_gentle

lemma allCalls_weaken: "allCalls P p \<Longrightarrow> (\<And>c. P c \<Longrightarrow> Q c) \<Longrightarrow> allCalls Q p"
  by (induction p) auto

lemma levelThreads_set:
  "t \<in> set (levelThreads env plan proj labels keep level) \<Longrightarrow>
     \<exists>svc. snd t = ensureService env plan svc labels \<and> map_of (pj_Services proj) (fst t) = Some svc"
  by (auto simp: levelThreads_def split: option.splits)

lemma upLevels_adopt_gentle:
  "plan_AdoptExisting plan \<Longrightarrow>
     allCalls gentle (upLevels env fuel pick caps plan proj labels keep levels ids)"
proof (induction levels arbitrary: ids)
  case Nil
  then show ?case by simp
next
  case (Cons level levels)
  have "allCalls gentle (interleave (pick level) 0 (levelThreads env plan proj labels keep level) (ids, None))"
    by (rule allCalls_interleave)
      (auto dest!: levelThreads_set intro!: allCalls_weaken [OF ensureService_adopt_gentle [OF Cons.prems]])
  with Cons show ?case
    by (auto intro!: gentle_rules split: option.split prod.split)
qed

section \<open>Up: side effects\<close>

text \<open>
  A plan that does not validate, or whose dependency graph has a cycle, makes \<^verbatim>\<open>Up\<close> return the
  corresponding error without a single call of the runtime, whatever the scheduler and the fuel.
\<close>

theorem Up_invalid_no_calls:
  assumes "trace (Up env fuel pick caps (Some plan)) tr (res, err)"
    and "Validate caps (Some plan) \<noteq> None \<or> (\<exists>e. TopoSort (plan_Project plan) = Inl e)"
  shows "tr = [] \<and> res = noResult
    \<and> (err = map_option ValidateFailed (Validate caps (Some plan))
       \<or> (\<exists>e. TopoSort (plan_Project plan) = Inl e \<and> err = Some (TopoFailed e)))"
  using assms by (cases "Validate caps (Some plan)") (auto simp: Up_def)

definition demo_plan :: plan where
  "demo_plan = \<lparr>plan_Project = Some demo_project, plan_ProjectName = ''dc-1'', plan_Services = [],
     plan_Labels = [], plan_AdoptExisting = False\<rparr>"

definition demo_env :: orch_env where
  "demo_env = \<lparr>oe_HealthTimeout = 60, oe_PollInterval = 1,
     oe_hash = (\<lambda>i svc. i @ ''/'' @ svc_Name svc @ ''/'' @ svc_User svc), oe_nanos = (\<lambda>q. 0)\<rparr>"

theorem Up_invalid_no_calls_witness:
  "\<exists>err. trace (Up demo_env 0 (\<lambda>l n. n) no_caps (Some demo_swarm_plan)) [] (noResult, Some err)
     \<and> (Some err = map_option ValidateFailed (Validate no_caps (Some demo_swarm_plan))
        \<or> (\<exists>e. TopoSort (plan_Project demo_swarm_plan) = Inl e \<and> Some err = Some (TopoFailed e)))"
proof -
  have "foundFields demo_swarm \<noteq> []"
    by (simp add: foundFields_def demo_swarm_def appendIf_def)
  then have ne: "Validate no_caps (Some demo_swarm_plan) \<noteq> None"
    by (simp add: Validate_def demo_swarm_plan_def refuseUnsupportedFields_def)
  then obtain e where "Validate no_caps (Some demo_swarm_plan) = Some e" by blast
  then have tr: "trace (Up demo_env 0 (\<lambda>l n. n) no_caps (Some demo_swarm_plan)) []
     (noResult, Some (ValidateFailed e))"
    by (simp add: Up_def)
  from Up_invalid_no_calls [OF tr disjI1 [OF ne]] tr show ?thesis by blast
qed

text \<open>
  C12. On a resume (\<^verbatim>\<open>AdoptExisting\<close>) \<^verbatim>\<open>Up\<close> never stops or removes a container, and removes no
  network, volume or image either: no trace, for any
  runtime responses and any interleaving of the goroutines, contains such a call.
\<close>

theorem Up_adopt_never_destroys:
  assumes "plan_AdoptExisting plan" "trace (Up env fuel pick caps (Some plan)) tr res"
    and "(c, r) \<in> set tr"
  shows "\<not> destructive c"
proof -
  have "allCalls gentle (Up env fuel pick caps (Some plan))"
    unfolding Up_def ensureNamedVolumes_def
    by (auto intro!: allCalls_andThenI upLevels_adopt_gentle createVolumes_gentle assms(1)
        simp: gentle_def [of "CreateNetwork _"] destructive_def
        split: option.split sum.split prod.split)
  from allCalls_trace [OF assms(2) this assms(3)] show ?thesis by (simp add: gentle_def)
qed

section \<open>One service: when a container is destroyed\<close>

lemma gentle_trace: "trace p tr x \<Longrightarrow> allCalls gentle p \<Longrightarrow> (c, r) \<in> set tr \<Longrightarrow> \<not> destructive c"
  using allCalls_trace [of p tr x gentle c r] by (simp add: gentle_def)

lemma recreate_destroys:
  assumes "trace (recreateService env plan svc labels hash dig c) tr res"
    and "(d, r) \<in> set tr" "destructive d"
  shows "d = StopContainer (ct_ID c) \<or> d = RemoveContainer (ct_ID c)"
proof -
  from assms(1) obtain r1 r2 t where tr: "tr = (StopContainer (ct_ID c), r1) # (RemoveContainer (ct_ID c), r2) # t"
      "trace (case errOf r2 of Some e \<Rightarrow> Ret (Inl (RemoveFailed (ct_ID c) e))
         | None \<Rightarrow> createService env plan svc labels hash dig) t res"
    by (auto simp: recreateService_def trace_Do_iff)
  have "\<not> destructive d" if "(d, r) \<in> set t"
    using tr(2) that gentle_trace [OF _ createService_gentle] by (auto split: option.splits)
  with tr(1) assms show ?thesis by auto
qed

text \<open>
  C13. Bringing a service up destroys at most the first container found for it, and only outside a
  resume and when inspecting that container either gave no details (the call failed) or showed it to
  have drifted: managed by this orchestrator with a different configuration hash or image digest. A
  container the inspection shows to be another tool's, or to match hash and digest, is never stopped or removed.
\<close>

theorem ensureService_destroys_only_drift:
  assumes "trace (ensureService env plan svc labels) tr res" "(d, r) \<in> set tr" "destructive d"
  shows "\<exists>t0 dig c cs ir. \<not> plan_AdoptExisting plan
    \<and> trace (resolveImageDigest (svc_Image svc)) t0 dig
    \<and> prefix (t0 @ [(ListContainers (serviceFilter plan svc), RContainers (c # cs)),
                    (InspectContainer (ct_ID c), ir)]) tr
    \<and> (d = StopContainer (ct_ID c) \<or> d = RemoveContainer (ct_ID c))
    \<and> (asDetails ir = None
       \<or> (\<exists>det. asDetails ir = Some det \<and> managed det
             \<and> \<not> upToDate det (ConfigHash (oe_hash env) dig svc) dig))"
proof -
  from assms(1) obtain t0 dig lr t1 where t:
    "tr = t0 @ (ListContainers (serviceFilter plan svc), lr) # t1"
    "trace (resolveImageDigest (svc_Image svc)) t0 dig"
    "trace (case asContainers lr of
         Inl e \<Rightarrow> Ret (Inl (ListFailed (svc_Name svc) e))
       | Inr [] \<Rightarrow> createService env plan svc labels (ConfigHash (oe_hash env) dig svc) dig
       | Inr (c # cs) \<Rightarrow>
           if plan_AdoptExisting plan then reuseContainer (svc_Name svc) c
           else Do (InspectContainer (ct_ID c)) (\<lambda>ir.
             case asDetails ir of
               None \<Rightarrow> recreateService env plan svc labels (ConfigHash (oe_hash env) dig svc) dig c
             | Some d \<Rightarrow>
                 if \<not> managed d then reuseContainer (svc_Name svc) c
                 else if upToDate d (ConfigHash (oe_hash env) dig svc) dig then reuseContainer (svc_Name svc) c
                 else recreateService env plan svc labels (ConfigHash (oe_hash env) dig svc) dig c)) t1 res"
    by (auto simp: ensureService_def Let_def trace_andThen trace_Do_iff)
  have t1: "(d, r) \<in> set t1"
    using assms(2,3) t gentle_trace [OF t(2) resolveImageDigest_gentle] by (auto simp: destructive_def)
  have calm: "\<not> trace p t1 res" if "allCalls gentle p" for p :: "(orch_error + string) prog"
    using gentle_trace [OF _ that t1] assms(3) by blast
  obtain c cs where lr: "lr = RContainers (c # cs)"
    using t(3) t1 calm [OF createService_gentle]
    by (cases lr) (auto simp: asContainers_def split: list.splits)
  with t(3) calm [OF reuseContainer_gentle] have adopt: "\<not> plan_AdoptExisting plan"
    by (auto simp: asContainers_def)
  with t(3) lr obtain ir t2 where t2: "t1 = (InspectContainer (ct_ID c), ir) # t2"
    "trace (case asDetails ir of
        None \<Rightarrow> recreateService env plan svc labels (ConfigHash (oe_hash env) dig svc) dig c
      | Some d \<Rightarrow>
          if \<not> managed d then reuseContainer (svc_Name svc) c
          else if upToDate d (ConfigHash (oe_hash env) dig svc) dig then reuseContainer (svc_Name svc) c
          else recreateService env plan svc labels (ConfigHash (oe_hash env) dig svc) dig c) t2 res"
    by (auto simp: asContainers_def trace_Do_iff)
  then have in2: "(d, r) \<in> set t2" using t1 assms(3) by (auto simp: destructive_def)
  have calm2: "\<not> trace (reuseContainer w c) t2 res" for w
    using gentle_trace [OF _ reuseContainer_gentle in2] assms(3) by blast
  have drift: "asDetails ir = None
      \<or> (\<exists>det. asDetails ir = Some det \<and> managed det \<and> \<not> upToDate det (ConfigHash (oe_hash env) dig svc) dig)"
    and rec: "trace (recreateService env plan svc labels (ConfigHash (oe_hash env) dig svc) dig c) t2 res"
    using t2(2) calm2 by (auto split: option.splits if_splits)
  from recreate_destroys [OF rec in2 assms(3)] drift adopt t(1,2) t2(1) lr show ?thesis
    by (intro exI [of _ t0] exI [of _ dig] exI [of _ c] exI [of _ cs] exI [of _ ir]) auto
qed

text \<open>
  A backend with one image and room for one container, to run the programs on: whether the image
  has been pulled, and the container.
\<close>

type_synonym tiny = "bool \<times> container option"

definition tinyDetails :: "container \<Rightarrow> container_details" where
  "tinyDetails c = \<lparr>cd_Container = c, cd_Created = 0, cd_StartedAt = 0, cd_User = [], cd_Env = [],
     cd_Mounts = [], cd_Labels = ct_Labels c, cd_ImageRef = [], cd_Privileged = False, cd_CapAdd = [],
     cd_SecurityOpt = [], cd_ExitCode = 0, cd_FinishedAt = 0, cd_Health = []\<rparr>"

definition tinyImage :: image_details where
  "tinyImage = \<lparr>im_ID = ''sha256:1'', im_Tags = [], im_Labels = [], im_Env = [], im_User = [],
     im_Entrypoint = []\<rparr>"

fun tinyBackend :: "call \<Rightarrow> tiny \<Rightarrow> resp \<times> tiny" where
  "tinyBackend (InspectImage ref) (p, c) =
     ((if p then RImage (Some tinyImage) else RErr (ImageNotFoundError ref)), (p, c))"
| "tinyBackend (ListContainers f) (p, c) =
     (RContainers (case c of None \<Rightarrow> [] | Some x \<Rightarrow> [x]), (p, c))"
| "tinyBackend (InspectContainer i) (p, c) = (RDetails (map_option tinyDetails c), (p, c))"
| "tinyBackend (RunContainer spec) (p, c) =
     (if p then
        (let x = \<lparr>ct_ID = ''c1'', ct_Name = rs_Name spec, ct_Image = rs_Image spec,
                  ct_State = StateCreated, ct_Labels = rs_Labels spec\<rparr>
         in (RContainer x, (p, Some x)))
      else (RErr (ImageNotFoundError (rs_Image spec)), (p, c)))"
| "tinyBackend (PullImage ref) (p, c) = (RUnit, (True, c))"
| "tinyBackend (StartContainer i) (p, c) = (RUnit, (p, map_option (\<lambda>x. x\<lparr>ct_State := StateRunning\<rparr>) c))"
| "tinyBackend (RemoveContainer i) (p, c) = (RUnit, (p, None))"
| "tinyBackend d s = (RUnit, s)"

definition demo_db :: service_config where
  "demo_db = blank_service\<lparr>svc_Name := ''db'', svc_Image := ''postgres''\<rparr>"

definition demo_first_up :: "(orch_error + string) \<times> tiny \<times> (call \<times> resp) list" where
  "demo_first_up = runProg (ensureService demo_env demo_plan demo_db []) tinyBackend (False, None)"

definition demo_second_up :: "(orch_error + string) \<times> tiny \<times> (call \<times> resp) list" where
  "demo_second_up =
     runProg (ensureService demo_env demo_plan demo_db []) tinyBackend (fst (snd demo_first_up))"

definition callNames :: "(call \<times> resp) list \<Rightarrow> call list" where
  "callNames tr = filter destructive (map fst tr)"

lemma demo_second_up_calls:
  "callNames (snd (snd demo_second_up)) = [StopContainer ''c1'', RemoveContainer ''c1'']"
  by code_simp

lemma demo_second_up_trace:
  "trace (ensureService demo_env demo_plan demo_db []) (snd (snd demo_second_up)) (fst demo_second_up)"
  by (rule runProg_trace [of _ tinyBackend "fst (snd demo_first_up)" _ "fst (snd demo_second_up)"])
    (simp add: demo_second_up_def)

theorem ensureService_destroys_only_drift_witness:
  "\<not> plan_AdoptExisting demo_plan
   \<and> (\<exists>d r. (d, r) \<in> set (snd (snd demo_second_up)) \<and> destructive d)"
proof -
  have "RemoveContainer ''c1'' \<in> set (callNames (snd (snd demo_second_up)))"
    by (simp add: demo_second_up_calls)
  then obtain d r where dr: "(d, r) \<in> set (snd (snd demo_second_up))" "destructive d"
    by (auto simp: callNames_def)
  with ensureService_destroys_only_drift [OF demo_second_up_trace dr] show ?thesis by blast
qed

text \<open>
  A first \<^verbatim>\<open>Up\<close> of a service whose image has to be pulled stamps the hash of the image tag, not
  of the digest the pull resolves to; the next \<^verbatim>\<open>Up\<close> of the unchanged project reads the digest,
  finds the hash different and stops, removes and recreates the running container. (Run on a
  backend where nothing changes between the two calls.)
\<close>

theorem ensureService_recreates_after_first_pull:
  "fst demo_first_up = Inr ''c1''
   \<and> filter destructive (map fst (snd (snd demo_second_up)))
       = [StopContainer ''c1'', RemoveContainer ''c1'']
   \<and> fst demo_second_up = Inr ''c1''"
proof (intro conjI)
  show "fst demo_first_up = Inr ''c1''" by code_simp
  show "filter destructive (map fst (snd (snd demo_second_up)))
      = [StopContainer ''c1'', RemoveContainer ''c1'']"
    using demo_second_up_calls by (simp add: callNames_def)
  show "fst demo_second_up = Inr ''c1''" by code_simp
qed

section \<open>Health gates\<close>

text \<open>What a container must show for a condition to be met.\<close>

definition conditionMet :: "string \<Rightarrow> bool \<Rightarrow> container_details \<Rightarrow> bool" where
  "conditionMet cond declares d \<longleftrightarrow>
     (cond = ''service_healthy'' \<and>
        (cd_Health d = HealthHealthy
         \<or> cd_Health d = HealthNone \<and> \<not> declares \<and> ct_State (cd_Container d) = StateRunning))
     \<or> (cond = ''service_completed_successfully'' \<and>
        ct_State (cd_Container d) = StateExited \<and> cd_ExitCode d = 0)"

lemma pollVerdict_Satisfied:
  "pollVerdict svc cond declares unrep det = Satisfied \<longleftrightarrow>
     (\<exists>d. det = Some d \<and> conditionMet cond declares d)"
  by (auto simp: pollVerdict_def conditionMet_def Let_def split: option.splits)

lemma asDetails_Some: "asDetails r = Some d \<longleftrightarrow> r = RDetails (Some d)"
  by (cases r) (auto simp: asDetails_def)

definition nowTimes :: "(call \<times> resp) list \<Rightarrow> int list" where
  "nowTimes tr = map (\<lambda>(c, r). asTime r) (filter (\<lambda>(c, r). c = Now) tr)"

text \<open>One unfolding of the poll loop, as the cases of a trace.\<close>

lemma waitFor_trace_cases:
  assumes "trace (waitFor env (Suc fuel) svc cid cond declares deadline unrep) tr res"
  obtains (ctx) cr e where "tr = [(CtxErr, cr)]" "res = Some (ContextDone e)"
    | (sat) cr d where "tr = [(CtxErr, cr), (InspectContainer cid, RDetails (Some d))]"
        "conditionMet cond declares d" "res = None"
    | (bad) cr r e where "tr = [(CtxErr, cr), (InspectContainer cid, r)]" "res = Some e"
        "e = ReportedUnhealthy svc \<or> (\<exists>code. e = ExitedNonZero svc code)"
    | (late) cr r t e where "tr = [(CtxErr, cr), (InspectContainer cid, r), (Now, t)]"
        "asTime t > deadline" "res = Some e" "e = HealthNeverReported svc \<or> e = HealthTimeoutError svc cond"
    | (cancelled) cr r t sr e where
        "tr = [(CtxErr, cr), (InspectContainer cid, r), (Now, t), (Sleep (oe_PollInterval env), sr)]"
        "res = Some (ContextDone e)" "asTime t \<le> deadline"
    | (again) cr r t sr unrep' tr' where
        "tr = (CtxErr, cr) # (InspectContainer cid, r) # (Now, t) # (Sleep (oe_PollInterval env), sr) # tr'"
        "asTime t \<le> deadline" "trace (waitFor env fuel svc cid cond declares deadline unrep') tr' res"
proof -
  from assms obtain cr t1 where t1: "tr = (CtxErr, cr) # t1"
    "trace (case errOf cr of Some e \<Rightarrow> Ret (Some (ContextDone e))
       | None \<Rightarrow> Do (InspectContainer cid) (\<lambda>r.
             case pollVerdict svc cond declares unrep (asDetails r) of
               Satisfied \<Rightarrow> Ret None
             | Refused e \<Rightarrow> Ret (Some e)
             | Pending unrep' \<Rightarrow>
                 Do Now (\<lambda>t.
                   if asTime t > deadline then
                     (if unrep' then Ret (Some (HealthNeverReported svc))
                      else Ret (Some (HealthTimeoutError svc cond)))
                   else Do (Sleep (oe_PollInterval env)) (\<lambda>sr.
                     case errOf sr of
                       Some e \<Rightarrow> Ret (Some (ContextDone e))
                     | None \<Rightarrow> waitFor env fuel svc cid cond declares deadline unrep')))) t1 res"
    by (auto simp: trace_Do_iff)
  show thesis
  proof (cases "errOf cr")
    case (Some e)
    with t1 ctx show thesis by simp
  next
    case None
    with t1(2) obtain r t2 where t2: "t1 = (InspectContainer cid, r) # t2"
      "trace (case pollVerdict svc cond declares unrep (asDetails r) of
               Satisfied \<Rightarrow> Ret None
             | Refused e \<Rightarrow> Ret (Some e)
             | Pending unrep' \<Rightarrow>
                 Do Now (\<lambda>t.
                   if asTime t > deadline then
                     (if unrep' then Ret (Some (HealthNeverReported svc))
                      else Ret (Some (HealthTimeoutError svc cond)))
                   else Do (Sleep (oe_PollInterval env)) (\<lambda>sr.
                     case errOf sr of
                       Some e \<Rightarrow> Ret (Some (ContextDone e))
                     | None \<Rightarrow> waitFor env fuel svc cid cond declares deadline unrep'))) t2 res"
      by (auto simp: trace_Do_iff)
    show thesis
    proof (cases "pollVerdict svc cond declares unrep (asDetails r)")
      case Satisfied
      then obtain d where "asDetails r = Some d" "conditionMet cond declares d"
        by (auto simp: pollVerdict_Satisfied)
      with Satisfied t1 t2 sat show thesis by (simp add: asDetails_Some)
    next
      case (Refused e)
      then have "e = ReportedUnhealthy svc \<or> (\<exists>code. e = ExitedNonZero svc code)"
        by (auto simp: pollVerdict_def Let_def split: option.splits if_splits)
      with Refused t1 t2 bad show thesis by simp
    next
      case (Pending u)
      with t2(2) obtain t t3 where t3: "t2 = (Now, t) # t3"
        "trace (if asTime t > deadline then
                     (if u then Ret (Some (HealthNeverReported svc))
                      else Ret (Some (HealthTimeoutError svc cond)))
                   else Do (Sleep (oe_PollInterval env)) (\<lambda>sr.
                     case errOf sr of
                       Some e \<Rightarrow> Ret (Some (ContextDone e))
                     | None \<Rightarrow> waitFor env fuel svc cid cond declares deadline u)) t3 res"
        by (auto simp: trace_Do_iff)
      show thesis
      proof (cases "asTime t > deadline")
        case True
        with t1 t2 t3 late show thesis by (cases u) auto
      next
        case False
        with t3(2) obtain sr t4 where "t3 = (Sleep (oe_PollInterval env), sr) # t4"
          "trace (case errOf sr of Some e \<Rightarrow> Ret (Some (ContextDone e))
             | None \<Rightarrow> waitFor env fuel svc cid cond declares deadline u) t4 res"
          by (auto simp: trace_Do_iff)
        with False t1(1) t2(1) t3(1) cancelled again show thesis by (cases "errOf sr") auto
      qed
    qed
  qed
qed

lemma waitFor_passes:
  "trace (waitFor env fuel svc cid cond declares deadline unrep) tr None \<Longrightarrow>
     \<exists>d. (InspectContainer cid, RDetails (Some d)) \<in> set tr \<and> conditionMet cond declares d"
proof (induction fuel arbitrary: tr unrep)
  case 0
  then show ?case by simp
next
  case (Suc fuel)
  from Suc.prems show ?case
  proof (cases rule: waitFor_trace_cases)
    case (sat cr d)
    then show ?thesis by auto
  next
    case (again cr r t sr unrep' tr')
    with Suc.IH [OF again(3)] show ?thesis by auto
  qed simp_all
qed

lemma waitFor_exhausted:
  "trace (waitFor env fuel svc cid cond declares deadline unrep) tr (Some FuelExhausted) \<Longrightarrow>
     length (nowTimes tr) = fuel \<and> (\<forall>t \<in> set (nowTimes tr). t \<le> deadline)"
proof (induction fuel arbitrary: tr unrep)
  case 0
  then show ?case by (simp add: nowTimes_def)
next
  case (Suc fuel)
  from Suc.prems show ?case
  proof (cases rule: waitFor_trace_cases)
    case (again cr r t sr unrep' tr')
    with Suc.IH [OF again(3)] show ?thesis by (auto simp: nowTimes_def)
  qed auto
qed

lemma spaced_lower:
  assumes "\<forall>i. Suc i < length ts \<longrightarrow> ts ! i + p \<le> (ts ! Suc i :: int)" "i < length ts" "t0 \<le> ts ! 0"
  shows "t0 + int i * p \<le> ts ! i"
  using assms(2)
proof (induction i)
  case 0
  then show ?case using assms(3) by simp
next
  case (Suc i)
  then have "t0 + int i * p \<le> ts ! i" "ts ! i + p \<le> ts ! Suc i" using assms(1) by auto
  then show ?case by (simp add: algebra_simps)
qed

text \<open>
  C15. A health gate ends: if the clock advances by at least the poll interval between two reads,
  more polls than fit between the first read and the deadline are never needed, so with that fuel
  \<^verbatim>\<open>waitFor\<close> returns one of the results of the source and never runs out.
\<close>

theorem waitFor_terminates:
  assumes "trace (waitFor env fuel svc cid cond declares deadline unrep) tr res"
    and "0 < oe_PollInterval env"
    and "\<forall>i. Suc i < length (nowTimes tr) \<longrightarrow>
           nowTimes tr ! i + oe_PollInterval env \<le> nowTimes tr ! Suc i"
    and "nowTimes tr \<noteq> [] \<longrightarrow> t0 \<le> nowTimes tr ! 0"
    and "0 < fuel" "deadline - t0 < (int fuel - 1) * oe_PollInterval env"
  shows "res \<noteq> Some FuelExhausted"
proof
  assume "res = Some FuelExhausted"
  with waitFor_exhausted assms(1)
  have len: "length (nowTimes tr) = fuel" and le: "\<forall>t \<in> set (nowTimes tr). t \<le> deadline" by blast+
  let ?i = "fuel - 1"
  have i: "?i < length (nowTimes tr)" using assms(5) len by simp
  have "t0 \<le> nowTimes tr ! 0" using assms(4,5) len by fastforce
  from spaced_lower [OF assms(3) i this] have "t0 + int ?i * oe_PollInterval env \<le> nowTimes tr ! ?i" .
  moreover have "nowTimes tr ! ?i \<le> deadline" using le i by simp
  moreover have "int ?i = int fuel - 1" using assms(5) by simp
  ultimately show False using assms(6) by simp
qed

text \<open>A backend that never becomes healthy, with a clock that each sleep advances.\<close>

fun clockBackend :: "call \<Rightarrow> int \<Rightarrow> resp \<times> int" where
  "clockBackend Now t = (RTime t, t)"
| "clockBackend (Sleep d) t = (RUnit, t + d)"
| "clockBackend c t = (RUnit, t)"

definition demo_wait :: "orch_error option \<times> int \<times> (call \<times> resp) list" where
  "demo_wait = runProg (waitFor demo_env 5 ''db'' ''c1'' ''service_healthy'' True 3 False) clockBackend 0"

lemma demo_wait_times: "nowTimes (snd (snd demo_wait)) = [0, 1, 2, 3, 4]"
  by code_simp

theorem waitFor_terminates_witness: "fst demo_wait \<noteq> Some FuelExhausted"
proof (rule waitFor_terminates [of demo_env 5 "''db''" "''c1''" "''service_healthy''" True 3 False
    "snd (snd demo_wait)" _ 0])
  show "trace (waitFor demo_env 5 ''db'' ''c1'' ''service_healthy'' True 3 False)
      (snd (snd demo_wait)) (fst demo_wait)"
    by (rule runProg_trace [of _ clockBackend 0 _ "fst (snd demo_wait)"]) (simp add: demo_wait_def)
  show "\<forall>i. Suc i < length (nowTimes (snd (snd demo_wait))) \<longrightarrow>
      nowTimes (snd (snd demo_wait)) ! i + oe_PollInterval demo_env \<le> nowTimes (snd (snd demo_wait)) ! Suc i"
    unfolding demo_wait_times by (auto simp: demo_env_def less_Suc_eq nth_Cons')
  show "nowTimes (snd (snd demo_wait)) \<noteq> [] \<longrightarrow> 0 \<le> nowTimes (snd (snd demo_wait)) ! 0"
    unfolding demo_wait_times by simp
qed (simp_all add: demo_env_def)

section \<open>Requirements of a level\<close>

definition strictNeed :: "service_dependency gomap \<Rightarrow> string \<Rightarrow> string \<Rightarrow> bool" where
  "strictNeed deps s c \<longleftrightarrow>
     (\<exists>dep. (s, dep) \<in> set deps \<and> dep_Required dep \<and> dep_Condition dep = c \<and> isGateCondition c)"

lemma addRequirement_stays:
  "map_of req s = Some (c, False) \<Longrightarrow> map_of (addRequirement level n dep req) s = Some (c, False)"
  by (auto simp: addRequirement_def)

lemma addRequirement_origin:
  "map_of (addRequirement level n dep req) s = Some (c, False) \<Longrightarrow>
     map_of req s = Some (c, False)
     \<or> n = s \<and> dep_Required dep \<and> dep_Condition dep = c \<and> isGateCondition c"
  by (auto simp: addRequirement_def split: if_splits)

lemma addRequirements_stays:
  "map_of req s = Some (c, False) \<Longrightarrow> map_of (addRequirements level deps req) s = Some (c, False)"
  by (induction level deps req rule: addRequirements.induct) (simp_all add: addRequirement_stays)

lemma gateLoop_passes:
  "trace (gateLoop env fuel services ids deadline reqs) tr None \<Longrightarrow> (s, cond, False) \<in> set reqs \<Longrightarrow>
     mget ids s \<noteq> [] \<Longrightarrow>
     \<exists>d. (InspectContainer (mget ids s), RDetails (Some d)) \<in> set tr
         \<and> conditionMet cond (case map_of services s of
              None \<Rightarrow> False | Some cfg \<Rightarrow> declaresActiveHealthcheck (svc_HealthCheck cfg)) d"
proof (induction reqs arbitrary: tr)
  case Nil
  then show ?case by simp
next
  case (Cons req reqs)
  obtain svcName c optional where req: "req = (svcName, c, optional)" by (cases req) auto
  let ?cid = "mget ids svcName"
  let ?decl = "case map_of services svcName of
      None \<Rightarrow> False | Some cfg \<Rightarrow> declaresActiveHealthcheck (svc_HealthCheck cfg)"
  show ?case
  proof (cases "?cid = []")
    case True
    with Cons req show ?thesis by (auto simp: Let_def)
  next
    case False
    with Cons.prems(1) req obtain t1 t2 w where t: "tr = t1 @ t2"
      "trace (waitFor env fuel svcName ?cid c ?decl deadline False) t1 w"
      "trace (case w of
               None \<Rightarrow> gateLoop env fuel services ids deadline reqs
             | Some e \<Rightarrow> if optional then gateLoop env fuel services ids deadline reqs
                         else Ret (Some e)) t2 None"
      by (auto simp: Let_def trace_andThen)
    have rest: "trace (gateLoop env fuel services ids deadline reqs) t2 None"
      using t(3) by (auto split: option.splits if_splits)
    show ?thesis
    proof (cases "(s, cond, False) \<in> set reqs")
      case True
      from Cons.IH [OF rest True Cons.prems(3)] t(1) show ?thesis by auto
    next
      case here: False
      with Cons.prems(2) req have eq: "s = svcName" "cond = c" "\<not> optional" by auto
      with t(3) have "w = None" by (cases w) auto
      with waitFor_passes t(2) have "\<exists>d. (InspectContainer ?cid, RDetails (Some d)) \<in> set t1
          \<and> conditionMet c ?decl d" by blast
      with eq t(1) show ?thesis by auto
    qed
  qed
qed

text \<open>The condition a kept service requires of a dependency, whatever its dependents agree on.\<close>

definition requires :: "project \<Rightarrow> (string \<Rightarrow> bool) \<Rightarrow> string \<Rightarrow> string \<Rightarrow> bool" where
  "requires proj keep s c \<longleftrightarrow>
     (\<exists>n dt. (n, dt) \<in> set (pj_Services proj) \<and> keep (svc_Name dt) \<and> strictNeed (svc_DependsOn dt) s c)"

definition declaresFor :: "project \<Rightarrow> string \<Rightarrow> bool" where
  "declaresFor proj s = (case map_of (pj_Services proj) s of
     None \<Rightarrow> False | Some cfg \<Rightarrow> declaresActiveHealthcheck (svc_HealthCheck cfg))"

section \<open>The level loop\<close>

lemma levelThreads_names:
  "set level \<subseteq> fst ` set (pj_Services proj) \<Longrightarrow>
     map fst (levelThreads env plan proj labels keep level) = filter (\<lambda>n. n \<in> keep) level"
proof (induction level)
  case Nil
  then show ?case by (simp add: levelThreads_def)
next
  case (Cons n level)
  then obtain svc where "map_of (pj_Services proj) n = Some svc"
    by (cases "map_of (pj_Services proj) n") (auto simp: map_of_eq_None_iff)
  with Cons show ?case by (auto simp: levelThreads_def)
qed

abbreviation levelPost ::
  "orch_env \<Rightarrow> plan \<Rightarrow> project \<Rightarrow> string gomap \<Rightarrow> string set \<Rightarrow> string list \<Rightarrow> string gomap \<Rightarrow>
     string gomap \<Rightarrow> (string \<times> orch_error) option \<Rightarrow> bool" where
  "levelPost env plan proj labels keep level ids ids' fe \<equiv>
     pool_post (fst ` set (levelThreads env plan proj labels keep level)) (ids, None) (ids', fe)"

lemma upLevels_Cons:
  assumes "trace (upLevels env fuel pick caps plan proj labels keep (level # levels) ids) tr (ids', err)"
  obtains (failed) n e where "levelPost env plan proj labels keep level ids ids' (Some (n, e))" "err = Some (PartialUpError (sort (map fst ids')) n e)"
      "trace (interleave (pick level) 0 (levelThreads env plan proj labels keep level) (ids, None)) tr
         (ids', Some (n, e))"
    | (gate) t1 e where "levelPost env plan proj labels keep level ids ids' None" "err = Some e"
        "trace (gateLevel env fuel proj level ids' (\<lambda>n. n \<in> keep)) t1 (Some e)"
    | (more) t1 t2 t3 ids1 where "levelPost env plan proj labels keep level ids ids1 None" "tr = t1 @ t2 @ t3"
        "trace (gateLevel env fuel proj level ids1 (\<lambda>n. n \<in> keep)) t2 None"
        "\<exists>t4. suffix t4 t3 \<and> trace (upLevels env fuel pick caps plan proj labels keep levels ids1) t4 (ids', err)"
proof -
  let ?ts = "levelThreads env plan proj labels keep level"
  from assms obtain t1 t2 ids1 fe where t: "tr = t1 @ t2"
    "trace (interleave (pick level) 0 ?ts (ids, None)) t1 (ids1, fe)"
    "trace (case fe of
           Some (firstSvc, e) \<Rightarrow> Ret (ids1, Some (PartialUpError (sort (map fst ids1)) firstSvc e))
         | None \<Rightarrow>
             andThen (gateLevel env fuel proj level ids1 (\<lambda>n. n \<in> keep)) (\<lambda>g.
               case g of
                 Some e \<Rightarrow> Ret (ids1, Some e)
               | None \<Rightarrow>
                   if \<not> cap_ServiceNameDNS caps then
                     andThen (patchHostsFiles ids1) (\<lambda>_.
                       upLevels env fuel pick caps plan proj labels keep levels ids1)
                   else upLevels env fuel pick caps plan proj labels keep levels ids1)) t2 (ids', err)"
    by (auto simp: trace_andThen)
  have post: "pool_post (fst ` set ?ts) (ids, None) (ids1, fe)"
    by (rule allRets_trace [OF t(2) allRets_interleave])
  show thesis
  proof (cases fe)
    case (Some ne)
    with t post failed show thesis by (cases ne) auto
  next
    case None
    with t(3) obtain t3 t4 g where g: "t2 = t3 @ t4"
      "trace (gateLevel env fuel proj level ids1 (\<lambda>n. n \<in> keep)) t3 g"
      "trace (case g of
                 Some e \<Rightarrow> Ret (ids1, Some e)
               | None \<Rightarrow>
                   if \<not> cap_ServiceNameDNS caps then
                     andThen (patchHostsFiles ids1) (\<lambda>_.
                       upLevels env fuel pick caps plan proj labels keep levels ids1)
                   else upLevels env fuel pick caps plan proj labels keep levels ids1) t4 (ids', err)"
      by (auto simp: trace_andThen)
    show thesis
    proof (cases g)
      case (Some e)
      with g(3) have out: "err = Some e" "ids' = ids1" by auto
      with post None have "levelPost env plan proj labels keep level ids ids' None" by simp
      from gate [OF this out(1)] g(2) Some out(2) show thesis by simp
    next
      case g0: None
      with g(3) have "\<exists>t5. suffix t5 t4
          \<and> trace (upLevels env fuel pick caps plan proj labels keep levels ids1) t5 (ids', err)"
        by (cases "cap_ServiceNameDNS caps") (auto simp: trace_andThen suffix_def)
      with g g0 post None t(1) more show thesis by auto
    qed
  qed
qed

lemma levelThreads_nameset:
  assumes "set level \<subseteq> fst ` set (pj_Services proj)"
  shows "fst ` set (levelThreads env plan proj labels keep level) = keep \<inter> set level"
proof -
  have "fst ` set (levelThreads env plan proj labels keep level)
      = set (map fst (levelThreads env plan proj labels keep level))" by simp
  also have "\<dots> = keep \<inter> set level" using assms by (subst levelThreads_names) auto
  finally show ?thesis .
qed

lemma upLevels_frame:
  assumes "set (concat levels) \<subseteq> fst ` set (pj_Services proj)"
    and "trace (upLevels env fuel pick caps plan proj labels keep levels ids) tr (ids', err)"
  shows "(\<forall>k. k \<notin> set (concat levels) \<longrightarrow> map_of ids' k = map_of ids k)
    \<and> fst ` set ids' \<subseteq> fst ` set ids \<union> (keep \<inter> set (concat levels))
    \<and> (err = None \<longrightarrow> fst ` set ids' = fst ` set ids \<union> (keep \<inter> set (concat levels)))"
  using assms
proof (induction levels arbitrary: ids tr)
  case Nil
  then show ?case by simp
next
  case (Cons level levels)
  have names: "fst ` set (levelThreads env plan proj labels keep level) = keep \<inter> set level"
    using Cons.prems(1) by (intro levelThreads_nameset) auto
  from Cons.prems(2) show ?case
  proof (cases rule: upLevels_Cons)
    case (failed n e)
    then show ?thesis unfolding names by (auto simp: pool_post_def)
  next
    case (gate t1 e)
    then show ?thesis unfolding names by (auto simp: pool_post_def)
  next
    case (more t1 t2 t3 ids1)
    then obtain t4 where t4:
        "trace (upLevels env fuel pick caps plan proj labels keep levels ids1) t4 (ids', err)"
      by blast
    have sub: "set (concat levels) \<subseteq> fst ` set (pj_Services proj)" using Cons.prems(1) by simp
    note ih = Cons.IH [OF sub t4]
    have p: "\<forall>k. k \<notin> keep \<inter> set level \<longrightarrow> map_of ids1 k = map_of ids k"
      "fst ` set ids1 = fst ` set ids \<union> (keep \<inter> set level)"
      using more(1) unfolding names by (auto simp: pool_post_def)
    have all: "set (concat (level # levels)) = set level \<union> set (concat levels)" by simp
    show ?thesis
      unfolding all
    proof (intro conjI allI impI)
      fix k
      assume "k \<notin> set level \<union> set (concat levels)"
      then show "map_of ids' k = map_of ids k" using ih p(1) by simp
    next
      show "fst ` set ids' \<subseteq> fst ` set ids \<union> keep \<inter> (set level \<union> set (concat levels))"
        using ih [THEN conjunct2, THEN conjunct1] unfolding p(2)
        by (simp only: Int_Un_distrib Un_assoc)
    next
      assume "err = None"
      then show "fst ` set ids' = fst ` set ids \<union> keep \<inter> (set level \<union> set (concat levels))"
        using ih [THEN conjunct2, THEN conjunct2] unfolding p(2)
        by (simp only: Int_Un_distrib Un_assoc simp_thms)
    qed
  qed
qed

lemma upLevels_partial:
  assumes "set (concat levels) \<subseteq> fst ` set (pj_Services proj)" "distinct (concat levels)"
    and "fst ` set ids \<inter> set (concat levels) = {}"
    and "trace (upLevels env fuel pick caps plan proj labels keep levels ids) tr
           (ids', Some (PartialUpError st f e))"
  shows "(st = sort (map fst ids') \<and> f \<in> keep \<and> f \<notin> fst ` set ids')
    \<or> (\<exists>t l i. trace (gateLevel env fuel proj l i (\<lambda>n. n \<in> keep)) t (Some (PartialUpError st f e)))"
  using assms
proof (induction levels arbitrary: ids tr)
  case Nil
  then show ?case by simp
next
  case (Cons level levels)
  let ?ts = "levelThreads env plan proj labels keep level"
  have names: "map fst ?ts = filter (\<lambda>n. n \<in> keep) level"
    using Cons.prems(1) by (intro levelThreads_names) auto
  have nset: "fst ` set ?ts = keep \<inter> set level"
    using Cons.prems(1) by (intro levelThreads_nameset) auto
  from Cons.prems(4) show ?case
  proof (cases rule: upLevels_Cons)
    case (failed n err)
    have "distinct (map fst ?ts)" using Cons.prems(2) names by simp
    moreover have "fst ` set ?ts \<inter> fst ` set ids = {}"
      using Cons.prems(3) unfolding nset by auto
    moreover have "failed_absent (ids, None :: (string \<times> orch_error) option) (fst ` set ?ts)"
      by (simp add: failed_absent_def)
    ultimately have "failed_absent (ids', Some (n, err)) {}"
      using allRets_trace [OF failed(3) allRets_interleave_failed] by simp
    moreover have "n \<in> fst ` set ?ts" using failed(1) by (simp add: pool_post_def)
    then have "n \<in> keep" unfolding nset by simp
    ultimately show ?thesis using failed(2) by (simp add: failed_absent_def)
  next
    case (gate t1 err)
    then show ?thesis by blast
  next
    case (more t1 t2 t3 ids1)
    then obtain t4 where t4: "trace (upLevels env fuel pick caps plan proj labels keep levels ids1) t4
        (ids', Some (PartialUpError st f e))" by blast
    have "fst ` set ids1 \<subseteq> fst ` set ids \<union> set level"
    proof -
      have "fst ` set ids1 \<subseteq> fst ` set ids \<union> fst ` set ?ts" using more(1) by (simp add: pool_post_def)
      moreover have "fst ` set ?ts \<subseteq> set level" unfolding nset by simp
      ultimately show ?thesis by blast
    qed
    moreover have "set level \<inter> set (concat levels) = {}" "distinct (concat levels)"
      using Cons.prems(2) by auto
    moreover have "fst ` set ids \<inter> set (concat levels) = {}" using Cons.prems(3) by auto
    ultimately have "fst ` set ids1 \<inter> set (concat levels) = {}" by blast
    then show ?thesis
      using Cons.IH [OF _ \<open>distinct (concat levels)\<close> _ t4] Cons.prems(1) by simp
  qed
qed

lemma pollVerdict_not_partial:
  "pollVerdict svc cond declares unrep det \<noteq> Refused (PartialUpError st f e)"
  by (auto simp: pollVerdict_def Let_def split: option.split)

lemma gate_not_partial:
  "\<not> trace (gateLevel env fuel proj l i keep) t (Some (PartialUpError st f e))"
proof -
  have w: "allRets (\<lambda>r. r \<noteq> Some (PartialUpError st f e))
      (waitFor env fuel svc cid cond declares deadline unrep)" for svc cid cond declares deadline unrep
    by (induction env fuel svc cid cond declares deadline unrep rule: waitFor.induct)
      (auto simp: pollVerdict_not_partial split: option.split verdict.split)
  have "allRets (\<lambda>r. r \<noteq> Some (PartialUpError st f e)) (gateLoop env fuel services ids deadline reqs)"
    for services ids deadline reqs
  proof (induction reqs)
    case Nil
    then show ?case by simp
  next
    case (Cons req reqs)
    obtain s c opt where "req = (s, c, opt)" by (cases req) auto
    with Cons show ?case
      by (auto simp: Let_def intro!: allRets_mono [OF w] split: option.split)
  qed
  then have "allRets (\<lambda>r. r \<noteq> Some (PartialUpError st f e)) (gateLevel env fuel proj l i keep)"
    by (auto simp: gateLevel_def Let_def)
  from allRets_trace [OF _ this] show ?thesis by blast
qed

lemma Up_levels:
  assumes "trace (Up env fuel pick caps (Some plan)) tr (res, err)"
    and "err = None \<or> (\<exists>st f e. err = Some (PartialUpError st f e))"
    and "plan_Project plan = Some proj"
  obtains levels t where "TopoSort (Some proj) = Inr levels" "suffix t tr"
    "trace (upLevels env fuel pick caps plan proj (projectLabels plan) (makeKeepSet plan proj) levels []) t
       (ur_ContainerIDs res, err)"
proof -
  have cv: "allRets (\<lambda>v. \<forall>st f e. v \<noteq> Some (PartialUpError st f e)) (createVolumes plan proj labels names)"
    for labels names
    by (induction plan proj labels names rule: createVolumes.induct) (auto split: sum.split)
  from assms(1) have val: "Validate caps (Some plan) = None"
    using assms(2) by (cases "Validate caps (Some plan)") (auto simp: Up_def)
  with assms obtain levels where lv: "TopoSort (Some proj) = Inr levels"
    by (cases "TopoSort (Some proj)") (auto simp: Up_def)
  with assms(1) val assms(3) obtain r t1 where t1:
    "tr = (CreateNetwork \<lparr>ns_Name = plan_ProjectName plan @ ''_default'', ns_Labels = projectLabels plan\<rparr>, r) # t1"
    "trace (case asStr r of
         Inl e \<Rightarrow> Ret (noResult, Some (NetworkFailed e))
       | Inr netID \<Rightarrow>
           andThen (ensureNamedVolumes plan proj (projectLabels plan)) (\<lambda>v.
             case v of
               Some e \<Rightarrow> Ret (noResult\<lparr>ur_Network := netID\<rparr>, Some e)
             | None \<Rightarrow>
                 andThen (upLevels env fuel pick caps plan proj (projectLabels plan)
                            (makeKeepSet plan proj) levels []) (\<lambda>(ids, err).
                   Ret (\<lparr>ur_ContainerIDs = ids, ur_Network = netID\<rparr>, err)))) t1 (res, err)"
    by (auto simp: Up_def trace_Do_iff)
  with assms(2) obtain netID where "asStr r = Inr netID" by (cases "asStr r") auto
  with t1(2) obtain t2 t3 v where v: "t1 = t2 @ t3" "trace (ensureNamedVolumes plan proj (projectLabels plan)) t2 v"
    "trace (case v of
               Some e \<Rightarrow> Ret (noResult\<lparr>ur_Network := netID\<rparr>, Some e)
             | None \<Rightarrow>
                 andThen (upLevels env fuel pick caps plan proj (projectLabels plan)
                            (makeKeepSet plan proj) levels []) (\<lambda>(ids, err).
                   Ret (\<lparr>ur_ContainerIDs = ids, ur_Network = netID\<rparr>, err))) t3 (res, err)"
    by (auto simp: trace_andThen)
  have "\<forall>st f e. v \<noteq> Some (PartialUpError st f e)"
    using v(2) allRets_trace [OF _ cv] unfolding ensureNamedVolumes_def by blast
  with v(3) assms(2) have "v = None" by (cases v) auto
  with v(3) have
    "trace (upLevels env fuel pick caps plan proj (projectLabels plan) (makeKeepSet plan proj) levels []) t3
       (ur_ContainerIDs res, err)"
    by (auto simp: trace_andThen)
  moreover have "tr = (fst (hd tr), r) # t2 @ t3" using t1(1) v(1) by simp
  then have "suffix t3 tr" by (metis append_Cons suffix_def)
  ultimately show thesis using that [OF lv] by blast
qed

text \<open>
  When \<^verbatim>\<open>Up\<close> succeeds, the container map has an entry for exactly the services the plan keeps:
  all of the project, or the named ones with everything they depend on. When it fails part-way,
  the \<^verbatim>\<open>PartialUpError\<close> lists, sorted, exactly the services in the returned map, and the failed
  service is a kept one that is not among them. For every runtime and every interleaving.
\<close>

theorem Up_running_services:
  assumes "wf_project proj" "plan_Project plan = Some proj"
    and "trace (Up env fuel pick caps (Some plan)) tr (res, err)"
  shows "(err = None \<longrightarrow>
      fst ` set (ur_ContainerIDs res) = makeKeepSet plan proj \<inter> projectNodes proj)
    \<and> (\<forall>st f e. err = Some (PartialUpError st f e) \<longrightarrow>
         st = sort (map fst (ur_ContainerIDs res)) \<and> f \<in> makeKeepSet plan proj
         \<and> f \<notin> fst ` set (ur_ContainerIDs res))"
proof (intro conjI impI allI)
  assume "err = None"
  from Up_levels [OF assms(3) disjI1 [OF this] assms(2)] obtain levels t where
    l: "TopoSort (Some proj) = Inr levels"
      "trace (upLevels env fuel pick caps plan proj (projectLabels plan) (makeKeepSet plan proj) levels []) t
         (ur_ContainerIDs res, err)" by blast
  have flat: "flatTopoSort proj = Inr (concat levels)" using l(1) by (simp add: flatTopoSort_def)
  have cov: "set (concat levels) = projectNodes proj"
    by (rule compose_order.covers [OF assms(1) flat])
  then have "set (concat levels) \<subseteq> fst ` set (pj_Services proj)" by (simp add: projectNodes_def)
  from upLevels_frame [OF this l(2)] \<open>err = None\<close> cov
  show "fst ` set (ur_ContainerIDs res) = makeKeepSet plan proj \<inter> projectNodes proj" by simp
next
  fix st f e
  assume err: "err = Some (PartialUpError st f e)"
  then have "\<exists>st f e. err = Some (PartialUpError st f e)" by blast
  from Up_levels [OF assms(3) disjI2 [OF this] assms(2)] obtain levels t where
    l: "TopoSort (Some proj) = Inr levels"
      "trace (upLevels env fuel pick caps plan proj (projectLabels plan) (makeKeepSet plan proj) levels []) t
         (ur_ContainerIDs res, Some (PartialUpError st f e))" unfolding err by blast
  have flat: "flatTopoSort proj = Inr (concat levels)" using l(1) by (simp add: flatTopoSort_def)
  have "set (concat levels) \<subseteq> fst ` set (pj_Services proj)"
    using compose_order.covers [OF assms(1) flat] by (simp add: projectNodes_def)
  from upLevels_partial [OF this compose_order.distinct_out [OF assms(1) flat] _ l(2)]
  show "st = sort (map fst (ur_ContainerIDs res))" "f \<in> makeKeepSet plan proj"
    "f \<notin> fst ` set (ur_ContainerIDs res)"
    using gate_not_partial by auto
qed

text \<open>A backend with no containers at first, on which every container is healthy.\<close>

definition healthyDetails :: container_details where
  "healthyDetails = (tinyDetails \<lparr>ct_ID = ''x'', ct_Name = [], ct_Image = [], ct_State = StateRunning,
     ct_Labels = []\<rparr>)\<lparr>cd_Health := HealthHealthy\<rparr>"

fun okBackend :: "call \<Rightarrow> unit \<Rightarrow> resp \<times> unit" where
  "okBackend (CreateNetwork n) u = (RStr (ns_Name n), u)"
| "okBackend (CreateVolume v) u = (RStr (vs_Name v), u)"
| "okBackend (ListContainers f) u = (RContainers [], u)"
| "okBackend (InspectContainer i) u = (RDetails (Some healthyDetails), u)"
| "okBackend (InspectImage i) u = (RImage None, u)"
| "okBackend (RunContainer s) u = (RContainer \<lparr>ct_ID = rs_Name s, ct_Name = rs_Name s, ct_Image = rs_Image s,
     ct_State = StateCreated, ct_Labels = []\<rparr>, u)"
| "okBackend Now u = (RTime 0, u)"
| "okBackend c u = (RUnit, u)"

definition all_caps :: capabilities where
  "all_caps = \<lparr>cap_Healthchecks = True, cap_ExitCodes = True, cap_ServiceNameDNS = True\<rparr>"

definition demo_up :: "(up_result \<times> orch_error option) \<times> unit \<times> (call \<times> resp) list" where
  "demo_up = runProg (Up demo_env 5 (\<lambda>l n. n) all_caps (Some demo_plan)) okBackend ()"

lemma demo_up_ok: "snd (fst demo_up) = None"
  by code_simp

lemma demo_up_ids: "map fst (ur_ContainerIDs (fst (fst demo_up))) = [''db'', ''app'', ''vpn'']"
  by code_simp

lemma demo_up_trace:
  "trace (Up demo_env 5 (\<lambda>l n. n) all_caps (Some demo_plan)) (snd (snd demo_up)) (fst (fst demo_up), None)"
  by (rule runProg_trace [of _ okBackend "()" _ "fst (snd demo_up)"])
    (metis demo_up_def demo_up_ok prod.collapse)

definition demo_adopt :: "(up_result \<times> orch_error option) \<times> unit \<times> (call \<times> resp) list" where
  "demo_adopt = runProg (Up demo_env 5 (\<lambda>l n. n) all_caps
     (Some (demo_plan\<lparr>plan_AdoptExisting := True\<rparr>))) okBackend ()"

lemma demo_adopt_calls: "length (snd (snd demo_adopt)) > 5"
  by code_simp

lemma demo_adopt_trace:
  "trace (Up demo_env 5 (\<lambda>l n. n) all_caps (Some (demo_plan\<lparr>plan_AdoptExisting := True\<rparr>)))
     (snd (snd demo_adopt)) (fst demo_adopt)"
  by (rule runProg_trace [of _ okBackend "()" _ "fst (snd demo_adopt)"]) (metis demo_adopt_def prod.collapse)

theorem Up_adopt_never_destroys_witness:
  "length (snd (snd demo_adopt)) > 5 \<and> filter (\<lambda>(c, r). destructive c) (snd (snd demo_adopt)) = []"
proof -
  have "\<not> destructive c" if "(c, r) \<in> set (snd (snd demo_adopt))" for c r
    using Up_adopt_never_destroys [OF _ demo_adopt_trace that] by simp
  then show ?thesis using demo_adopt_calls by (auto simp: filter_empty_conv)
qed

section \<open>Strict conditions of the demo project\<close>

lemma strictNeed_simps:
  "strictNeed [] s c \<longleftrightarrow> False"
  "strictNeed ((k, dep) # deps) s c \<longleftrightarrow>
     (k = s \<and> dep_Required dep \<and> dep_Condition dep = c \<and> isGateCondition c) \<or> strictNeed deps s c"
  by (auto simp: strictNeed_def)

lemma requires_iff:
  "requires proj keep s c \<longleftrightarrow>
     (\<exists>p \<in> set (pj_Services proj). keep (svc_Name (snd p)) \<and> strictNeed (svc_DependsOn (snd p)) s c)"
  unfolding requires_def by (metis prod.collapse snd_conv)

lemma demo_project_services:
  "pj_Services demo_project =
     [(''app'', blank_service\<lparr>svc_Name := ''app'',
         svc_DependsOn := [(''db'', \<lparr>dep_Condition = ''service_healthy'', dep_Required = True\<rparr>)]\<rparr>),
      (''db'', blank_service\<lparr>svc_Name := ''db''\<rparr>),
      (''vpn'', blank_service\<lparr>svc_Name := ''vpn'', svc_NetworkMode := ''service:app''\<rparr>)]"
  by (simp add: demo_project_def)

lemma blank_no_deps: "svc_DependsOn blank_service = []"
  by (simp add: blank_service_def)

lemma demo_requires:
  "requires demo_project keep s c \<longleftrightarrow> keep ''app'' \<and> s = ''db'' \<and> c = ''service_healthy''"
  unfolding requires_iff demo_project_services
  by (simp add: strictNeed_simps blank_no_deps) (auto simp: isGateCondition_def)

definition needy :: "string \<Rightarrow> string \<Rightarrow> string \<times> service_config" where
  "needy n c = (n, blank_service\<lparr>svc_Name := n,
     svc_DependsOn := [(''db'', \<lparr>dep_Condition = c, dep_Required = True\<rparr>)]\<rparr>)"

lemma needy_first:
  "isGateCondition c \<Longrightarrow> isGateCondition c' \<Longrightarrow> keep m \<Longrightarrow> keep n \<Longrightarrow>
     levelRequirements [''db''] keep [needy m c, needy n c'] [] = [(''db'', c, False)]"
  by (simp add: needy_def addRequirement_def mput_def)

text \<open>
  When two kept services require different conditions of the same dependency, only the one
  met first in map iteration order is enforced: the requirement map of the level holds a single
  condition, and swapping the two services in the iteration order swaps the condition.
\<close>

theorem levelRequirements_first_wins:
  "levelRequirements [''db''] (\<lambda>n. True)
     [needy ''app'' ''service_healthy'', needy ''job'' ''service_completed_successfully''] []
     = [(''db'', ''service_healthy'', False)]
   \<and> levelRequirements [''db''] (\<lambda>n. True)
     [needy ''job'' ''service_completed_successfully'', needy ''app'' ''service_healthy''] []
     = [(''db'', ''service_completed_successfully'', False)]"
  by (simp add: needy_first isGateCondition_def)

end
