(* ===== verification/Orchestrator_Order.thy ===== *)
theory Orchestrator_Order
  imports Orchestrator_Correct
begin

text \<open>
  The order of the calls of \<^verbatim>\<open>Orchestrator.Up\<close>: nothing is done for a service before the whole run that
  brought up each of its dependencies is over, and before the health gate after the dependency's
  level has seen the condition it waits for. Theorems are about every runtime and every schedule of
  the goroutines of a level.
\<close>

section \<open>The run of one goroutine inside its pool\<close>

text \<open>Reads of the shared map are answered by the pool and do not show in its trace.\<close>

definition visible :: "(call \<times> resp) list \<Rightarrow> (call \<times> resp) list" where
  "visible run = filter (\<lambda>e. \<not> isResolve (fst e)) run"

text \<open>A complete run of \<open>p\<close> that returns \<open>i\<close> and makes its calls, in order, among those of \<open>tr\<close>.\<close>

definition ranWithin :: "(orch_error + string) prog \<Rightarrow> string \<Rightarrow> (call \<times> resp) list \<Rightarrow> bool" where
  "ranWithin p i tr \<longleftrightarrow> (\<exists>run. trace p run (Inr i) \<and> subseq (visible run) tr)"

lemma visible_Cons:
  "visible (e # run) = (if isResolve (fst e) then visible run else e # visible run)"
  by (simp add: visible_def)

lemma ranWithin_Ret: "ranWithin (Ret (Inr i)) i tr"
  unfolding ranWithin_def by (rule exI [of _ "[]"]) (simp add: visible_def)

lemma ranWithin_skip: "ranWithin p i tr \<Longrightarrow> ranWithin p i (e # tr)"
  unfolding ranWithin_def by (blast intro: subseq_Cons')

lemma ranWithin_append: "ranWithin p i tr \<Longrightarrow> ranWithin p i (pre @ tr)"
  by (induction pre) (simp_all add: ranWithin_skip)

lemma ranWithin_append2: "ranWithin p i tr \<Longrightarrow> ranWithin p i (tr @ post)"
  unfolding ranWithin_def by (blast intro: subseq_rev_drop_many)

lemma ranWithin_read: "ranWithin (k r) i tr \<Longrightarrow> isResolve c \<Longrightarrow> ranWithin (Do c k) i tr"
  unfolding ranWithin_def
proof (elim exE conjE)
  fix run
  assume "trace (k r) run (Inr i)" "subseq (visible run) tr" "isResolve c"
  then show "\<exists>run. trace (Do c k) run (Inr i) \<and> subseq (visible run) tr"
    by (intro exI [of _ "(c, r) # run"]) (simp add: visible_Cons)
qed

lemma ranWithin_call: "ranWithin (k r) i tr \<Longrightarrow> ranWithin (Do c k) i ((c, r) # tr)"
  unfolding ranWithin_def
proof (elim exE conjE)
  fix run
  assume "trace (k r) run (Inr i)" "subseq (visible run) tr"
  then show "\<exists>run. trace (Do c k) run (Inr i) \<and> subseq (visible run) ((c, r) # tr)"
    by (intro exI [of _ "(c, r) # run"]) (auto simp: visible_Cons intro: subseq_Cons')
qed

lemma in_update_other:
  "i < length ts \<Longrightarrow> ts ! i = (name, q) \<Longrightarrow> (n, p) \<in> set ts \<Longrightarrow> n \<noteq> name \<Longrightarrow>
     (n, p) \<in> set (ts[i := (name, q')])"
  by (metis fst_conv in_set_conv_nth length_list_update nth_list_update_neq)

lemma in_removeNth_other:
  "i < length ts \<Longrightarrow> ts ! i = (name, q) \<Longrightarrow> (n, p) \<in> set ts \<Longrightarrow> n \<noteq> name \<Longrightarrow>
     (n, p) \<in> set (removeNth i ts)"
  using mset_removeNth [of i ts]
  by (metis Pair_inject insert_iff set_mset_add_mset_insert set_mset_mset)

lemma in_pool_unique:
  "distinct (map fst ts) \<Longrightarrow> i < length ts \<Longrightarrow> ts ! i = (name, q) \<Longrightarrow> (name, p) \<in> set ts \<Longrightarrow> p = q"
  by (metis eq_key_imp_eq_value nth_mem)

text \<open>
  When the pool ends without an error, every goroutine has run to its end inside the trace of the
  pool, and its result is in the map.
\<close>

lemma interleave_runs:
  assumes "trace (interleave pick n ts st) tr st'" "snd st' = None"
    and "distinct (map fst ts)" "(name, p) \<in> set ts"
  shows "\<exists>i. map_of (fst st') name = Some i \<and> ranWithin p i tr"
  using assms
proof (induction n ts st arbitrary: tr p rule: pool_induct [where pick = pick])
  case (finished n st)
  then show ?case by simp
next
  case (returning n ts st nm r i)
  then have "ts \<noteq> []" by auto
  then have tr: "trace (interleave pick (Suc n) (removeNth i ts) (finish nm r st)) tr st'"
    using returning.prems(1) returning.hyps by (simp add: interleave_Ret)
  have d: "distinct (map fst (removeNth i ts))"
    using returning.prems(3) by (simp add: map_removeNth distinct_removeNth)
  show ?case
  proof (cases "name = nm")
    case False
    then have "(name, p) \<in> set (removeNth i ts)"
      using in_removeNth_other [OF returning.hyps(1,2)] returning.prems(4) by blast
    from returning.IH [OF tr returning.prems(2) d this] show ?thesis .
  next
    case True
    then have p: "p = Ret r"
      using in_pool_unique [OF returning.prems(3) returning.hyps(1,2)] returning.prems(4) by blast
    have post: "pool_post (fst ` set (removeNth i ts)) (finish nm r st) st'"
      by (rule allRets_trace [OF tr allRets_interleave])
    have "nm \<notin> set (removeNth i (map fst ts))"
      using removeNth_notin [OF returning.prems(3), of i] returning.hyps(1,2) by simp
    then have "nm \<notin> fst ` set (removeNth i ts)" by (simp add: map_removeNth [symmetric])
    then have "map_of (fst st') nm = map_of (fst (finish nm r st)) nm" "snd (finish nm r st) = None"
      using post returning.prems(2) by (simp_all add: pool_post_def)
    then obtain j where "r = Inr j" "map_of (fst st') nm = Some j"
      by (cases r) (auto simp: finish_def split: if_splits)
    then show ?thesis using True p ranWithin_Ret by blast
  qed
next
  case (reading n ts st nm x k i)
  then have "ts \<noteq> []" by auto
  then have tr: "trace (interleave pick (Suc n) (ts[i := (nm, k (RStr (mget (fst st) x)))]) st) tr st'"
    using reading.prems(1) reading.hyps by (simp add: interleave_Resolve)
  have d: "distinct (map fst (ts[i := (nm, k (RStr (mget (fst st) x)))]))"
    using reading.hyps reading.prems(3) by (metis fst_conv list_update_id map_update)
  show ?case
  proof (cases "name = nm")
    case False
    from reading.IH [OF tr reading.prems(2) d in_update_other [OF reading.hyps(1,2) reading.prems(4) False]]
    show ?thesis .
  next
    case True
    then have p: "p = Do (ResolveContainer x) k"
      using in_pool_unique [OF reading.prems(3) reading.hyps(1,2)] reading.prems(4) by blast
    have "(name, k (RStr (mget (fst st) x))) \<in> set (ts[i := (nm, k (RStr (mget (fst st) x)))])"
      using True reading.hyps(1) by (simp add: set_update_memI)
    from reading.IH [OF tr reading.prems(2) d this] obtain j
      where "map_of (fst st') name = Some j" "ranWithin (k (RStr (mget (fst st) x))) j tr" by blast
    moreover have "isResolve (ResolveContainer x)" by (simp add: isResolve_def)
    ultimately show ?thesis unfolding p by (intro exI [of _ j] conjI) (simp_all add: ranWithin_read)
  qed
next
  case (calling n ts st nm c k i)
  then have "ts \<noteq> []" by auto
  then have "trace (Do c (\<lambda>r. interleave pick (Suc n) (ts[i := (nm, k r)]) st)) tr st'"
    using calling.prems(1) calling.hyps(1-4) by (simp add: interleave_Do)
  then obtain r tr' where tr': "tr = (c, r) # tr'"
    "trace (interleave pick (Suc n) (ts[i := (nm, k r)]) st) tr' st'" by (auto simp: trace_Do_iff)
  have d: "distinct (map fst (ts[i := (nm, k r)]))"
    using calling.hyps calling.prems(3) by (metis fst_conv list_update_id map_update)
  show ?case
  proof (cases "name = nm")
    case False
    from calling.IH [OF tr'(2) calling.prems(2) d in_update_other [OF calling.hyps(1,2) calling.prems(4) False]]
    show ?thesis unfolding tr'(1) by (blast intro: ranWithin_skip)
  next
    case True
    then have p: "p = Do c k"
      using in_pool_unique [OF calling.prems(3) calling.hyps(1,2)] calling.prems(4) by blast
    have "(name, k r) \<in> set (ts[i := (nm, k r)])" using True calling.hyps(1) by (simp add: set_update_memI)
    from calling.IH [OF tr'(2) calling.prems(2) d this] show ?thesis
      unfolding p tr'(1) by (blast intro: ranWithin_call)
  qed
qed

section \<open>The calls that bring a service up\<close>

text \<open>
  Bringing a service up looks for its container and creates one under its name. What follows (the
  inspection, the restart, the removal of a drifted container) is about the container found.
\<close>

definition bringsUp :: "plan \<Rightarrow> string \<Rightarrow> call \<Rightarrow> bool" where
  "bringsUp plan name c = (case c of
     ListContainers f \<Rightarrow> lf_Match f = [(LabelComposeProject, plan_ProjectName plan), (LabelComposeService, name)]
   | RunContainer s \<Rightarrow> rs_Name s = plan_ProjectName plan @ ''-'' @ name @ ''-1''
   | _ \<Rightarrow> False)"

abbreviation spares :: "plan \<Rightarrow> string \<Rightarrow> call \<Rightarrow> bool" where
  "spares plan name c \<equiv> \<not> bringsUp plan name c"

lemma bringsUp_simps [simp]:
  "bringsUp plan name (ListContainers f) \<longleftrightarrow>
     lf_Match f = [(LabelComposeProject, plan_ProjectName plan), (LabelComposeService, name)]"
  "bringsUp plan name (RunContainer s) \<longleftrightarrow> rs_Name s = plan_ProjectName plan @ ''-'' @ name @ ''-1''"
  "\<not> bringsUp plan name (ResolveContainer x)" "\<not> bringsUp plan name (InspectImage x)"
  "\<not> bringsUp plan name (StartContainer x)" "\<not> bringsUp plan name (StopContainer x)"
  "\<not> bringsUp plan name (RemoveContainer x)" "\<not> bringsUp plan name (InspectContainer x)"
  "\<not> bringsUp plan name (PullImage x)" "\<not> bringsUp plan name (ExecContainer x xo)"
  "\<not> bringsUp plan name (CreateNetwork ns)" "\<not> bringsUp plan name (CreateVolume vs)"
  "\<not> bringsUp plan name CtxErr" "\<not> bringsUp plan name Now" "\<not> bringsUp plan name (Sleep d)"
  by (simp_all add: bringsUp_def)

lemma serviceToRunSpec_name:
  "allRets (\<lambda>s. \<forall>spec. s = Inr spec \<longrightarrow> rs_Name spec = plan_ProjectName plan @ ''-'' @ svc_Name svc @ ''-1'')
     (serviceToRunSpec env plan svc labels hash dig)"
  by (auto simp: serviceToRunSpec_def Let_def runSpecOf_def resolveNamespaceMode_def case_prod_unfold
      split: sum.split intro!: allRets_mono [OF allRets_True])

lemma createService_spares:
  assumes "svc_Name svc \<noteq> name"
  shows "allCalls (spares plan name) (createService env plan svc labels hash dig)"
  unfolding createService_def
proof (rule allCalls_andThen)
  show "allCalls (spares plan name) (serviceToRunSpec env plan svc labels hash dig)"
    by (rule serviceToRunSpec_calls) simp
qed (rule allRets_mono [OF serviceToRunSpec_name],
    auto simp: startFresh_def assms split: sum.split option.split)

lemma ensureService_spares:
  assumes "svc_Name svc \<noteq> name"
  shows "allCalls (spares plan name) (ensureService env plan svc labels)"
proof -
  have d: "allCalls (spares plan name) (resolveImageDigest ref)" for ref
    by (auto simp: resolveImageDigest_def split: option.split)
  have u: "allCalls (spares plan name) (reuseContainer what c)" for what c
    by (auto simp: reuseContainer_def split: option.split)
  have r: "allCalls (spares plan name) (recreateService env plan svc labels hash dig c)" for hash dig c
    by (auto simp: recreateService_def createService_spares [OF assms] split: option.split)
  show ?thesis
    unfolding ensureService_def Let_def
    by (intro allCalls_andThenI d)
      (auto simp: createService_spares [OF assms] u r serviceFilter_def assms
        split: sum.split list.split option.split)
qed

lemma waitFor_spares: "allCalls (spares plan name) (waitFor env fuel svc cid cond declares deadline unrep)"
  by (induction env fuel svc cid cond declares deadline unrep rule: waitFor.induct)
    (auto split: option.split verdict.split)

lemma gateLoop_spares: "allCalls (spares plan name) (gateLoop env fuel services ids deadline reqs)"
  by (induction env fuel services ids deadline reqs rule: gateLoop.induct)
    (auto simp: Let_def intro!: allCalls_andThenI waitFor_spares split: option.split)

lemma gateLevel_spares: "allCalls (spares plan name) (gateLevel env fuel proj level ids keep)"
  by (auto simp: gateLevel_def Let_def gateLoop_spares)

lemma containerIP_spares: "allCalls (spares plan name) (containerIP cid)"
  by (auto simp: containerIP_def split: option.split)

lemma collectIPs_spares: "allCalls (spares plan name) (collectIPs ids ips)"
  by (induction ids ips rule: collectIPs.induct)
    (simp_all only: collectIPs.simps allCalls.simps allCalls_andThenI containerIP_spares)

lemma appendHostsBlocks_spares: "allCalls (spares plan name) (appendHostsBlocks cids block)"
  by (induction cids block rule: appendHostsBlocks.induct)
    (auto simp: appendHostsBlock_def intro!: allCalls_andThenI)

lemma patchHostsFiles_spares: "allCalls (spares plan name) (patchHostsFiles ids)"
  unfolding patchHostsFiles_def
  by (auto intro!: allCalls_andThenI collectIPs_spares appendHostsBlocks_spares)

lemma levelThreads_spares:
  assumes "wf_project proj" "name \<notin> set level"
  shows "allCalls (spares plan name) (interleave pick 0 (levelThreads env plan proj labels keep level) st)"
proof (rule allCalls_interleave)
  fix t
  assume t: "t \<in> set (levelThreads env plan proj labels keep level)"
  then obtain svc where svc: "snd t = ensureService env plan svc labels"
      "map_of (pj_Services proj) (fst t) = Some svc" using levelThreads_set by blast
  have "fst t \<in> set level" using t by (auto simp: levelThreads_def split: option.splits)
  moreover have "svc_Name svc = fst t" using svc(2) assms(1) by (auto simp: wf_project_def dest!: map_of_SomeD)
  ultimately have "svc_Name svc \<noteq> name" using assms(2) by auto
  from ensureService_spares [OF this] show "allCalls (\<lambda>c. isResolve c \<or> spares plan name c) (snd t)"
    unfolding svc(1) by (rule allCalls_weaken) simp
qed

section \<open>The order of the levels\<close>

lemma upLevels_parts:
  assumes "trace (upLevels env fuel pick caps plan proj labels keep (level # levels) ids) tr (ids', err)"
  obtains (stopped) t1 t2 r g ids1 where "err \<noteq> None" "tr = t1 @ t2"
      "trace (interleave (pick level) 0 (levelThreads env plan proj labels keep level) (ids, None)) t1 r"
      "t2 = [] \<or> trace (gateLevel env fuel proj level ids1 (\<lambda>n. n \<in> keep)) t2 g"
    | (more) t1 t2 t3 t4 ids1 where "tr = t1 @ t2 @ t3 @ t4"
        "trace (interleave (pick level) 0 (levelThreads env plan proj labels keep level) (ids, None)) t1 (ids1, None)"
        "trace (gateLevel env fuel proj level ids1 (\<lambda>n. n \<in> keep)) t2 None"
        "t3 = [] \<or> trace (patchHostsFiles ids1) t3 ()"
        "trace (upLevels env fuel pick caps plan proj labels keep levels ids1) t4 (ids', err)"
proof -
  let ?rest = "\<lambda>ids1. upLevels env fuel pick caps plan proj labels keep levels ids1"
  from assms obtain t1 t2 ids1 fe where t: "tr = t1 @ t2"
    "trace (interleave (pick level) 0 (levelThreads env plan proj labels keep level) (ids, None)) t1 (ids1, fe)"
    "trace (case fe of
           Some (firstSvc, e) \<Rightarrow> Ret (ids1, Some (PartialUpError (sort (map fst ids1)) firstSvc e))
         | None \<Rightarrow>
             andThen (gateLevel env fuel proj level ids1 (\<lambda>n. n \<in> keep)) (\<lambda>g.
               case g of
                 Some e \<Rightarrow> Ret (ids1, Some e)
               | None \<Rightarrow>
                   if \<not> cap_ServiceNameDNS caps then andThen (patchHostsFiles ids1) (\<lambda>_. ?rest ids1)
                   else ?rest ids1)) t2 (ids', err)"
    by (auto simp: trace_andThen)
  show thesis
  proof (cases fe)
    case (Some ne)
    with t(3) have "err \<noteq> None" "t2 = []" by (cases ne; simp)+
    with t(1,2) show thesis by (intro stopped [of t1 t2]) simp_all
  next
    case None
    with t(3) obtain t3 t4 g where g: "t2 = t3 @ t4"
      "trace (gateLevel env fuel proj level ids1 (\<lambda>n. n \<in> keep)) t3 g"
      "trace (case g of
                 Some e \<Rightarrow> Ret (ids1, Some e)
               | None \<Rightarrow>
                   if \<not> cap_ServiceNameDNS caps then andThen (patchHostsFiles ids1) (\<lambda>_. ?rest ids1)
                   else ?rest ids1) t4 (ids', err)"
      by (auto simp: trace_andThen)
    show thesis
    proof (cases g)
      case (Some e)
      with g(3) have "err \<noteq> None" "t4 = []" by simp_all
      with t(1,2) g(1,2) show thesis by (intro stopped [of t1 t3 "(ids1, fe)" ids1 g]) simp_all
    next
      case g0: None
      show thesis
      proof (cases "cap_ServiceNameDNS caps")
        case True
        with g(3) g0 have "trace (?rest ids1) t4 (ids', err)" by simp
        with t(1,2) g(1,2) None g0 show thesis by (intro more [of t1 t3 "[]" t4 ids1]) simp_all
      next
        case False
        with g(3) g0 obtain t5 t6 where "t4 = t5 @ t6" "trace (patchHostsFiles ids1) t5 ()"
            "trace (?rest ids1) t6 (ids', err)" by (auto simp: trace_andThen)
        with t(1,2) g(1,2) None g0 show thesis by (intro more [of t1 t3 t5 t6 ids1]) simp_all
      qed
    qed
  qed
qed

abbreviation sparesAll :: "plan \<Rightarrow> string \<Rightarrow> (call \<times> resp) list \<Rightarrow> bool" where
  "sparesAll plan name tr \<equiv> \<forall>e \<in> set tr. \<not> bringsUp plan name (fst e)"

lemma sparesAll_trace: "allCalls (spares plan name) p \<Longrightarrow> trace p tr res \<Longrightarrow> sparesAll plan name tr"
  using allCalls_trace [of p tr res "spares plan name"] by (metis prod.collapse)

lemma sparesAll_append: "sparesAll plan name s \<Longrightarrow> sparesAll plan name t \<Longrightarrow> sparesAll plan name (s @ t)"
  unfolding set_append by (rule ballI) blast

lemma levelThreads_member:
  assumes "n \<in> set level" "n \<in> keep" "map_of (pj_Services proj) n = Some svc"
  shows "(n, ensureService env plan svc labels) \<in> set (levelThreads env plan proj labels keep level)"
  using assms by (force simp: levelThreads_def)

lemma level_runs:
  assumes "trace (interleave pick 0 (levelThreads env plan proj labels keep level) st) t1 (ids1, None)"
    and "set level \<subseteq> fst ` set (pj_Services proj)" "distinct level"
    and "n \<in> set level" "n \<in> keep" "map_of (pj_Services proj) n = Some svc"
  shows "ranWithin (ensureService env plan svc labels) (mget ids1 n) t1"
proof -
  have "distinct (map fst (levelThreads env plan proj labels keep level))"
    using assms(2,3) by (simp add: levelThreads_names)
  from interleave_runs [OF assms(1) _ this levelThreads_member [OF assms(4-6)]] show ?thesis
    by (auto simp: mget_def)
qed

lemma upLevels_keeps:
  assumes "set (concat levels) \<subseteq> fst ` set (pj_Services proj)"
    and "trace (upLevels env fuel pick caps plan proj labels keep levels ids) tr (ids', err)"
    and "n \<notin> set (concat levels)"
  shows "mget ids' n = mget ids n"
  using upLevels_frame [OF assms(1,2)] assms(3) by (simp add: mget_def)

text \<open>On success every kept service of the levels has had its complete run.\<close>

lemma upLevels_runs:
  assumes "set (concat levels) \<subseteq> fst ` set (pj_Services proj)" "distinct (concat levels)"
    and "trace (upLevels env fuel pick caps plan proj labels keep levels ids) tr (ids', None)"
    and "n \<in> set (concat levels)" "n \<in> keep" "map_of (pj_Services proj) n = Some svc"
  shows "ranWithin (ensureService env plan svc labels) (mget ids' n) tr"
  using assms(1-4)
proof (induction levels arbitrary: ids tr)
  case Nil
  then show ?case by simp
next
  case (Cons level levels)
  have sub: "set (concat levels) \<subseteq> fst ` set (pj_Services proj)" "set level \<subseteq> fst ` set (pj_Services proj)"
      "distinct (concat levels)" "distinct level" "set level \<inter> set (concat levels) = {}"
    using Cons.prems(1,2) by auto
  from Cons.prems(3) show ?case
  proof (cases rule: upLevels_parts)
    case (more t1 t2 t3 t4 ids1)
    show ?thesis
    proof (cases "n \<in> set level")
      case True
      then have "n \<notin> set (concat levels)" using sub(5) by blast
      with upLevels_keeps [OF sub(1) more(5)] level_runs [OF more(2) sub(2,4) True assms(5,6)]
      show ?thesis unfolding more(1) by (simp add: ranWithin_append2)
    next
      case False
      then have "n \<in> set (concat levels)" using Cons.prems(4) by simp
      from Cons.IH [OF sub(1,3) more(5) this] show ?thesis
        unfolding more(1) by (simp add: ranWithin_append)
    qed
  qed simp
qed

text \<open>
  The condition the gate waits for: that of the first strict dependency on the service, in the order
  the dependents are visited (the iteration order of the services map, then of their \<^verbatim>\<open>depends_on\<close>).
\<close>

definition keptNeeds :: "service_config gomap \<Rightarrow> (string \<Rightarrow> bool) \<Rightarrow> service_dependency gomap" where
  "keptNeeds services keep =
     concat (map (\<lambda>p. if keep (svc_Name (snd p)) then svc_DependsOn (snd p) else []) services)"

abbreviation strictOn :: "string \<Rightarrow> string \<times> service_dependency \<Rightarrow> bool" where
  "strictOn s nd \<equiv> fst nd = s \<and> dep_Required (snd nd) \<and> isGateCondition (dep_Condition (snd nd))"

definition firstNeed :: "service_config gomap \<Rightarrow> (string \<Rightarrow> bool) \<Rightarrow> string \<Rightarrow> string option" where
  "firstNeed services keep s = map_option (\<lambda>nd. dep_Condition (snd nd)) (find (strictOn s) (keptNeeds services keep))"

lemma addRequirements_append:
  "addRequirements level (xs @ ys) req = addRequirements level ys (addRequirements level xs req)"
  by (induction level xs req rule: addRequirements.induct) simp_all

lemma levelRequirements_flat:
  "levelRequirements level keep services req = addRequirements level (keptNeeds services keep) req"
  by (induction level keep services req rule: levelRequirements.induct)
    (simp_all add: keptNeeds_def addRequirements_append)

lemma addRequirement_weak:
  "s \<in> set level \<Longrightarrow> \<not> strictOn s (n, dep) \<Longrightarrow> (\<nexists>c. map_of req s = Some (c, False)) \<Longrightarrow>
     \<nexists>c. map_of (addRequirement level n dep req) s = Some (c, False)"
  by (auto dest!: addRequirement_origin)

lemma addRequirements_first:
  assumes "s \<in> set level" "find (strictOn s) deps = Some nd" "\<nexists>c. map_of req s = Some (c, False)"
  shows "map_of (addRequirements level deps req) s = Some (dep_Condition (snd nd), False)"
  using assms(2,3)
proof (induction deps arbitrary: req)
  case Nil
  then show ?case by simp
next
  case (Cons x deps)
  obtain n dep where x: "x = (n, dep)" by fastforce
  show ?case
  proof (cases "strictOn s x")
    case True
    with Cons.prems(1) have nd: "nd = x" by simp
    have "map_of (addRequirement level n dep req) s = Some (dep_Condition dep, False)"
      using True Cons.prems(2) assms(1) x by (auto simp: addRequirement_def split: option.splits)
    then show ?thesis unfolding nd x by (simp add: addRequirements_stays)
  next
    case False
    then have f: "find (strictOn s) deps = Some nd" using Cons.prems(1) by (simp split: if_splits)
    have "\<nexists>c. map_of (addRequirement level n dep req) s = Some (c, False)"
      by (rule addRequirement_weak [OF assms(1) _ Cons.prems(2)]) (use False x in simp)
    from Cons.IH [OF f this] show ?thesis unfolding x by simp
  qed
qed

lemma levelRequirements_first:
  "s \<in> set level \<Longrightarrow> firstNeed services keep s = Some c \<Longrightarrow>
     map_of (levelRequirements level keep services []) s = Some (c, False)"
  unfolding levelRequirements_flat firstNeed_def by (auto simp: addRequirements_first)

lemma gateLevel_waits:
  assumes "trace (gateLevel env fuel proj level ids keep) tr None"
    and "firstNeed (pj_Services proj) keep s = Some c" "s \<in> set level" "mget ids s \<noteq> []"
  shows "\<exists>d. (InspectContainer (mget ids s), RDetails (Some d)) \<in> set tr
    \<and> conditionMet c (declaresFor proj s) d"
proof -
  let ?req = "levelRequirements level keep (pj_Services proj) []"
  have "(s, c, False) \<in> set ?req"
    using levelRequirements_first [OF assms(3,2)] by (rule map_of_SomeD)
  moreover from this assms(1) obtain t t2 deadline where "tr = (Now, t) # t2"
      "trace (gateLoop env fuel (pj_Services proj) ids deadline ?req) t2 None"
    by (auto simp: gateLevel_def Let_def trace_Do_iff split: if_splits)
  ultimately show ?thesis
    using gateLoop_passes [of env fuel "pj_Services proj" ids deadline ?req t2 s c] assms(4)
    by (auto simp: declaresFor_def)
qed

lemma keptNeeds_member:
  "nd \<in> set (keptNeeds services keep) \<longleftrightarrow>
     (\<exists>p \<in> set services. keep (svc_Name (snd p)) \<and> nd \<in> set (svc_DependsOn (snd p)))"
  by (auto simp: keptNeeds_def split: if_splits)

lemma find_Some_member: "find P xs = Some x \<Longrightarrow> x \<in> set xs \<and> P x"
  by (induction xs) (auto split: if_splits)

lemma firstNeed_required:
  "firstNeed (pj_Services proj) keep s = Some c \<Longrightarrow> requires proj keep s c"
  unfolding firstNeed_def
proof -
  assume "map_option (\<lambda>nd. dep_Condition (snd nd)) (find (strictOn s) (keptNeeds (pj_Services proj) keep)) = Some c"
  then obtain nd where nd: "find (strictOn s) (keptNeeds (pj_Services proj) keep) = Some nd"
      "dep_Condition (snd nd) = c" by auto
  from find_Some_member [OF nd(1)] obtain p where "p \<in> set (pj_Services proj)" "keep (svc_Name (snd p))"
      "nd \<in> set (svc_DependsOn (snd p))" "strictOn s nd" unfolding keptNeeds_member by blast
  with nd(2) show ?thesis unfolding requires_iff strictNeed_def by (metis prod.collapse)
qed

lemma firstNeed_exists:
  assumes "requires proj keep s c"
  shows "\<exists>c'. firstNeed (pj_Services proj) keep s = Some c'"
proof -
  from assms obtain p dep where "p \<in> set (pj_Services proj)" "keep (svc_Name (snd p))"
      "(s, dep) \<in> set (svc_DependsOn (snd p))" "dep_Required dep" "dep_Condition dep = c" "isGateCondition c"
    unfolding requires_iff strictNeed_def by blast
  then have "(s, dep) \<in> set (keptNeeds (pj_Services proj) keep)" "strictOn s (s, dep)"
    unfolding keptNeeds_member by auto
  then have "find (strictOn s) (keptNeeds (pj_Services proj) keep) \<noteq> None"
    unfolding find_None_iff by blast
  then show ?thesis by (auto simp: firstNeed_def)
qed

text \<open>What is known of a service once its level is over: its run, and the condition its dependents wait for.\<close>

definition levelDone ::
  "orch_env \<Rightarrow> plan \<Rightarrow> project \<Rightarrow> string gomap \<Rightarrow> string set \<Rightarrow> string gomap \<Rightarrow> string \<Rightarrow>
     (call \<times> resp) list \<Rightarrow> bool" where
  "levelDone env plan proj labels keep ids y tr \<longleftrightarrow>
     (\<forall>svc. map_of (pj_Services proj) y = Some svc \<longrightarrow>
        ranWithin (ensureService env plan svc labels) (mget ids y) tr)
     \<and> (\<forall>c. firstNeed (pj_Services proj) (\<lambda>n. n \<in> keep) y = Some c \<longrightarrow> mget ids y \<noteq> [] \<longrightarrow>
          (\<exists>d. (InspectContainer (mget ids y), RDetails (Some d)) \<in> set tr
               \<and> conditionMet c (declaresFor proj y) d))"

lemma levelDone_append: "levelDone env plan proj labels keep ids y tr \<Longrightarrow>
    levelDone env plan proj labels keep ids y (pre @ tr)"
  unfolding levelDone_def set_append by (intro conjI) (blast intro: ranWithin_append, blast)

lemma upLevels_order:
  assumes "wf_project proj" "y \<in> keep" "x \<in> keep" "map_of (pj_Services proj) x = Some sx"
    and "set (concat levels) \<subseteq> fst ` set (pj_Services proj)" "distinct (concat levels)"
    and "trace (upLevels env fuel pick caps plan proj labels keep levels ids) tr (ids', err)"
    and "levels = A @ ly # B" "y \<in> set ly" "x \<in> set (concat B)"
  shows "\<exists>t0 t1. tr = t0 @ t1 \<and> sparesAll plan x t0
    \<and> (t1 = [] \<and> err \<noteq> None \<or> levelDone env plan proj labels keep ids' y t0)
    \<and> (err = None \<longrightarrow> ranWithin (ensureService env plan sx labels) (mget ids' x) t1)"
  using assms(5-8)
proof (induction levels arbitrary: ids tr A)
  case Nil
  then show ?case by simp
next
  case (Cons level levels)
  have sub: "set (concat levels) \<subseteq> fst ` set (pj_Services proj)" "set level \<subseteq> fst ` set (pj_Services proj)"
      "distinct (concat levels)" "distinct level" "set level \<inter> set (concat levels) = {}"
    using Cons.prems(1,2) by auto
  have xl: "x \<in> set (concat levels)" using Cons.prems(4) assms(10) by (cases A) auto
  then have nx: "x \<notin> set level" using sub(5) by blast
  note calm = sparesAll_trace [OF levelThreads_spares [OF assms(1) nx]]
    sparesAll_trace [OF gateLevel_spares] sparesAll_trace [OF patchHostsFiles_spares]
  from Cons.prems(3) show ?case
  proof (cases rule: upLevels_parts)
    case (stopped t1 t2 r g ids1)
    have "sparesAll plan x t1" by (rule calm(1) [OF stopped(3)])
    moreover have "sparesAll plan x t2" using stopped(4)
    proof
      assume "trace (gateLevel env fuel proj level ids1 (\<lambda>n. n \<in> keep)) t2 g"
      then show ?thesis by (rule calm(2))
    qed simp
    ultimately have "sparesAll plan x tr" unfolding stopped(2) by (rule sparesAll_append)
    with stopped(1) show ?thesis by (rule_tac x = tr in exI, rule_tac x = "[]" in exI) auto
  next
    case (more t1 t2 t3 t4 ids1)
    have "sparesAll plan x t1" by (rule calm(1) [OF more(2)])
    moreover have "sparesAll plan x t2" by (rule calm(2) [OF more(3)])
    moreover have "sparesAll plan x t3" using more(4)
    proof
      assume "trace (patchHostsFiles ids1) t3 ()"
      then show ?thesis by (rule calm(3))
    qed simp
    ultimately have q: "sparesAll plan x (t1 @ t2 @ t3)" by (intro sparesAll_append)
    show ?thesis
    proof (cases A)
      case Nil
      then have y: "y \<in> set level" and B: "levels = B" using Cons.prems(4) assms(9) by auto
      then have "y \<notin> set (concat levels)" using sub(5) by blast
      then have m: "mget ids' y = mget ids1 y" by (rule upLevels_keeps [OF sub(1) more(5)])
      have "levelDone env plan proj labels keep ids' y (t1 @ t2 @ t3)"
        unfolding levelDone_def m
      proof (intro conjI allI impI)
        fix svc
        assume "map_of (pj_Services proj) y = Some svc"
        from level_runs [OF more(2) sub(2,4) y assms(2) this]
        show "ranWithin (ensureService env plan svc labels) (mget ids1 y) (t1 @ t2 @ t3)"
          by (rule ranWithin_append2)
      next
        fix c
        assume "firstNeed (pj_Services proj) (\<lambda>n. n \<in> keep) y = Some c" "mget ids1 y \<noteq> []"
        from gateLevel_waits [OF more(3) this(1) y this(2)]
        show "\<exists>d. (InspectContainer (mget ids1 y), RDetails (Some d)) \<in> set (t1 @ t2 @ t3)
            \<and> conditionMet c (declaresFor proj y) d" unfolding set_append by blast
      qed
      moreover have "err = None \<longrightarrow> ranWithin (ensureService env plan sx labels) (mget ids' x) t4"
        using upLevels_runs [OF sub(1,3) _ xl assms(3,4)] more(5) by blast
      ultimately show ?thesis using q more(1)
        by (intro exI [of _ "t1 @ t2 @ t3"] exI [of _ t4] conjI disjI2) (simp_all only: append_assoc)
    next
      case (Cons l A')
      then have "levels = A' @ ly # B" using Cons.prems(4) by simp
      from Cons.IH [OF sub(1,3) more(5) this] obtain s0 s1 where s: "t4 = s0 @ s1" "sparesAll plan x s0"
        "s1 = [] \<and> err \<noteq> None \<or> levelDone env plan proj labels keep ids' y s0"
        "err = None \<longrightarrow> ranWithin (ensureService env plan sx labels) (mget ids' x) s1" by (elim exE conjE) (rule that)
      have "sparesAll plan x ((t1 @ t2 @ t3) @ s0)" by (rule sparesAll_append [OF q s(2)])
      moreover have "s1 = [] \<and> err \<noteq> None
          \<or> levelDone env plan proj labels keep ids' y ((t1 @ t2 @ t3) @ s0)"
        using s(3) levelDone_append by blast
      ultimately show ?thesis using s(1,4) more(1)
        by (intro exI [of _ "(t1 @ t2 @ t3) @ s0"] exI [of _ s1] conjI) (simp_all only: append_assoc)
    qed
  qed
qed

section \<open>Up\<close>

lemma createVolumes_spares: "allCalls (spares plan name) (createVolumes pl proj labels names)"
  by (induction pl proj labels names rule: createVolumes.induct) (auto split: sum.split)

lemma Up_parts:
  assumes "trace (Up env fuel pick caps (Some plan)) tr (res, err)" "plan_Project plan = Some proj"
  obtains (early) "err \<noteq> None" "sparesAll plan name tr"
    | (levels) levels t0 t where "TopoSort (Some proj) = Inr levels" "tr = t0 @ t" "sparesAll plan name t0"
        "trace (upLevels env fuel pick caps plan proj (projectLabels plan) (makeKeepSet plan proj) levels []) t
           (ur_ContainerIDs res, err)"
proof (cases "Validate caps (Some plan)")
  case (Some e)
  with assms(1) show thesis by (intro early) (simp_all add: Up_def)
next
  case val: None
  show thesis
  proof (cases "TopoSort (Some proj)")
    case (Inl e)
    with assms val show thesis by (intro early) (simp_all add: Up_def)
  next
    case (Inr levels)
    let ?net = "CreateNetwork \<lparr>ns_Name = plan_ProjectName plan @ ''_default'', ns_Labels = projectLabels plan\<rparr>"
    from assms val Inr obtain r t1 where t1: "tr = (?net, r) # t1"
      "trace (case asStr r of
         Inl e \<Rightarrow> Ret (noResult, Some (NetworkFailed e))
       | Inr netID \<Rightarrow>
           andThen (ensureNamedVolumes plan proj (projectLabels plan)) (\<lambda>v.
             case v of
               Some e \<Rightarrow> Ret (noResult\<lparr>ur_Network := netID\<rparr>, Some e)
             | None \<Rightarrow>
                 andThen (upLevels env fuel pick caps plan proj (projectLabels plan)
                            (makeKeepSet plan proj) levels []) (\<lambda>(ids, err).
                   Ret (\<lparr>ur_ContainerIDs = ids, ur_Network = netID\<rparr>, err)))) t1 (res, err)"
      by (auto simp: Up_def trace_Do_iff)
    show thesis
    proof (cases "asStr r")
      case (Inl e)
      with t1 show thesis by (intro early) simp_all
    next
      case (Inr netID)
      with t1(2) obtain t2 t3 v where v: "t1 = t2 @ t3"
        "trace (ensureNamedVolumes plan proj (projectLabels plan)) t2 v"
        "trace (case v of
               Some e \<Rightarrow> Ret (noResult\<lparr>ur_Network := netID\<rparr>, Some e)
             | None \<Rightarrow>
                 andThen (upLevels env fuel pick caps plan proj (projectLabels plan)
                            (makeKeepSet plan proj) levels []) (\<lambda>(ids, err).
                   Ret (\<lparr>ur_ContainerIDs = ids, ur_Network = netID\<rparr>, err))) t3 (res, err)"
        by (auto simp: trace_andThen)
      have "sparesAll plan name t2"
        using v(2) unfolding ensureNamedVolumes_def by (rule sparesAll_trace [OF createVolumes_spares])
      then have q: "sparesAll plan name ((?net, r) # t2)" by simp
      show thesis
      proof (cases v)
        case (Some e)
        with v(3) have "err \<noteq> None" "t3 = []" by simp_all
        with q v(1) t1(1) show thesis by (intro early) simp_all
      next
        case None
        with v(3) have "trace (upLevels env fuel pick caps plan proj (projectLabels plan)
            (makeKeepSet plan proj) levels []) t3 (ur_ContainerIDs res, err)"
          by (auto simp: trace_andThen)
        from levels [OF \<open>TopoSort (Some proj) = Inr levels\<close> _ q this] show thesis using v(1) t1(1) by simp
      qed
    qed
  qed
qed

lemma keep_closed:
  assumes "x \<in> makeKeepSet plan proj" "y \<in> projectDeps proj x"
  shows "y \<in> makeKeepSet plan proj"
proof (cases "plan_Services plan = []")
  case True
  then show ?thesis using assms(2) by (auto simp: makeKeepSet_def projectDeps_def)
next
  case False
  have "(x, y) \<in> edgeRel (pj_Services proj)" using assms(2) by (auto simp: projectDeps_def edgeRel_def)
  then show ?thesis
    using assms(1) unfolding makeKeepSet_def if_not_P [OF False] ServiceClosure_def
    by (simp add: closureLoop_reach) (blast intro: rtrancl_into_rtrancl)
qed

lemma level_split:
  assumes "wf_project proj" "TopoSort (Some proj) = Inr levels" "x \<in> projectNodes proj" "y \<in> projectDeps proj x"
  obtains A ly B where "levels = A @ ly # B" "y \<in> set ly" "x \<in> set (concat B)"
proof -
  have "flatTopoSort proj = Inr (concat levels)" using assms(2) by (simp add: flatTopoSort_def)
  from compose_order.covers [OF assms(1) this] assms(3) obtain i where i: "i < length levels" "x \<in> set (levels ! i)"
    by (metis (no_types, lifting) UN_E in_set_conv_nth set_concat)
  from level_deps [OF assms(2) this assms(4)] obtain j where j: "j < i" "y \<in> set (levels ! j)" by blast
  have "levels = take j levels @ levels ! j # drop (Suc j) levels" using i(1) j(1) by (simp add: id_take_nth_drop)
  moreover have "drop (Suc j) levels ! (i - Suc j) = levels ! i" using i(1) j(1) by simp
  then have "levels ! i \<in> set (drop (Suc j) levels)"
    using nth_mem [of "i - Suc j" "drop (Suc j) levels"] i(1) j(1) by simp
  then have "x \<in> set (concat (drop (Suc j) levels))" using i(2) unfolding set_concat by blast
  ultimately show thesis using that j(2) by blast
qed

text \<open>The split of every trace at the point where a dependency is done.\<close>

lemma Up_split:
  assumes "wf_project proj" "plan_Project plan = Some proj"
    and "trace (Up env fuel pick caps (Some plan)) tr (res, err)"
    and "x \<in> makeKeepSet plan proj" "map_of (pj_Services proj) x = Some sx" "y \<in> projectDeps proj x"
  shows "\<exists>t0 t1. tr = t0 @ t1 \<and> sparesAll plan x t0
    \<and> (t1 = [] \<and> err \<noteq> None
       \<or> levelDone env plan proj (projectLabels plan) (makeKeepSet plan proj) (ur_ContainerIDs res) y t0)
    \<and> (err = None \<longrightarrow>
         ranWithin (ensureService env plan sx (projectLabels plan)) (mget (ur_ContainerIDs res) x) t1)"
  using assms(3,2)
proof (cases rule: Up_parts [where name = x])
  case early
  then show ?thesis by (rule_tac x = tr in exI, rule_tac x = "[]" in exI) auto
next
  case (levels levels t0 t)
  have flat: "flatTopoSort proj = Inr (concat levels)" using levels(1) by (simp add: flatTopoSort_def)
  have cov: "set (concat levels) \<subseteq> fst ` set (pj_Services proj)"
    using compose_order.covers [OF assms(1) flat] by (simp add: projectNodes_def)
  have "x \<in> projectNodes proj" using assms(5) by (auto simp: projectNodes_def dest: map_of_SomeD intro: rev_image_eqI)
  from level_split [OF assms(1) levels(1) this assms(6)] obtain A ly B where
    s: "levels = A @ ly # B" "y \<in> set ly" "x \<in> set (concat B)" .
  from upLevels_order [OF assms(1) keep_closed [OF assms(4,6)] assms(4,5) cov
      compose_order.distinct_out [OF assms(1) flat] levels(4) s]
  obtain s0 s1 where o: "t = s0 @ s1" "sparesAll plan x s0"
    "s1 = [] \<and> err \<noteq> None
       \<or> levelDone env plan proj (projectLabels plan) (makeKeepSet plan proj) (ur_ContainerIDs res) y s0"
    "err = None \<longrightarrow>
       ranWithin (ensureService env plan sx (projectLabels plan)) (mget (ur_ContainerIDs res) x) s1"
    by (elim exE conjE) (rule that)
  have "sparesAll plan x (t0 @ s0)" by (rule sparesAll_append [OF levels(3) o(2)])
  moreover have "s1 = [] \<and> err \<noteq> None
     \<or> levelDone env plan proj (projectLabels plan) (makeKeepSet plan proj) (ur_ContainerIDs res) y (t0 @ s0)"
    using o(3) levelDone_append by blast
  ultimately show ?thesis using o(1,4) levels(2)
    by (intro exI [of _ "t0 @ s0"] exI [of _ s1] conjI) (simp_all only: append_assoc)
qed

lemma ensureService_visible: "\<not> ranWithin (ensureService env plan svc labels) i []"
proof
  assume "ranWithin (ensureService env plan svc labels) i []"
  then obtain run where run: "trace (ensureService env plan svc labels) run (Inr i)" "visible run = []"
    by (auto simp: ranWithin_def)
  from run(1) obtain t1 lr t2 where "run = t1 @ (ListContainers (serviceFilter plan svc), lr) # t2"
    by (auto simp: ensureService_def Let_def trace_andThen trace_Do_iff)
  then have "(ListContainers (serviceFilter plan svc), lr) \<in> set (visible run)"
    by (simp add: visible_def isResolve_def)
  with run(2) show False by simp
qed

text \<open>
  C16. When \<^verbatim>\<open>Up\<close> succeeds, the container map has an entry for exactly the services the plan keeps
  (every service of the project when the plan names none, else the named ones with everything they
  depend on), and each of them was ensured: a complete run of \<^verbatim>\<open>ensureService\<close> that returns its entry
  is part of the trace. The order is that of the dependencies, on success and on failure: the trace
  splits so that the first part has no call that looks a service up or creates it, and, unless \<^verbatim>\<open>Up\<close>
  failed and the second part is empty, has the whole run of each of its dependencies; on success the service's own run is in
  the second part. When \<^verbatim>\<open>Up\<close> fails part-way, the \<^verbatim>\<open>PartialUpError\<close> lists, sorted, exactly the
  services in the returned map, and the failed service is a kept one that is not among them. For
  every runtime and every interleaving of the goroutines of a level.
\<close>

theorem Up_services_in_order:
  assumes "wf_project proj" "plan_Project plan = Some proj"
    and "trace (Up env fuel pick caps (Some plan)) tr (res, err)"
  shows "(err = None \<longrightarrow>
      fst ` set (ur_ContainerIDs res) = makeKeepSet plan proj \<inter> projectNodes proj
      \<and> (plan_Services plan = [] \<longrightarrow> fst ` set (ur_ContainerIDs res) = projectNodes proj))
    \<and> (\<forall>x sx. err = None \<and> x \<in> makeKeepSet plan proj \<and> map_of (pj_Services proj) x = Some sx \<longrightarrow>
         ranWithin (ensureService env plan sx (projectLabels plan)) (mget (ur_ContainerIDs res) x) tr)
    \<and> (\<forall>x y sx sy. x \<in> makeKeepSet plan proj \<and> map_of (pj_Services proj) x = Some sx
           \<and> y \<in> projectDeps proj x \<and> map_of (pj_Services proj) y = Some sy \<longrightarrow>
         y \<in> makeKeepSet plan proj
         \<and> (\<exists>t0 t1. tr = t0 @ t1 \<and> (\<forall>e \<in> set t0. \<not> bringsUp plan x (fst e))
              \<and> (t1 = [] \<and> err \<noteq> None
                 \<or> ranWithin (ensureService env plan sy (projectLabels plan)) (mget (ur_ContainerIDs res) y) t0)
              \<and> (err = None \<longrightarrow>
                   ranWithin (ensureService env plan sx (projectLabels plan)) (mget (ur_ContainerIDs res) x) t1)))
    \<and> (\<forall>st f e. err = Some (PartialUpError st f e) \<longrightarrow>
         st = sort (map fst (ur_ContainerIDs res)) \<and> f \<in> makeKeepSet plan proj
         \<and> f \<notin> fst ` set (ur_ContainerIDs res))"
proof -
  have old: "(err = None \<longrightarrow> fst ` set (ur_ContainerIDs res) = makeKeepSet plan proj \<inter> projectNodes proj)
    \<and> (\<forall>st f e. err = Some (PartialUpError st f e) \<longrightarrow>
         st = sort (map fst (ur_ContainerIDs res)) \<and> f \<in> makeKeepSet plan proj
         \<and> f \<notin> fst ` set (ur_ContainerIDs res))"
    by (rule Up_running_services [OF assms])
  have all: "makeKeepSet plan proj \<inter> projectNodes proj = projectNodes proj" if "plan_Services plan = []"
    using that by (simp add: makeKeepSet_def projectNodes_def)
  have ran: "ranWithin (ensureService env plan sx (projectLabels plan)) (mget (ur_ContainerIDs res) x) tr"
    if "err = None" "x \<in> makeKeepSet plan proj" "map_of (pj_Services proj) x = Some sx" for x sx
    using assms(3,2)
  proof (cases rule: Up_parts [where name = x])
    case (levels levels t0 t)
    have flat: "flatTopoSort proj = Inr (concat levels)" using levels(1) by (simp add: flatTopoSort_def)
    have cov: "set (concat levels) = fst ` set (pj_Services proj)"
      using compose_order.covers [OF assms(1) flat] by (simp add: projectNodes_def)
    have "x \<in> set (concat levels)" unfolding cov using that(3) by (auto dest: map_of_SomeD intro: rev_image_eqI)
    from upLevels_runs [OF _ compose_order.distinct_out [OF assms(1) flat] _ this that(2,3)] levels(2,4) cov that(1)
    show ?thesis by (simp add: ranWithin_append)
  qed (use that in simp)
  have order: "y \<in> makeKeepSet plan proj
         \<and> (\<exists>t0 t1. tr = t0 @ t1 \<and> sparesAll plan x t0
              \<and> (t1 = [] \<and> err \<noteq> None
                 \<or> ranWithin (ensureService env plan sy (projectLabels plan)) (mget (ur_ContainerIDs res) y) t0)
              \<and> (err = None \<longrightarrow>
                   ranWithin (ensureService env plan sx (projectLabels plan)) (mget (ur_ContainerIDs res) x) t1))"
    if "x \<in> makeKeepSet plan proj" "map_of (pj_Services proj) x = Some sx" "y \<in> projectDeps proj x"
      "map_of (pj_Services proj) y = Some sy" for x y sx sy
    using Up_split [OF assms that(1-3)] keep_closed [OF that(1,3)] that(4) unfolding levelDone_def by blast
  show ?thesis
    using old all ran order by (intro conjI allI impI) (elim conjE, simp | blast)+
qed

theorem Up_services_in_order_witness:
  "\<exists>t0 t1 db app. map_of (pj_Services demo_project) ''db'' = Some db \<and> map_of (pj_Services demo_project) ''app'' = Some app
     \<and> snd (snd demo_up) = t0 @ t1
     \<and> ranWithin (ensureService demo_env demo_plan db (projectLabels demo_plan)) ''dc-1-db-1'' t0
     \<and> ranWithin (ensureService demo_env demo_plan app (projectLabels demo_plan)) ''dc-1-app-1'' t1"
proof -
  have pl: "plan_Project demo_plan = Some demo_project" by (simp add: demo_plan_def)
  obtain db app where s: "map_of (pj_Services demo_project) ''db'' = Some db"
    "map_of (pj_Services demo_project) ''app'' = Some app"
    unfolding demo_project_services by simp
  have k: "''app'' \<in> makeKeepSet demo_plan demo_project"
    by (simp add: makeKeepSet_def demo_plan_def demo_project_services)
  have d: "''db'' \<in> projectDeps demo_project ''app''"
    unfolding projectDeps_def demo_project_services by (simp add: serviceEdges_def)
  have ids: "mget (ur_ContainerIDs (fst (fst demo_up))) ''db'' = ''dc-1-db-1''"
    "mget (ur_ContainerIDs (fst (fst demo_up))) ''app'' = ''dc-1-app-1''" by code_simp+
  from Up_services_in_order [OF demo_project_wf pl demo_up_trace, THEN conjunct2, THEN conjunct2,
      THEN conjunct1, rule_format, of "''app''" app "''db''" db,
      OF conjI [OF k conjI [OF s(2) conjI [OF d s(1)]]], THEN conjunct2, unfolded ids]
  obtain t0 t1 where "snd (snd demo_up) = t0 @ t1"
     "ranWithin (ensureService demo_env demo_plan db (projectLabels demo_plan)) ''dc-1-db-1'' t0"
     "ranWithin (ensureService demo_env demo_plan app (projectLabels demo_plan)) ''dc-1-app-1'' t1"
    by (elim exE conjE) simp
  with s show ?thesis by blast
qed

text \<open>
  C17. A service waits for its strict \<^verbatim>\<open>depends_on\<close> conditions: if a kept service requires a condition
  of another one, the gate after the other's level waits for the condition \<open>c\<close> of the first strict
  dependency on that service, in the iteration order of the maps (so for that very condition when
  all strict dependents agree), and the trace splits so that the first part has no call that looks
  the dependent up or creates it and, unless \<^verbatim>\<open>Up\<close> failed and the second part is empty, has an inspection
  of the dependency's container that shows \<open>c\<close>: healthy (or, without an active health check of its own and no reported
  status, running), respectively exited with code zero. On success the dependent's own run is in
  the second part. A service whose container has an empty identifier is not waited for.
\<close>

theorem Up_waits_for_conditions:
  assumes "wf_project proj" "plan_Project plan = Some proj"
    and "trace (Up env fuel pick caps (Some plan)) tr (res, err)"
    and "x \<in> makeKeepSet plan proj" "map_of (pj_Services proj) x = Some sx"
    and "strictNeed (svc_DependsOn sx) y c0" "y \<in> projectDeps proj x"
    and "mget (ur_ContainerIDs res) y \<noteq> []"
  shows "\<exists>c. firstNeed (pj_Services proj) (\<lambda>n. n \<in> makeKeepSet plan proj) y = Some c
    \<and> ((\<forall>c'. requires proj (\<lambda>n. n \<in> makeKeepSet plan proj) y c' \<longrightarrow> c' = c0) \<longrightarrow> c = c0)
    \<and> (\<exists>t0 t1. tr = t0 @ t1 \<and> (\<forall>e \<in> set t0. \<not> bringsUp plan x (fst e))
         \<and> (t1 = [] \<and> err \<noteq> None
            \<or> (\<exists>d. (InspectContainer (mget (ur_ContainerIDs res) y), RDetails (Some d)) \<in> set t0
                   \<and> conditionMet c (declaresFor proj y) d))
         \<and> (err = None \<longrightarrow>
              ranWithin (ensureService env plan sx (projectLabels plan)) (mget (ur_ContainerIDs res) x) t1))"
proof -
  have "svc_Name sx = x" using assms(1,5) by (auto simp: wf_project_def dest!: map_of_SomeD)
  then have "requires proj (\<lambda>n. n \<in> makeKeepSet plan proj) y c0"
    using assms(4-6) unfolding requires_def by (blast dest: map_of_SomeD)
  then obtain c where c: "firstNeed (pj_Services proj) (\<lambda>n. n \<in> makeKeepSet plan proj) y = Some c"
    using firstNeed_exists by blast
  from firstNeed_required [OF this] have "requires proj (\<lambda>n. n \<in> makeKeepSet plan proj) y c" .
  with c Up_split [OF assms(1-5,7)] assms(8) show ?thesis
    unfolding levelDone_def by (intro exI [of _ c] conjI impI) blast+
qed

theorem Up_waits_for_conditions_witness:
  "\<exists>t0 t1 d. snd (snd demo_up) = t0 @ t1 \<and> t1 \<noteq> []
     \<and> (InspectContainer ''dc-1-db-1'', RDetails (Some d)) \<in> set t0
     \<and> conditionMet ''service_healthy'' (declaresFor demo_project ''db'') d
     \<and> filter (\<lambda>e. bringsUp demo_plan ''app'' (fst e)) t0 = []"
proof -
  have pl: "plan_Project demo_plan = Some demo_project" by (simp add: demo_plan_def)
  obtain app where s: "map_of (pj_Services demo_project) ''app'' = Some app"
    "strictNeed (svc_DependsOn app) ''db'' ''service_healthy''"
    unfolding demo_project_services by (simp add: strictNeed_simps isGateCondition_def)
  have k: "''app'' \<in> makeKeepSet demo_plan demo_project"
    by (simp add: makeKeepSet_def demo_plan_def demo_project_services)
  have d: "''db'' \<in> projectDeps demo_project ''app''"
    unfolding projectDeps_def demo_project_services by (simp add: serviceEdges_def)
  have ids: "mget (ur_ContainerIDs (fst (fst demo_up))) ''db'' = ''dc-1-db-1''" by code_simp
  then have ne: "mget (ur_ContainerIDs (fst (fst demo_up))) ''db'' \<noteq> []" by simp
  from Up_waits_for_conditions [OF demo_project_wf pl demo_up_trace k s d ne]
  obtain t0 t1 d where "snd (snd demo_up) = t0 @ t1" "\<forall>e \<in> set t0. \<not> bringsUp demo_plan ''app'' (fst e)"
    "(InspectContainer ''dc-1-db-1'', RDetails (Some d)) \<in> set t0"
    "conditionMet ''service_healthy'' (declaresFor demo_project ''db'') d"
    "ranWithin (ensureService demo_env demo_plan app (projectLabels demo_plan))
       (mget (ur_ContainerIDs (fst (fst demo_up))) ''app'') t1"
    unfolding ids by (auto simp: demo_requires)
  moreover from this(5) have "t1 \<noteq> []"
    using ensureService_visible by blast
  ultimately show ?thesis by (intro exI [of _ t0] exI [of _ t1] exI [of _ d] conjI) (auto simp: filter_empty_conv)
qed

end
