(* ===== verification/Orchestrator_Down.thy ===== *)
theory Orchestrator_Down
  imports Orchestrator
begin

text \<open>
  The teardown of a project (\<^verbatim>\<open>Orchestrator.Down\<close>), the labels stamped on a container and what the
  configuration hash determines about the container that is created.
\<close>

section \<open>Teardown order\<close>

lemma map_of_const: "map_of (map (\<lambda>s. (s, i)) lvl) s = (if s \<in> set lvl then Some i else None)"
  by (induction lvl) auto

lemma wf_map_const: "distinct lvl \<Longrightarrow> wf_map (map (\<lambda>s. (s, i)) lvl)"
  by (simp add: wf_map_def comp_def)

lemma levelIdxFrom_other:
  "distinct (concat lvls) \<Longrightarrow> s \<notin> set (concat lvls) \<Longrightarrow> map_of (levelIdxFrom i lvls m) s = map_of m s"
  by (induction i lvls m rule: levelIdxFrom.induct)
    (auto simp: wf_map_const map_of_const map_add_def)

lemma levelIdxFrom_at:
  "distinct (concat lvls) \<Longrightarrow> j < length lvls \<Longrightarrow> s \<in> set (lvls ! j) \<Longrightarrow>
     map_of (levelIdxFrom i lvls m) s = Some (i + j)"
proof (induction i lvls m arbitrary: j rule: levelIdxFrom.induct)
  case (1 i m)
  then show ?case by simp
next
  case (2 i lvl lvls m)
  show ?case
  proof (cases j)
    case 0
    with 2 have s: "s \<in> set lvl" "s \<notin> set (concat lvls)" by auto
    then have "map_of (levelIdxFrom (Suc i) lvls (mputall m (map (\<lambda>s. (s, i)) lvl))) s
        = map_of (mputall m (map (\<lambda>s. (s, i)) lvl)) s"
      using 2 by (intro levelIdxFrom_other) auto
    with s 0 2 show ?thesis by (simp add: wf_map_const map_of_const)
  next
    case (Suc k)
    with 2 show ?thesis by simp
  qed
qed

lemma levelIdx_at:
  "distinct (concat levels) \<Longrightarrow> i < length levels \<Longrightarrow> s \<in> set (levels ! i) \<Longrightarrow> levelIdx levels s = i"
  by (simp add: levelIdx_def levelIdxFrom_at)

lemma sorted_key_before:
  assumes "sorted (map f xs)" "a \<in> set xs" "f a < f b" "xs = us @ b # vs"
  shows "a \<in> set us"
proof (rule ccontr)
  assume "a \<notin> set us"
  with assms have "a = b \<or> a \<in> set vs" by auto
  moreover have "\<forall>y \<in> set vs. f b \<le> f y" using assms(1,4) by (auto simp: sorted_append)
  ultimately show False using assms(3) by (auto dest: bspec)
qed

lemma order_mset: "mset (orderContainersForTeardown cs plan) = mset cs"
  by (auto simp: orderContainersForTeardown_def split: option.split sum.split)

lemma order_dependents_first:
  assumes "dp_Project plan = Some p" "wf_project p" "TopoSort (Some p) = Inr levels"
    and "a \<in> set cs" "serviceLabelOf a \<in> projectNodes p"
    and "serviceLabelOf b \<in> projectDeps p (serviceLabelOf a)"
    and "orderContainersForTeardown cs plan = us @ b # vs"
  shows "a \<in> set us"
proof -
  let ?f = "\<lambda>c. (- int (levelIdx levels (serviceLabelOf c)), ct_Name c)"
  have flat: "flatTopoSort p = Inr (concat levels)" using assms(3) by (simp add: flatTopoSort_def)
  have d: "distinct (concat levels)" by (rule compose_order.distinct_out [OF assms(2) flat])
  have "serviceLabelOf a \<in> set (concat levels)"
    using compose_order.covers [OF assms(2) flat] assms(5) by simp
  then obtain l where "l \<in> set levels" "serviceLabelOf a \<in> set l" by auto
  then obtain i where i: "i < length levels" "serviceLabelOf a \<in> set (levels ! i)"
    by (metis in_set_conv_nth)
  then obtain j where j: "j < i" "serviceLabelOf b \<in> set (levels ! j)"
    using level_deps [OF assms(3) i assms(6)] by blast
  then have "levelIdx levels (serviceLabelOf b) < levelIdx levels (serviceLabelOf a)"
    using levelIdx_at [OF d i] levelIdx_at [OF d _ j(2)] i(1) by simp
  then have less: "?f a < ?f b" by simp
  have "orderContainersForTeardown cs plan = sort_key ?f cs"
    using assms(1,3) by (simp add: orderContainersForTeardown_def)
  with assms(7) have split: "sort_key ?f cs = us @ b # vs" by simp
  have "a \<in> set (sort_key ?f cs)" using assms(4) by simp
  from sorted_key_before [OF sorted_sort_key this less split] show ?thesis .
qed

lemma teardown_trace:
  "trace (teardown cs) tr None \<Longrightarrow>
     map fst tr = concat (map (\<lambda>c. [StopContainer (ct_ID c), RemoveContainer (ct_ID c)]) cs)
     \<and> (\<forall>(c, r) \<in> set tr. \<forall>i. c = RemoveContainer i \<longrightarrow> errOf r = None)"
proof (induction cs arbitrary: tr)
  case Nil
  then show ?case by simp
next
  case (Cons c cs)
  then obtain r1 r2 t where t: "tr = (StopContainer (ct_ID c), r1) # (RemoveContainer (ct_ID c), r2) # t"
      "trace (case errOf r2 of Some e \<Rightarrow> Ret (Some (RemoveFailed (ct_ID c) e)) | None \<Rightarrow> teardown cs) t None"
    by (auto simp: trace_Do_iff)
  then have "errOf r2 = None" "trace (teardown cs) t None" by (auto split: option.splits)
  with Cons.IH [of t] t(1) show ?case by auto
qed

lemma bestEffort_trace: "trace (bestEffort cs) tr u \<Longrightarrow> map fst tr = cs"
  by (induction cs arbitrary: tr) (auto simp: trace_Do_iff)

text \<open>
  C19. A \<^verbatim>\<open>Down\<close> that succeeds has stopped and then removed, one by one and each removal without an
  error, exactly the containers carrying the project's label, and afterwards removed the project
  network and, when asked, the volumes the given project declares. When the plan carries a project
  and its dependency graph is acyclic, a container is removed only after every container whose
  service depends on its own; otherwise, and so in every \<^verbatim>\<open>Down\<close> of the engine, which passes no
  project, the containers go in the order of their names.
\<close>

theorem Down_removes_all:
  assumes "trace (Down plan) tr None"
  shows "\<exists>cs order t rest.
    tr = (ListContainers (projectFilter (dp_ProjectName plan)), RContainers cs) # t @ rest
    \<and> mset order = mset cs
    \<and> map fst t = concat (map (\<lambda>c. [StopContainer (ct_ID c), RemoveContainer (ct_ID c)]) order)
    \<and> (\<forall>(c, r) \<in> set t. \<forall>i. c = RemoveContainer i \<longrightarrow> errOf r = None)
    \<and> prefix (RemoveNetwork (dp_ProjectName plan @ ''_default'') # volumeRemovals plan) (map fst rest)
    \<and> (\<forall>p levels a b us vs. dp_Project plan = Some p \<longrightarrow> wf_project p \<longrightarrow> TopoSort (Some p) = Inr levels
         \<longrightarrow> a \<in> set cs \<longrightarrow> serviceLabelOf a \<in> projectNodes p
         \<longrightarrow> serviceLabelOf b \<in> projectDeps p (serviceLabelOf a) \<longrightarrow> order = us @ b # vs \<longrightarrow> a \<in> set us)
    \<and> ((\<forall>p. dp_Project plan = Some p \<longrightarrow> (\<exists>e. TopoSort (Some p) = Inl e)) \<longrightarrow> sorted (map ct_Name order))"
proof -
  from assms obtain r t1 where t1: "tr = (ListContainers (projectFilter (dp_ProjectName plan)), r) # t1"
    "trace (case asContainers r of
          Inl e \<Rightarrow> Ret (Some (ListFailed [] e))
        | Inr containers \<Rightarrow>
            andThen (teardown (orderContainersForTeardown containers plan)) (\<lambda>t.
              case t of
                Some e \<Rightarrow> Ret (Some e)
              | None \<Rightarrow>
                  andThen (bestEffort (RemoveNetwork (dp_ProjectName plan @ ''_default'')
                                        # volumeRemovals plan)) (\<lambda>_.
                    andThen (removeImages plan) (\<lambda>_. Ret None)))) t1 None"
    by (auto simp: Down_def trace_Do_iff split: if_splits)
  then obtain cs where cs: "r = RContainers cs" "asContainers r = Inr cs"
    by (cases r) (auto simp: asContainers_def)
  from t1(2) [unfolded cs(2) sum.case trace_andThen] obtain t2 t3 g where t2: "t1 = t2 @ t3"
    "trace (teardown (orderContainersForTeardown cs plan)) t2 g"
    "trace (case g of
                Some e \<Rightarrow> Ret (Some e)
              | None \<Rightarrow>
                  andThen (bestEffort (RemoveNetwork (dp_ProjectName plan @ ''_default'')
                                        # volumeRemovals plan)) (\<lambda>_.
                    andThen (removeImages plan) (\<lambda>_. Ret None))) t3 None"
    by blast
  then have g: "g = None" by (cases g) auto
  from t2(3) [unfolded g option.case trace_andThen] obtain t4 t5 u where t4: "t3 = t4 @ t5"
    "trace (bestEffort (RemoveNetwork (dp_ProjectName plan @ ''_default'') # volumeRemovals plan)) t4 u"
    by blast
  have pre: "prefix (RemoveNetwork (dp_ProjectName plan @ ''_default'') # volumeRemovals plan) (map fst t3)"
    using bestEffort_trace [OF t4(2)] t4(1) by (auto simp: prefix_def)
  note td = teardown_trace [OF t2(2) [unfolded g]]
  show ?thesis
  proof (intro exI conjI)
    show "tr = (ListContainers (projectFilter (dp_ProjectName plan)), RContainers cs) # t2 @ t3"
      using t1(1) cs(1) t2(1) by simp
    show "mset (orderContainersForTeardown cs plan) = mset cs" by (rule order_mset)
    show "\<forall>p levels a b us vs. dp_Project plan = Some p \<longrightarrow> wf_project p \<longrightarrow> TopoSort (Some p) = Inr levels
         \<longrightarrow> a \<in> set cs \<longrightarrow> serviceLabelOf a \<in> projectNodes p
         \<longrightarrow> serviceLabelOf b \<in> projectDeps p (serviceLabelOf a)
         \<longrightarrow> orderContainersForTeardown cs plan = us @ b # vs \<longrightarrow> a \<in> set us"
      by (intro allI impI) (rule order_dependents_first)
    show "(\<forall>p. dp_Project plan = Some p \<longrightarrow> (\<exists>e. TopoSort (Some p) = Inl e))
        \<longrightarrow> sorted (map ct_Name (orderContainersForTeardown cs plan))"
      by (auto simp: orderContainersForTeardown_def split: option.split)
  qed (use td pre in auto)
qed

section \<open>Labels\<close>

lemma wf_map_filter: "wf_map m \<Longrightarrow> wf_map (filter P m)"
  unfolding wf_map_def by (rule distinct_map_filter)

lemma map_of_filter_key:
  "map_of (filter (\<lambda>(k, v). Q k) m) k = (if Q k then map_of m k else None)"
  by (induction m) auto

text \<open>
  C20. The labels of a created container: each of the six reserved labels has the value the
  orchestrator computes, whatever the compose file and the caller put there (the image digest
  label falls back to the caller's when there is no digest); every other label is the compose
  file's, or else the caller's.
\<close>

theorem serviceLabels_reserved:
  assumes "wf_map (plan_Labels plan)" "wf_map (svc_Labels svc)"
  shows "map_of (serviceLabels plan svc (projectLabels plan) hash dig) k =
    (if k = LabelComposeProject then Some (plan_ProjectName plan)
     else if k = LabelComposeService then Some (svc_Name svc)
     else if k = LabelComposeOneoff then Some ''False''
     else if k = LabelEngine then Some EngineDisplayName
     else if k = LabelConfigHash then Some hash
     else if k = LabelImageDigest then
       (if dig \<noteq> [] then Some dig else map_of (plan_Labels plan) LabelImageDigest)
     else (map_of (plan_Labels plan) ++ map_of (svc_Labels svc)) k)"
proof -
  have wf: "wf_map (filter (\<lambda>(k, v). k \<notin> set reservedLabels) (svc_Labels svc))"
    "wf_map (projectLabels plan)"
    using assms(2) by (simp_all add: wf_map_filter projectLabels_def label_defs)
  show ?thesis
    unfolding serviceLabels_def Let_def range_assign.merge_lookup
    using wf assms(1)
    by (simp add: map_add_def map_of_filter_key projectLabels_def reservedLabels_def label_defs
        split: option.split)
qed

section \<open>What the hash determines\<close>

lemma strip_eq_fields:
  assumes "stripForHash svc = stripForHash svc'"
  shows "svc_Name svc = svc_Name svc' \<and> svc_Image svc = svc_Image svc' \<and> svc_Command svc = svc_Command svc'
    \<and> svc_Entrypoint svc = svc_Entrypoint svc' \<and> svc_User svc = svc_User svc'
    \<and> svc_WorkingDir svc = svc_WorkingDir svc' \<and> svc_Environment svc = svc_Environment svc'
    \<and> svc_Labels svc = svc_Labels svc' \<and> svc_Volumes svc = svc_Volumes svc'
    \<and> svc_Ports svc = svc_Ports svc' \<and> svc_NetworkMode svc = svc_NetworkMode svc'
    \<and> svc_Pid svc = svc_Pid svc' \<and> svc_Ipc svc = svc_Ipc svc' \<and> svc_Restart svc = svc_Restart svc'
    \<and> svc_HealthCheck svc = svc_HealthCheck svc' \<and> svc_Init svc = svc_Init svc'
    \<and> svc_CapAdd svc = svc_CapAdd svc' \<and> svc_SecurityOpt svc = svc_SecurityOpt svc'
    \<and> svc_Privileged svc = svc_Privileged svc'"
proof -
  have sel: "f (stripForHash svc) = f (stripForHash svc')" for f :: "service_config \<Rightarrow> 'b"
    using assms by simp
  show ?thesis
    using sel [of svc_Name] sel [of svc_Image] sel [of svc_Command] sel [of svc_Entrypoint]
      sel [of svc_User] sel [of svc_WorkingDir] sel [of svc_Environment] sel [of svc_Labels]
      sel [of svc_Volumes] sel [of svc_Ports] sel [of svc_NetworkMode] sel [of svc_Pid]
      sel [of svc_Ipc] sel [of svc_Restart] sel [of svc_HealthCheck] sel [of svc_Init]
      sel [of svc_CapAdd] sel [of svc_SecurityOpt] sel [of svc_Privileged]
    by (simp add: stripForHash_def)
qed

text \<open>
  C21. Reuse on an equal hash is sound: if the hash function does not collide on the two inputs, a
  container whose stamped hash equals the freshly computed one was created from the same image
  digest and, provided the resource limits are the same, with the same run specification, labels
  included. The hash function stands for the marshaller and the digest together and is given the whole stripped
  service; one that leaves a field out (the loader's marshaller may leave out the name of the service)
  is an instance, and the orchestrator compares hashes of one service only, found by its name.
\<close>

theorem ConfigHash_determines_container:
  assumes "ConfigHash H dig svc = ConfigHash H dig' svc'"
    and "H dig (stripForHash svc) = H dig' (stripForHash svc') \<Longrightarrow>
           dig = dig' \<and> stripForHash svc = stripForHash svc'"
    and "resourcesOf (oe_nanos env) svc = resourcesOf (oe_nanos env) svc'"
  shows "dig = dig'
    \<and> serviceLabels plan svc pl (ConfigHash H dig svc) dig = serviceLabels plan svc' pl (ConfigHash H dig' svc') dig'
    \<and> runSpecOf env plan svc labels nm pid ipc = runSpecOf env plan svc' labels nm pid ipc"
proof -
  have eq: "dig = dig'" "stripForHash svc = stripForHash svc'"
    using assms(1,2) by (simp_all add: ConfigHash_def)
  note f = strip_eq_fields [OF eq(2)]
  have "serviceLabels plan svc pl h d = serviceLabels plan svc' pl h d" for h d
    unfolding serviceLabels_def using f by simp
  moreover have "runSpecOf env plan svc labels nm pid ipc = runSpecOf env plan svc' labels nm pid ipc"
    unfolding runSpecOf_def assms(3) using f by simp
  ultimately show ?thesis using eq(1) assms(1) by simp
qed

definition hash_env :: orch_env where
  "hash_env = \<lparr>oe_HealthTimeout = 60, oe_PollInterval = 1,
     oe_hash = (\<lambda>i svc. i @ ''/'' @ svc_Name svc), oe_nanos = (\<lambda>q. 0)\<rparr>"

definition some_plan :: plan where
  "some_plan = \<lparr>plan_Project = None, plan_ProjectName = ''dc-1'', plan_Services = [],
     plan_Labels = [(''owner'', ''me''), (LabelEngine, ''x'')], plan_AdoptExisting = False\<rparr>"

theorem ConfigHash_determines_container_witness:
  "runSpecOf hash_env some_plan (blank_service\<lparr>svc_Scale := Some 1, svc_PullPolicy := ''always''\<rparr>) [] [] [] []
     = runSpecOf hash_env some_plan blank_service [] [] [] []
   \<and> ConfigHash (oe_hash hash_env) ''d'' (blank_service\<lparr>svc_Scale := Some 1, svc_PullPolicy := ''always''\<rparr>)
     = ConfigHash (oe_hash hash_env) ''d'' blank_service"
proof -
  let ?s = "blank_service\<lparr>svc_Scale := Some 1, svc_PullPolicy := ''always''\<rparr>"
  have strip: "stripForHash ?s = stripForHash blank_service" by (simp add: stripForHash_def)
  then have h: "ConfigHash (oe_hash hash_env) ''d'' ?s = ConfigHash (oe_hash hash_env) ''d'' blank_service"
    by (simp add: ConfigHash_def)
  have "resourcesOf (oe_nanos hash_env) ?s = resourcesOf (oe_nanos hash_env) blank_service"
    by (simp add: resourcesOf_def blank_service_def)
  from ConfigHash_determines_container [OF h _ this] strip h show ?thesis by blast
qed

definition limited :: "int \<Rightarrow> service_config" where
  "limited mem = blank_service\<lparr>svc_Deploy := Some \<lparr>dc_Mode = [], dc_Replicas = None, dc_Labels = [],
     dc_UpdateConfig = None, dc_RollbackConfig = None, dc_RestartPolicy = None, dc_EndpointMode = [],
     dc_Constraints = [], dc_Preferences = [], dc_MaxReplicas = 0,
     dc_Resources = \<lparr>res_Limits = Some \<lparr>lim_MemoryBytes = mem, lim_NanoCPUs = 0, lim_Pids = 0,
       lim_Devices = [], lim_GenericResources = []\<rparr>, res_Reservations = None\<rparr>\<rparr>\<rparr>"

text \<open>
  The hash ignores the whole \<^verbatim>\<open>deploy\<close> section although the memory limit of the container comes
  from it: for every hash function two services that differ only in
  \<^verbatim>\<open>deploy.resources.limits.memory\<close> hash alike but ask for containers with different limits, so
  editing the limit does not recreate the container.
\<close>

theorem ConfigHash_ignores_memory_limit:
  "(\<forall>H dig m n. ConfigHash H dig (limited m) = ConfigHash H dig (limited n))
   \<and> (\<forall>env plan labels m. m \<noteq> 0 \<longrightarrow> rs_MemoryBytes (runSpecOf env plan (limited m) labels [] [] []) = m)"
proof (intro conjI allI impI)
  fix H :: "string \<Rightarrow> service_config \<Rightarrow> string" and dig and m n :: int
  show "ConfigHash H dig (limited m) = ConfigHash H dig (limited n)"
    by (simp add: ConfigHash_def stripForHash_def limited_def)
next
  fix env :: orch_env and plan :: plan and labels :: "string gomap" and m :: int
  assume "m \<noteq> 0"
  then show "rs_MemoryBytes (runSpecOf env plan (limited m) labels [] [] []) = m"
    by (simp add: runSpecOf_def resourcesOf_def limited_def Let_def split: prod.split)
qed

theorem ConfigHash_ignores_memory_limit_witness:
  "ConfigHash (oe_hash hash_env) ''d'' (limited 1) = ConfigHash (oe_hash hash_env) ''d'' (limited 2)
   \<and> rs_MemoryBytes (runSpecOf hash_env some_plan (limited 1) [] [] [] []) = 1
   \<and> rs_MemoryBytes (runSpecOf hash_env some_plan (limited 2) [] [] [] []) = 2"
  using ConfigHash_ignores_memory_limit by (metis one_neq_zero zero_neq_numeral)

theorem serviceLabels_reserved_witness:
  "map_of (serviceLabels some_plan (blank_service\<lparr>svc_Labels := [(LabelConfigHash, ''forged'')]\<rparr>)
      (projectLabels some_plan) ''h'' ''d'') LabelConfigHash = Some ''h''"
proof -
  let ?svc = "blank_service\<lparr>svc_Labels := [(LabelConfigHash, ''forged'')]\<rparr>"
  have "wf_map (plan_Labels some_plan)" "wf_map (svc_Labels ?svc)"
    by (simp_all add: some_plan_def label_defs)
  from serviceLabels_reserved [OF this, of "''h''" "''d''" LabelConfigHash] show ?thesis
    by (simp add: label_defs)
qed

text \<open>A \<^verbatim>\<open>Down\<close> run on a backend that lists two containers.\<close>

fun downBackend :: "call \<Rightarrow> unit \<Rightarrow> resp \<times> unit" where
  "downBackend (ListContainers f) u =
     (RContainers (map (\<lambda>n. \<lparr>ct_ID = ''id-'' @ n, ct_Name = n, ct_Image = [], ct_State = StateRunning,
        ct_Labels = [(LabelComposeService, n)]\<rparr>) [''app'', ''db'']), u)"
| "downBackend c u = (RUnit, u)"

definition demo_down_plan :: down_plan where
  "demo_down_plan = \<lparr>dp_ProjectName = ''dc-1'', dp_RemoveVolumes = False, dp_RemoveImages = False,
     dp_Project = Some demo_project\<rparr>"

definition demo_down :: "orch_error option \<times> unit \<times> (call \<times> resp) list" where
  "demo_down = runProg (Down demo_down_plan) downBackend ()"

lemma demo_down_ok: "fst demo_down = None"
  by code_simp

theorem Down_removes_all_witness:
  "\<exists>cs t. snd (snd demo_down) = (ListContainers (projectFilter ''dc-1''), RContainers cs) # t"
proof -
  have "trace (Down demo_down_plan) (snd (snd demo_down)) None"
    by (rule runProg_trace [of _ downBackend "()" _ "fst (snd demo_down)"])
      (metis demo_down_def demo_down_ok prod.collapse)
  from Down_removes_all [OF this] show ?thesis by (auto simp: demo_down_plan_def)
qed

end
