(* ===== verification/Substitute.thy ===== *)
theory Substitute
  imports Config_Types
begin

text \<open>
  Variable substitution in configuration strings (\<^verbatim>\<open>config/substitute.go\<close>). The regular expression
  \<^verbatim>\<open>\$\{([^}]+)\}\<close> matches, at the leftmost position where it can, a dollar sign and an opening
  brace, at least one byte that is not a closing brace, and the first closing brace after them;
  \<open>ResolveString\<close> is the scan \<^verbatim>\<open>ReplaceAllStringFunc\<close> makes with it.
\<close>

section \<open>Definitions\<close>

text \<open>\<^verbatim>\<open>ContainerEnv\<close> is nil in the host pass.\<close>

record substitution_context =
  sc_LocalWorkspaceFolder :: string
  sc_ContainerWorkspaceFolder :: string
  sc_DevcontainerID :: string
  sc_LocalEnv :: "string gomap"
  sc_ContainerEnv :: "string gomap option"

text \<open>\<^verbatim>\<open>filepath.Base\<close>.\<close>

definition pathBase :: "string \<Rightarrow> string" where
  "pathBase p =
     (if p = [] then ''.''
      else let t = trimRight ''/'' p
           in if t = [] then ''/''
              else case cutLast (CHR ''/'') t of None \<Rightarrow> t | Some (d, b) \<Rightarrow> b)"

definition mkWarning :: "string \<Rightarrow> string \<Rightarrow> warning" where
  "mkWarning code msg = \<lparr>w_Code = code, w_Message = msg, w_Path = [], w_Source = []\<rparr>"

definition WarnUnresolvedLocalEnv :: string where
  "WarnUnresolvedLocalEnv = ''unresolved_local_env''"
definition WarnUnresolvedContainerEnv :: string where
  "WarnUnresolvedContainerEnv = ''unresolved_container_env''"
definition WarnUnknownVariable :: string where
  "WarnUnknownVariable = ''unknown_variable''"

definition lookupEnvWithDefault ::
    "string gomap \<Rightarrow> string list \<Rightarrow> string \<Rightarrow> string \<Rightarrow> string \<times> warning option" where
  "lookupEnvWithDefault env args kind missingCode =
     (case args of
        [] \<Rightarrow> ([], Some (mkWarning missingCode (''${'' @ kind @ ''} requires a variable name'')))
      | name # rest \<Rightarrow>
          if name = []
          then ([], Some (mkWarning missingCode (''${'' @ kind @ ''} requires a variable name'')))
          else case map_of env name of
                 Some v \<Rightarrow> (v, None)
               | None \<Rightarrow>
                   (case rest of
                      d # ds \<Rightarrow> (d, None)
                    | [] \<Rightarrow> ([], Some (mkWarning missingCode
                        (''${'' @ kind @ '':'' @ name @ ''} not set; substituted empty string'')))))"

definition lookupLocalEnv :: "string gomap \<Rightarrow> string list \<Rightarrow> string \<times> warning option" where
  "lookupLocalEnv env args = lookupEnvWithDefault env args ''localEnv'' WarnUnresolvedLocalEnv"

definition lookupContainerEnv :: "string gomap \<Rightarrow> string list \<Rightarrow> string \<times> warning option" where
  "lookupContainerEnv env args =
     lookupEnvWithDefault env args ''containerEnv'' WarnUnresolvedContainerEnv"

definition lookupVariable ::
    "substitution_context \<Rightarrow> string \<Rightarrow> string \<Rightarrow> string list \<Rightarrow> string \<times> warning option" where
  "lookupVariable ctx mat name args =
     (if name = ''localWorkspaceFolder'' then
        if sc_LocalWorkspaceFolder ctx = [] then (mat, None)
        else (sc_LocalWorkspaceFolder ctx, None)
      else if name = ''localWorkspaceFolderBasename'' then
        if sc_LocalWorkspaceFolder ctx = [] then (mat, None)
        else (pathBase (sc_LocalWorkspaceFolder ctx), None)
      else if name = ''containerWorkspaceFolder'' then
        if sc_ContainerWorkspaceFolder ctx = [] then (mat, None)
        else (sc_ContainerWorkspaceFolder ctx, None)
      else if name = ''containerWorkspaceFolderBasename'' then
        if sc_ContainerWorkspaceFolder ctx = [] then (mat, None)
        else (pathBase (sc_ContainerWorkspaceFolder ctx), None)
      else if name = ''devcontainerId'' then
        if sc_DevcontainerID ctx = [] then (mat, None)
        else (sc_DevcontainerID ctx, None)
      else if name = ''localEnv'' \<or> name = ''env'' then lookupLocalEnv (sc_LocalEnv ctx) args
      else if name = ''containerEnv'' then
        case sc_ContainerEnv ctx of
          None \<Rightarrow> (mat, None)
        | Some env \<Rightarrow> lookupContainerEnv env args
      else (mat, Some (mkWarning WarnUnknownVariable
              (''unknown substitution variable '' @ goQuote name @ ''; left as literal''))))"

text \<open>A match of the regular expression at the head of the string: its inner text and the
  remainder.\<close>

definition matchVar :: "string \<Rightarrow> (string \<times> string) option" where
  "matchVar s =
     (case s of
        d # b # t \<Rightarrow>
          if d = CHR ''$'' \<and> b = CHR ''{'' then
            (case cutc (CHR ''}'') t of
               Some (inner, rest) \<Rightarrow> if inner = [] then None else Some (inner, rest)
             | None \<Rightarrow> None)
          else None
      | _ \<Rightarrow> None)"

lemma matchVar_Some:
  "matchVar s = Some (inner, rest) \<longleftrightarrow>
     s = CHR ''$'' # CHR ''{'' # inner @ CHR ''}'' # rest \<and> inner \<noteq> [] \<and> CHR ''}'' \<notin> set inner"
proof
  assume "matchVar s = Some (inner, rest)"
  then show "s = CHR ''$'' # CHR ''{'' # inner @ CHR ''}'' # rest \<and> inner \<noteq> [] \<and>
      CHR ''}'' \<notin> set inner"
    by (auto simp: matchVar_def cutc_Some split: list.splits option.splits if_splits)
next
  assume s: "s = CHR ''$'' # CHR ''{'' # inner @ CHR ''}'' # rest \<and> inner \<noteq> [] \<and>
      CHR ''}'' \<notin> set inner"
  then have "cutc (CHR ''}'') (inner @ CHR ''}'' # rest) = Some (inner, rest)"
    by (simp add: cutc_Some)
  with s show "matchVar s = Some (inner, rest)" by (simp add: matchVar_def)
qed

lemma matchVar_length: "matchVar s = Some (inner, rest) \<Longrightarrow> length rest < length s"
  by (simp add: matchVar_Some)

text \<open>The replacement of one match: \<^verbatim>\<open>strings.Split(inner, ":")\<close> is never empty.\<close>

definition replaceVar :: "substitution_context \<Rightarrow> string \<Rightarrow> string \<times> warning option" where
  "replaceVar ctx inner =
     (let parts = splitc (CHR '':'') inner
      in lookupVariable ctx (''${'' @ inner @ ''}'') (hd parts) (tl parts))"

function ResolveString :: "string \<Rightarrow> substitution_context \<Rightarrow> string \<times> warning list" where
  "ResolveString s ctx =
     (case matchVar s of
        Some (inner, rest) \<Rightarrow>
          (let (val, w) = replaceVar ctx inner;
               (out, ws) = ResolveString rest ctx
           in (val @ out, (case w of None \<Rightarrow> ws | Some x \<Rightarrow> x # ws)))
      | None \<Rightarrow>
          (case s of
             [] \<Rightarrow> ([], [])
           | c # t \<Rightarrow> (let (out, ws) = ResolveString t ctx in (c # out, ws))))"
  by pat_completeness auto

termination ResolveString
  by (relation "measure (\<lambda>(s, ctx). length s)") (auto dest: matchVar_length)

declare ResolveString.simps [simp del]

section \<open>The scan\<close>

lemma matchVar_no_dollar: "\<not> hasPrefix s ''$'' \<Longrightarrow> matchVar s = None"
  by (cases "matchVar s") (auto simp: matchVar_Some)

lemma ResolveString_Nil [simp]: "ResolveString [] ctx = ([], [])"
  by (subst ResolveString.simps) (simp add: matchVar_def)

lemma ResolveString_literal:
  assumes "CHR ''$'' \<notin> set l"
  shows "ResolveString (l @ s) ctx = (let (out, ws) = ResolveString s ctx in (l @ out, ws))"
  using assms
proof (induction l)
  case Nil
  then show ?case by (simp split: prod.splits)
next
  case (Cons c l)
  then have "matchVar (c # l @ s) = None" by (cases "matchVar (c # l @ s)") (auto simp: matchVar_Some)
  with Cons show ?case
    by (subst ResolveString.simps) (simp split: prod.splits)
qed

lemma ResolveString_var:
  assumes "inner \<noteq> []" "CHR ''}'' \<notin> set inner"
  shows "fst (ResolveString (''${'' @ inner @ ''}'' @ s) ctx) =
           fst (replaceVar ctx inner) @ fst (ResolveString s ctx)"
proof -
  have "matchVar (''${'' @ inner @ ''}'' @ s) = Some (inner, s)"
    using assms by (simp add: matchVar_Some)
  then show ?thesis
    by (subst ResolveString.simps) (simp split: prod.splits)
qed

section \<open>Templates\<close>

text \<open>
  A string whose dollar signs all start a placeholder is the text of a template: literals
  without dollar signs and placeholders.
\<close>

datatype part = Lit string | Var string

fun partText :: "part \<Rightarrow> string" where
  "partText (Lit l) = l"
| "partText (Var v) = ''${'' @ v @ ''}''"

fun partOk :: "part \<Rightarrow> bool" where
  "partOk (Lit l) = (CHR ''$'' \<notin> set l)"
| "partOk (Var v) = (v \<noteq> [] \<and> CHR ''}'' \<notin> set v)"

fun partValue :: "substitution_context \<Rightarrow> part \<Rightarrow> string" where
  "partValue ctx (Lit l) = l"
| "partValue ctx (Var v) = fst (replaceVar ctx v)"

lemma ResolveString_template_append:
  assumes "list_all partOk ps"
  shows "fst (ResolveString (concat (map partText ps) @ s) ctx) =
           concat (map (partValue ctx) ps) @ fst (ResolveString s ctx)"
  using assms
proof (induction ps)
  case Nil
  then show ?case by simp
next
  case (Cons p ps)
  then show ?case
  proof (cases p)
    case (Lit l)
    with Cons show ?thesis
      using ResolveString_literal [of l "concat (map partText ps) @ s" ctx]
      by (simp split: prod.splits)
  next
    case (Var v)
    with Cons show ?thesis
      using ResolveString_var [of v "concat (map partText ps) @ s" ctx] by simp
  qed
qed

lemma ResolveString_template:
  assumes "list_all partOk ps"
  shows "fst (ResolveString (concat (map partText ps)) ctx) = concat (map (partValue ctx) ps)"
  using ResolveString_template_append [OF assms, of "[]" ctx] by simp

section \<open>The host pass and the container pass\<close>

definition hostPass :: "substitution_context \<Rightarrow> substitution_context" where
  "hostPass ctx = ctx\<lparr>sc_ContainerEnv := None\<rparr>"

text \<open>The values the context can insert: folders, the identifier and the environments.\<close>

definition contextValues :: "substitution_context \<Rightarrow> string list" where
  "contextValues ctx = [sc_LocalWorkspaceFolder ctx, sc_ContainerWorkspaceFolder ctx,
     sc_DevcontainerID ctx] @ map snd (sc_LocalEnv ctx) @
     (case sc_ContainerEnv ctx of None \<Rightarrow> [] | Some e \<Rightarrow> map snd e)"

definition dollarFree :: "string \<Rightarrow> bool" where
  "dollarFree s \<longleftrightarrow> CHR ''$'' \<notin> set s"

lemma set_trimRight: "set (trimRight cs s) \<subseteq> set s"
  unfolding trimRight_def by (metis set_dropWhileD set_rev subsetI)

lemma pathBase_dollarFree: "dollarFree p \<Longrightarrow> dollarFree (pathBase p)"
  using set_trimRight [of "''/''" p]
  by (auto simp: pathBase_def dollarFree_def Let_def cutLast_Some split: option.splits)

lemma splitc_subset: "p \<in> set (splitc c s) \<Longrightarrow> set p \<subseteq> set s"
proof (induction s arbitrary: p)
  case (Cons d s)
  obtain q qs where q: "splitc c s = q # qs" by (cases "splitc c s") auto
  have "set q \<subseteq> set s" using Cons.IH [of q] q by simp
  moreover have "set r \<subseteq> set s" if "r \<in> set qs" for r using Cons.IH [of r] q that by simp
  ultimately show ?case using Cons.prems q by (auto split: if_splits)
qed simp

lemma lookupEnv_dollarFree:
  assumes "\<forall>v \<in> set (map snd env). dollarFree v" "\<forall>a \<in> set args. dollarFree a"
  shows "dollarFree (fst (lookupEnvWithDefault env args kind code))"
  using assms
  by (auto simp: lookupEnvWithDefault_def dollarFree_def split: list.splits option.splits
      dest!: map_of_SomeD)

text \<open>In the host pass a placeholder is left alone or replaced by a text without dollar signs;
  in both cases the second pass agrees with the single pass.\<close>

lemma replaceVar_two_pass:
  assumes vals: "list_all dollarFree (contextValues ctx)" and v: "dollarFree v"
  shows "fst (replaceVar (hostPass ctx) v) = ''${'' @ v @ ''}'' \<or>
         (dollarFree (fst (replaceVar (hostPass ctx) v)) \<and>
          fst (replaceVar (hostPass ctx) v) = fst (replaceVar ctx v))"
proof -
  have args: "\<forall>a \<in> set (tl (splitc (CHR '':'') v)). dollarFree a"
    using v splitc_subset [of _ "CHR '':''" v] list.set_sel(2) [of "splitc (CHR '':'') v"]
    by (auto simp: dollarFree_def)
  have env: "\<forall>x \<in> set (map snd (sc_LocalEnv ctx)). dollarFree x"
    using vals by (auto simp: contextValues_def list_all_iff)
  have folders: "dollarFree (sc_LocalWorkspaceFolder ctx)" "dollarFree (sc_ContainerWorkspaceFolder ctx)"
    "dollarFree (sc_DevcontainerID ctx)"
    using vals by (simp_all add: contextValues_def)
  show ?thesis
    using lookupEnv_dollarFree [OF env args, of "''localEnv''" WarnUnresolvedLocalEnv] folders
      pathBase_dollarFree
    by (simp add: replaceVar_def Let_def lookupVariable_def hostPass_def lookupLocalEnv_def)
qed

lemma partValue_two_pass:
  assumes vals: "list_all dollarFree (contextValues ctx)"
    and ok: "partOk p" "\<And>v. p = Var v \<Longrightarrow> dollarFree v"
  shows "\<exists>q. partText q = partValue (hostPass ctx) p \<and> partOk q \<and> partValue ctx q = partValue ctx p"
proof (cases p)
  case (Lit l)
  with ok show ?thesis by (intro exI [of _ p]) simp
next
  case (Var v)
  with ok have v: "dollarFree v" by simp
  from replaceVar_two_pass [OF vals v] show ?thesis
  proof
    assume "fst (replaceVar (hostPass ctx) v) = ''${'' @ v @ ''}''"
    with Var ok show ?thesis by (intro exI [of _ p]) simp
  next
    assume "dollarFree (fst (replaceVar (hostPass ctx) v)) \<and>
      fst (replaceVar (hostPass ctx) v) = fst (replaceVar ctx v)"
    then have "dollarFree (fst (replaceVar ctx v))"
      "fst (replaceVar (hostPass ctx) v) = fst (replaceVar ctx v)" by metis+
    with Var show ?thesis
      by (intro exI [of _ "Lit (fst (replaceVar ctx v))"]) (simp add: dollarFree_def)
  qed
qed

lemma template_two_pass:
  assumes vals: "list_all dollarFree (contextValues ctx)"
    and ok: "list_all partOk ps" "\<And>v. Var v \<in> set ps \<Longrightarrow> dollarFree v"
  shows "\<exists>qs. concat (map partText qs) = concat (map (partValue (hostPass ctx)) ps) \<and>
           list_all partOk qs \<and> concat (map (partValue ctx) qs) = concat (map (partValue ctx) ps)"
  using ok
proof (induction ps)
  case Nil
  then show ?case by (intro exI [of _ "[]"]) simp
next
  case (Cons p ps)
  obtain q where q: "partText q = partValue (hostPass ctx) p" "partOk q"
      "partValue ctx q = partValue ctx p"
    using partValue_two_pass [OF vals, of p] Cons.prems by auto
  obtain qs where qs: "concat (map partText qs) = concat (map (partValue (hostPass ctx)) ps)"
      "list_all partOk qs" "concat (map (partValue ctx) qs) = concat (map (partValue ctx) ps)"
    using Cons.IH Cons.prems by (metis list.pred_inject(2) list.set_intros(2))
  show ?case by (rule exI [of _ "q # qs"]) (simp add: q qs)
qed

text \<open>
  C23. Substitution may be staged, under two conditions: every dollar sign of the string starts a placeholder, and
  no value of the context has a dollar sign (a value that holds a placeholder itself would be substituted
  by the second pass only). Then running the host pass (which leaves
  \<^verbatim>\<open>${containerEnv:...}\<close> in place) and later the container pass on its output gives exactly
  what one pass with the container's environment would have given.
\<close>

theorem ResolveString_two_pass:
  assumes "list_all dollarFree (contextValues ctx)"
    and "list_all partOk ps"
    and "\<And>v. Var v \<in> set ps \<Longrightarrow> dollarFree v"
    and "s = concat (map partText ps)"
  shows "fst (ResolveString (fst (ResolveString s (hostPass ctx))) ctx) = fst (ResolveString s ctx)"
proof -
  obtain qs where "concat (map partText qs) = concat (map (partValue (hostPass ctx)) ps)"
      "list_all partOk qs" "concat (map (partValue ctx) qs) = concat (map (partValue ctx) ps)"
    using template_two_pass [OF assms(1-3)] by blast
  then show ?thesis using assms by (metis ResolveString_template)
qed

definition demoContext :: substitution_context where
  "demoContext = \<lparr>sc_LocalWorkspaceFolder = ''/home/me/app'', sc_ContainerWorkspaceFolder = ''/w'',
     sc_DevcontainerID = ''abc'', sc_LocalEnv = [(''USER'', ''me'')],
     sc_ContainerEnv = Some [(''PATH'', ''/bin'')]\<rparr>"

definition demoTemplate :: "part list" where
  "demoTemplate = [Lit ''a='', Var ''localEnv:USER'', Lit '' p='', Var ''containerEnv:PATH'',
     Lit '' b='', Var ''localWorkspaceFolderBasename'']"

theorem ResolveString_two_pass_witness:
  "fst (ResolveString (fst (ResolveString (concat (map partText demoTemplate))
       (hostPass demoContext))) demoContext) =
     fst (ResolveString (concat (map partText demoTemplate)) demoContext)"
proof (rule ResolveString_two_pass [OF _ _ _ refl])
  show "list_all dollarFree (contextValues demoContext)"
    by (simp add: demoContext_def contextValues_def dollarFree_def)
  show "list_all partOk demoTemplate" by (simp add: demoTemplate_def)
  show "dollarFree v" if "Var v \<in> set demoTemplate" for v
    using that by (auto simp: demoTemplate_def dollarFree_def)
qed

end
