(* ===== verification/Merge_Metadata.thy ===== *)
theory Merge_Metadata
  imports Substitute Contracts
begin

text \<open>
  The metadata merge of \<^verbatim>\<open>config/merge_metadata.go\<close>: the layers of the image label and of the
  features are folded into the configuration the user's \<^verbatim>\<open>devcontainer.json\<close> resolved to. The
  definitions follow the file; the theorems say who wins for every kind of field (scalars,
  environments, capability lists, mounts, lifecycle hooks) and what a second merge does.
\<close>

section \<open>Substitution in layers\<close>

definition subString :: "substitution_context \<Rightarrow> string \<Rightarrow> string" where
  "subString ctx s = (if s = [] then s else fst (ResolveString s ctx))"

definition substituteCommand :: "(string \<Rightarrow> string) \<Rightarrow> command \<Rightarrow> command" where
  "substituteCommand sub c = c\<lparr>cm_Shell := sub (cm_Shell c), cm_Exec := map sub (cm_Exec c)\<rparr>"

definition substituteLifecycleCommand ::
    "lifecycle_command \<Rightarrow> (string \<Rightarrow> string) \<Rightarrow> lifecycle_command" where
  "substituteLifecycleCommand cmd sub =
     cmd\<lparr>lc_Single := map_option (substituteCommand sub) (lc_Single cmd),
         lc_Parallel := map (\<lambda>(k, c). (k, substituteCommand sub c)) (lc_Parallel cmd)\<rparr>"

definition substituteLayer :: "feature_metadata \<Rightarrow> substitution_context \<Rightarrow> feature_metadata" where
  "substituteLayer l ctx =
     (let sub = subString ctx in
      l\<lparr>fm_RemoteUser := sub (fm_RemoteUser l),
        fm_ContainerUser := sub (fm_ContainerUser l),
        fm_Entrypoint := sub (fm_Entrypoint l),
        fm_ContainerEnv := map (\<lambda>(k, v). (k, sub v)) (fm_ContainerEnv l),
        fm_RemoteEnv := map (\<lambda>(k, v). (k, sub v)) (fm_RemoteEnv l),
        fm_Mounts := map (\<lambda>m. m\<lparr>m_Source := sub (m_Source m), m_Target := sub (m_Target m)\<rparr>)
                         (fm_Mounts l),
        fm_CapAdd := map sub (fm_CapAdd l),
        fm_SecurityOpt := map sub (fm_SecurityOpt l),
        fm_OnCreateCommand := substituteLifecycleCommand (fm_OnCreateCommand l) sub,
        fm_UpdateContentCommand := substituteLifecycleCommand (fm_UpdateContentCommand l) sub,
        fm_PostCreateCommand := substituteLifecycleCommand (fm_PostCreateCommand l) sub,
        fm_PostStartCommand := substituteLifecycleCommand (fm_PostStartCommand l) sub,
        fm_PostAttachCommand := substituteLifecycleCommand (fm_PostAttachCommand l) sub\<rparr>)"

definition substituteLayers ::
    "feature_metadata list \<Rightarrow> substitution_context \<Rightarrow> feature_metadata list" where
  "substituteLayers layers ctx = map (\<lambda>l. substituteLayer l ctx) layers"

section \<open>Combining one field\<close>

text \<open>The loop \<^verbatim>\<open>for _, l := range layers { if v := get(l); v is set { out = v } }\<close>.\<close>

fun lastSet :: "('v \<Rightarrow> bool) \<Rightarrow> 'v \<Rightarrow> 'v list \<Rightarrow> 'v" where
  "lastSet p out [] = out"
| "lastSet p out (v # vs) = lastSet p (if p v then v else out) vs"

definition pickString ::
    "string \<Rightarrow> feature_metadata list \<Rightarrow> (feature_metadata \<Rightarrow> string) \<Rightarrow> string" where
  "pickString userVal layers get =
     (if userVal \<noteq> [] then userVal else lastSet (\<lambda>v. v \<noteq> []) [] (map get layers))"

definition pickBool ::
    "bool option \<Rightarrow> feature_metadata list \<Rightarrow> (feature_metadata \<Rightarrow> bool option) \<Rightarrow> bool option" where
  "pickBool userVal layers get =
     (if userVal \<noteq> None then userVal else lastSet (\<lambda>v. v \<noteq> None) None (map get layers))"

text \<open>The backward loop over \<^verbatim>\<open>HostRequirements\<close>, leaving at the first layer that has them.\<close>

fun lastHostRequirements :: "feature_metadata list \<Rightarrow> host_requirements option" where
  "lastHostRequirements [] = None"
| "lastHostRequirements (l # ls) =
     (if fm_HostRequirements l \<noteq> None then fm_HostRequirements l else lastHostRequirements ls)"

definition layerStrings ::
    "feature_metadata list \<Rightarrow> (feature_metadata \<Rightarrow> string list) \<Rightarrow> string list" where
  "layerStrings layers get = concat (map get layers)"

definition layerMaps ::
    "feature_metadata list \<Rightarrow> (feature_metadata \<Rightarrow> string gomap) \<Rightarrow> string gomap list" where
  "layerMaps layers get = filter (\<lambda>m. m \<noteq> []) (map get layers)"

text \<open>The two loops of \<open>unionDedup\<close>, with \<^verbatim>\<open>seen\<close> the strings already in \<^verbatim>\<open>out\<close>.\<close>

fun addUnseen :: "string list \<Rightarrow> string list \<Rightarrow> string list" where
  "addUnseen out [] = out"
| "addUnseen out (s # ss) = addUnseen (if s \<in> set out then out else out @ [s]) ss"

definition unionDedup :: "string list \<Rightarrow> string list \<Rightarrow> string list" where
  "unionDedup a b = addUnseen (addUnseen [] a) b"

fun putLayers :: "string gomap \<Rightarrow> string gomap list \<Rightarrow> string gomap" where
  "putLayers out [] = out"
| "putLayers out (m # ms) = putLayers (mputall out m) ms"

definition mergeStringMaps :: "string gomap list \<Rightarrow> string gomap \<Rightarrow> string gomap" where
  "mergeStringMaps ms userMap = mputall (putLayers [] ms) userMap"

text \<open>The backward walk over the mounts: the input is already reversed, \<^verbatim>\<open>seen\<close> are the targets met
  so far.\<close>

fun dedupWalk :: "string list \<Rightarrow> mount list \<Rightarrow> mount list" where
  "dedupWalk seen [] = []"
| "dedupWalk seen (m # ms) =
     (if m_Target m = [] then m # dedupWalk seen ms
      else if m_Target m \<in> set seen then dedupWalk seen ms
      else m # dedupWalk (m_Target m # seen) ms)"

definition dedupMountsByTarget :: "mount list \<Rightarrow> mount list" where
  "dedupMountsByTarget ms = rev (dedupWalk [] (rev ms))"

definition prependHooks ::
    "feature_metadata list \<Rightarrow> (feature_metadata \<Rightarrow> lifecycle_command) \<Rightarrow> lifecycle_command list \<Rightarrow>
     lifecycle_command list" where
  "prependHooks layers get userHooks =
     filter (\<lambda>c. \<not> lifecycleCommand_IsEmpty c) (map get layers) @ userHooks"

section \<open>The merge\<close>

definition mergeLifecycle :: "feature_metadata list \<Rightarrow> lifecycle_commands \<Rightarrow> lifecycle_commands" where
  "mergeLifecycle ls lc = lc\<lparr>
     lcs_OnCreate := prependHooks ls fm_OnCreateCommand (lcs_OnCreate lc),
     lcs_UpdateContent := prependHooks ls fm_UpdateContentCommand (lcs_UpdateContent lc),
     lcs_PostCreate := prependHooks ls fm_PostCreateCommand (lcs_PostCreate lc),
     lcs_PostStart := prependHooks ls fm_PostStartCommand (lcs_PostStart lc),
     lcs_PostAttach := prependHooks ls fm_PostAttachCommand (lcs_PostAttach lc)\<rparr>"

definition MergeMetadata ::
    "resolved_config \<Rightarrow> substitution_context \<Rightarrow> feature_metadata list \<Rightarrow> resolved_config" where
  "MergeMetadata cfg subCtx layers =
     (if layers = [] then cfg
      else let ls = substituteLayers layers subCtx in
      cfg\<lparr>cfg_RemoteUser := pickString (cfg_RemoteUser cfg) ls fm_RemoteUser,
          cfg_ContainerUser := pickString (cfg_ContainerUser cfg) ls fm_ContainerUser,
          cfg_UserEnvProbe := pickString (cfg_UserEnvProbe cfg) ls fm_UserEnvProbe,
          cfg_WaitFor := pickString (cfg_WaitFor cfg) ls fm_WaitFor,
          cfg_ShutdownAction := pickString (cfg_ShutdownAction cfg) ls fm_ShutdownAction,
          cfg_Init := pickBool (cfg_Init cfg) ls fm_Init,
          cfg_Privileged := pickBool (cfg_Privileged cfg) ls fm_Privileged,
          cfg_OverrideCommand := pickBool (cfg_OverrideCommand cfg) ls fm_OverrideCommand,
          cfg_UpdateRemoteUserUID := pickBool (cfg_UpdateRemoteUserUID cfg) ls fm_UpdateRemoteUserUID,
          cfg_HostRequirements :=
            (if cfg_HostRequirements cfg = None then lastHostRequirements (rev ls)
             else cfg_HostRequirements cfg),
          cfg_CapAdd := unionDedup (layerStrings ls fm_CapAdd) (cfg_CapAdd cfg),
          cfg_SecurityOpt := unionDedup (layerStrings ls fm_SecurityOpt) (cfg_SecurityOpt cfg),
          cfg_Entrypoints := filter (\<lambda>e. e \<noteq> []) (map fm_Entrypoint ls),
          cfg_ContainerEnv := mergeStringMaps (layerMaps ls fm_ContainerEnv) (cfg_ContainerEnv cfg),
          cfg_RemoteEnv := mergeStringMaps (layerMaps ls fm_RemoteEnv) (cfg_RemoteEnv cfg),
          cfg_Mounts := dedupMountsByTarget (concat (map fm_Mounts ls) @ cfg_Mounts cfg),
          cfg_Lifecycle := mergeLifecycle ls (cfg_Lifecycle cfg)\<rparr>)"

section \<open>Scalars\<close>

text \<open>The last value that differs from the unset one, or the unset one.\<close>

definition inherited :: "'v \<Rightarrow> 'v list \<Rightarrow> 'v" where
  "inherited unset vs = last (unset # filter (\<lambda>v. v \<noteq> unset) vs)"

lemma lastSet_last: "lastSet p out vs = last (out # filter p vs)"
  by (induction p out vs rule: lastSet.induct) auto

lemma pickString_inherited:
  "pickString u ls get = (if u \<noteq> [] then u else inherited [] (map get ls))"
  by (simp add: pickString_def inherited_def lastSet_last)

lemma pickBool_inherited:
  "pickBool u ls get = (if u \<noteq> None then u else inherited None (map get ls))"
  by (simp add: pickBool_def inherited_def lastSet_last)

lemma lastHostRequirements_hd:
  "lastHostRequirements ls = hd (filter (\<lambda>v. v \<noteq> None) (map fm_HostRequirements ls) @ [None])"
  by (induction ls) auto

lemma lastHostRequirements_inherited:
  "lastHostRequirements (rev ls) = inherited None (map fm_HostRequirements ls)"
  by (simp add: lastHostRequirements_hd inherited_def rev_map [symmetric] rev_filter [symmetric]
      hd_append hd_rev)

lemma pickString_idem [simp]: "pickString (pickString u ls get) ls get = pickString u ls get"
  by (simp add: pickString_inherited)

lemma pickBool_idem [simp]: "pickBool (pickBool u ls get) ls get = pickBool u ls get"
  by (simp add: pickBool_inherited)

section \<open>Unions of strings\<close>

lemma addUnseen_set: "set (addUnseen out ss) = set out \<union> set ss"
  by (induction out ss rule: addUnseen.induct) auto

lemma addUnseen_distinct: "distinct out \<Longrightarrow> distinct (addUnseen out ss)"
  by (induction out ss rule: addUnseen.induct) auto

lemma addUnseen_prefix: "prefix out (addUnseen out ss)"
proof (induction out ss rule: addUnseen.induct)
  case (1 out)
  then show ?case by simp
next
  case (2 out s ss)
  then show ?case by (auto intro: append_prefixD split: if_splits)
qed

lemma addUnseen_new: "distinct (out @ ss) \<Longrightarrow> addUnseen out ss = out @ ss"
  by (induction out ss rule: addUnseen.induct) auto

interpretation merge_union: string_union unionDedup
proof
  fix a b :: "string list"
  show "set (unionDedup a b) = set a \<union> set b" by (simp add: unionDedup_def addUnseen_set)
  show "distinct (unionDedup a b)" by (simp add: unionDedup_def addUnseen_distinct)
  show "prefix a (unionDedup a b)" if "distinct a"
    using that addUnseen_new [of "[]" a] addUnseen_prefix [of a b] by (simp add: unionDedup_def)
qed

text \<open>The second merge finds every string of the layers already in place.\<close>

lemma addUnseen_subset: "set ss \<subseteq> set out \<Longrightarrow> addUnseen out ss = out"
  by (induction out ss rule: addUnseen.induct) auto

lemma addUnseen_shared_prefix:
  assumes "distinct (out @ rest)"
  shows "addUnseen out (out @ rest) = out @ rest"
proof -
  have "addUnseen o1 (xs @ ys) = addUnseen (addUnseen o1 xs) ys" for o1 xs ys
    by (induction o1 xs rule: addUnseen.induct) auto
  then show ?thesis using assms by (simp add: addUnseen_subset addUnseen_new)
qed

lemma unionDedup_again: "unionDedup a (unionDedup a b) = unionDedup a b"
proof -
  let ?a = "addUnseen [] a"
  obtain c where c: "addUnseen ?a b = ?a @ c" using addUnseen_prefix [of ?a b] by (auto elim: prefixE)
  moreover have "distinct (addUnseen ?a b)" by (simp add: addUnseen_distinct)
  ultimately show ?thesis by (simp add: unionDedup_def addUnseen_shared_prefix)
qed

section \<open>Environments\<close>

lemma putLayers_wf: "wf_map out \<Longrightarrow> wf_map (putLayers out ms)"
  by (induction out ms rule: putLayers.induct) auto

lemma putLayers_lookup:
  "\<forall>m \<in> set ms. wf_map m \<Longrightarrow>
     map_of (putLayers out ms) k = last (map_of out k # filter (\<lambda>v. v \<noteq> None) (map (\<lambda>m. map_of m k) ms))"
proof (induction out ms rule: putLayers.induct)
  case (1 out)
  then show ?case by simp
next
  case (2 out m ms)
  then show ?case by (cases "map_of m k") (auto simp: map_add_def)
qed

interpretation env_overlay: overlay "\<lambda>base. mergeStringMaps [base]"
proof
  fix base over :: "string gomap"
  assume "wf_map base" "wf_map over"
  then show "map_of (mergeStringMaps [base] over) = map_of base ++ map_of over"
    "wf_map (mergeStringMaps [base] over)"
    by (simp_all add: mergeStringMaps_def)
qed

lemma filter_layerMaps:
  "filter (\<lambda>v. v \<noteq> None) (map (\<lambda>m. map_of m k) (layerMaps ls get)) =
   filter (\<lambda>v. v \<noteq> None) (map (\<lambda>l. map_of (get l) k) ls)"
  by (induction ls) (auto simp: layerMaps_def)

lemma mergeStringMaps_lookup:
  assumes "wf_map user" "\<forall>l \<in> set ls. wf_map (get l)"
  shows "map_of (mergeStringMaps (layerMaps ls get) user) k =
    (case map_of user k of Some v \<Rightarrow> Some v | None \<Rightarrow> inherited None (map (\<lambda>l. map_of (get l) k) ls))"
proof -
  have "\<forall>m \<in> set (layerMaps ls get). wf_map m" using assms(2) by (auto simp: layerMaps_def)
  from putLayers_lookup [OF this, of "[]" k]
  have "map_of (putLayers [] (layerMaps ls get)) k = inherited None (map (\<lambda>l. map_of (get l) k) ls)"
    unfolding filter_layerMaps inherited_def by simp
  then show ?thesis
    using assms(1) by (simp add: mergeStringMaps_def map_add_def split: option.splits)
qed

text \<open>An overlay whose keys extend the base in order is the result itself.\<close>

lemma keys_mput: "map fst (mput k v m) = (if k \<in> fst ` set m then map fst m else map fst m @ [k])"
  by (induction m) (auto simp: mput_def)

lemma keys_mputall_new:
  "wf_map n \<Longrightarrow> map fst (mputall m n) = map fst m @ filter (\<lambda>k. k \<notin> fst ` set m) (map fst n)"
proof (induction m n rule: mputall.induct)
  case (1 m)
  then show ?case by simp
next
  case (2 m k v n)
  then show ?case by (auto simp: keys_mput intro!: filter_cong)
qed

lemma gomap_eqI:
  assumes "wf_map m" "map fst m = map fst n" "map_of m = map_of n"
  shows "m = n"
proof (rule nth_equalityI)
  show l: "length m = length n" using assms(2) by (metis length_map)
  fix i
  assume i: "i < length m"
  have "wf_map n" using assms by (simp add: wf_map_def)
  have "fst (m ! i) = fst (n ! i)" using assms(2) i l by (metis nth_map)
  moreover have "map_of m (fst (m ! i)) = Some (snd (m ! i))"
    using assms(1) i by (simp add: wf_map_def)
  moreover have "map_of n (fst (n ! i)) = Some (snd (n ! i))"
    using \<open>wf_map n\<close> i l by (simp add: wf_map_def)
  ultimately show "m ! i = n ! i" using assms(3) by (simp add: prod_eq_iff)
qed

lemma mputall_again:
  assumes "wf_map m" "wf_map n"
  shows "mputall m (mputall m n) = mputall m n"
proof (rule gomap_eqI)
  have wf: "wf_map (mputall m n)" using assms by simp
  then show "wf_map (mputall m (mputall m n))" using assms by simp
  show "map fst (mputall m (mputall m n)) = map fst (mputall m n)"
    using wf assms by (simp add: keys_mputall_new)
  show "map_of (mputall m (mputall m n)) = map_of (mputall m n)"
    using wf assms by (auto simp: map_add_def fun_eq_iff split: option.splits)
qed

section \<open>Mounts\<close>

text \<open>The specification: a mount with a target goes when a later one has the same target.\<close>

fun lastPerTarget :: "mount list \<Rightarrow> mount list" where
  "lastPerTarget [] = []"
| "lastPerTarget (m # ms) =
     (if m_Target m \<noteq> [] \<and> m_Target m \<in> m_Target ` set ms then lastPerTarget ms
      else m # lastPerTarget ms)"

lemma dedupWalk_snoc:
  "dedupWalk seen (xs @ [m]) = dedupWalk seen xs @
     (if m_Target m \<noteq> [] \<and> m_Target m \<in> set seen \<union> m_Target ` set xs then [] else [m])"
  by (induction seen xs rule: dedupWalk.induct) auto

lemma dedupMounts_lastPerTarget: "dedupMountsByTarget ms = lastPerTarget ms"
  by (induction ms) (auto simp: dedupMountsByTarget_def dedupWalk_snoc)

lemma lastPerTarget_targets: "m_Target ` set (lastPerTarget ms) = m_Target ` set ms"
  by (induction ms) auto

lemma lastPerTarget_subseq: "subseq (lastPerTarget ms) ms"
  by (induction ms) auto

lemma lastPerTarget_distinct: "distinct (filter (\<lambda>t. t \<noteq> []) (map m_Target (lastPerTarget ms)))"
proof (induction ms)
  case (Cons m ms)
  then show ?case using lastPerTarget_targets [of ms] by auto
qed simp

lemma lastPerTarget_untargeted:
  "filter (\<lambda>m. m_Target m = []) (lastPerTarget ms) = filter (\<lambda>m. m_Target m = []) ms"
  by (induction ms) auto

lemma lastPerTarget_last:
  "m \<in> set (lastPerTarget ms) \<Longrightarrow> m_Target m \<noteq> [] \<Longrightarrow>
     \<exists>as bs. ms = as @ m # bs \<and> m_Target m \<notin> m_Target ` set bs"
proof (induction ms)
  case Nil
  then show ?case by simp
next
  case (Cons a ms)
  show ?case
  proof (cases "m \<in> set (lastPerTarget ms)")
    case True
    with Cons obtain as bs where "ms = as @ m # bs" "m_Target m \<notin> m_Target ` set bs" by blast
    then show ?thesis by (intro exI [of _ "a # as"] exI [of _ bs]) simp
  next
    case False
    with Cons have "a = m" "m_Target m \<notin> m_Target ` set ms" by (auto split: if_splits)
    then show ?thesis by (intro exI [of _ "[]"] exI [of _ ms]) simp
  qed
qed

lemma lastPerTarget_append:
  "(\<And>m. m \<in> set as \<Longrightarrow> m_Target m \<noteq> [] \<and> m_Target m \<in> m_Target ` set bs) \<Longrightarrow>
     lastPerTarget (as @ bs) = lastPerTarget bs"
  by (induction as) auto

lemma lastPerTarget_idem: "lastPerTarget (lastPerTarget ms) = lastPerTarget ms"
  by (induction ms) (auto simp: lastPerTarget_targets)

lemma lastPerTarget_again:
  assumes "\<And>m. m \<in> set as \<Longrightarrow> m_Target m \<noteq> []"
  shows "lastPerTarget (as @ lastPerTarget (as @ bs)) = lastPerTarget (as @ bs)"
proof -
  have "lastPerTarget (as @ lastPerTarget (as @ bs)) = lastPerTarget (lastPerTarget (as @ bs))"
    using assms by (intro lastPerTarget_append) (auto simp: lastPerTarget_targets)
  then show ?thesis by (simp add: lastPerTarget_idem)
qed

section \<open>The merged configuration\<close>

lemmas layer_defs = substituteLayers_def substituteLayer_def Let_def

lemma wf_map_mapval: "wf_map (map (\<lambda>(k, v). (k, f v)) m) = wf_map m"
  by (simp add: wf_map_def comp_def case_prod_unfold)

text \<open>
  C24. Precedence of the scalar fields. A value the user set is kept; otherwise the last layer that
  sets the field decides, after its placeholders are substituted; otherwise the field stays unset.
  This holds of users, probe, wait-for phase, shutdown action, the four optional booleans and the
  host requirements, for every chain of layers.
\<close>

theorem MergeMetadata_precedence:
  fixes cfg ctx layers
  defines "out \<equiv> MergeMetadata cfg ctx layers"
    and "ls \<equiv> substituteLayers layers ctx"
  shows "cfg_RemoteUser out =
           (if cfg_RemoteUser cfg \<noteq> [] then cfg_RemoteUser cfg else inherited [] (map fm_RemoteUser ls))
    \<and> cfg_ContainerUser out =
        (if cfg_ContainerUser cfg \<noteq> [] then cfg_ContainerUser cfg
         else inherited [] (map fm_ContainerUser ls))
    \<and> cfg_UserEnvProbe out =
        (if cfg_UserEnvProbe cfg \<noteq> [] then cfg_UserEnvProbe cfg
         else inherited [] (map fm_UserEnvProbe ls))
    \<and> cfg_WaitFor out =
        (if cfg_WaitFor cfg \<noteq> [] then cfg_WaitFor cfg else inherited [] (map fm_WaitFor ls))
    \<and> cfg_ShutdownAction out =
        (if cfg_ShutdownAction cfg \<noteq> [] then cfg_ShutdownAction cfg
         else inherited [] (map fm_ShutdownAction ls))
    \<and> cfg_Init out =
        (if cfg_Init cfg \<noteq> None then cfg_Init cfg else inherited None (map fm_Init ls))
    \<and> cfg_Privileged out =
        (if cfg_Privileged cfg \<noteq> None then cfg_Privileged cfg
         else inherited None (map fm_Privileged ls))
    \<and> cfg_OverrideCommand out =
        (if cfg_OverrideCommand cfg \<noteq> None then cfg_OverrideCommand cfg
         else inherited None (map fm_OverrideCommand ls))
    \<and> cfg_UpdateRemoteUserUID out =
        (if cfg_UpdateRemoteUserUID cfg \<noteq> None then cfg_UpdateRemoteUserUID cfg
         else inherited None (map fm_UpdateRemoteUserUID ls))
    \<and> cfg_HostRequirements out =
        (if cfg_HostRequirements cfg \<noteq> None then cfg_HostRequirements cfg
         else inherited None (map fm_HostRequirements ls))"
proof (cases "layers = []")
  case True
  then show ?thesis
    by (simp add: out_def ls_def MergeMetadata_def substituteLayers_def inherited_def)
next
  case False
  then show ?thesis
    unfolding out_def ls_def MergeMetadata_def Let_def
    by (simp add: pickString_inherited pickBool_inherited lastHostRequirements_inherited)
qed

text \<open>
  C25. Environments and mounts. In the merged environments a key has the user's value if the user
  set it, else the value of the last layer that has it. The mounts are a subsequence of the layers'
  mounts followed by the user's; every target mounted by anyone is mounted exactly once, by the
  last entry of that chain with this target (so the user's mount wins); entries without a target
  are all kept.
\<close>

theorem MergeMetadata_env_mounts:
  fixes cfg ctx layers
  defines "out \<equiv> MergeMetadata cfg ctx layers"
    and "ls \<equiv> substituteLayers layers ctx"
  assumes ne: "layers \<noteq> []"
    and wf: "wf_map (cfg_ContainerEnv cfg)" "wf_map (cfg_RemoteEnv cfg)"
      "\<forall>l \<in> set layers. wf_map (fm_ContainerEnv l) \<and> wf_map (fm_RemoteEnv l)"
    and chain: "chain = concat (map fm_Mounts ls) @ cfg_Mounts cfg"
  shows "(\<forall>k. map_of (cfg_ContainerEnv out) k =
      (case map_of (cfg_ContainerEnv cfg) k of Some v \<Rightarrow> Some v
       | None \<Rightarrow> inherited None (map (\<lambda>l. map_of (fm_ContainerEnv l) k) ls)))
    \<and> (\<forall>k. map_of (cfg_RemoteEnv out) k =
      (case map_of (cfg_RemoteEnv cfg) k of Some v \<Rightarrow> Some v
       | None \<Rightarrow> inherited None (map (\<lambda>l. map_of (fm_RemoteEnv l) k) ls)))
    \<and> subseq (cfg_Mounts out) chain
    \<and> distinct (filter (\<lambda>t. t \<noteq> []) (map m_Target (cfg_Mounts out)))
    \<and> m_Target ` set (cfg_Mounts out) = m_Target ` set chain
    \<and> (\<forall>m \<in> set (cfg_Mounts out). m_Target m \<noteq> [] \<longrightarrow>
           (\<exists>as bs. chain = as @ m # bs \<and> m_Target m \<notin> m_Target ` set bs))
    \<and> filter (\<lambda>m. m_Target m = []) (cfg_Mounts out) = filter (\<lambda>m. m_Target m = []) chain"
proof (intro conjI allI)
  have wfl: "\<forall>l \<in> set ls. wf_map (fm_ContainerEnv l)" "\<forall>l \<in> set ls. wf_map (fm_RemoteEnv l)"
    using wf(3) by (auto simp: ls_def layer_defs wf_map_mapval)
  have env: "cfg_ContainerEnv out = mergeStringMaps (layerMaps ls fm_ContainerEnv) (cfg_ContainerEnv cfg)"
    "cfg_RemoteEnv out = mergeStringMaps (layerMaps ls fm_RemoteEnv) (cfg_RemoteEnv cfg)"
    and mounts: "cfg_Mounts out = lastPerTarget chain"
    using ne chain by (simp_all add: out_def ls_def MergeMetadata_def Let_def dedupMounts_lastPerTarget)
  show "map_of (cfg_ContainerEnv out) k =
      (case map_of (cfg_ContainerEnv cfg) k of Some v \<Rightarrow> Some v
       | None \<Rightarrow> inherited None (map (\<lambda>l. map_of (fm_ContainerEnv l) k) ls))" for k
    unfolding env by (rule mergeStringMaps_lookup [OF wf(1) wfl(1)])
  show "map_of (cfg_RemoteEnv out) k =
      (case map_of (cfg_RemoteEnv cfg) k of Some v \<Rightarrow> Some v
       | None \<Rightarrow> inherited None (map (\<lambda>l. map_of (fm_RemoteEnv l) k) ls))" for k
    unfolding env by (rule mergeStringMaps_lookup [OF wf(2) wfl(2)])
  show "subseq (cfg_Mounts out) chain" unfolding mounts by (rule lastPerTarget_subseq)
  show "distinct (filter (\<lambda>t. t \<noteq> []) (map m_Target (cfg_Mounts out)))"
    unfolding mounts by (rule lastPerTarget_distinct)
  show "m_Target ` set (cfg_Mounts out) = m_Target ` set chain"
    unfolding mounts by (rule lastPerTarget_targets)
  show "\<forall>m \<in> set (cfg_Mounts out). m_Target m \<noteq> [] \<longrightarrow>
      (\<exists>as bs. chain = as @ m # bs \<and> m_Target m \<notin> m_Target ` set bs)"
    unfolding mounts using lastPerTarget_last by blast
  show "filter (\<lambda>m. m_Target m = []) (cfg_Mounts out) = filter (\<lambda>m. m_Target m = []) chain"
    unfolding mounts by (rule lastPerTarget_untargeted)
qed

definition demo_layer :: feature_metadata where
  "demo_layer = emptyMetadata\<lparr>fm_ContainerEnv := [(''A'', ''layer''), (''B'', ''${localEnv:USER}'')],
     fm_Mounts := [\<lparr>m_Type = ''volume'', m_Source = ''v'', m_Target = ''/data'', m_ReadOnly = False,
       m_BindOptions = None, m_VolumeOptions = None, m_TmpfsOptions = None\<rparr>],
     fm_OnCreateCommand := \<lparr>lc_Single = Some \<lparr>cm_Shell = ''make'', cm_Exec = []\<rparr>, lc_Parallel = []\<rparr>\<rparr>"

definition demo_config :: resolved_config where
  "demo_config = emptyConfig\<lparr>cfg_ContainerEnv := [(''A'', ''user'')],
     cfg_Mounts := [\<lparr>m_Type = ''bind'', m_Source = ''/host'', m_Target = ''/data'', m_ReadOnly = True,
       m_BindOptions = None, m_VolumeOptions = None, m_TmpfsOptions = None\<rparr>]\<rparr>"

theorem MergeMetadata_env_mounts_witness:
  "map_of (cfg_ContainerEnv (MergeMetadata demo_config demoContext [demo_layer])) ''A'' = Some ''user''
   \<and> distinct (filter (\<lambda>t. t \<noteq> [])
       (map m_Target (cfg_Mounts (MergeMetadata demo_config demoContext [demo_layer]))))"
proof -
  have "wf_map (cfg_ContainerEnv demo_config)" "wf_map (cfg_RemoteEnv demo_config)"
    "\<forall>l \<in> set [demo_layer]. wf_map (fm_ContainerEnv l) \<and> wf_map (fm_RemoteEnv l)"
    by (simp_all add: demo_config_def demo_layer_def emptyConfig_def emptyMetadata_def)
  from MergeMetadata_env_mounts [OF _ this refl, of demoContext] show ?thesis
    by (simp add: demo_config_def)
qed

text \<open>A layer without lifecycle commands, and the fixpoints of the lifecycle merge.\<close>

definition hookless :: "feature_metadata \<Rightarrow> bool" where
  "hookless l \<longleftrightarrow> list_all lifecycleCommand_IsEmpty [fm_OnCreateCommand l, fm_UpdateContentCommand l,
     fm_PostCreateCommand l, fm_PostStartCommand l, fm_PostAttachCommand l]"

lemma prependHooks_fixpoint:
  "prependHooks ls get u = u \<longleftrightarrow> list_all (\<lambda>l. lifecycleCommand_IsEmpty (get l)) ls"
  by (auto simp: prependHooks_def filter_empty_conv list_all_iff)

lemma mergeLifecycle_fixpoint: "mergeLifecycle ls lc = lc \<longleftrightarrow> list_all hookless ls"
proof -
  have "mergeLifecycle ls lc = lc \<longleftrightarrow>
      prependHooks ls fm_OnCreateCommand (lcs_OnCreate lc) = lcs_OnCreate lc \<and>
      prependHooks ls fm_UpdateContentCommand (lcs_UpdateContent lc) = lcs_UpdateContent lc \<and>
      prependHooks ls fm_PostCreateCommand (lcs_PostCreate lc) = lcs_PostCreate lc \<and>
      prependHooks ls fm_PostStartCommand (lcs_PostStart lc) = lcs_PostStart lc \<and>
      prependHooks ls fm_PostAttachCommand (lcs_PostAttach lc) = lcs_PostAttach lc"
    by (cases lc) (simp add: mergeLifecycle_def)
  then show ?thesis by (auto simp: prependHooks_fixpoint hookless_def list_all_iff)
qed

text \<open>
  C26. Merging the same layers twice. When every mount of the layers has a target, a second merge
  changes nothing except the lifecycle hooks: scalars, environments (the maps as such, key order
  included), capabilities, entrypoints and mounts are those of the first merge, but each phase gets
  the hooks of the layers a second time in front, so \<^verbatim>\<open>MergeMetadata\<close> is idempotent exactly on
  chains that contribute no hooks.
\<close>

theorem MergeMetadata_twice:
  fixes cfg ctx layers
  defines "once \<equiv> MergeMetadata cfg ctx layers"
    and "ls \<equiv> substituteLayers layers ctx"
  assumes ne: "layers \<noteq> []"
    and wf: "wf_map (cfg_ContainerEnv cfg)" "wf_map (cfg_RemoteEnv cfg)"
    and targets: "\<forall>l \<in> set ls. \<forall>m \<in> set (fm_Mounts l). m_Target m \<noteq> []"
  shows "MergeMetadata once ctx layers = once\<lparr>cfg_Lifecycle := mergeLifecycle ls (cfg_Lifecycle once)\<rparr>
    \<and> lcs_OnCreate (cfg_Lifecycle (MergeMetadata once ctx layers)) =
      (let hooks = filter (\<lambda>c. \<not> lifecycleCommand_IsEmpty c) (map fm_OnCreateCommand ls)
       in hooks @ hooks @ lcs_OnCreate (cfg_Lifecycle cfg))
    \<and> (MergeMetadata once ctx layers = once \<longleftrightarrow> list_all hookless ls)"
proof (intro conjI)
  have mnt: "dedupMountsByTarget (concat (map fm_Mounts ls) @
      dedupMountsByTarget (concat (map fm_Mounts ls) @ cfg_Mounts cfg)) =
      dedupMountsByTarget (concat (map fm_Mounts ls) @ cfg_Mounts cfg)"
    unfolding dedupMounts_lastPerTarget using targets by (intro lastPerTarget_again) auto
  have env: "mergeStringMaps ms (mergeStringMaps ms u) = mergeStringMaps ms u" if "wf_map u" for ms u
    using that by (simp add: mergeStringMaps_def mputall_again putLayers_wf)
  show twice: "MergeMetadata once ctx layers =
      once\<lparr>cfg_Lifecycle := mergeLifecycle ls (cfg_Lifecycle once)\<rparr>"
    using ne mnt env [OF wf(1)] env [OF wf(2)]
    by (simp add: once_def ls_def MergeMetadata_def Let_def unionDedup_again)
  show "lcs_OnCreate (cfg_Lifecycle (MergeMetadata once ctx layers)) =
      (let hooks = filter (\<lambda>c. \<not> lifecycleCommand_IsEmpty c) (map fm_OnCreateCommand ls)
       in hooks @ hooks @ lcs_OnCreate (cfg_Lifecycle cfg))"
    unfolding twice using ne
    by (simp add: once_def ls_def MergeMetadata_def Let_def mergeLifecycle_def prependHooks_def)
  have "once\<lparr>cfg_Lifecycle := mergeLifecycle ls (cfg_Lifecycle once)\<rparr> = once \<longleftrightarrow>
      mergeLifecycle ls (cfg_Lifecycle once) = cfg_Lifecycle once"
    by (metis resolved_config.select_convs(23) resolved_config.update_convs(23)
        resolved_config.surjective resolved_config.simps(23))
  then show "MergeMetadata once ctx layers = once \<longleftrightarrow> list_all hookless ls"
    unfolding twice by (simp add: mergeLifecycle_fixpoint)
qed

theorem MergeMetadata_twice_witness:
  "MergeMetadata (MergeMetadata demo_config demoContext [demo_layer]) demoContext [demo_layer]
     \<noteq> MergeMetadata demo_config demoContext [demo_layer]
   \<and> length (lcs_OnCreate (cfg_Lifecycle (MergeMetadata (MergeMetadata demo_config demoContext
       [demo_layer]) demoContext [demo_layer]))) = 2"
proof -
  have wf: "wf_map (cfg_ContainerEnv demo_config)" "wf_map (cfg_RemoteEnv demo_config)"
    by (simp_all add: demo_config_def emptyConfig_def)
  have tg: "\<forall>l \<in> set (substituteLayers [demo_layer] demoContext). \<forall>m \<in> set (fm_Mounts l). m_Target m \<noteq> []"
    by code_simp
  let ?ls = "substituteLayers [demo_layer] demoContext"
  let ?h = "filter (\<lambda>c. \<not> lifecycleCommand_IsEmpty c) (map fm_OnCreateCommand ?ls)"
  have v: "\<not> list_all hookless (substituteLayers [demo_layer] demoContext)"
    "length (filter (\<lambda>c. \<not> lifecycleCommand_IsEmpty c)
       (map fm_OnCreateCommand (substituteLayers [demo_layer] demoContext))) = 1"
    "lcs_OnCreate (cfg_Lifecycle demo_config) = []"
    by code_simp+
  have "lcs_OnCreate (cfg_Lifecycle (MergeMetadata (MergeMetadata demo_config demoContext
       [demo_layer]) demoContext [demo_layer])) = ?h @ ?h @ lcs_OnCreate (cfg_Lifecycle demo_config)"
    "(MergeMetadata (MergeMetadata demo_config demoContext [demo_layer]) demoContext [demo_layer] =
      MergeMetadata demo_config demoContext [demo_layer]) = list_all hookless ?ls"
    using MergeMetadata_twice [OF _ wf tg] unfolding Let_def by blast+
  then show ?thesis using v by simp
qed

end
