(* ===== verification/Feature_Match.thy ===== *)
theory Feature_Match
  imports Config_Types
begin

text \<open>
  Matching a requested feature against one already in the base image (\<^verbatim>\<open>feature/match.go\<close>).
  Versions are ordered: \<^verbatim>\<open>[3]int\<close> is the type \<open>semver\<close>, an instance of \<^verbatim>\<open>linorder\<close>, and \<open>semverGTE\<close> is
  its order.
\<close>

section \<open>Definitions\<close>

datatype semver = Semver (major: int) (minor: int) (patch: int)

datatype match_mode = MatchPermissive | MatchStrict

text \<open>\<^verbatim>\<open>strings.IndexAny(v, "-+")\<close> and the slice before it.\<close>

definition beforeSuffix :: "string \<Rightarrow> string" where
  "beforeSuffix v = takeWhile (\<lambda>c. c \<noteq> CHR ''-'' \<and> c \<noteq> CHR ''+'') v"

text \<open>One round of the loop: \<^verbatim>\<open>Atoi\<close> with the check for a negative number.\<close>

definition atoiNonNeg :: "string \<Rightarrow> int option" where
  "atoiNonNeg p = (case atoi p of None \<Rightarrow> None | Some n \<Rightarrow> if n < 0 then None else Some n)"

definition parseSemver :: "string \<Rightarrow> semver option" where
  "parseSemver v =
     (let w = beforeSuffix (trimPrefix v ''v'');
          parts = splitc (CHR ''.'') w
      in if length parts = 0 \<or> length parts > 3 then None
         else case those (map atoiNonNeg parts) of
                None \<Rightarrow> None
              | Some ns \<Rightarrow>
                  (case ns of
                     [a] \<Rightarrow> Some (Semver a 0 0)
                   | [a, b] \<Rightarrow> Some (Semver a b 0)
                   | [a, b, c] \<Rightarrow> Some (Semver a b c)
                   | _ \<Rightarrow> None))"

text \<open>The loop over the three components, leaving at the first that differs.\<close>

fun gteFrom :: "int list \<Rightarrow> int list \<Rightarrow> bool" where
  "gteFrom (a # as) (b # bs) = (if a \<noteq> b then a > b else gteFrom as bs)"
| "gteFrom _ _ = True"

definition semverGTE :: "semver \<Rightarrow> semver \<Rightarrow> bool" where
  "semverGTE a b = gteFrom [major a, minor a, patch a] [major b, minor b, patch b]"

definition Matches :: "feature_metadata \<Rightarrow> feature_metadata \<Rightarrow> match_mode \<Rightarrow> bool" where
  "Matches baked req mode =
     (if fm_ID baked = [] \<or> fm_ID baked \<noteq> fm_ID req then False
      else if mode = MatchStrict then fm_Version baked = fm_Version req
      else if fm_Version req = [] then True
      else case (parseSemver (fm_Version baked), parseSemver (fm_Version req)) of
             (Some b, Some r) \<Rightarrow> semverGTE b r
           | _ \<Rightarrow> fm_Version baked = fm_Version req)"

definition MatchesResolved :: "resolved_feature \<Rightarrow> resolved_feature \<Rightarrow> match_mode \<Rightarrow> bool" where
  "MatchesResolved baked req mode =
     (if mode = MatchStrict then
        fm_ID (rf_Metadata baked) \<noteq> [] \<and> fm_ID (rf_Metadata baked) = fm_ID (rf_Metadata req) \<and>
        rf_ResolvedRef baked \<noteq> [] \<and> rf_ResolvedRef baked = rf_ResolvedRef req
      else Matches (rf_Metadata baked) (rf_Metadata req) mode)"

section \<open>The order of versions\<close>

instantiation semver :: linorder
begin

definition less_eq_semver :: "semver \<Rightarrow> semver \<Rightarrow> bool" where
  "less_eq_semver a b \<longleftrightarrow> major a < major b \<or> (major a = major b \<and>
     (minor a < minor b \<or> (minor a = minor b \<and> patch a \<le> patch b)))"

definition less_semver :: "semver \<Rightarrow> semver \<Rightarrow> bool" where
  "less_semver a b \<longleftrightarrow> a \<le> b \<and> \<not> b \<le> (a :: semver)"

instance
proof
  fix x y z :: semver
  show "(x < y) = (x \<le> y \<and> \<not> y \<le> x)" by (simp add: less_semver_def)
  show "x \<le> x" by (simp add: less_eq_semver_def)
  show "x \<le> y \<Longrightarrow> y \<le> z \<Longrightarrow> x \<le> z" by (auto simp: less_eq_semver_def)
  show "x \<le> y \<Longrightarrow> y \<le> x \<Longrightarrow> x = y" by (auto simp: less_eq_semver_def intro: semver.expand)
  show "x \<le> y \<or> y \<le> x" by (auto simp: less_eq_semver_def)
qed

end

lemma semverGTE_order: "semverGTE a b \<longleftrightarrow> b \<le> a"
  by (auto simp: semverGTE_def less_eq_semver_def)

lemma Matches_permissive:
  "Matches b r MatchPermissive \<longleftrightarrow> fm_ID b \<noteq> [] \<and> fm_ID b = fm_ID r \<and>
     (fm_Version r = []
      \<or> (\<exists>x y. parseSemver (fm_Version b) = Some x \<and> parseSemver (fm_Version r) = Some y \<and> y \<le> x)
      \<or> ((parseSemver (fm_Version b) = None \<or> parseSemver (fm_Version r) = None)
          \<and> fm_Version b = fm_Version r))"
  by (auto simp: Matches_def semverGTE_order split: option.splits)

section \<open>Parsing printed versions\<close>

definition printSemver :: "semver \<Rightarrow> string" where
  "printSemver s = joinWith ''.'' [itoa (major s), itoa (minor s), itoa (patch s)]"

lemma itoaNat_digits: "c \<in> set (itoaNat n) \<Longrightarrow> \<exists>d < 10. c = digitc d"
proof (induction n rule: itoaNat.induct)
  case (1 n)
  then show ?case by (cases "n < 10") (auto simp: itoaNat.simps [of n] intro: exI [of _ "n mod 10"])
qed

lemma digitc_other: "d < 10 \<Longrightarrow> digitc d \<noteq> CHR ''.'' \<and> digitc d \<noteq> CHR ''v'' \<and>
    digitc d \<noteq> CHR ''-'' \<and> digitc d \<noteq> CHR ''+''"
  using digitVal_digitc [of d] by (auto simp: digitVal_def Let_def)

lemma itoa_plain:
  assumes "0 \<le> i" "c \<in> set (itoa i)"
  shows "c \<noteq> CHR ''.'' \<and> c \<noteq> CHR ''v'' \<and> c \<noteq> CHR ''-'' \<and> c \<noteq> CHR ''+''"
  using assms itoaNat_digits [of c "nat i"] digitc_other by (auto simp: itoa_def)

lemma itoa_ne: "itoa i \<noteq> []"
  using itoaNat_hd [of "nat i"] by (auto simp: itoa_def)

lemma parseSemver_print:
  assumes "0 \<le> a" "0 \<le> b" "0 \<le> c" "inIntRange a" "inIntRange b" "inIntRange c"
    and pre: "pre \<in> {[], ''v''}" and suf: "suf = [] \<or> hd suf \<in> {CHR ''-'', CHR ''+''}"
  shows "parseSemver (pre @ printSemver (Semver a b c) @ suf) = Some (Semver a b c)"
proof -
  let ?p = "printSemver (Semver a b c)"
  have plain: "x \<noteq> CHR ''v'' \<and> x \<noteq> CHR ''-'' \<and> x \<noteq> CHR ''+''" if "x \<in> set ?p" for x
    using that assms itoa_plain by (auto simp: printSemver_def)
  obtain h t where h: "?p = h # t" using itoa_ne [of a] by (cases ?p) (auto simp: printSemver_def)
  have "trimPrefix (pre @ ?p @ suf) ''v'' = ?p @ suf"
    using pre plain [of h] h by (auto simp: trimPrefix_def)
  moreover have "beforeSuffix (?p @ suf) = ?p"
    using suf plain by (cases suf) (auto simp: beforeSuffix_def takeWhile_append)
  moreover have "splitc (CHR ''.'') ?p = [itoa a, itoa b, itoa c]"
    using splitc_join [of "[itoa a, itoa b, itoa c]" "CHR ''.''"] assms itoa_plain
    by (auto simp: printSemver_def)
  ultimately show ?thesis
    using assms by (simp add: parseSemver_def Let_def atoiNonNeg_def atoi_itoa)
qed

section \<open>Properties\<close>

text \<open>
  C29. In permissive mode \<^verbatim>\<open>Matches\<close> is a preorder on features with an id: a feature satisfies a
  request for itself, and replacing a baked feature by one that satisfies it never loses a match
  (whatever mixture of semantic and arbitrary version strings is involved); strict matches are
  permissive matches.
\<close>

theorem Matches_preorder:
  "(fm_ID a \<noteq> [] \<longrightarrow> Matches a a mode)
   \<and> (Matches b a MatchPermissive \<longrightarrow> Matches c b MatchPermissive \<longrightarrow> Matches c a MatchPermissive)
   \<and> (Matches b a MatchStrict \<longrightarrow> Matches b a MatchPermissive)"
proof (intro conjI impI)
  show "Matches a a mode" if "fm_ID a \<noteq> []"
    using that by (cases "parseSemver (fm_Version a)") (auto simp: Matches_def semverGTE_order)
  show "Matches b a MatchPermissive" if "Matches b a MatchStrict"
    using that by (cases "parseSemver (fm_Version a)") (auto simp: Matches_def semverGTE_order split: if_splits)
  assume ab: "Matches b a MatchPermissive" and bc: "Matches c b MatchPermissive"
  have empty: "parseSemver [] = None"
    by (simp add: parseSemver_def trimPrefix_def beforeSuffix_def atoiNonNeg_def atoi_def Let_def)
  from ab bc show "Matches c a MatchPermissive"
    unfolding Matches_permissive by (auto simp: empty)
qed

theorem Matches_preorder_witness:
  "Matches (emptyMetadata\<lparr>fm_ID := ''node'', fm_Version := ''2.0.0''\<rparr>)
     (emptyMetadata\<lparr>fm_ID := ''node'', fm_Version := ''1.2''\<rparr>) MatchPermissive"
proof -
  have "Matches (emptyMetadata\<lparr>fm_ID := ''node'', fm_Version := ''1.10''\<rparr>)
      (emptyMetadata\<lparr>fm_ID := ''node'', fm_Version := ''1.2''\<rparr>) MatchPermissive"
    "Matches (emptyMetadata\<lparr>fm_ID := ''node'', fm_Version := ''2.0.0''\<rparr>)
      (emptyMetadata\<lparr>fm_ID := ''node'', fm_Version := ''1.10''\<rparr>) MatchPermissive"
    by code_simp+
  then show ?thesis using Matches_preorder by blast
qed

text \<open>
  C30. Version strings round trip: a version printed with three components, with or without the
  leading \<^verbatim>\<open>v\<close> and with any pre-release or build suffix, parses to its three numbers when they fit a
  64-bit int, and the parsed versions compare as the triples do.
\<close>

theorem parseSemver_roundtrip:
  assumes "0 \<le> major x" "0 \<le> minor x" "0 \<le> patch x"
    and "inIntRange (major x)" "inIntRange (minor x)" "inIntRange (patch x)"
    and "pre \<in> {[], ''v''}" "suf = [] \<or> hd suf \<in> {CHR ''-'', CHR ''+''}"
  shows "parseSemver (pre @ printSemver x @ suf) = Some x \<and> (semverGTE x y \<longleftrightarrow> y \<le> x)"
  using parseSemver_print [of "major x" "minor x" "patch x" pre suf] assms
  by (simp add: semverGTE_order)

theorem parseSemver_roundtrip_witness:
  "parseSemver (''v'' @ printSemver (Semver 1 22 3) @ ''-rc1'') = Some (Semver 1 22 3)
   \<and> semverGTE (Semver 1 22 3) (Semver 1 9 9)"
  using parseSemver_roundtrip [of "Semver 1 22 3" "''v''" "''-rc1''" "Semver 1 9 9"]
  by (simp add: inIntRange_def less_eq_semver_def)

end
