(* ===== verification/Feature_Options.thy ===== *)
theory Feature_Options
  imports Substitute Contracts
begin

text \<open>
  Feature options (\<^verbatim>\<open>feature/options.go\<close>): defaults and user values are merged and validated, and the
  result is written as an environment file that the feature's \<^verbatim>\<open>install.sh\<close> sources. The theorems
  give the merged map key by key and show that a POSIX shell reads back from the file exactly the
  values that were written.
\<close>

section \<open>Printing values\<close>

text \<open>\<^verbatim>\<open>fmt.Sprint\<close> of one operand; a nested object is already in key order.\<close>

fun sprint :: "json \<Rightarrow> string" where
  "sprint JNull = ''<nil>''"
| "sprint (JBool b) = (if b then ''true'' else ''false'')"
| "sprint (JNum t) = t"
| "sprint (JStr s) = s"
| "sprint (JArr xs) = ''['' @ joinWith '' '' (map sprint xs) @ '']''"
| "sprint (JObj kvs) = ''map['' @ joinWith '' '' (map (\<lambda>kv. fst kv @ '':'' @ sprint (snd kv)) kvs) @ '']''"

section \<open>Merging and validating\<close>

text \<open>
  \<^verbatim>\<open>a == b\<close> on two interface values whose dynamic types are both slices, or both maps, is a run-time
  panic: \<open>None\<close>.
\<close>

definition anyEqual :: "json \<Rightarrow> json \<Rightarrow> bool option" where
  "anyEqual a b =
     (case (a, b) of
        (JArr _, JArr _) \<Rightarrow> None
      | (JObj _, JObj _) \<Rightarrow> None
      | _ \<Rightarrow> Some (a = b \<or> sprint a = sprint b))"

datatype option_error =
    NotInEnum string json "json list"
  | ExpectsBoolean string json
  | ExpectsString string json
  | UncomparablePanic string

fun enumSearch :: "string \<Rightarrow> json list \<Rightarrow> json list \<Rightarrow> json \<Rightarrow> option_error option" where
  "enumSearch name all [] val = Some (NotInEnum name val all)"
| "enumSearch name all (allowed # rest) val =
     (case anyEqual allowed val of
        None \<Rightarrow> Some (UncomparablePanic name)
      | Some True \<Rightarrow> None
      | Some False \<Rightarrow> enumSearch name all rest val)"

definition validateOptionValue :: "string \<Rightarrow> feature_option \<Rightarrow> json \<Rightarrow> option_error option" where
  "validateOptionValue name opt val =
     (if fo_Enum opt \<noteq> [] then enumSearch name (fo_Enum opt) (fo_Enum opt) val
      else if fo_Type opt = ''boolean'' then
        (case val of JBool b \<Rightarrow> None | _ \<Rightarrow> Some (ExpectsBoolean name val))
      else if fo_Type opt = ''string'' \<or> fo_Type opt = [] then
        (case val of JStr s \<Rightarrow> None | _ \<Rightarrow> Some (ExpectsString name val))
      else None)"

definition WarnUnknownFeatureOption :: string where
  "WarnUnknownFeatureOption = ''unknown_feature_option''"

definition unknownOption :: "feature_metadata \<Rightarrow> string \<Rightarrow> warning" where
  "unknownOption meta name = mkWarning WarnUnknownFeatureOption
     (''feature '' @ goQuote (fm_ID meta) @ '': option '' @ goQuote name @
      '' is not declared in devcontainer-feature.json'')"

fun defaultValues :: "feature_option gomap \<Rightarrow> json gomap \<Rightarrow> json gomap" where
  "defaultValues [] out = out"
| "defaultValues ((name, opt) # opts) out =
     defaultValues opts (case fo_Default opt of None \<Rightarrow> out | Some d \<Rightarrow> mput name d out)"

text \<open>The loop over the user's values: the warnings so far and the map, or the first error.\<close>

fun overlayUser ::
    "feature_metadata \<Rightarrow> json gomap \<Rightarrow> json gomap \<Rightarrow> warning list \<Rightarrow>
     warning list \<times> (option_error + json gomap)" where
  "overlayUser meta [] out ws = (ws, Inr out)"
| "overlayUser meta ((name, val) # user) out ws =
     (case map_of (fm_Options meta) name of
        None \<Rightarrow> overlayUser meta user (mput name val out) (ws @ [unknownOption meta name])
      | Some decl \<Rightarrow>
          (case validateOptionValue name decl val of
             Some e \<Rightarrow> (ws, Inl e)
           | None \<Rightarrow> overlayUser meta user (mput name val out) ws))"

definition MergeOptions ::
    "feature_metadata \<Rightarrow> json gomap \<Rightarrow> warning list \<times> (option_error + json gomap)" where
  "MergeOptions meta user = overlayUser meta user (defaultValues (fm_Options meta) []) []"

section \<open>The environment file\<close>

definition isDigit :: "char \<Rightarrow> bool" where
  "isDigit c \<longleftrightarrow> (let n = of_char c :: nat in 48 \<le> n \<and> n \<le> 57)"

definition isWord :: "char \<Rightarrow> bool" where
  "isWord c \<longleftrightarrow> (let n = of_char c :: nat in
     (48 \<le> n \<and> n \<le> 57) \<or> (65 \<le> n \<and> n \<le> 90) \<or> (97 \<le> n \<and> n \<le> 122) \<or> c = CHR ''_'')"

text \<open>
  \<^verbatim>\<open>[^\w]\<close> matches one rune. Of a multi-byte rune the lead byte becomes the underscore and the
  continuation bytes go with it.
\<close>

definition isContinuation :: "char \<Rightarrow> bool" where
  "isContinuation c \<longleftrightarrow> (let n = of_char c :: nat in 128 \<le> n \<and> n < 192)"

definition nonWordReplace :: "string \<Rightarrow> string" where
  "nonWordReplace s =
     map (\<lambda>c. if isWord c then c else CHR ''_'') (filter (\<lambda>c. \<not> isContinuation c) s)"

definition safeEnvKey :: "string \<Rightarrow> string" where
  "safeEnvKey s =
     (if s = [] then []
      else let t = nonWordReplace s;
               u = (case t of [] \<Rightarrow> [] | c # _ \<Rightarrow> if isDigit c then CHR ''_'' # t else t)
           in toUpper u)"

text \<open>The replacement of a quote: close, an escaped quote, open.\<close>

definition escapeQuotes :: "string \<Rightarrow> string" where
  "escapeQuotes s =
     concat (map (\<lambda>c. if c = CHR 0x27 then [CHR 0x27, CHR 0x5C, CHR 0x27, CHR 0x27] else [c]) s)"

definition shellSingleQuote :: "string \<Rightarrow> string" where
  "shellSingleQuote s = CHR 0x27 # escapeQuotes s @ [CHR 0x27]"

definition envLine :: "json gomap \<Rightarrow> string \<Rightarrow> string" where
  "envLine opts k = safeEnvKey k @ ''='' @
     shellSingleQuote (sprint (case map_of opts k of None \<Rightarrow> JNull | Some v \<Rightarrow> v)) @ [CHR 0x0A]"

definition SerializeEnvFile :: "json gomap \<Rightarrow> string" where
  "SerializeEnvFile opts =
     (if opts = [] then [] else concat (map (envLine opts) (sortedKeys opts)))"

section \<open>The merged map\<close>

lemma defaultValues_wf: "wf_map out \<Longrightarrow> wf_map (defaultValues opts out)"
  by (induction opts out rule: defaultValues.induct) (auto split: option.splits)

lemma defaultValues_lookup:
  "wf_map opts \<Longrightarrow> fst ` set opts \<inter> fst ` set out = {} \<Longrightarrow>
     map_of (defaultValues opts out) k =
       (case map_of opts k of None \<Rightarrow> map_of out k | Some opt \<Rightarrow> fo_Default opt)"
proof (induction opts out rule: defaultValues.induct)
  case (1 out)
  then show ?case by simp
next
  case (2 name opt opts out)
  have "name \<notin> dom (map_of out)" using 2(3) by (simp add: dom_map_of_conv_image_fst)
  then have out: "map_of out name = None" by blast
  have ih: "map_of (defaultValues opts (case fo_Default opt of None \<Rightarrow> out | Some d \<Rightarrow> mput name d out)) k =
      (case map_of opts k of
         None \<Rightarrow> map_of (case fo_Default opt of None \<Rightarrow> out | Some d \<Rightarrow> mput name d out) k
       | Some opt \<Rightarrow> fo_Default opt)"
    using 2 by (intro 2(1)) (auto split: option.splits)
  have "map_of opts name = None" using 2(2) by (auto simp: map_of_eq_None_iff)
  then show ?case using ih out by (auto split: option.splits)
qed

definition validUser :: "feature_metadata \<Rightarrow> json gomap \<Rightarrow> bool" where
  "validUser meta user \<longleftrightarrow> list_all (\<lambda>(name, val).
     case map_of (fm_Options meta) name of
       None \<Rightarrow> True
     | Some decl \<Rightarrow> validateOptionValue name decl val = None) user"

lemma overlayUser_ok:
  "validUser meta user \<Longrightarrow>
     overlayUser meta user out ws =
       (ws @ map (\<lambda>p. unknownOption meta (fst p))
              (filter (\<lambda>p. map_of (fm_Options meta) (fst p) = None) user),
        Inr (mputall out user))"
proof (induction meta user out ws rule: overlayUser.induct)
  case (1 meta out ws)
  then show ?case by simp
next
  case (2 meta name val user out ws)
  then show ?case
    by (cases "map_of (fm_Options meta) name") (simp_all add: validUser_def)
qed

lemma overlayUser_error:
  "\<not> validUser meta user \<Longrightarrow> \<exists>ws' e. overlayUser meta user out ws = (ws', Inl e)"
proof (induction meta user out ws rule: overlayUser.induct)
  case (1 meta out ws)
  then show ?case by (simp add: validUser_def)
next
  case (2 meta name val user out ws)
  then show ?case
    by (cases "map_of (fm_Options meta) name") (auto simp: validUser_def split: option.splits)
qed

text \<open>
  C27. \<^verbatim>\<open>MergeOptions\<close> succeeds exactly when every declared option the user sets has a valid value.
  Then each key of the result has the user's value if there is one and the declared default
  otherwise, keys with neither are absent, and there is one warning per undeclared key; the map
  does not depend on the order in which Go iterates the two input maps.
\<close>

theorem MergeOptions_spec:
  assumes "wf_map (fm_Options meta)" "wf_map user"
  shows "((\<exists>m. snd (MergeOptions meta user) = Inr m) \<longleftrightarrow> validUser meta user)
    \<and> (\<forall>m. snd (MergeOptions meta user) = Inr m \<longrightarrow>
         wf_map m
         \<and> (\<forall>k. map_of m k =
              (case map_of user k of Some v \<Rightarrow> Some v
               | None \<Rightarrow> Option.bind (map_of (fm_Options meta) k) fo_Default))
         \<and> length (fst (MergeOptions meta user)) = card (fst ` set user - fst ` set (fm_Options meta)))"
proof (cases "validUser meta user")
  case True
  let ?d = "defaultValues (fm_Options meta) []"
  let ?new = "filter (\<lambda>p. map_of (fm_Options meta) (fst p) = None) user"
  have run: "MergeOptions meta user = (map (\<lambda>p. unknownOption meta (fst p)) ?new, Inr (mputall ?d user))"
    using overlayUser_ok [OF True, of ?d "[]"] by (simp add: MergeOptions_def)
  have look: "map_of (mputall ?d user) k = (case map_of user k of Some v \<Rightarrow> Some v
      | None \<Rightarrow> Option.bind (map_of (fm_Options meta) k) fo_Default)" for k
    using assms defaultValues_lookup [of "fm_Options meta" "[]" k]
    by (auto simp: map_add_def split: option.splits)
  have "distinct (map fst ?new)" using assms(2) by (simp add: wf_map_def distinct_map_filter)
  then have "length ?new = card (set (map fst ?new))" by (metis distinct_card length_map)
  also have "set (map fst ?new) = fst ` set user - fst ` set (fm_Options meta)"
    by (auto simp: map_of_eq_None_iff)
  finally show ?thesis using run True look by (simp add: defaultValues_wf)
next
  case False
  then show ?thesis
    using overlayUser_error [of meta user "defaultValues (fm_Options meta) []" "[]"]
    by (auto simp: MergeOptions_def)
qed

definition demo_options :: feature_metadata where
  "demo_options = emptyMetadata\<lparr>fm_ID := ''node'', fm_Options :=
     [(''version'', \<lparr>fo_Type = ''string'', fo_Default = Some (JStr ''lts''), fo_Enum = [], fo_Proposals = [],
        fo_Description = []\<rparr>),
      (''yarn'', \<lparr>fo_Type = ''boolean'', fo_Default = Some (JBool True), fo_Enum = [], fo_Proposals = [],
        fo_Description = []\<rparr>)]\<rparr>"

theorem MergeOptions_spec_witness:
  "\<exists>m. snd (MergeOptions demo_options [(''version'', JStr ''20'')]) = Inr m
     \<and> map_of m ''version'' = Some (JStr ''20'') \<and> map_of m ''yarn'' = Some (JBool True)"
proof -
  have "wf_map (fm_Options demo_options)" "wf_map [(''version'', JStr ''20'')]"
    by (simp_all add: demo_options_def)
  note spec = MergeOptions_spec [OF this]
  have "validUser demo_options [(''version'', JStr ''20'')]"
    by (simp add: validUser_def demo_options_def validateOptionValue_def)
  with spec show ?thesis by (auto simp: demo_options_def)
qed

section \<open>What the shell reads\<close>

text \<open>
  The POSIX rules the environment file relies on. A word ends at an unquoted newline; between single
  quotes every byte is literal; outside them a backslash makes the next byte literal. An assignment
  is a name, an equals sign and a word. Anything else is refused (\<open>None\<close>).
\<close>

fun shWord :: "bool \<Rightarrow> string \<Rightarrow> (string \<times> string) option" where
  "shWord True [] = None"
| "shWord False [] = Some ([], [])"
| "shWord True (c # s) =
     (if c = CHR 0x27 then shWord False s
      else map_option (\<lambda>(w, r). (c # w, r)) (shWord True s))"
| "shWord False (c # s) =
     (if c = CHR 0x0A then Some ([], s)
      else if c = CHR 0x27 then shWord True s
      else if c = CHR 0x5C then
        (case s of d # t \<Rightarrow> map_option (\<lambda>(w, r). (d # w, r)) (shWord False t) | [] \<Rightarrow> None)
      else if isWord c then map_option (\<lambda>(w, r). (c # w, r)) (shWord False s)
      else None)"

definition isName :: "string \<Rightarrow> bool" where
  "isName s \<longleftrightarrow> s \<noteq> [] \<and> list_all isWord s \<and> \<not> isDigit (hd s)"

lemma shWord_rest: "shWord q s = Some (w, r) \<Longrightarrow> length r \<le> length s"
proof (induction q s arbitrary: w r rule: shWord.induct)
  case (3 c s)
  then show ?case by (auto split: if_splits)
next
  case (4 c s)
  then show ?case by (auto split: if_splits list.splits) fastforce+
qed simp_all

function shRead :: "string \<Rightarrow> (string \<times> string) list option" where
  "shRead s =
     (if s = [] then Some []
      else case cutc (CHR ''='') s of
        None \<Rightarrow> None
      | Some (name, r) \<Rightarrow>
          if isName name then
            (case shWord False r of
               None \<Rightarrow> None
             | Some (v, rest) \<Rightarrow> map_option (Cons (name, v)) (shRead rest))
          else None)"
  by pat_completeness auto

termination shRead
proof (relation "measure length", simp)
  fix s x name r y v rest
  assume "cutc (CHR ''='') s = Some x" "(name, r) = x" "shWord False r = Some y" "(v, rest) = y"
  then have "s = name @ CHR ''='' # r" "length rest \<le> length r"
    using cutc_Some [of "CHR ''=''" s name r] shWord_rest [of False r v rest] by auto
  then show "(rest, s) \<in> measure length" by simp
qed

declare shRead.simps [simp del]

lemma shWord_quoted:
  "shWord True (escapeQuotes v @ CHR 0x27 # CHR 0x0A # rest) = Some (v, rest)"
  by (induction v) (auto simp: escapeQuotes_def)

lemma shWord_shellSingleQuote:
  "shWord False (shellSingleQuote v @ CHR 0x0A # rest) = Some (v, rest)"
  using shWord_quoted by (simp add: shellSingleQuote_def)

lemma isWord_upperc: "isWord c \<Longrightarrow> isWord (upperc c)"
  by (auto simp: isWord_def upperc_def Let_def)

lemma isDigit_upperc: "isDigit (upperc c) \<longleftrightarrow> isDigit c"
  by (auto simp: isDigit_def upperc_def Let_def)

lemma safeEnvKey_isName:
  assumes "\<exists>c \<in> set k. \<not> isContinuation c"
  shows "isName (safeEnvKey k)"
proof -
  let ?t = "nonWordReplace k"
  have "isWord (CHR ''_'')" "\<not> isDigit (CHR ''_'')" by (simp_all add: isWord_def isDigit_def Let_def)
  moreover have "list_all isWord ?t"
    using calculation by (auto simp: nonWordReplace_def list_all_iff)
  moreover obtain c t where "?t = c # t"
    using assms by (cases ?t) (auto simp: nonWordReplace_def filter_empty_conv)
  moreover have "k \<noteq> []" using assms by auto
  ultimately show ?thesis
    by (auto simp: safeEnvKey_def Let_def isName_def toUpper_def list_all_iff isWord_upperc isDigit_upperc)
qed

lemma isName_no_eq: "isName n \<Longrightarrow> CHR ''='' \<notin> set n"
  by (auto simp: isName_def list_all_iff isWord_def Let_def)

lemma shRead_envLine:
  assumes "isName (safeEnvKey k)"
  shows "shRead (envLine opts k @ rest) = map_option
    (Cons (safeEnvKey k, sprint (case map_of opts k of None \<Rightarrow> JNull | Some v \<Rightarrow> v))) (shRead rest)"
proof -
  let ?v = "sprint (case map_of opts k of None \<Rightarrow> JNull | Some v \<Rightarrow> v)"
  have line: "envLine opts k @ rest =
      safeEnvKey k @ CHR ''='' # shellSingleQuote ?v @ CHR 0x0A # rest"
    by (simp add: envLine_def)
  have "cutc (CHR ''='') (envLine opts k @ rest) =
      Some (safeEnvKey k, shellSingleQuote ?v @ CHR 0x0A # rest)"
    unfolding line cutc_Some using isName_no_eq [OF assms] by simp
  moreover have "envLine opts k \<noteq> []" by (simp add: envLine_def)
  ultimately show ?thesis
    using assms by (simp add: shRead.simps [of "envLine opts k @ rest"] shWord_shellSingleQuote)
qed

text \<open>
  C28. The environment file read back by the shell. When every option name has at least one rune,
  sourcing the file \<^verbatim>\<open>SerializeEnvFile\<close> writes performs exactly one assignment per option, in key
  order, each to a valid shell name, of exactly the printed value: no value, whatever quotes,
  dollars, backslashes or newlines it contains, ends a line early or is interpreted.
\<close>

theorem SerializeEnvFile_roundtrip:
  assumes "\<And>k. k \<in> fst ` set opts \<Longrightarrow> \<exists>c \<in> set k. \<not> isContinuation c"
  shows "shRead (SerializeEnvFile opts) =
      Some (map (\<lambda>k. (safeEnvKey k, sprint (the (map_of opts k)))) (sortedKeys opts))
    \<and> list_all (\<lambda>k. isName (safeEnvKey k)) (sortedKeys opts)"
proof -
  have names: "isName (safeEnvKey k)" if "k \<in> fst ` set opts" for k
    using assms that by (intro safeEnvKey_isName) blast
  have "shRead (concat (map (envLine opts) ks)) =
      Some (map (\<lambda>k. (safeEnvKey k, sprint (the (map_of opts k)))) ks)"
    if "set ks \<subseteq> fst ` set opts" for ks
    using that
  proof (induction ks)
    case Nil
    then show ?case by (simp add: shRead.simps)
  next
    case (Cons k ks)
    then obtain v where "map_of opts k = Some v"
      by (cases "map_of opts k") (auto simp: map_of_eq_None_iff)
    with Cons shRead_envLine [OF names, of k opts] show ?case by simp
  qed
  moreover have "SerializeEnvFile opts = concat (map (envLine opts) (sortedKeys opts))"
    by (simp add: SerializeEnvFile_def sortedKeys_def)
  ultimately show ?thesis using names by (simp add: list_all_iff)
qed

theorem SerializeEnvFile_roundtrip_witness:
  "shRead (SerializeEnvFile [(''a-b'', JStr [CHR 0x27, CHR ''$'', CHR 0x0A])]) =
     Some [(''A_B'', [CHR 0x27, CHR ''$'', CHR 0x0A])]"
proof -
  let ?o = "[(''a-b'', JStr [CHR 0x27, CHR ''$'', CHR 0x0A])]"
  have "\<exists>c \<in> set k. \<not> isContinuation c" if "k \<in> fst ` set ?o" for k
    using that by (auto simp: isContinuation_def Let_def)
  from SerializeEnvFile_roundtrip [of ?o, OF this]
  have "shRead (SerializeEnvFile ?o) =
      Some (map (\<lambda>k. (safeEnvKey k, sprint (the (map_of ?o k)))) (sortedKeys ?o))" by blast
  moreover have "safeEnvKey ''a-b'' = ''A_B''" by code_simp
  ultimately show ?thesis by (simp add: sortedKeys_def)
qed

end
