(* ===== verification/Go_Json.thy ===== *)
theory Go_Json
  imports Config_Types
begin

text \<open>
  What the repository uses of Go's \<^verbatim>\<open>encoding/json\<close>: the encoder (compact, with HTML escaping), the
  scanner, and decoding into strings, numbers and string slices. A document read from text keeps a
  number as the literal it was written with; in a value of type \<^verbatim>\<open>any\<close> a number is a \<^verbatim>\<open>float64\<close>, given by
  the text \<^verbatim>\<open>fmt.Sprint\<close> prints for it (\<open>toAny\<close>, \<open>fromAny\<close> convert). Bytes above 127 are copied in both
  directions, as the library does on valid UTF-8 (except the two line separators U+2028 and U+2029,
  which it escapes). The rounding of a literal with more digits than a \<^verbatim>\<open>float64\<close> holds is not modelled.

  The parser's recursion is bounded by fuel; \<open>parseValue_enough\<close> shows that the fuel \<open>jsonParse\<close> gives
  never runs out.
\<close>

section \<open>Encoding\<close>

definition hexc :: "nat \<Rightarrow> char" where
  "hexc d = char_of (if d < 10 then 48 + d else 87 + d)"

definition jsonEscape :: "char \<Rightarrow> string" where
  "jsonEscape c =
     (let n = of_char c :: nat in
      if n = 34 then [CHR 0x5C, CHR 0x22]
      else if n = 92 then [CHR 0x5C, CHR 0x5C]
      else if n = 8 then [CHR 0x5C, CHR ''b'']
      else if n = 12 then [CHR 0x5C, CHR ''f'']
      else if n = 10 then [CHR 0x5C, CHR ''n'']
      else if n = 13 then [CHR 0x5C, CHR ''r'']
      else if n = 9 then [CHR 0x5C, CHR ''t'']
      else if n < 32 \<or> n = 60 \<or> n = 62 \<or> n = 38
      then [CHR 0x5C, CHR ''u'', CHR ''0'', CHR ''0'', hexc (n div 16), hexc (n mod 16)]
      else [c])"

definition jsonQuote :: "string \<Rightarrow> string" where
  "jsonQuote s = CHR 0x22 # concat (map jsonEscape s) @ [CHR 0x22]"

fun jsonPrint :: "json \<Rightarrow> string" where
  "jsonPrint JNull = ''null''"
| "jsonPrint (JBool b) = (if b then ''true'' else ''false'')"
| "jsonPrint (JNum t) = t"
| "jsonPrint (JStr s) = jsonQuote s"
| "jsonPrint (JArr xs) = ''['' @ joinWith '','' (map jsonPrint xs) @ '']''"
| "jsonPrint (JObj kvs) =
     ''{'' @ joinWith '','' (map (\<lambda>kv. jsonQuote (fst kv) @ '':'' @ jsonPrint (snd kv)) kvs) @ ''}''"

section \<open>Numbers\<close>

text \<open>
  A decimal number as \<^verbatim>\<open>strconv\<close> has it: sign, significant digits without zeros at either end, and
  the position of the decimal point relative to the first digit.
\<close>

record decimal =
  dn_neg :: bool
  dn_digits :: string
  dn_point :: int

definition isDecDigit :: "char \<Rightarrow> bool" where
  "isDecDigit c \<longleftrightarrow> digitVal c \<noteq> None"

definition expValue :: "string \<Rightarrow> int" where
  "expValue s = (case atoi s of None \<Rightarrow> 0 | Some i \<Rightarrow> i)"

definition litDecimal :: "string \<Rightarrow> decimal" where
  "litDecimal lit =
     (let neg = hasPrefix lit ''-'';
          body = trimPrefix lit ''-'';
          mant = takeWhile (\<lambda>c. c \<noteq> CHR ''e'' \<and> c \<noteq> CHR ''E'') body;
          ex = expValue (drop (length mant + 1) body);
          ip = takeWhile isDecDigit mant;
          ds = filter isDecDigit mant;
          lead = dropWhile (\<lambda>c. c = CHR ''0'') ds;
          sig = rev (dropWhile (\<lambda>c. c = CHR ''0'') (rev lead))
      in \<lparr>dn_neg = neg, dn_digits = sig,
          dn_point = (if sig = [] then 0 else int (length ip) - int (length ds - length lead) + ex)\<rparr>)"

definition zeros :: "int \<Rightarrow> string" where
  "zeros n = replicate (nat n) (CHR ''0'')"

definition formatF :: "decimal \<Rightarrow> string" where
  "formatF d =
     (let ds = dn_digits d; p = dn_point d;
          ip = (if p > 0 then take (nat p) ds @ zeros (p - int (length ds)) else ''0'');
          fp = zeros (- p) @ drop (nat p) ds
      in ip @ (if int (length ds) > p \<and> ds \<noteq> [] then ''.'' @ fp else []))"

text \<open>An exponent has at least two digits; the JSON encoder drops a leading zero again.\<close>

definition formatE :: "bool \<Rightarrow> decimal \<Rightarrow> string" where
  "formatE two d =
     (let ds = dn_digits d; x = dn_point d - 1; a = itoaNat (nat \<bar>x\<bar>) in
      take 1 ds @ (if length ds > 1 then ''.'' @ drop 1 ds else []) @ ''e''
      @ (if x < 0 then ''-'' else ''+'') @ (if two \<and> length a < 2 then ''0'' else []) @ a)"

definition signed :: "decimal \<Rightarrow> string \<Rightarrow> string" where
  "signed d s = (if dn_neg d then CHR ''-'' # s else s)"

text \<open>\<^verbatim>\<open>fmt.Sprint(float64)\<close>.\<close>

definition sprintNum :: "decimal \<Rightarrow> string" where
  "sprintNum d =
     (let x = dn_point d - 1 in
      signed d (if dn_digits d \<noteq> [] \<and> (x < -4 \<or> x \<ge> 6) then formatE True d else formatF d))"

text \<open>\<^verbatim>\<open>floatEncoder\<close>: the exponent form below \<open>1e-6\<close> and from \<open>1e21\<close> on.\<close>

definition jsonNum :: "decimal \<Rightarrow> string" where
  "jsonNum d =
     (let x = dn_point d - 1 in
      signed d (if dn_digits d \<noteq> [] \<and> (x < -6 \<or> x \<ge> 21) then formatE False d else formatF d))"

text \<open>
  Decoding into \<^verbatim>\<open>any\<close> and encoding from it. The last of several members with one key wins, and the
  encoder writes the members of a map in key order.
\<close>

fun toAny :: "json \<Rightarrow> json" where
  "toAny (JNum lit) = JNum (sprintNum (litDecimal lit))"
| "toAny (JArr xs) = JArr (map toAny xs)"
| "toAny (JObj kvs) =
     (let m = mputall [] (map (\<lambda>kv. (fst kv, toAny (snd kv))) kvs)
      in JObj (map (\<lambda>k. (k, case map_of m k of Some v \<Rightarrow> v | None \<Rightarrow> JNull)) (sortedKeys m)))"
| "toAny v = v"

fun fromAny :: "json \<Rightarrow> json" where
  "fromAny (JNum t) = JNum (jsonNum (litDecimal t))"
| "fromAny (JArr xs) = JArr (map fromAny xs)"
| "fromAny (JObj kvs) = JObj (map (\<lambda>kv. (fst kv, fromAny (snd kv))) kvs)"
| "fromAny v = v"

definition jsonMarshal :: "json \<Rightarrow> string" where
  "jsonMarshal v = jsonPrint (fromAny v)"

section \<open>Scanning\<close>

definition isSpaceJ :: "char \<Rightarrow> bool" where
  "isSpaceJ c \<longleftrightarrow> c = CHR '' '' \<or> c = CHR 0x09 \<or> c = CHR 0x0A \<or> c = CHR 0x0D"

definition skipWs :: "string \<Rightarrow> string" where
  "skipWs s = dropWhile isSpaceJ s"

definition hexVal :: "char \<Rightarrow> nat option" where
  "hexVal c =
     (let n = of_char c :: nat in
      if 48 \<le> n \<and> n \<le> 57 then Some (n - 48)
      else if 97 \<le> n \<and> n \<le> 102 then Some (n - 87)
      else if 65 \<le> n \<and> n \<le> 70 then Some (n - 55)
      else None)"

definition hex4 :: "string \<Rightarrow> (nat \<times> string) option" where
  "hex4 s = (case s of
     a # b # c # d # t \<Rightarrow>
       (case (hexVal a, hexVal b, hexVal c, hexVal d) of
          (Some w, Some x, Some y, Some z) \<Rightarrow> Some (4096 * w + 256 * x + 16 * y + z, t)
        | _ \<Rightarrow> None)
   | _ \<Rightarrow> None)"

definition utf8 :: "nat \<Rightarrow> string" where
  "utf8 r =
     (if r < 0x80 then [char_of r]
      else if r < 0x800 then [char_of (0xC0 + r div 64), char_of (0x80 + r mod 64)]
      else if r < 0x10000
      then [char_of (0xE0 + r div 4096), char_of (0x80 + r div 64 mod 64), char_of (0x80 + r mod 64)]
      else [char_of (0xF0 + r div 262144), char_of (0x80 + r div 4096 mod 64),
            char_of (0x80 + r div 64 mod 64), char_of (0x80 + r mod 64)])"

text \<open>
  The code point of a \<^verbatim>\<open>\u\<close> escape after the letter: a surrogate pair is combined, a lone surrogate
  is the replacement character.
\<close>

definition unicodeEscape :: "string \<Rightarrow> (string \<times> string) option" where
  "unicodeEscape s =
     (case hex4 s of
        None \<Rightarrow> None
      | Some (r, t) \<Rightarrow>
          if 0xD800 \<le> r \<and> r < 0xE000
          then (case (if hasPrefix t [CHR 0x5C, CHR ''u''] then hex4 (drop 2 t) else None) of
                  Some (q, u) \<Rightarrow>
                    if r < 0xDC00 \<and> 0xDC00 \<le> q \<and> q < 0xE000
                    then Some (utf8 (0x10000 + (r - 0xD800) * 1024 + (q - 0xDC00)), u)
                    else Some (utf8 0xFFFD, t)
                | None \<Rightarrow> Some (utf8 0xFFFD, t))
          else Some (utf8 r, t))"

definition simpleEscape :: "char \<Rightarrow> char option" where
  "simpleEscape c =
     (if c = CHR 0x22 \<or> c = CHR 0x5C \<or> c = CHR ''/'' then Some c
      else if c = CHR ''b'' then Some (CHR 0x08)
      else if c = CHR ''f'' then Some (CHR 0x0C)
      else if c = CHR ''n'' then Some (CHR 0x0A)
      else if c = CHR ''r'' then Some (CHR 0x0D)
      else if c = CHR ''t'' then Some (CHR 0x09)
      else None)"

lemma hex4_shorter: "hex4 s = Some (r, t) \<Longrightarrow> length t < length s"
  by (auto simp: hex4_def split: list.splits option.splits)

lemma unicodeEscape_shorter: "unicodeEscape s = Some (x, t) \<Longrightarrow> length t < length s"
  by (auto simp: unicodeEscape_def split: option.splits if_splits dest!: hex4_shorter)

text \<open>The rest of a string literal after its opening quote.\<close>

function parseStr :: "string \<Rightarrow> (string \<times> string) option" where
  "parseStr s =
     (case s of
        [] \<Rightarrow> None
      | c # t \<Rightarrow>
          if c = CHR 0x22 then Some ([], t)
          else if c = CHR 0x5C
          then (case t of
                  [] \<Rightarrow> None
                | e # u \<Rightarrow>
                    if e = CHR ''u''
                    then (case unicodeEscape u of
                            None \<Rightarrow> None
                          | Some (x, w) \<Rightarrow> map_option (\<lambda>(a, b). (x @ a, b)) (parseStr w))
                    else (case simpleEscape e of
                            None \<Rightarrow> None
                          | Some x \<Rightarrow> map_option (\<lambda>(a, b). (x # a, b)) (parseStr u)))
          else if (of_char c :: nat) < 32 then None
          else map_option (\<lambda>(a, b). (c # a, b)) (parseStr t))"
  by pat_completeness auto
termination
  by (relation "measure length") (auto dest!: unicodeEscape_shorter)

declare parseStr.simps [simp del]

text \<open>A number literal: \<^verbatim>\<open>-?(0|[1-9][0-9]*)(\.[0-9]+)?([eE][+-]?[0-9]+)?\<close>.\<close>

definition scanFrac :: "string \<Rightarrow> (string \<times> string) option" where
  "scanFrac s =
     (if hasPrefix s ''.''
      then let ds = takeWhile isDecDigit (drop 1 s)
           in if ds = [] then None else Some (CHR ''.'' # ds, dropWhile isDecDigit (drop 1 s))
      else Some ([], s))"

definition scanExp :: "string \<Rightarrow> (string \<times> string) option" where
  "scanExp s =
     (case s of
        [] \<Rightarrow> Some ([], s)
      | c # t \<Rightarrow>
          if c = CHR ''e'' \<or> c = CHR ''E''
          then let sg = (if hasPrefix t ''+'' \<or> hasPrefix t ''-'' then take 1 t else []);
                   u = drop (length sg) t;
                   ds = takeWhile isDecDigit u
               in if ds = [] then None else Some (c # sg @ ds, dropWhile isDecDigit u)
          else Some ([], s))"

definition scanNum :: "string \<Rightarrow> (string \<times> string) option" where
  "scanNum s =
     (let sg = (if hasPrefix s ''-'' then ''-'' else []);
          t = trimPrefix s ''-'';
          ip = takeWhile isDecDigit t
      in if ip = [] \<or> (hd ip = CHR ''0'' \<and> length ip > 1) then None
         else case scanFrac (dropWhile isDecDigit t) of
                None \<Rightarrow> None
              | Some (fp, u) \<Rightarrow>
                  (case scanExp u of
                     None \<Rightarrow> None
                   | Some (ep, w) \<Rightarrow> Some (sg @ ip @ fp @ ep, w)))"

definition scanLit :: "string \<Rightarrow> (json \<times> string) option" where
  "scanLit s =
     (if hasPrefix s ''null'' then Some (JNull, drop 4 s)
      else if hasPrefix s ''true'' then Some (JBool True, drop 4 s)
      else if hasPrefix s ''false'' then Some (JBool False, drop 5 s)
      else map_option (\<lambda>(t, u). (JNum t, u)) (scanNum s))"

text \<open>One level of the recursive descent, over the parsers of the level below.\<close>

definition valueStep ::
    "(string \<Rightarrow> (json list \<times> string) option) \<Rightarrow> (string \<Rightarrow> ((string \<times> json) list \<times> string) option) \<Rightarrow>
     string \<Rightarrow> (json \<times> string) option" where
  "valueStep elems members s =
     (case skipWs s of
        [] \<Rightarrow> None
      | c # t \<Rightarrow>
          if c = CHR 0x22 then map_option (\<lambda>(x, u). (JStr x, u)) (parseStr t)
          else if c = CHR ''[''
          then (if hasPrefix (skipWs t) '']'' then Some (JArr [], drop 1 (skipWs t))
                else map_option (\<lambda>(xs, u). (JArr xs, u)) (elems t))
          else if c = CHR ''{''
          then (if hasPrefix (skipWs t) ''}'' then Some (JObj [], drop 1 (skipWs t))
                else map_option (\<lambda>(ms, u). (JObj ms, u)) (members t))
          else scanLit (c # t))"

text \<open>After an element: a comma and more elements, or the closing bracket.\<close>

definition moreOf ::
    "char \<Rightarrow> (string \<Rightarrow> ('a list \<times> string) option) \<Rightarrow> 'a \<Rightarrow> string \<Rightarrow> ('a list \<times> string) option" where
  "moreOf close rest x u =
     (case skipWs u of
        [] \<Rightarrow> None
      | c # w \<Rightarrow>
          if c = CHR '','' then map_option (\<lambda>(xs, r). (x # xs, r)) (rest w)
          else if c = close then Some ([x], w) else None)"

definition keyOf :: "string \<Rightarrow> (string \<times> string) option" where
  "keyOf s =
     (if hasPrefix (skipWs s) [CHR 0x22]
      then (case parseStr (drop 1 (skipWs s)) of
              None \<Rightarrow> None
            | Some (k, u) \<Rightarrow> if hasPrefix (skipWs u) '':'' then Some (k, drop 1 (skipWs u)) else None)
      else None)"

fun parseValue :: "nat \<Rightarrow> string \<Rightarrow> (json \<times> string) option"
  and parseElems :: "nat \<Rightarrow> string \<Rightarrow> (json list \<times> string) option"
  and parseMembers :: "nat \<Rightarrow> string \<Rightarrow> ((string \<times> json) list \<times> string) option" where
  "parseValue 0 s = None"
| "parseValue (Suc n) s = valueStep (parseElems n) (parseMembers n) s"
| "parseElems 0 s = None"
| "parseElems (Suc n) s =
     (case parseValue n s of
        None \<Rightarrow> None
      | Some (v, u) \<Rightarrow> moreOf (CHR '']'') (parseElems n) v u)"
| "parseMembers 0 s = None"
| "parseMembers (Suc n) s =
     (case keyOf s of
        None \<Rightarrow> None
      | Some (k, u) \<Rightarrow>
          (case parseValue n u of
             None \<Rightarrow> None
           | Some (v, w) \<Rightarrow> moreOf (CHR ''}'') (parseMembers n) (k, v) w))"

definition jsonParse :: "string \<Rightarrow> json option" where
  "jsonParse s =
     (case parseValue (2 * length s + 2) s of
        None \<Rightarrow> None
      | Some (v, r) \<Rightarrow> if skipWs r = [] then Some v else None)"

section \<open>Decoding into strings, integers and booleans\<close>

text \<open>
  \<^verbatim>\<open>json.Unmarshal\<close> into a fresh variable: \<^verbatim>\<open>null\<close> leaves the zero value, another shape is an error. An
  integer literal has no fraction and no exponent.
\<close>

definition unmarshalString :: "json \<Rightarrow> string option" where
  "unmarshalString v = (case v of JStr s \<Rightarrow> Some s | JNull \<Rightarrow> Some [] | _ \<Rightarrow> None)"

definition unmarshalInt :: "json \<Rightarrow> int option" where
  "unmarshalInt v = (case v of JNum t \<Rightarrow> atoi t | JNull \<Rightarrow> Some 0 | _ \<Rightarrow> None)"

definition unmarshalBool :: "json \<Rightarrow> bool option" where
  "unmarshalBool v = (case v of JBool b \<Rightarrow> Some b | JNull \<Rightarrow> Some False | _ \<Rightarrow> None)"

definition unmarshalStrings :: "json \<Rightarrow> string list option" where
  "unmarshalStrings v =
     (case v of
        JArr xs \<Rightarrow> if list_all (\<lambda>x. unmarshalString x \<noteq> None) xs
                   then Some (map (\<lambda>x. the (unmarshalString x)) xs) else None
      | JNull \<Rightarrow> Some []
      | _ \<Rightarrow> None)"

section \<open>The parser's fuel\<close>

lemma valueStep_mono:
  "valueStep e m s = Some x \<Longrightarrow> (\<And>t y. e t = Some y \<Longrightarrow> e' t = Some y) \<Longrightarrow>
     (\<And>t y. m t = Some y \<Longrightarrow> m' t = Some y) \<Longrightarrow> valueStep e' m' s = Some x"
  by (cases "skipWs s") (auto simp: valueStep_def split: if_splits)

lemma moreOf_mono:
  "moreOf cl rest v u = Some x \<Longrightarrow> (\<And>t y. rest t = Some y \<Longrightarrow> rest' t = Some y) \<Longrightarrow>
     moreOf cl rest' v u = Some x"
  by (cases "skipWs u") (auto simp: moreOf_def split: if_splits)

lemma parse_mono_Suc:
  "(\<forall>s x. parseValue n s = Some x \<longrightarrow> parseValue (Suc n) s = Some x)
   \<and> (\<forall>s x. parseElems n s = Some x \<longrightarrow> parseElems (Suc n) s = Some x)
   \<and> (\<forall>s x. parseMembers n s = Some x \<longrightarrow> parseMembers (Suc n) s = Some x)"
proof (induction n)
  case 0
  then show ?case by simp
next
  case (Suc n)
  have e: "parseElems n s = Some y \<Longrightarrow> parseElems (Suc n) s = Some y"
    and m: "parseMembers n s = Some z \<Longrightarrow> parseMembers (Suc n) s = Some z"
    and v: "parseValue n s = Some w \<Longrightarrow> parseValue (Suc n) s = Some w" for s y z w
    using Suc by blast+
  have "parseValue (Suc (Suc n)) s = Some x" if "parseValue (Suc n) s = Some x" for s x
    using that e m unfolding parseValue.simps by (rule valueStep_mono)
  moreover have "parseElems (Suc (Suc n)) s = Some x" if a: "parseElems (Suc n) s = Some x" for s x
  proof -
    from a obtain w u where w: "parseValue n s = Some (w, u)"
        and r: "moreOf (CHR '']'') (parseElems n) w u = Some x"
      by (auto split: option.splits)
    have "moreOf (CHR '']'') (parseElems (Suc n)) w u = Some x" using r e by (rule moreOf_mono)
    with v [OF w] show ?thesis by (subst parseElems.simps) (simp del: parseElems.simps parseValue.simps)
  qed
  moreover have "parseMembers (Suc (Suc n)) s = Some x" if a: "parseMembers (Suc n) s = Some x" for s x
  proof -
    from a obtain k t w u where k: "keyOf s = Some (k, t)" and w: "parseValue n t = Some (w, u)"
        and r: "moreOf (CHR ''}'') (parseMembers n) (k, w) u = Some x"
      by (auto split: option.splits)
    have "moreOf (CHR ''}'') (parseMembers (Suc n)) (k, w) u = Some x" using r m by (rule moreOf_mono)
    with k v [OF w] show ?thesis by (subst parseMembers.simps) (simp del: parseMembers.simps parseValue.simps)
  qed
  ultimately show ?case by blast
qed

lemma fuel_mono:
  assumes "\<And>n s x. f n s = Some x \<Longrightarrow> f (Suc n) s = Some x"
  shows "n \<le> m \<Longrightarrow> f n s = Some x \<Longrightarrow> f m s = Some x"
  by (induction m rule: dec_induct) (auto intro: assms)

lemma parseValue_mono: "n \<le> m \<Longrightarrow> parseValue n s = Some x \<Longrightarrow> parseValue m s = Some x"
  by (rule fuel_mono [of parseValue]) (use parse_mono_Suc in blast)

lemma parseElems_mono: "n \<le> m \<Longrightarrow> parseElems n s = Some x \<Longrightarrow> parseElems m s = Some x"
  by (rule fuel_mono [of parseElems]) (use parse_mono_Suc in blast)

lemma parseMembers_mono: "n \<le> m \<Longrightarrow> parseMembers n s = Some x \<Longrightarrow> parseMembers m s = Some x"
  by (rule fuel_mono [of parseMembers]) (use parse_mono_Suc in blast)

text \<open>Every scanner consumes input.\<close>

lemma length_skipWs: "length (skipWs s) \<le> length s"
  by (simp add: skipWs_def length_dropWhile_le)

lemma parseStr_shorter: "parseStr s = Some (x, r) \<Longrightarrow> length r < length s"
proof (induction s arbitrary: x rule: parseStr.induct)
  case (1 s)
  show ?case
  proof (cases s)
    case Nil
    with "1.prems" show ?thesis by (simp add: parseStr.simps)
  next
    case (Cons c t)
    consider (quote) "c = CHR 0x22" | (esc) "c = CHR 0x5C" | (plain) "c \<noteq> CHR 0x22" "c \<noteq> CHR 0x5C" by blast
    then show ?thesis
    proof cases
      case quote
      with "1.prems" Cons show ?thesis by (subst (asm) parseStr.simps) simp
    next
      case plain
      with "1.prems" Cons obtain y where "parseStr t = Some (y, r)" "\<not> of_char c < (32::nat)"
        by (subst (asm) parseStr.simps) (auto split: if_splits)
      with "1.IH"(3) [OF Cons plain] Cons show ?thesis by auto
    next
      case esc
      show ?thesis
      proof (cases t)
        case Nil
        with "1.prems" Cons esc show ?thesis by (simp add: parseStr.simps)
      next
        case (Cons e u)
        show ?thesis
        proof (cases "e = CHR ''u''")
          case True
          with "1.prems" \<open>s = c # t\<close> esc Cons obtain y w z where w: "unicodeEscape u = Some (z, w)"
              and y: "parseStr w = Some (y, r)"
            by (subst (asm) parseStr.simps) (auto split: option.splits)
          have "length r < length w"
            by (rule "1.IH"(1) [OF \<open>s = c # t\<close> _ esc Cons True w _ y]) (use esc in auto)
          with unicodeEscape_shorter [OF w] Cons \<open>s = c # t\<close> show ?thesis by simp
        next
          case False
          with "1.prems" \<open>s = c # t\<close> esc Cons obtain y z where z: "simpleEscape e = Some z"
              and y: "parseStr u = Some (y, r)"
            by (subst (asm) parseStr.simps) (auto split: option.splits)
          have "length r < length u"
            by (rule "1.IH"(2) [OF \<open>s = c # t\<close> _ esc Cons False z y]) (use esc in auto)
          with Cons \<open>s = c # t\<close> show ?thesis by simp
        qed
      qed
    qed
  qed
qed

lemma length_dropDigits: "length (dropWhile isDecDigit s) \<le> length s"
  by (rule length_dropWhile_le)

lemma scanNum_shorter: "scanNum s = Some (x, r) \<Longrightarrow> length r < length s"
proof -
  assume a: "scanNum s = Some (x, r)"
  define t where "t = trimPrefix s ''-''"
  have t: "length t \<le> length s" by (auto simp: t_def trimPrefix_def)
  from a obtain fp u ep where ip: "takeWhile isDecDigit t \<noteq> []"
      and u: "scanFrac (dropWhile isDecDigit t) = Some (fp, u)" and r: "scanExp u = Some (ep, r)"
    by (auto simp: scanNum_def Let_def t_def split: if_splits option.splits)
  have "length (dropWhile isDecDigit t) < length t" using ip by (cases t) (auto simp: length_dropWhile_le le_imp_less_Suc split: if_splits)
  moreover have "length u \<le> length (dropWhile isDecDigit t)"
    using u length_dropDigits [of "drop 1 (dropWhile isDecDigit t)"]
    by (auto simp: scanFrac_def Let_def split: if_splits)
  moreover have "length r \<le> length u"
    using r by (auto simp: scanExp_def Let_def split: list.splits if_splits
        intro!: le_trans [OF length_dropDigits])
  ultimately show ?thesis using t by linarith
qed

lemma hasPrefix_lengthD: "hasPrefix s p \<Longrightarrow> length p \<le> length s"
  by (simp add: hasPrefix_iff prefix_length_le)

lemma scanLit_shorter: "scanLit s = Some (x, r) \<Longrightarrow> length r < length s"
  by (auto simp: scanLit_def split: if_splits dest!: scanNum_shorter hasPrefix_lengthD)

lemma keyOf_shorter: "keyOf s = Some (k, r) \<Longrightarrow> length r < length s"
proof -
  assume "keyOf s = Some (k, r)"
  then obtain u where "parseStr (drop 1 (skipWs s)) = Some (k, u)" "r = drop 1 (skipWs u)"
    by (auto simp: keyOf_def split: if_splits option.splits)
  with parseStr_shorter [of "drop 1 (skipWs s)" k u] length_skipWs [of s] length_skipWs [of u]
  show ?thesis by simp
qed

text \<open>Twice the length of the input is enough fuel: more fuel gives no other result.\<close>

lemma valueStep_enough:
  assumes v: "valueStep e m s = Some (v, r)"
    and e: "\<And>t ys q. length t < length s \<Longrightarrow> e t = Some (ys, q) \<Longrightarrow> length q < length t \<and> e' t = Some (ys, q)"
    and m: "\<And>t ys q. length t < length s \<Longrightarrow> m t = Some (ys, q) \<Longrightarrow> length q < length t \<and> m' t = Some (ys, q)"
  shows "length r < length s \<and> valueStep e' m' s = Some (v, r)"
proof (cases "skipWs s")
  case Nil
  with v show ?thesis by (simp add: valueStep_def)
next
  case (Cons c t)
  then have t: "Suc (length t) \<le> length s" using length_skipWs [of s] by simp
  have dt: "length (drop 1 (skipWs t)) < length s" using t length_skipWs [of t] by simp
  consider (str) "c = CHR 0x22" | (arr) "c = CHR ''[''" | (obj) "c = CHR ''{''"
    | (lit) "c \<noteq> CHR 0x22" "c \<noteq> CHR ''[''" "c \<noteq> CHR ''{''" by blast
  then show ?thesis
  proof cases
    case str
    with v Cons t show ?thesis by (auto simp: valueStep_def dest!: parseStr_shorter)
  next
    case arr
    show ?thesis
    proof (cases "hasPrefix (skipWs t) '']''")
      case True
      with v Cons arr dt show ?thesis by (auto simp: valueStep_def)
    next
      case False
      with v Cons arr obtain xs where "e t = Some (xs, r)" "v = JArr xs" by (auto simp: valueStep_def)
      with e [of t xs r] t False Cons arr show ?thesis by (simp add: valueStep_def)
    qed
  next
    case obj
    show ?thesis
    proof (cases "hasPrefix (skipWs t) ''}''")
      case True
      with v Cons obj dt show ?thesis by (auto simp: valueStep_def)
    next
      case False
      with v Cons obj obtain xs where "m t = Some (xs, r)" "v = JObj xs" by (auto simp: valueStep_def)
      with m [of t xs r] t False Cons obj show ?thesis by (simp add: valueStep_def)
    qed
  next
    case lit
    with v Cons t show ?thesis by (auto simp: valueStep_def dest!: scanLit_shorter)
  qed
qed

lemma moreOf_enough:
  assumes x: "moreOf cl rest x u = Some (xs, r)"
    and rest: "\<And>t ys q. length t < length u \<Longrightarrow> rest t = Some (ys, q) \<Longrightarrow>
      length q < length t \<and> rest' t = Some (ys, q)"
  shows "length r < length u \<and> moreOf cl rest' x u = Some (xs, r)"
proof (cases "skipWs u")
  case Nil
  with x show ?thesis by (simp add: moreOf_def)
next
  case (Cons c w)
  then have w: "Suc (length w) \<le> length u" using length_skipWs [of u] by simp
  show ?thesis
  proof (cases "c = CHR '',''")
    case True
    with x Cons obtain ys where "rest w = Some (ys, r)" "xs = x # ys" by (auto simp: moreOf_def)
    with rest [of w ys r] w True Cons show ?thesis by (simp add: moreOf_def)
  next
    case False
    with x Cons w show ?thesis by (auto simp: moreOf_def split: if_splits)
  qed
qed

lemma parse_enough:
  "(\<forall>s v r. parseValue n s = Some (v, r) \<longrightarrow>
      length r < length s \<and> parseValue (2 * length s + 1) s = Some (v, r))
   \<and> (\<forall>s v r. parseElems n s = Some (v, r) \<longrightarrow>
      length r < length s \<and> parseElems (2 * length s + 2) s = Some (v, r))
   \<and> (\<forall>s v r. parseMembers n s = Some (v, r) \<longrightarrow>
      length r < length s \<and> parseMembers (2 * length s + 2) s = Some (v, r))"
proof (induction n)
  case 0
  then show ?case by simp
next
  case (Suc n)
  have v: "length r < length s \<and> parseValue k s = Some (x, r)"
    if "parseValue n s = Some (x, r)" "2 * length s + 1 \<le> k" for s x r k
    using Suc that parseValue_mono [OF that(2)] by blast
  have e: "length r < length s \<and> parseElems k s = Some (x, r)"
    if "parseElems n s = Some (x, r)" "2 * length s + 2 \<le> k" for s x r k
    using Suc that parseElems_mono [OF that(2)] by blast
  have m: "length r < length s \<and> parseMembers k s = Some (x, r)"
    if "parseMembers n s = Some (x, r)" "2 * length s + 2 \<le> k" for s x r k
    using Suc that parseMembers_mono [OF that(2)] by blast
  have "length r < length s \<and> parseValue (2 * length s + 1) s = Some (x, r)"
    if "parseValue (Suc n) s = Some (x, r)" for s x r
  proof -
    have "valueStep (parseElems n) (parseMembers n) s = Some (x, r)" using that by simp
    then have "length r < length s \<and>
        valueStep (parseElems (2 * length s)) (parseMembers (2 * length s)) s = Some (x, r)"
      by (rule valueStep_enough) (rule e, assumption, simp, rule m, assumption, simp)
    then show ?thesis by simp
  qed
  moreover have "length r < length s \<and> parseElems (2 * length s + 2) s = Some (x, r)"
    if a: "parseElems (Suc n) s = Some (x, r)" for s x r
  proof -
    from a obtain w u where w: "parseValue n s = Some (w, u)"
        and r: "moreOf (CHR '']'') (parseElems n) w u = Some (x, r)"
      by (auto split: option.splits)
    note w' = v [OF w, of "2 * length s + 1", simplified]
    have "length r < length u \<and> moreOf (CHR '']'') (parseElems (2 * length s + 1)) w u = Some (x, r)"
      using r by (rule moreOf_enough) (rule e, assumption, use w' in simp)
    with w' show ?thesis by simp
  qed
  moreover have "length r < length s \<and> parseMembers (2 * length s + 2) s = Some (x, r)"
    if a: "parseMembers (Suc n) s = Some (x, r)" for s x r
  proof -
    from a obtain k t w u where k: "keyOf s = Some (k, t)" and w: "parseValue n t = Some (w, u)"
        and r: "moreOf (CHR ''}'') (parseMembers n) (k, w) u = Some (x, r)"
      by (auto split: option.splits)
    note t = keyOf_shorter [OF k]
    have w': "length u < length t \<and> parseValue (2 * length s + 1) t = Some (w, u)"
      using v [OF w, of "2 * length s + 1"] t by simp
    have "length r < length u \<and> moreOf (CHR ''}'') (parseMembers (2 * length s + 1)) (k, w) u = Some (x, r)"
      using r by (rule moreOf_enough) (rule m, assumption, use w' t in simp)
    with w' k t show ?thesis by simp
  qed
  ultimately show ?case by blast
qed

lemma jsonParse_fuel:
  "parseValue n s = Some (v, r) \<Longrightarrow> skipWs r = [] \<Longrightarrow> jsonParse s = Some v"
proof -
  assume v: "parseValue n s = Some (v, r)" and r: "skipWs r = []"
  from v have "parseValue (2 * length s + 1) s = Some (v, r)" using parse_enough [of n] by blast
  then have "parseValue (2 * length s + 2) s = Some (v, r)" by (rule parseValue_mono [rotated]) simp
  with r show ?thesis by (simp add: jsonParse_def del: parseValue.simps)
qed

section \<open>Round trip\<close>

lemma hexVal_hexc: "d < 16 \<Longrightarrow> hexVal (hexc d) = Some d"
  by (auto simp: hexVal_def hexc_def Let_def)

lemma hexVal_zero: "hexVal (CHR ''0'') = Some 0"
  by code_simp

lemma unicodeEscape_byte:
  "n < 128 \<Longrightarrow> unicodeEscape (CHR ''0'' # CHR ''0'' # hexc (n div 16) # hexc (n mod 16) # s) =
     Some ([char_of n], s)"
  by (simp add: unicodeEscape_def hex4_def hexVal_zero hexVal_hexc utf8_def)

lemma char_eq_of_char: "(of_char c :: nat) = n \<Longrightarrow> n < 256 \<Longrightarrow> c = char_of n"
  by auto

lemma escaped_chars:
  "char_of (34::nat) = CHR 0x22" "char_of (92::nat) = CHR 0x5C" "char_of (8::nat) = CHR 0x08"
  "char_of (12::nat) = CHR 0x0C" "char_of (10::nat) = CHR 0x0A" "char_of (13::nat) = CHR 0x0D"
  "char_of (9::nat) = CHR 0x09"
  by code_simp+

lemma parseStr_escape:
  "parseStr (jsonEscape c @ s) = map_option (\<lambda>(a, b). (c # a, b)) (parseStr s)"
proof -
  let ?n = "of_char c :: nat"
  have u: "parseStr (CHR 0x5C # CHR ''u'' # CHR ''0'' # CHR ''0'' # hexc (?n div 16) # hexc (?n mod 16) # s) =
      map_option (\<lambda>(a, b). (c # a, b)) (parseStr s)" if "?n < 128"
    using that by (subst parseStr.simps) (simp add: unicodeEscape_byte)
  have sh: "parseStr (CHR 0x5C # e # s) = map_option (\<lambda>(a, b). (c # a, b)) (parseStr s)"
    if "simpleEscape e = Some c" "e \<noteq> CHR ''u''" for e
    using that by (subst parseStr.simps) simp
  have pl: "parseStr (c # s) = map_option (\<lambda>(a, b). (c # a, b)) (parseStr s)"
    if "?n \<noteq> 34" "?n \<noteq> 92" "\<not> ?n < 32"
  proof -
    have "c \<noteq> CHR 0x22" "c \<noteq> CHR 0x5C" using that(1,2) by auto
    with that(3) show ?thesis by (subst parseStr.simps) simp
  qed
  consider "?n = 34" | "?n = 92" | "?n = 8" | "?n = 12" | "?n = 10" | "?n = 13" | "?n = 9"
    | "?n \<notin> {34, 92, 8, 12, 10, 13, 9}" "?n < 32 \<or> ?n = 60 \<or> ?n = 62 \<or> ?n = 38"
    | "?n \<notin> {34, 92, 8, 12, 10, 13, 9}" "\<not> (?n < 32 \<or> ?n = 60 \<or> ?n = 62 \<or> ?n = 38)" by blast
  then show ?thesis
  proof cases
    case 8
    then have "?n < 128" by auto
    with u 8 show ?thesis by (simp add: jsonEscape_def Let_def)
  next
    case 9
    with pl show ?thesis by (simp add: jsonEscape_def Let_def)
  qed (auto simp: jsonEscape_def dest!: char_eq_of_char intro!: sh simp: simpleEscape_def escaped_chars)
qed

lemma parseStr_quote: "parseStr (concat (map jsonEscape x) @ CHR 0x22 # r) = Some (x, r)"
proof (induction x)
  case Nil
  then show ?case by (simp add: parseStr.simps)
next
  case (Cons c x)
  then show ?case by (simp add: parseStr_escape)
qed

text \<open>A number literal ends where no character can continue it.\<close>

definition numStop :: "string \<Rightarrow> bool" where
  "numStop r \<longleftrightarrow> (case r of [] \<Rightarrow> True
     | c # t \<Rightarrow> \<not> isDecDigit c \<and> c \<noteq> CHR ''.'' \<and> c \<noteq> CHR ''e'' \<and> c \<noteq> CHR ''E'')"

definition numLit :: "string \<Rightarrow> bool" where
  "numLit t \<longleftrightarrow> scanNum t = Some (t, [])"

lemma digits_append:
  assumes "numStop r"
  shows "takeWhile isDecDigit (t @ r) = takeWhile isDecDigit t"
    and "dropWhile isDecDigit (t @ r) = dropWhile isDecDigit t @ r"
  using assms by (induction t) (auto simp: numStop_def split: list.splits)

lemma scanFrac_append:
  "numStop r \<Longrightarrow> scanFrac s = Some (f, u) \<Longrightarrow> scanFrac (s @ r) = Some (f, u @ r)"
proof (cases s)
  case Nil
  assume "numStop r" "scanFrac s = Some (f, u)"
  with Nil show ?thesis by (cases r) (auto simp: scanFrac_def numStop_def)
next
  case (Cons c t)
  assume "numStop r" "scanFrac s = Some (f, u)"
  with Cons show ?thesis by (auto simp: scanFrac_def Let_def digits_append split: if_splits)
qed

lemma scanExp_append:
  assumes "numStop r" "scanExp s = Some (f, u)"
  shows "scanExp (s @ r) = Some (f, u @ r)"
proof (cases s)
  case Nil
  with assms show ?thesis by (cases r) (auto simp: scanExp_def numStop_def)
next
  case (Cons c t)
  show ?thesis
  proof (cases "c = CHR ''e'' \<or> c = CHR ''E''")
    case True
    with assms Cons have "t \<noteq> []" by (auto simp: scanExp_def)
    then obtain d w where "t = d # w" by (cases t) auto
    with True assms Cons digits_append [OF assms(1), of w] digits_append [OF assms(1), of "d # w"]
    show ?thesis by (auto simp: scanExp_def Let_def split: if_splits)
  next
    case False
    with assms(2) Cons have "f = []" "u = c # t" by (auto simp: scanExp_def)
    with False Cons show ?thesis by (simp add: scanExp_def)
  qed
qed

lemma scanNum_append:
  assumes "numStop r" "scanNum s = Some (f, u)"
  shows "scanNum (s @ r) = Some (f, u @ r)"
proof -
  have ne: "s \<noteq> []" using assms(2) by (auto simp: scanNum_def trimPrefix_def)
  then have p: "hasPrefix (s @ r) ''-'' = hasPrefix s ''-''"
      and t: "trimPrefix (s @ r) ''-'' = trimPrefix s ''-'' @ r"
    by (cases s; auto simp: trimPrefix_def)+
  show ?thesis using assms
    by (auto simp: scanNum_def Let_def p t digits_append scanFrac_append scanExp_append
        split: if_splits option.splits)
qed

lemma numLit_hd: "numLit t \<Longrightarrow> \<exists>c u. t = c # u \<and> (c = CHR ''-'' \<or> isDecDigit c)"
proof -
  assume "numLit t"
  then have "t \<noteq> []" "takeWhile isDecDigit (trimPrefix t ''-'') \<noteq> []"
    by (auto simp: numLit_def scanNum_def Let_def trimPrefix_def split: if_splits)
  then show ?thesis by (cases t) (auto simp: trimPrefix_def split: if_splits)
qed

fun wfRaw :: "json \<Rightarrow> bool" where
  "wfRaw (JNum t) = numLit t"
| "wfRaw (JArr xs) = (\<forall>x \<in> set xs. wfRaw x)"
| "wfRaw (JObj kvs) = (\<forall>kv \<in> set kvs. wfRaw (snd kv))"
| "wfRaw v = True"

lemma isDecDigit_iff: "isDecDigit c \<longleftrightarrow> 48 \<le> (of_char c :: nat) \<and> (of_char c :: nat) \<le> 57"
  by (auto simp: isDecDigit_def digitVal_def Let_def)

definition startsValue :: "string \<Rightarrow> bool" where
  "startsValue s \<longleftrightarrow> (case s of [] \<Rightarrow> False | c # t \<Rightarrow> \<not> isSpaceJ c \<and> c \<noteq> CHR '']'' \<and> c \<noteq> CHR ''}'')"

lemma jsonPrint_starts: "wfRaw v \<Longrightarrow> startsValue (jsonPrint v @ r)"
proof (cases v)
  case (JNum t)
  assume "wfRaw v"
  with JNum obtain c u where "t = c # u" "c = CHR ''-'' \<or> isDecDigit c" using numLit_hd [of t] by auto
  with JNum show ?thesis by (auto simp: startsValue_def isSpaceJ_def isDecDigit_iff)
qed (auto simp: startsValue_def isSpaceJ_def jsonQuote_def)

lemma skipWs_starts: "startsValue s \<Longrightarrow> skipWs s = s"
  by (cases s) (auto simp: skipWs_def startsValue_def)

lemma skipWs_Cons: "\<not> isSpaceJ c \<Longrightarrow> skipWs (c # s) = c # s"
  by (simp add: skipWs_def)

lemma parseValue_num:
  assumes "numLit t" "numStop r"
  shows "parseValue (Suc n) (t @ r) = Some (JNum t, r)"
proof -
  obtain c u where c: "t = c # u" "c = CHR ''-'' \<or> isDecDigit c" using numLit_hd [OF assms(1)] by blast
  have "scanNum (t @ r) = Some (t, r)"
    using scanNum_append [OF assms(2)] assms(1) by (fastforce simp: numLit_def)
  moreover have "\<not> isSpaceJ c" "c \<notin> {CHR 0x22, CHR ''['', CHR ''{'', CHR ''n'', CHR ''t'', CHR ''f''}"
    using c(2) by (auto simp: isSpaceJ_def isDecDigit_iff)
  ultimately show ?thesis using c(1) by (simp add: valueStep_def skipWs_Cons scanLit_def)
qed

lemma numStop_sep [simp]: "numStop (CHR '','' # r)" "numStop (CHR '']'' # r)" "numStop (CHR ''}'' # r)"
  by (auto simp: numStop_def isDecDigit_iff)

lemma parseElems_print:
  assumes "xs \<noteq> []"
    and "\<And>x r. x \<in> set xs \<Longrightarrow> numStop r \<Longrightarrow> \<exists>n. parseValue n (jsonPrint x @ r) = Some (x, r)"
  shows "\<exists>n. parseElems n (joinWith '','' (map jsonPrint xs) @ CHR '']'' # r) = Some (xs, r)"
  using assms
proof (induction xs)
  case Nil
  then show ?case by simp
next
  case (Cons x xs)
  show ?case
  proof (cases xs)
    case Nil
    obtain n where "parseValue n (jsonPrint x @ CHR '']'' # r) = Some (x, CHR '']'' # r)"
      using Cons.prems(2) [of x "CHR '']'' # r"] by auto
    then have "parseElems (Suc n) (jsonPrint x @ CHR '']'' # r) = Some ([x], r)"
      by (simp add: moreOf_def skipWs_Cons isSpaceJ_def)
    with Nil show ?thesis by (intro exI [of _ "Suc n"]) simp
  next
    case (Cons y ys)
    let ?rest = "joinWith '','' (map jsonPrint xs) @ CHR '']'' # r"
    obtain n where n: "parseElems n ?rest = Some (xs, r)"
      using Cons.IH Cons.prems(2) Cons by (metis list.distinct(1) list.set_intros(2))
    obtain m where m: "parseValue m (jsonPrint x @ CHR '','' # ?rest) = Some (x, CHR '','' # ?rest)"
      using Cons.prems(2) [of x "CHR '','' # ?rest"] by auto
    have "parseElems (Suc (max m n)) (jsonPrint x @ CHR '','' # ?rest) = Some (x # xs, r)"
      using parseValue_mono [OF max.cobounded1 m, of n] parseElems_mono [OF max.cobounded2 n, of m]
      by (simp add: moreOf_def skipWs_Cons isSpaceJ_def)
    moreover have "joinWith '','' (map jsonPrint (x # xs)) @ CHR '']'' # r = jsonPrint x @ CHR '','' # ?rest"
      using Cons by simp
    ultimately show ?thesis by metis
  qed
qed

lemma keyOf_quote: "keyOf (jsonQuote k @ CHR '':'' # s) = Some (k, s)"
  by (simp add: keyOf_def jsonQuote_def skipWs_Cons isSpaceJ_def parseStr_quote)

lemma parseMembers_print:
  assumes "kvs \<noteq> []"
    and "\<And>kv r. kv \<in> set kvs \<Longrightarrow> numStop r \<Longrightarrow> \<exists>n. parseValue n (jsonPrint (snd kv) @ r) = Some (snd kv, r)"
  shows "\<exists>n. parseMembers n (joinWith '','' (map (\<lambda>kv. jsonQuote (fst kv) @ '':'' @ jsonPrint (snd kv)) kvs)
    @ CHR ''}'' # r) = Some (kvs, r)"
  using assms
proof (induction kvs)
  case Nil
  then show ?case by simp
next
  case (Cons kv kvs)
  obtain k x where kv: "kv = (k, x)" by fastforce
  let ?line = "\<lambda>kv. jsonQuote (fst kv) @ '':'' @ jsonPrint (snd kv)"
  show ?case
  proof (cases kvs)
    case Nil
    obtain n where "parseValue n (jsonPrint x @ CHR ''}'' # r) = Some (x, CHR ''}'' # r)"
      using Cons.prems(2) [of kv "CHR ''}'' # r"] kv by auto
    then have "parseMembers (Suc n) (?line kv @ CHR ''}'' # r) = Some ([kv], r)"
      using kv by (simp add: keyOf_quote moreOf_def skipWs_Cons isSpaceJ_def)
    with Nil show ?thesis by (intro exI [of _ "Suc n"]) simp
  next
    case (Cons y ys)
    let ?rest = "joinWith '','' (map ?line kvs) @ CHR ''}'' # r"
    obtain n where n: "parseMembers n ?rest = Some (kvs, r)"
      using Cons.IH Cons.prems(2) Cons by (metis list.distinct(1) list.set_intros(2))
    obtain m where m: "parseValue m (jsonPrint x @ CHR '','' # ?rest) = Some (x, CHR '','' # ?rest)"
      using Cons.prems(2) [of kv "CHR '','' # ?rest"] kv by auto
    have "parseMembers (Suc (max m n)) (?line kv @ CHR '','' # ?rest) = Some (kv # kvs, r)"
      using parseValue_mono [OF max.cobounded1 m, of n] parseMembers_mono [OF max.cobounded2 n, of m] kv
      by (simp add: keyOf_quote moreOf_def skipWs_Cons isSpaceJ_def)
    moreover have "joinWith '','' (map ?line (kv # kvs)) @ CHR ''}'' # r = ?line kv @ CHR '','' # ?rest"
      using Cons by simp
    ultimately show ?thesis by (intro exI [of _ "Suc (max m n)"]) (simp only:)
  qed
qed

lemma startsValue_join:
  "xs \<noteq> [] \<Longrightarrow> (\<And>x r. x \<in> set xs \<Longrightarrow> startsValue (f x @ r)) \<Longrightarrow> startsValue (joinWith sep (map f xs) @ r)"
  by (cases xs; cases "tl xs") auto

lemma parse_print:
  "wfRaw v \<Longrightarrow> numStop r \<Longrightarrow> \<exists>n. parseValue n (jsonPrint v @ r) = Some (v, r)"
proof (induction v arbitrary: r)
  case (JNum t)
  then have "parseValue (Suc 0) (jsonPrint (JNum t) @ r) = Some (JNum t, r)"
    by (simp add: parseValue_num del: parseValue.simps)
  then show ?case by blast
next
  case (JStr s)
  have "parseValue (Suc 0) (jsonPrint (JStr s) @ r) = Some (JStr s, r)"
    by (simp add: valueStep_def jsonQuote_def skipWs_Cons isSpaceJ_def parseStr_quote)
  then show ?case by blast
next
  case (JArr xs)
  show ?case
  proof (cases "xs = []")
    case True
    have "parseValue (Suc 0) (jsonPrint (JArr []) @ r) = Some (JArr [], r)"
      by (simp add: valueStep_def skipWs_Cons isSpaceJ_def)
    with True show ?thesis by blast
  next
    case False
    let ?body = "joinWith '','' (map jsonPrint xs) @ CHR '']'' # r"
    have "\<exists>n. parseElems n ?body = Some (xs, r)"
      using False JArr by (intro parseElems_print) auto
    then obtain n where n: "parseElems n ?body = Some (xs, r)" by blast
    have st: "startsValue ?body"
      using JArr.prems(1) by (intro startsValue_join False jsonPrint_starts) auto
    then have "\<not> hasPrefix ?body '']''" by (cases ?body) (auto simp: startsValue_def)
    with n st have "parseValue (Suc n) (jsonPrint (JArr xs) @ r) = Some (JArr xs, r)"
      by (simp add: valueStep_def skipWs_Cons isSpaceJ_def skipWs_starts)
    then show ?thesis by blast
  qed
next
  case (JObj kvs)
  show ?case
  proof (cases "kvs = []")
    case True
    have "parseValue (Suc 0) (jsonPrint (JObj []) @ r) = Some (JObj [], r)"
      by (simp add: valueStep_def skipWs_Cons isSpaceJ_def)
    with True show ?thesis by blast
  next
    case False
    let ?body = "joinWith '','' (map (\<lambda>kv. jsonQuote (fst kv) @ '':'' @ jsonPrint (snd kv)) kvs) @ CHR ''}'' # r"
    have "\<exists>n. parseMembers n ?body = Some (kvs, r)"
    proof (rule parseMembers_print [OF False])
      fix kv r
      assume "kv \<in> set kvs" "numStop r"
      moreover have "snd kv \<in> Basic_BNFs.snds kv" by (simp add: prod_set_defs)
      ultimately show "\<exists>n. parseValue n (jsonPrint (snd kv) @ r) = Some (snd kv, r)"
        using JObj.prems(1) by (intro JObj.IH) auto
    qed
    then obtain n where n: "parseMembers n ?body = Some (kvs, r)" by blast
    have st: "startsValue ?body"
      by (intro startsValue_join False) (auto simp: startsValue_def jsonQuote_def isSpaceJ_def)
    then have "\<not> hasPrefix ?body ''}''" by (cases ?body) (auto simp: startsValue_def)
    with n st have "parseValue (Suc n) (jsonPrint (JObj kvs) @ r) = Some (JObj kvs, r)"
      by (simp add: valueStep_def skipWs_Cons isSpaceJ_def skipWs_starts)
    then show ?thesis by blast
  qed
next
  case JNull
  have "parseValue (Suc 0) (jsonPrint JNull @ r) = Some (JNull, r)"
    by (simp add: valueStep_def scanLit_def skipWs_Cons isSpaceJ_def)
  then show ?case by blast
next
  case (JBool b)
  have "parseValue (Suc 0) (jsonPrint (JBool b) @ r) = Some (JBool b, r)"
    by (simp add: valueStep_def scanLit_def skipWs_Cons isSpaceJ_def)
  then show ?case by blast
qed

text \<open>A printed document, with white space after it, parses back.\<close>

lemma jsonParse_print:
  "wfRaw v \<Longrightarrow> skipWs r = [] \<Longrightarrow> jsonParse (jsonPrint v @ r) = Some v"
proof -
  assume v: "wfRaw v" and r: "skipWs r = []"
  have "\<forall>c \<in> set r. isSpaceJ c" using r by (simp add: skipWs_def)
  moreover have "numStop (c # t)" if "isSpaceJ c" for c t
    using that unfolding isSpaceJ_def by (elim disjE) (simp_all add: numStop_def isDecDigit_iff)
  moreover have "numStop []" by (simp add: numStop_def)
  ultimately have "numStop r" by (cases r) simp_all
  then obtain n where "parseValue n (jsonPrint v @ r) = Some (v, r)" using parse_print [OF v] by blast
  then show ?thesis using r by (rule jsonParse_fuel)
qed

lemma itoaNat_decDigits: "c \<in> set (itoaNat n) \<Longrightarrow> isDecDigit c"
proof (induction n arbitrary: c rule: itoaNat.induct)
  case (1 n)
  show ?case
  proof (cases "n < 10")
    case True
    with "1.prems" show ?thesis by (simp add: itoaNat.simps [of n] isDecDigit_def digitVal_digitc)
  next
    case False
    with "1.prems" "1.IH" show ?thesis
      by (auto simp: itoaNat.simps [of n] isDecDigit_def digitVal_digitc)
  qed
qed

lemma itoaNat_nonempty [simp]: "itoaNat n \<noteq> []"
  by (subst itoaNat.simps) simp

lemma itoaNat_hd_zero: "0 < n \<Longrightarrow> hd (itoaNat n) \<noteq> CHR ''0''"
proof (induction n rule: itoaNat.induct)
  case (1 n)
  show ?case
  proof (cases "n < 10")
    case True
    with "1.prems" have "digitVal (digitc n) = Some n" "n \<noteq> 0" by (auto simp: digitVal_digitc)
    moreover have "digitVal (CHR ''0'') = Some 0" by code_simp
    ultimately show ?thesis using True by (subst itoaNat.simps) force
  next
    case False
    with "1.IH" show ?thesis by (subst itoaNat.simps) simp
  qed
qed

lemma numLit_itoaNat: "scanNum (itoaNat n) = Some (itoaNat n, [])"
proof -
  let ?s = "itoaNat n"
  obtain c t where s: "?s = c # t" by (cases ?s) auto
  then have "isDecDigit c" using itoaNat_decDigits [of c n] by simp
  then have "c \<noteq> CHR ''-''" by (auto simp: isDecDigit_iff)
  then have tp: "trimPrefix ?s ''-'' = ?s" and hp: "\<not> hasPrefix ?s ''-''" using s by (auto simp: trimPrefix_def)
  have tw: "takeWhile isDecDigit ?s = ?s" and dw: "dropWhile isDecDigit ?s = []"
    using itoaNat_decDigits by (auto simp: takeWhile_eq_all_conv)
  have "\<not> (hd ?s = CHR ''0'' \<and> length ?s > 1)"
  proof (cases "n = 0")
    case True
    then show ?thesis by (simp add: itoaNat.simps)
  next
    case False
    then show ?thesis using itoaNat_hd_zero [of n] by simp
  qed
  then show ?thesis by (simp add: scanNum_def Let_def tp hp tw dw scanFrac_def scanExp_def)
qed

lemma numLit_itoa: "numLit (itoa i)"
proof (cases "i < 0")
  case True
  let ?n = "itoaNat (nat (- i))"
  have "hasPrefix (CHR ''-'' # ?n) ''-''" "trimPrefix (CHR ''-'' # ?n) ''-'' = ?n"
    by (simp_all add: trimPrefix_def)
  moreover have "trimPrefix ?n ''-'' = ?n" "\<not> hasPrefix ?n ''-''"
    using itoaNat_decDigits [of "hd ?n" "nat (- i)"] by (cases ?n; auto simp: trimPrefix_def isDecDigit_iff)+
  ultimately show ?thesis
    using True numLit_itoaNat [of "nat (- i)"]
    by (auto simp: numLit_def itoa_def scanNum_def Let_def split: if_splits option.splits)
next
  case False
  then show ?thesis using numLit_itoaNat by (simp add: numLit_def itoa_def)
qed

end
