(* ===== verification/Feature_Graph.thy ===== *)
theory Feature_Graph
  imports Feature_Options Go_Json Dependency_Order "HOL-Library.Product_Lexorder"
begin

text \<open>
  The install order of features (\<^verbatim>\<open>feature/graph.go\<close>, \<^verbatim>\<open>feature/order.go\<close>): Kahn's algorithm on indices,
  with depth tracking, the diagnostics it builds (the deepest chain, a cycle) and the split by
  the user's override order. Definitions only; the proofs are in \<^verbatim>\<open>Feature_Order\<close>.

  \<^verbatim>\<open>sort.Slice\<close> is a sort by the key \<open>featureLess\<close> compares (stable, as it is on the short slices that
  occur; features with equal keys have the same reference and options). The recursive \<^verbatim>\<open>dfs\<close> closure
  of \<^verbatim>\<open>cyclePath\<close> is written with its call stack explicit: a frame is a node and the children its loop
  has not looked at yet.
\<close>

section \<open>Keys\<close>

definition dagWarnDepth :: nat where "dagWarnDepth = 16"
definition dagErrorDepth :: nat where "dagErrorDepth = 64"

definition WarnDeepFeatureChain :: string where
  "WarnDeepFeatureChain = ''deep_feature_chain''"

definition normalizeID :: "string \<Rightarrow> string" where
  "normalizeID ref =
     (let r = (case cutLast (CHR ''@'') ref of None \<Rightarrow> ref | Some (a, b) \<Rightarrow> a)
      in case cutLast (CHR '':'') r of
           None \<Rightarrow> r
         | Some (pre, post) \<Rightarrow>
             if \<not> containsSub pre ''://'' \<or> CHR ''/'' \<in> set post then pre else r)"

text \<open>\<^verbatim>\<open>json.Marshal\<close> of a map of options, in key order.\<close>

definition marshalOptions :: "json gomap option \<Rightarrow> string" where
  "marshalOptions opts =
     (case opts of
        None \<Rightarrow> ''null''
      | Some m \<Rightarrow> jsonMarshal (JObj (map (\<lambda>k. (k, the (map_of m k))) (sortedKeys m))))"

definition featureLess :: "resolved_feature \<Rightarrow> resolved_feature \<Rightarrow> bool" where
  "featureLess a b =
     (if rf_Ref a \<noteq> rf_Ref b then rf_Ref a < rf_Ref b
      else marshalOptions (rf_Options a) < marshalOptions (rf_Options b))"

definition featureKey :: "resolved_feature \<Rightarrow> string \<times> string" where
  "featureKey f = (rf_Ref f, marshalOptions (rf_Options f))"

lemma featureLess_key: "featureLess a b \<longleftrightarrow> featureKey a < featureKey b"
  by (auto simp: featureLess_def featureKey_def)

definition sortFeatures :: "resolved_feature list \<Rightarrow> nat list \<Rightarrow> nat list" where
  "sortFeatures fs is = sort_key (\<lambda>i. featureKey (fs ! i)) is"

section \<open>Edges\<close>

definition mergedOrEmpty :: "json gomap option \<Rightarrow> json gomap" where
  "mergedOrEmpty opts = (case opts of None \<Rightarrow> [] | Some m \<Rightarrow> m)"

definition SameOptions :: "resolved_feature \<Rightarrow> json gomap \<Rightarrow> bool" where
  "SameOptions f opts =
     (case snd (MergeOptions (rf_Metadata f) opts) of
        Inl e \<Rightarrow> False
      | Inr merged \<Rightarrow> deepEqualMaps merged (mergedOrEmpty (rf_Options f)))"

definition dependencyEntries :: "resolved_feature list \<Rightarrow> nat list \<Rightarrow> json gomap \<Rightarrow> nat list" where
  "dependencyEntries fs candidates opts =
     (let out = filter (\<lambda>j. SameOptions (fs ! j) opts) candidates
      in if out = [] then candidates else out)"

text \<open>\<^verbatim>\<open>idx[id]\<close>: the indices of the features with this id, ascending.\<close>

definition indicesOf :: "resolved_feature list \<Rightarrow> string \<Rightarrow> nat list" where
  "indicesOf fs i = filter (\<lambda>j. normalizeID (rf_Ref (fs ! j)) = i) [0..<length fs]"

text \<open>The sources of the edges into feature \<open>i\<close>, in the order the code adds them.\<close>

definition edgesInto :: "resolved_feature list \<Rightarrow> nat \<Rightarrow> nat list" where
  "edgesInto fs i =
     (let md = rf_Metadata (fs ! i) in
      concat (map (\<lambda>dep. indicesOf fs (normalizeID dep)) (fm_InstallsAfter md)) @
      concat (map (\<lambda>(dep, opts). dependencyEntries fs (indicesOf fs (normalizeID dep)) opts)
        (case fm_DependsOn md of None \<Rightarrow> [] | Some m \<Rightarrow> m)))"

definition edgeList :: "resolved_feature list \<Rightarrow> (nat \<times> nat) list" where
  "edgeList fs = concat (map (\<lambda>i. map (\<lambda>j. (j, i)) (edgesInto fs i)) [0..<length fs])"

text \<open>The closure \<^verbatim>\<open>edge\<close> applied to every edge.\<close>

fun addEdges :: "(nat \<times> nat) list \<Rightarrow> nat list list \<Rightarrow> int list \<Rightarrow> nat list list \<times> int list" where
  "addEdges [] adj deg = (adj, deg)"
| "addEdges ((from, to) # es) adj deg =
     addEdges es (adj[from := adj ! from @ [to]]) (deg[to := deg ! to + 1])"

definition buildGraph :: "resolved_feature list \<Rightarrow> nat list list \<times> int list" where
  "buildGraph fs =
     addEdges (edgeList fs) (replicate (length fs) []) (replicate (length fs) 0)"

section \<open>The deepest chain\<close>

definition predsOf :: "nat list list \<Rightarrow> nat \<Rightarrow> nat list" where
  "predsOf adj j = concat (map (\<lambda>i. map (\<lambda>_. i) (filter (\<lambda>k. k = j) (adj ! i))) [0..<length adj])"

function deepestFrom :: "nat list list \<Rightarrow> nat list \<Rightarrow> nat \<Rightarrow> nat list \<Rightarrow> nat list" where
  "deepestFrom adj depth cur path =
     (if depth ! cur > 0 then
        (case find (\<lambda>p. depth ! p = depth ! cur - 1) (predsOf adj cur) of
           None \<Rightarrow> path
         | Some prev \<Rightarrow> deepestFrom adj depth prev (prev # path))
      else path)"
  by pat_completeness auto

termination deepestFrom
  by (relation "measure (\<lambda>(adj, depth, cur, path). depth ! cur)") (auto simp: find_Some_iff)

declare deepestFrom.simps [simp del]

definition buildDeepestPath ::
    "nat \<Rightarrow> nat list \<Rightarrow> nat list list \<Rightarrow> resolved_feature list \<Rightarrow> string list" where
  "buildDeepestPath target depth adj fs =
     map (\<lambda>i. rf_Ref (fs ! i)) (deepestFrom adj depth target [target])"

section \<open>Kahn's algorithm\<close>

record kahn =
  k_ready :: "nat list"
  k_depth :: "nat list"
  k_inDegree :: "int list"
  k_out :: "nat list"
  k_maxDepth :: nat
  k_deepest :: "string list"

definition degAt :: "int list \<Rightarrow> nat \<Rightarrow> int" where
  "degAt deg j = (if j < length deg then deg ! j else 0)"

fun relaxChildren :: "nat \<Rightarrow> nat list \<Rightarrow> kahn \<Rightarrow> kahn" where
  "relaxChildren i [] st = st"
| "relaxChildren i (j # js) st =
     (let depth = k_depth st;
          v = degAt (k_inDegree st) j - 1
      in relaxChildren i js
           (st\<lparr>k_depth := (if depth ! i + 1 > depth ! j then depth[j := depth ! i + 1] else depth),
               k_inDegree := (k_inDegree st)[j := v],
               k_ready := (if v = 0 then k_ready st @ [j] else k_ready st)\<rparr>))"

text \<open>One round of the loop for the feature \<open>i\<close> taken from the front of the ready list.\<close>

definition popReady :: "resolved_feature list \<Rightarrow> nat list list \<Rightarrow> nat \<Rightarrow> nat list \<Rightarrow> kahn \<Rightarrow> kahn" where
  "popReady fs adj i rest st =
     (let st1 = st\<lparr>k_ready := rest, k_out := k_out st @ [i]\<rparr>
      in if k_depth st1 ! i > k_maxDepth st1
         then st1\<lparr>k_maxDepth := k_depth st1 ! i,
                  k_deepest := buildDeepestPath i (k_depth st1) adj fs\<rparr>
         else st1)"

definition kahnStep :: "resolved_feature list \<Rightarrow> nat list list \<Rightarrow> nat \<Rightarrow> nat list \<Rightarrow> kahn \<Rightarrow> kahn" where
  "kahnStep fs adj i rest st =
     relaxChildren i (sortFeatures fs (adj ! i)) (popReady fs adj i rest st)"

text \<open>
  The loop ends: a round takes one feature from the ready list, and a feature enters it only when
  its in-degree drops to zero.
\<close>

definition pendingWork :: "kahn \<Rightarrow> nat" where
  "pendingWork st = length (k_ready st) + nat (sum_list (map (max 0) (k_inDegree st)))"

lemma sum_list_update_int:
  "j < length xs \<Longrightarrow> sum_list (xs[j := v]) = sum_list xs - xs ! j + (v :: int)"
  by (induction xs arbitrary: j) (auto split: nat.splits)

lemma sum_list_max_nonneg: "0 \<le> sum_list (map (max (0 :: int)) xs)"
  by (induction xs) auto

lemma pendingWork_visit:
  assumes "v = degAt (k_inDegree st) j - 1"
  shows "pendingWork (st\<lparr>k_depth := d, k_inDegree := (k_inDegree st)[j := v],
      k_ready := (if v = 0 then k_ready st @ [j] else k_ready st)\<rparr>) \<le> pendingWork st"
proof (cases "j < length (k_inDegree st)")
  case True
  let ?s = "sum_list (map (max 0) (k_inDegree st))"
  let ?s' = "sum_list (map (max 0) ((k_inDegree st)[j := v]))"
  have s: "?s' = ?s - max 0 (k_inDegree st ! j) + max 0 v"
    using True sum_list_update_int [of j "map (max 0) (k_inDegree st)" "max 0 v"]
    by (simp add: map_update)
  have "0 \<le> ?s" "0 \<le> ?s'" by (rule sum_list_max_nonneg)+
  with s True assms show ?thesis by (auto simp: pendingWork_def degAt_def)
next
  case False
  with assms show ?thesis by (simp add: pendingWork_def degAt_def list_update_beyond)
qed

lemma pendingWork_relax: "pendingWork (relaxChildren i js st) \<le> pendingWork st"
proof (induction i js st rule: relaxChildren.induct)
  case (1 i st)
  then show ?case by simp
next
  case (2 i j js st)
  from order_trans [OF 2 [OF refl refl] pendingWork_visit [OF refl]] show ?case by (simp add: Let_def)
qed

lemma pendingWork_step:
  assumes "k_ready st = i # rest"
  shows "pendingWork (kahnStep fs adj i rest st) < pendingWork st"
  unfolding kahnStep_def popReady_def Let_def
  by (rule order_le_less_trans [OF pendingWork_relax]) (use assms in \<open>simp add: pendingWork_def\<close>)

function kahnLoop :: "resolved_feature list \<Rightarrow> nat list list \<Rightarrow> kahn \<Rightarrow> kahn" where
  "kahnLoop fs adj st =
     (case k_ready st of
        [] \<Rightarrow> st
      | i # rest \<Rightarrow> kahnLoop fs adj (kahnStep fs adj i rest st))"
  by pat_completeness auto

termination kahnLoop
  by (relation "measure (\<lambda>(fs, adj, st). pendingWork st)") (auto intro: pendingWork_step)

declare kahnLoop.simps [simp del]

definition kahnInit :: "resolved_feature list \<Rightarrow> int list \<Rightarrow> kahn" where
  "kahnInit fs deg =
     \<lparr>k_ready = sortFeatures fs (filter (\<lambda>i. deg ! i = 0) [0..<length deg]),
      k_depth = replicate (length fs) 0, k_inDegree = deg, k_out = [], k_maxDepth = 0,
      k_deepest = []\<rparr>"

section \<open>A cycle among the remaining features\<close>

datatype color = White | Gray | Black

type_synonym frame = "nat \<times> nat list"

definition colorAt :: "color list \<Rightarrow> nat \<Rightarrow> color" where
  "colorAt color v = (if v < length color then color ! v else Black)"

definition whites :: "color list \<Rightarrow> nat" where
  "whites color = length (filter (\<lambda>c. c = White) color)"

lemma whites_pos: "v < length color \<Longrightarrow> color ! v = White \<Longrightarrow> 0 < whites color"
  by (auto simp: whites_def filter_empty_conv in_set_conv_nth)

lemma whites_update:
  "v < length color \<Longrightarrow> c \<noteq> White \<Longrightarrow>
     whites (color[v := c]) = whites color - (if color ! v = White then 1 else 0)"
proof (induction color arbitrary: v)
  case (Cons a color)
  show ?case
  proof (cases v)
    case 0
    with Cons.prems show ?thesis by (auto simp: whites_def)
  next
    case (Suc w)
    have "color ! w = White \<Longrightarrow> 0 < whites color"
      using Cons.prems Suc whites_pos [of w color] by simp
    with Cons.IH [of w] Cons.prems Suc show ?thesis by (auto simp: whites_def)
  qed
qed simp

lemma whites_update_le: "c \<noteq> White \<Longrightarrow> whites (color[v := c]) \<le> whites color"
  using whites_update [of v color c] by (cases "v < length color") (auto simp: list_update_beyond)

lemma whites_visit: "colorAt color v = White \<Longrightarrow> whites (color[v := Gray]) < whites color"
proof -
  assume w: "colorAt color v = White"
  then have "v < length color" "color ! v = White" by (auto simp: colorAt_def split: if_splits)
  moreover from this have "0 < whites color" by (rule whites_pos)
  ultimately show ?thesis by (simp add: whites_update)
qed

text \<open>
  The search: colours, parents and the stack. The result carries the back edge it met, as
  \<^verbatim>\<open>(cycleStart, cycleEnd)\<close>.
\<close>

function dfsLoop ::
    "nat list list \<Rightarrow> color list \<Rightarrow> nat option list \<Rightarrow> frame list \<Rightarrow>
     color list \<times> nat option list \<times> (nat \<times> nat) option" where
  "dfsLoop adj color parent [] = (color, parent, None)"
| "dfsLoop adj color parent ((u, []) # stack) = dfsLoop adj (color[u := Black]) parent stack"
| "dfsLoop adj color parent ((u, v # vs) # stack) =
     (case colorAt color v of
        White \<Rightarrow> dfsLoop adj (color[v := Gray]) (parent[v := Some u]) ((v, adj ! v) # (u, vs) # stack)
      | Gray \<Rightarrow> (color, parent, Some (v, u))
      | Black \<Rightarrow> dfsLoop adj color parent ((u, vs) # stack))"
  by pat_completeness auto

termination dfsLoop
  by (relation "measures [\<lambda>(adj, color, parent, stack). whites color,
        \<lambda>(adj, color, parent, stack). sum_list (map (\<lambda>(u, vs). Suc (length vs)) stack)]")
    (auto simp: whites_visit le_imp_less_or_eq [OF whites_update_le])

text \<open>The loop over the roots: features with a positive in-degree not visited yet.\<close>

fun dfsRoots ::
    "nat list list \<Rightarrow> int list \<Rightarrow> nat list \<Rightarrow> color list \<Rightarrow> nat option list \<Rightarrow>
     color list \<times> nat option list \<times> (nat \<times> nat) option" where
  "dfsRoots adj deg [] color parent = (color, parent, None)"
| "dfsRoots adj deg (i # is) color parent =
     (if deg ! i > 0 \<and> color ! i = White then
        (case dfsLoop adj (color[i := Gray]) parent [(i, adj ! i)] of
           (color', parent', Some e) \<Rightarrow> (color', parent', Some e)
         | (color', parent', None) \<Rightarrow> dfsRoots adj deg is color' parent')
      else dfsRoots adj deg is color parent)"

text \<open>
  The loop \<^verbatim>\<open>for v := cycleEnd; v != cycleStart; v = parent[v]\<close>. \<open>None\<close> stands for a read of
  \<^verbatim>\<open>parent[-1]\<close> or a loop that does not come back to the start within \<open>fuel\<close> rounds.
\<close>

fun parentLoop :: "nat \<Rightarrow> nat option list \<Rightarrow> nat \<Rightarrow> nat \<Rightarrow> nat list \<Rightarrow> nat list option" where
  "parentLoop 0 parent start v path = (if v = start then Some path else None)"
| "parentLoop (Suc fuel) parent start v path =
     (if v = start then Some path
      else case parent ! v of
             None \<Rightarrow> None
           | Some w \<Rightarrow> parentLoop fuel parent start w (v # path))"

definition cyclePath ::
    "resolved_feature list \<Rightarrow> int list \<Rightarrow> nat list list \<Rightarrow> string list option" where
  "cyclePath fs deg adj =
     (let n = length fs in
      case dfsRoots adj deg [0..<length deg] (replicate n White) (replicate n None) of
        (color, parent, None) \<Rightarrow> Some [''<unknown cycle>'']
      | (color, parent, Some (cycleStart, cycleEnd)) \<Rightarrow>
          map_option (\<lambda>path. map (\<lambda>i. rf_Ref (fs ! i)) (path @ [cycleStart]))
            (parentLoop n parent cycleStart cycleEnd [cycleStart]))"

section \<open>The sort and the order\<close>

datatype feature_error =
    FeatureCycleError "string list"
  | FeatureDAGTooDeepError nat "string list"
  | CyclePathDiverges

definition deepChainWarning :: "nat \<Rightarrow> string list \<Rightarrow> warning" where
  "deepChainWarning d path = mkWarning WarnDeepFeatureChain
     (''feature dependency chain depth '' @ itoa (int d) @ '' exceeds soft limit '' @
      itoa (int dagWarnDepth) @ '': '' @ joinWith '' -> '' path)"

definition kahnRun :: "resolved_feature list \<Rightarrow> kahn" where
  "kahnRun fs = kahnLoop fs (fst (buildGraph fs)) (kahnInit fs (snd (buildGraph fs)))"

definition topoSort ::
    "resolved_feature list \<Rightarrow> feature_error + resolved_feature list \<times> warning list" where
  "topoSort fs =
     (if length fs \<le> 1 then Inr (fs, [])
      else let st = kahnRun fs in
        if length (k_out st) < length fs then
          (case cyclePath fs (k_inDegree st) (fst (buildGraph fs)) of
             None \<Rightarrow> Inl CyclePathDiverges
           | Some path \<Rightarrow> Inl (FeatureCycleError path))
        else if k_maxDepth st \<ge> dagErrorDepth then
          Inl (FeatureDAGTooDeepError (k_maxDepth st) (k_deepest st))
        else Inr (map ((!) fs) (k_out st),
                  if k_maxDepth st \<ge> dagWarnDepth
                  then [deepChainWarning (k_maxDepth st) (k_deepest st)] else []))"

text \<open>The two loops of \<^verbatim>\<open>splitByOverride\<close> on the indices not yet taken.\<close>

fun takeOverride ::
    "resolved_feature list \<Rightarrow> string list \<Rightarrow> nat list \<Rightarrow> nat list \<times> nat list" where
  "takeOverride fs [] free = ([], free)"
| "takeOverride fs (ord # ords) free =
     (let hit = (\<lambda>i. normalizeID (rf_Ref (fs ! i)) = normalizeID ord);
          (more, left) = takeOverride fs ords (filter (\<lambda>i. \<not> hit i) free)
      in (filter hit free @ more, left))"

definition splitByOverride ::
    "resolved_feature list \<Rightarrow> string list \<Rightarrow> resolved_feature list \<times> resolved_feature list" where
  "splitByOverride fs overrideOrder =
     (if overrideOrder = [] then ([], fs)
      else let (taken, left) = takeOverride fs overrideOrder [0..<length fs]
           in (map ((!) fs) taken, map ((!) fs) left))"

definition Order ::
    "resolved_feature list \<Rightarrow> string list \<Rightarrow>
     feature_error + resolved_feature list \<times> warning list" where
  "Order fs overrideOrder =
     (if fs = [] then Inr (fs, [])
      else let (overridden, remaining) = splitByOverride fs overrideOrder
           in case topoSort remaining of
                Inl e \<Rightarrow> Inl e
              | Inr (tail, warns) \<Rightarrow> Inr (overridden @ tail, warns))"

end
