(* ===== verification/Feature_Order.thy ===== *)
theory Feature_Order
  imports Feature_Graph
begin

text \<open>
  Correctness of the feature order: an invariant of Kahn's loop, the interpretation of the shared
  contract of dependency orders, the exact conditions of the two errors and of the warning, and the
  split by the override list.
\<close>

section \<open>The graph\<close>

definition preds :: "(nat \<times> nat) list \<Rightarrow> nat \<Rightarrow> nat set" where
  "preds es x = {j. (j, x) \<in> set es}"

definition succs :: "(nat \<times> nat) list \<Rightarrow> nat \<Rightarrow> nat set" where
  "succs es x = {y. (x, y) \<in> set es}"

definition inside :: "nat \<Rightarrow> (nat \<times> nat) list \<Rightarrow> bool" where
  "inside n es \<longleftrightarrow> (\<forall>(i, j) \<in> set es. i < n \<and> j < n)"

definition outEdges :: "(nat \<times> nat) list \<Rightarrow> nat \<Rightarrow> nat list" where
  "outEdges es i = map snd (filter (\<lambda>e. fst e = i) es)"

text \<open>The number of edges into \<open>j\<close> from outside \<open>D\<close>.\<close>

definition inCount :: "(nat \<times> nat) list \<Rightarrow> nat set \<Rightarrow> nat \<Rightarrow> nat" where
  "inCount es D j = length (filter (\<lambda>e. snd e = j \<and> fst e \<notin> D) es)"

lemma indicesOf_range: "j \<in> set (indicesOf fs i) \<Longrightarrow> j < length fs"
  by (simp add: indicesOf_def)

lemma dependencyEntries_subset: "set (dependencyEntries fs cs opts) \<subseteq> set cs"
  by (auto simp: dependencyEntries_def Let_def)

lemma edgesInto_range: "j \<in> set (edgesInto fs i) \<Longrightarrow> j < length fs"
  using dependencyEntries_subset indicesOf_range
  by (fastforce simp: edgesInto_def Let_def split: option.splits)

lemma edgeList_iff: "(j, i) \<in> set (edgeList fs) \<longleftrightarrow> i < length fs \<and> j \<in> set (edgesInto fs i)"
  by (auto simp: edgeList_def)

lemma edgeList_inside: "inside (length fs) (edgeList fs)"
  by (auto simp: inside_def edgeList_iff dest: edgesInto_range)

lemma set_outEdges [simp]: "set (outEdges es i) = succs es i"
  by (force simp: outEdges_def succs_def)

lemma addEdges_spec:
  "inside n es \<Longrightarrow> length adj = n \<Longrightarrow> length deg = n \<Longrightarrow>
     addEdges es adj deg = (map (\<lambda>i. adj ! i @ outEdges es i) [0..<n],
                            map (\<lambda>j. deg ! j + int (inCount es {} j)) [0..<n])"
proof (induction es adj deg rule: addEdges.induct)
  case (1 adj deg)
  then show ?case by (auto simp: outEdges_def inCount_def intro!: nth_equalityI)
next
  case (2 src tgt es adj deg)
  then have b: "src < n" "tgt < n" "inside n es" by (auto simp: inside_def)
  from 2(1) [OF b(3)] 2(3,4) b show ?case
    by (auto simp: outEdges_def inCount_def nth_list_update intro!: nth_equalityI)
qed

lemma buildGraph_spec:
  "buildGraph fs = (map (outEdges (edgeList fs)) [0..<length fs],
                    map (\<lambda>j. int (inCount (edgeList fs) {} j)) [0..<length fs])"
  unfolding buildGraph_def
  by (subst addEdges_spec [OF edgeList_inside]) (auto intro!: map_cong)

lemma count_outEdges:
  "i \<notin> D \<Longrightarrow> inCount es D j = count_list (outEdges es i) j + inCount es (insert i D) j"
  by (induction es) (auto simp: inCount_def outEdges_def)

lemma inCount_zero: "inCount es D j = 0 \<longleftrightarrow> preds es j \<subseteq> D"
  by (auto simp: inCount_def preds_def filter_empty_conv)

section \<open>The children loop\<close>

lemma count_list_notin: "x \<notin> set xs \<Longrightarrow> count_list xs x = 0"
  by (induction xs) auto

lemma relaxChildren_spec:
  assumes "\<forall>j \<in> set js. j < length (k_inDegree st) \<and> j < length (k_depth st)" "i \<notin> set js"
    and "\<forall>j \<in> set js. int (count_list js j) \<le> k_inDegree st ! j"
  shows "\<exists>new. relaxChildren i js st = st\<lparr>
        k_depth := map (\<lambda>j. if j \<in> set js then max (k_depth st ! j) (k_depth st ! i + 1)
                            else k_depth st ! j) [0..<length (k_depth st)],
        k_inDegree := map (\<lambda>j. k_inDegree st ! j - int (count_list js j)) [0..<length (k_inDegree st)],
        k_ready := k_ready st @ new\<rparr>
      \<and> distinct new \<and> set new = {j \<in> set js. k_inDegree st ! j = int (count_list js j)}"
  using assms
proof (induction i js st rule: relaxChildren.induct)
  case (1 i st)
  have "map ((!) (k_depth st)) [0..<length (k_depth st)] = k_depth st"
    "map ((!) (k_inDegree st)) [0..<length (k_inDegree st)] = k_inDegree st" by (simp_all add: map_nth)
  then show ?case by simp
next
  case (2 i j js st)
  let ?d = "k_depth st" and ?g = "k_inDegree st"
  let ?v = "?g ! j - 1"
  have at: "degAt ?g j = ?g ! j" using 2(2) by (simp add: degAt_def)
  let ?st = "st\<lparr>k_depth := (if ?d ! i + 1 > ?d ! j then ?d[j := ?d ! i + 1] else ?d),
    k_inDegree := ?g[j := ?v], k_ready := (if ?v = 0 then k_ready st @ [j] else k_ready st)\<rparr>"
  have step: "relaxChildren i (j # js) st = relaxChildren i js ?st" by (simp add: at Let_def)
  have j: "j < length ?g" "j < length ?d" "j \<noteq> i" "int (count_list js j) + 1 \<le> ?g ! j" using 2(2-4) by auto
  have pre: "\<forall>k \<in> set js. int (count_list js k) \<le> k_inDegree ?st ! k"
    using 2(4) j by (auto simp: nth_list_update split: if_splits)
  have bounds: "\<forall>k \<in> set js. k < length (k_inDegree ?st) \<and> k < length (k_depth ?st)"
    using 2(2) by auto
  have ni: "i \<notin> set js" using 2(3) by simp
  obtain new where new: "relaxChildren i js ?st = ?st\<lparr>
        k_depth := map (\<lambda>k. if k \<in> set js then max (k_depth ?st ! k) (k_depth ?st ! i + 1)
                            else k_depth ?st ! k) [0..<length (k_depth ?st)],
        k_inDegree := map (\<lambda>k. k_inDegree ?st ! k - int (count_list js k)) [0..<length (k_inDegree ?st)],
        k_ready := k_ready ?st @ new\<rparr>"
      "distinct new" "set new = {k \<in> set js. k_inDegree ?st ! k = int (count_list js k)}"
    using 2(1) [OF refl refl, unfolded at, OF bounds ni pre] by (elim exE conjE) (rule that)
  have depth: "map (\<lambda>k. if k \<in> set js then max (k_depth ?st ! k) (k_depth ?st ! i + 1)
        else k_depth ?st ! k) [0..<length (k_depth ?st)] =
      map (\<lambda>k. if k \<in> set (j # js) then max (?d ! k) (?d ! i + 1) else ?d ! k) [0..<length ?d]"
    using j(2,3) by (auto simp: nth_list_update max_def intro!: map_cong)
  have deg: "map (\<lambda>k. k_inDegree ?st ! k - int (count_list js k)) [0..<length (k_inDegree ?st)] =
      map (\<lambda>k. ?g ! k - int (count_list (j # js) k)) [0..<length ?g]"
    using j(1) by (auto simp: nth_list_update intro!: map_cong)
  let ?new = "(if ?v = 0 then [j] else []) @ new"
  have ready: "k_ready ?st @ new = k_ready st @ ?new" by simp
  have zero: "j \<notin> set js" if "?v = 0" using j(4) that by (auto simp: count_list_0_iff)
  have g: "k_inDegree ?st ! k = (if k = j then ?v else ?g ! k)" for k
    using j(1) by (simp add: nth_list_update)
  have "k \<in> set ?new \<longleftrightarrow> k \<in> set (j # js) \<and> ?g ! k = int (count_list (j # js) k)" for k
  proof (cases "k = j")
    case True
    have "k \<in> set new \<longleftrightarrow> j \<in> set js \<and> ?v = int (count_list js j)"
      unfolding new(3) using True g by simp
    then show ?thesis using True zero count_list_notin [of j js] by (cases "j \<in> set js") auto
  next
    case False
    have "k \<in> set new \<longleftrightarrow> k \<in> set js \<and> ?g ! k = int (count_list js k)"
      unfolding new(3) using False g by simp
    then show ?thesis using False by auto
  qed
  then have "set ?new = {k \<in> set (j # js). ?g ! k = int (count_list (j # js) k)}" by blast
  moreover have "set new \<subseteq> set js" unfolding new(3) by blast
  then have "distinct ?new" using new(2) zero by auto
  ultimately show ?case
    unfolding step new(1) depth deg ready by (intro exI [of _ ?new]) simp
qed

section \<open>The invariant of the loop\<close>

text \<open>
  What the in-degrees, the output and the depths mean: the in-degree of a feature counts its edges
  from features not output yet; the features output or ready are those with in-degree zero; a
  feature comes after its dependencies; the depth of a feature is one more than that of the deepest
  dependency output so far.
\<close>

definition ordered :: "(nat \<times> nat) list \<Rightarrow> nat list \<Rightarrow> bool" where
  "ordered es out \<longleftrightarrow> (\<forall>as x bs. out = as @ x # bs \<longrightarrow> preds es x \<subseteq> set as)"

definition depthOk :: "(nat \<times> nat) list \<Rightarrow> nat \<Rightarrow> nat list \<Rightarrow> nat list \<Rightarrow> bool" where
  "depthOk es n out depth \<longleftrightarrow> length depth = n \<and>
     (\<forall>j < n. (\<forall>i \<in> set out. (i, j) \<in> set es \<longrightarrow> depth ! i + 1 \<le> depth ! j) \<and>
              (depth ! j = 0 \<or> (\<exists>i \<in> set out. (i, j) \<in> set es \<and> depth ! j = depth ! i + 1)))"

definition degOk :: "(nat \<times> nat) list \<Rightarrow> nat \<Rightarrow> kahn \<Rightarrow> bool" where
  "degOk es n st \<longleftrightarrow> length (k_inDegree st) = n \<and>
     (\<forall>j < n. k_inDegree st ! j = int (inCount es (set (k_out st)) j)) \<and>
     distinct (k_out st @ k_ready st) \<and>
     set (k_out st @ k_ready st) = {j. j < n \<and> k_inDegree st ! j = 0}"

definition kahnInv :: "(nat \<times> nat) list \<Rightarrow> nat \<Rightarrow> kahn \<Rightarrow> bool" where
  "kahnInv es n st \<longleftrightarrow> degOk es n st \<and> ordered es (k_out st) \<and> depthOk es n (k_out st) (k_depth st)"

lemma ordered_snoc: "ordered es (out @ [i]) \<longleftrightarrow> ordered es out \<and> preds es i \<subseteq> set out"
proof
  assume o: "ordered es (out @ [i])"
  then have "preds es i \<subseteq> set out" by (simp add: ordered_def)
  moreover have "preds es x \<subseteq> set as" if "out = as @ x # bs" for as x bs
    using o that unfolding ordered_def by (metis append.assoc append_Cons)
  ultimately show "ordered es out \<and> preds es i \<subseteq> set out" by (simp add: ordered_def)
next
  assume a: "ordered es out \<and> preds es i \<subseteq> set out"
  have "preds es x \<subseteq> set as" if "out @ [i] = as @ x # bs" for as x bs
    using that a by (cases bs rule: rev_cases) (auto simp: ordered_def)
  then show "ordered es (out @ [i])" by (simp add: ordered_def)
qed

lemma ordered_closed: "ordered es out \<Longrightarrow> x \<in> set out \<Longrightarrow> preds es x \<subseteq> set out"
  unfolding ordered_def by (metis Un_iff set_append split_list subsetD subsetI)

lemma degOk_zero: "degOk es n st \<Longrightarrow> j < n \<Longrightarrow> k_inDegree st ! j = 0 \<longleftrightarrow> preds es j \<subseteq> set (k_out st)"
  by (simp add: degOk_def inCount_zero)

lemma ready_fresh:
  assumes "kahnInv es n st" "k_ready st = i # rest"
  shows "i < n" "i \<notin> set (k_out st)" "preds es i \<subseteq> set (k_out st)"
    "succs es i \<inter> set (k_out st @ [i]) = {}"
proof -
  show i: "i < n" "i \<notin> set (k_out st)" using assms by (auto simp: kahnInv_def degOk_def)
  have "k_inDegree st ! i = 0" using assms by (auto simp: kahnInv_def degOk_def)
  then show p: "preds es i \<subseteq> set (k_out st)"
    using assms degOk_zero [of es n st i] i by (simp add: kahnInv_def)
  have "ordered es (k_out st @ [i])" using assms p by (simp add: kahnInv_def ordered_snoc)
  from ordered_closed [OF this] show "succs es i \<inter> set (k_out st @ [i]) = {}"
    using p i ordered_closed [of es "k_out st"] assms(1)
    by (fastforce simp: succs_def preds_def kahnInv_def)
qed

lemma count_sortFeatures: "count_list (sortFeatures fs js) j = count_list js j"
  by (simp add: sortFeatures_def count_mset [symmetric])

lemma set_sortFeatures [simp]: "set (sortFeatures fs js) = set js"
  by (simp add: sortFeatures_def)

lemma popReady_fields:
  "k_ready (popReady fs adj i rest st) = rest"
  "k_out (popReady fs adj i rest st) = k_out st @ [i]"
  "k_depth (popReady fs adj i rest st) = k_depth st"
  "k_inDegree (popReady fs adj i rest st) = k_inDegree st"
  "k_maxDepth (popReady fs adj i rest st) = max (k_maxDepth st) (k_depth st ! i)"
  "k_deepest (popReady fs adj i rest st) =
     (if k_depth st ! i > k_maxDepth st then buildDeepestPath i (k_depth st) adj fs else k_deepest st)"
  by (auto simp: popReady_def Let_def)

lemma kahnStep_run:
  assumes inv: "kahnInv es n st" and ready: "k_ready st = i # rest" and ins: "inside n es"
    and adj: "adj ! i = outEdges es i"
  shows "\<exists>new. kahnStep fs adj i rest st = (popReady fs adj i rest st)\<lparr>
        k_depth := map (\<lambda>j. if j \<in> succs es i then max (k_depth st ! j) (k_depth st ! i + 1)
                            else k_depth st ! j) [0..<n],
        k_inDegree := map (\<lambda>j. int (inCount es (set (k_out st @ [i])) j)) [0..<n],
        k_ready := rest @ new\<rparr>
      \<and> distinct new \<and> set new = {j \<in> succs es i. inCount es (set (k_out st @ [i])) j = 0}"
proof -
  note fresh = ready_fresh [OF inv ready]
  let ?js = "sortFeatures fs (outEdges es i)" and ?st = "popReady fs adj i rest st"
  have len: "length (k_inDegree st) = n" "length (k_depth st) = n"
    using inv by (simp_all add: kahnInv_def degOk_def depthOk_def)
  have deg: "k_inDegree st ! j = int (count_list ?js j) + int (inCount es (set (k_out st @ [i])) j)"
    if "j < n" for j
    using inv that count_outEdges [OF fresh(2), of es j]
    by (simp add: kahnInv_def degOk_def count_sortFeatures)
  have js: "\<forall>j \<in> set ?js. j < n" using ins by (auto simp: inside_def succs_def)
  have "\<exists>new. relaxChildren i ?js ?st = ?st\<lparr>
        k_depth := map (\<lambda>j. if j \<in> set ?js then max (k_depth ?st ! j) (k_depth ?st ! i + 1)
                            else k_depth ?st ! j) [0..<length (k_depth ?st)],
        k_inDegree := map (\<lambda>j. k_inDegree ?st ! j - int (count_list ?js j))
                        [0..<length (k_inDegree ?st)],
        k_ready := k_ready ?st @ new\<rparr>
      \<and> distinct new \<and> set new = {j \<in> set ?js. k_inDegree ?st ! j = int (count_list ?js j)}"
    using js fresh(4) deg by (intro relaxChildren_spec) (auto simp: popReady_fields len)
  moreover have "map (\<lambda>j. k_inDegree ?st ! j - int (count_list ?js j)) [0..<length (k_inDegree ?st)] =
      map (\<lambda>j. int (inCount es (set (k_out st @ [i])) j)) [0..<n]"
    using deg by (auto simp: popReady_fields len intro!: map_cong)
  moreover have "{j \<in> set ?js. k_inDegree ?st ! j = int (count_list ?js j)} =
      {j \<in> succs es i. inCount es (set (k_out st @ [i])) j = 0}"
    using deg js by (auto simp: popReady_fields)
  ultimately show ?thesis
    by (simp only: kahnStep_def adj popReady_fields len set_sortFeatures set_outEdges)
qed

lemma kahnStep_fields:
  assumes inv: "kahnInv es n st" and ready: "k_ready st = i # rest" and ins: "inside n es"
    and adj: "adj ! i = outEdges es i"
  shows "k_out (kahnStep fs adj i rest st) = k_out st @ [i]"
    and "k_maxDepth (kahnStep fs adj i rest st) = max (k_maxDepth st) (k_depth st ! i)"
    and "k_deepest (kahnStep fs adj i rest st) =
      (if k_depth st ! i > k_maxDepth st then buildDeepestPath i (k_depth st) adj fs else k_deepest st)"
    and "k \<in> set (k_out st @ [i]) \<Longrightarrow> k_depth (kahnStep fs adj i rest st) ! k = k_depth st ! k"
proof -
  obtain new where run: "kahnStep fs adj i rest st = (popReady fs adj i rest st)\<lparr>
        k_depth := map (\<lambda>j. if j \<in> succs es i then max (k_depth st ! j) (k_depth st ! i + 1)
                            else k_depth st ! j) [0..<n],
        k_inDegree := map (\<lambda>j. int (inCount es (set (k_out st @ [i])) j)) [0..<n],
        k_ready := rest @ new\<rparr>"
    using kahnStep_run [OF assms, of fs] by (elim exE conjE) (rule that)
  show "k_out (kahnStep fs adj i rest st) = k_out st @ [i]"
    "k_maxDepth (kahnStep fs adj i rest st) = max (k_maxDepth st) (k_depth st ! i)"
    "k_deepest (kahnStep fs adj i rest st) =
      (if k_depth st ! i > k_maxDepth st then buildDeepestPath i (k_depth st) adj fs else k_deepest st)"
    unfolding run by (simp_all add: popReady_fields)
  assume k: "k \<in> set (k_out st @ [i])"
  have "k \<notin> succs es i" using k ready_fresh(4) [OF inv ready] by blast
  moreover have "k < n" using k ready_fresh(1) [OF inv ready] inv by (auto simp: kahnInv_def degOk_def)
  ultimately show "k_depth (kahnStep fs adj i rest st) ! k = k_depth st ! k"
    unfolding run by simp
qed

lemma degOk_step:
  assumes inv: "degOk es n st" and ready: "k_ready st = i # rest" and ins: "inside n es"
    and st': "k_out st' = k_out st @ [i]" "k_ready st' = rest @ new"
      "k_inDegree st' = map (\<lambda>j. int (inCount es (set (k_out st @ [i])) j)) [0..<n]"
    and new: "distinct new" "set new = {j \<in> succs es i. inCount es (set (k_out st @ [i])) j = 0}"
    and fresh: "i < n" "succs es i \<inter> set (k_out st @ [i]) = {}"
  shows "degOk es n st'"
proof -
  let ?D = "set (k_out st @ [i])"
  have old: "distinct (k_out st @ i # rest)" "set (k_out st @ i # rest) = {j. j < n \<and> inCount es (set (k_out st)) j = 0}"
    using inv ready by (auto simp: degOk_def)
  have count: "inCount es (set (k_out st)) j = count_list (outEdges es i) j + inCount es ?D j" for j
    using old(1) count_outEdges [of i "set (k_out st)" es j] by simp
  have succ0: "count_list (outEdges es i) j = 0 \<longleftrightarrow> j \<notin> succs es i" for j
    by (simp add: count_list_0_iff)
  have "set (k_out st') \<union> set rest \<union> set new = {j. j < n \<and> inCount es (set (k_out st')) j = 0}"
    using old(2) count succ0 new(2) ins st'(1) by (auto simp: inside_def succs_def)
  moreover have "set new \<inter> (set (k_out st') \<union> set rest) = {}"
    using old(2) count succ0 new(2) fresh(2) st'(1) by auto
  moreover have "length (k_inDegree st') = n"
    "\<forall>j < n. k_inDegree st' ! j = int (inCount es (set (k_out st')) j)"
    unfolding st' by simp_all
  moreover have "distinct (k_out st' @ rest)" using old(1) unfolding st' by simp
  ultimately show ?thesis
    using new(1) unfolding degOk_def st'(2) by (auto simp: Un_assoc)
qed

lemma depthOk_step:
  assumes inv: "depthOk es n out depth" and fresh: "i < n" "succs es i \<inter> set (out @ [i]) = {}"
    and ord: "\<And>x. x \<in> set (out @ [i]) \<Longrightarrow> x < n"
  shows "depthOk es n (out @ [i])
    (map (\<lambda>j. if j \<in> succs es i then max (depth ! j) (depth ! i + 1) else depth ! j) [0..<n])"
proof -
  let ?d = "map (\<lambda>j. if j \<in> succs es i then max (depth ! j) (depth ! i + 1) else depth ! j) [0..<n]"
  have same: "?d ! k = depth ! k" if "k \<in> set (out @ [i])" for k
    using that fresh ord [OF that] by auto
  have "(\<forall>k \<in> set (out @ [i]). (k, j) \<in> set es \<longrightarrow> ?d ! k + 1 \<le> ?d ! j) \<and>
      (?d ! j = 0 \<or> (\<exists>k \<in> set (out @ [i]). (k, j) \<in> set es \<and> ?d ! j = ?d ! k + 1))" if j: "j < n" for j
  proof -
    have old: "\<forall>k \<in> set out. (k, j) \<in> set es \<longrightarrow> depth ! k + 1 \<le> depth ! j"
      "depth ! j = 0 \<or> (\<exists>k \<in> set out. (k, j) \<in> set es \<and> depth ! j = depth ! k + 1)"
      using inv j by (auto simp: depthOk_def)
    have dj: "?d ! j = (if (i, j) \<in> set es then max (depth ! j) (depth ! i + 1) else depth ! j)"
      using j by (simp add: succs_def)
    have "\<forall>k \<in> set (out @ [i]). (k, j) \<in> set es \<longrightarrow> depth ! k + 1 \<le> ?d ! j"
      using old(1) dj by (auto simp: le_max_iff_disj)
    moreover have "?d ! j = 0 \<or> (\<exists>k \<in> set (out @ [i]). (k, j) \<in> set es \<and> ?d ! j = depth ! k + 1)"
      using old(2) dj by (auto simp: max_def)
    ultimately show ?thesis using same by (metis (no_types, lifting))
  qed
  then show ?thesis by (simp add: depthOk_def del: set_append)
qed

lemma kahnStep_inv:
  assumes inv: "kahnInv es n st" and ready: "k_ready st = i # rest" and ins: "inside n es"
    and adj: "adj ! i = outEdges es i"
  shows "kahnInv es n (kahnStep fs adj i rest st)"
proof -
  note fresh = ready_fresh [OF inv ready]
  obtain new where run: "kahnStep fs adj i rest st = (popReady fs adj i rest st)\<lparr>
        k_depth := map (\<lambda>j. if j \<in> succs es i then max (k_depth st ! j) (k_depth st ! i + 1)
                            else k_depth st ! j) [0..<n],
        k_inDegree := map (\<lambda>j. int (inCount es (set (k_out st @ [i])) j)) [0..<n],
        k_ready := rest @ new\<rparr>"
      "distinct new" "set new = {j \<in> succs es i. inCount es (set (k_out st @ [i])) j = 0}"
    using kahnStep_run [OF assms, of fs] by (elim exE conjE) (rule that)
  have "degOk es n (kahnStep fs adj i rest st)"
  proof (rule degOk_step [OF _ ready ins _ _ _ run(2,3) fresh(1,4)])
    show "degOk es n st" using inv by (simp add: kahnInv_def)
  qed (simp_all add: run(1) popReady_fields)
  moreover have "ordered es (k_out st @ [i])" using inv fresh(3) by (simp add: kahnInv_def ordered_snoc)
  moreover have "x < n" if "x \<in> set (k_out st @ [i])" for x
    using that inv fresh(1) by (auto simp: kahnInv_def degOk_def)
  with inv fresh have "depthOk es n (k_out st @ [i])
      (map (\<lambda>j. if j \<in> succs es i then max (k_depth st ! j) (k_depth st ! i + 1)
                else k_depth st ! j) [0..<n])"
    by (intro depthOk_step) (auto simp: kahnInv_def)
  ultimately show ?thesis by (simp add: kahnInv_def run(1) popReady_fields)
qed

section \<open>The deepest chain\<close>

lemma predsOf_spec:
  assumes "inside n es"
  shows "set (predsOf (map (outEdges es) [0..<n]) j) = preds es j"
  using assms by (auto simp: predsOf_def preds_def inside_def outEdges_def image_iff)

lemma deepestFrom_walk:
  assumes "depthOk es n out depth" "ordered es out" "\<And>x. x \<in> set out \<Longrightarrow> x < n"
    and adj: "\<And>x. set (predsOf adj x) = preds es x"
    and "cur < n" "preds es cur \<subseteq> set out" "walk (succs es) (cur # rest)"
  shows "\<exists>is. deepestFrom adj depth cur (cur # rest) = is @ cur # rest
    \<and> length is = depth ! cur \<and> walk (succs es) (is @ cur # rest) \<and> set is \<subseteq> set out"
  using assms(5-7)
proof (induction "depth ! cur" arbitrary: cur rest)
  case 0
  then show ?case by (intro exI [of _ "[]"]) (simp add: deepestFrom.simps)
next
  case (Suc d)
  obtain q where "q \<in> set out" "(q, cur) \<in> set es" "depth ! cur = depth ! q + 1"
    using assms(1) Suc.prems(1) Suc.hyps(2) unfolding depthOk_def by force
  then have "find (\<lambda>p. depth ! p = depth ! cur - 1) (predsOf adj cur) \<noteq> None"
    by (auto simp: find_None_iff adj preds_def)
  then obtain p where p: "find (\<lambda>p. depth ! p = depth ! cur - 1) (predsOf adj cur) = Some p" by blast
  then have "p \<in> set (predsOf adj cur)" "depth ! p = depth ! cur - 1"
    by (auto simp: find_Some_iff)
  then have pc: "p \<in> set out" "(p, cur) \<in> set es" "d = depth ! p"
    using Suc.prems(2) Suc.hyps(2) by (auto simp: adj preds_def)
  then have "walk (succs es) (p # cur # rest)" using Suc.prems(3) by (simp add: succs_def)
  then obtain js where js: "deepestFrom adj depth p (p # cur # rest) = js @ p # cur # rest"
      "length js = depth ! p" "walk (succs es) (js @ p # cur # rest)" "set js \<subseteq> set out"
    using Suc.hyps(1) [OF pc(3), of "cur # rest"] pc ordered_closed [OF assms(2)] assms(3) by blast
  have "deepestFrom adj depth cur (cur # rest) = deepestFrom adj depth p (p # cur # rest)"
    using p Suc.hyps(2) by (simp add: deepestFrom.simps [of adj depth cur])
  with js pc Suc.hyps(2) show ?case by (intro exI [of _ "js @ [p]"]) simp
qed

text \<open>The maximal depth met so far, with a chain that attains it.\<close>

definition maxOk :: "resolved_feature list \<Rightarrow> (nat \<times> nat) list \<Rightarrow> kahn \<Rightarrow> bool" where
  "maxOk fs es st \<longleftrightarrow> (\<forall>i \<in> set (k_out st). k_depth st ! i \<le> k_maxDepth st) \<and>
     (k_maxDepth st = 0 \<or> (\<exists>is. k_deepest st = map (\<lambda>i. rf_Ref (fs ! i)) is \<and> walk (succs es) is \<and>
        length is = k_maxDepth st + 1 \<and> set is \<subseteq> set (k_out st)))"

lemma maxOk_step:
  assumes inv: "kahnInv es n st" "maxOk fs es st" and ready: "k_ready st = i # rest"
    and ins: "inside n es" and adj: "adj = map (outEdges es) [0..<n]"
  shows "maxOk fs es (kahnStep fs adj i rest st)"
proof -
  note fresh = ready_fresh [OF inv(1) ready]
  have at: "adj ! i = outEdges es i" using fresh(1) adj by simp
  note f = kahnStep_fields [OF inv(1) ready ins at, where fs = fs]
  have out: "\<forall>k \<in> set (k_out st @ [i]). k_depth (kahnStep fs adj i rest st) ! k
      \<le> k_maxDepth (kahnStep fs adj i rest st)"
    using inv(2) f(4) unfolding f(2) maxOk_def by (auto simp: le_max_iff_disj)
  have path: "k_maxDepth (kahnStep fs adj i rest st) = 0 \<or>
      (\<exists>is. k_deepest (kahnStep fs adj i rest st) = map (\<lambda>i. rf_Ref (fs ! i)) is \<and> walk (succs es) is \<and>
        length is = k_maxDepth (kahnStep fs adj i rest st) + 1 \<and> set is \<subseteq> set (k_out st @ [i]))"
  proof (cases "k_depth st ! i > k_maxDepth st")
    case True
    have "\<exists>is. deepestFrom adj (k_depth st) i [i] = is @ [i] \<and> length is = k_depth st ! i
        \<and> walk (succs es) (is @ [i]) \<and> set is \<subseteq> set (k_out st)"
      using inv(1) fresh predsOf_spec [OF ins]
      by (intro deepestFrom_walk [of es n "k_out st"]) (auto simp: kahnInv_def degOk_def adj)
    then obtain js where "deepestFrom adj (k_depth st) i [i] = js @ [i]" "length js = k_depth st ! i"
        "walk (succs es) (js @ [i])" "set js \<subseteq> set (k_out st)" by blast
    with True show ?thesis
      unfolding f by (intro disjI2 exI [of _ "js @ [i]"]) (auto simp: buildDeepestPath_def)
  next
    case False
    then have "max (k_maxDepth st) (k_depth st ! i) = k_maxDepth st" by simp
    with False inv(2) show ?thesis unfolding f maxOk_def by auto
  qed
  show ?thesis unfolding maxOk_def f(1) using out path by blast
qed

section \<open>The end of the loop\<close>

lemma kahnLoop_inv:
  assumes "kahnInv es n st" "maxOk fs es st" "inside n es" "adj = map (outEdges es) [0..<n]"
  shows "kahnInv es n (kahnLoop fs adj st) \<and> maxOk fs es (kahnLoop fs adj st)
    \<and> k_ready (kahnLoop fs adj st) = []"
  using assms
proof (induction fs adj st rule: kahnLoop.induct)
  case (1 fs adj st)
  show ?case
  proof (cases "k_ready st")
    case Nil
    then have "kahnLoop fs adj st = st" by (simp add: kahnLoop.simps [of fs adj st])
    with 1 Nil show ?thesis by metis
  next
    case (Cons i rest)
    have "adj ! i = outEdges es i"
      using ready_fresh(1) [OF "1.prems"(1) Cons] "1.prems"(4) by simp
    then have "kahnInv es n (kahnStep fs adj i rest st)" "maxOk fs es (kahnStep fs adj i rest st)"
      using kahnStep_inv [OF "1.prems"(1) Cons "1.prems"(3)]
        maxOk_step [OF "1.prems"(1,2) Cons "1.prems"(3,4)] by blast+
    from "1.IH" [OF Cons this "1.prems"(3,4)]
    show ?thesis unfolding kahnLoop.simps [of fs adj st] Cons by simp
  qed
qed

lemma kahnRun_inv:
  fixes fs
  defines "es \<equiv> edgeList fs" and "n \<equiv> length fs"
  shows "kahnInv es n (kahnRun fs)" "maxOk fs es (kahnRun fs)" "k_ready (kahnRun fs) = []"
proof -
  let ?st = "kahnInit fs (snd (buildGraph fs))"
  have g: "buildGraph fs = (map (outEdges es) [0..<n], map (\<lambda>j. int (inCount es {} j)) [0..<n])"
    unfolding es_def n_def by (rule buildGraph_spec)
  have "degOk es n ?st"
    unfolding g by (auto simp: degOk_def kahnInit_def sortFeatures_def)
  moreover have "ordered es []" "depthOk es n [] (k_depth ?st)"
    by (simp_all add: ordered_def depthOk_def kahnInit_def n_def)
  ultimately have "kahnInv es n ?st" by (simp add: kahnInv_def kahnInit_def)
  moreover have "maxOk fs es ?st" by (simp add: maxOk_def kahnInit_def)
  moreover have "inside n es" unfolding es_def n_def by (rule edgeList_inside)
  ultimately show "kahnInv es n (kahnRun fs)" "maxOk fs es (kahnRun fs)" "k_ready (kahnRun fs) = []"
    using kahnLoop_inv [of es n ?st fs] unfolding kahnRun_def g by auto
qed

lemma preds_edgeList: "preds (edgeList fs) i = (if i < length fs then set (edgesInto fs i) else {})"
  by (auto simp: preds_def edgeList_iff)

definition featureOrder :: "resolved_feature list \<Rightarrow> unit + nat list" where
  "featureOrder fs =
     (let out = k_out (kahnRun fs) in if length out < length fs then Inl () else Inr out)"

lemma kahnRun_out:
  "distinct (k_out (kahnRun fs))" "set (k_out (kahnRun fs)) \<subseteq> {..<length fs}"
  "ordered (edgeList fs) (k_out (kahnRun fs))"
  using kahnRun_inv(1) [of fs] by (auto simp: kahnInv_def degOk_def)

lemma kahnRun_full:
  "\<not> length (k_out (kahnRun fs)) < length fs \<longleftrightarrow> set (k_out (kahnRun fs)) = {..<length fs}"
proof -
  have "length (k_out (kahnRun fs)) = card (set (k_out (kahnRun fs)))"
    using kahnRun_out(1) by (simp add: distinct_card)
  with kahnRun_out(2) [of fs] show ?thesis
    by (metis card_lessThan card_subset_eq finite_lessThan leI order_refl psubset_card_mono
        psubset_eq not_less)
qed

interpretation feature_order: dependency_order featureOrder "\<lambda>_. True" "\<lambda>fs. {..<length fs}"
  "\<lambda>fs i. preds (edgeList fs) i"
proof
  fix fs xs as bs x
  show "distinct xs" if "featureOrder fs = Inr xs"
    using that kahnRun_out(1) by (auto simp: featureOrder_def Let_def split: if_splits)
  show "set xs = {..<length fs}" if "featureOrder fs = Inr xs"
    using that kahnRun_full [of fs] by (auto simp: featureOrder_def Let_def split: if_splits)
  show "preds (edgeList fs) x \<subseteq> set as" if "featureOrder fs = Inr (as @ x # bs)"
  proof -
    have "k_out (kahnRun fs) = as @ x # bs"
      using that by (auto simp: featureOrder_def Let_def split: if_splits)
    then show ?thesis using kahnRun_out(3) [of fs] by (simp add: ordered_def)
  qed
qed

section \<open>Cycles and chains\<close>

text \<open>A finite non-empty set in which everybody has a dependency has a cycle.\<close>

lemma all_depend_cyclic:
  assumes "finite R" "R \<noteq> {}" "\<And>x. x \<in> R \<Longrightarrow> \<exists>y \<in> R. (x, y) \<in> r"
  shows "\<not> acyclic (r \<inter> R \<times> R)"
proof
  assume "acyclic (r \<inter> R \<times> R)"
  then have "wf ((r \<inter> R \<times> R)\<inverse>)"
    using assms(1) by (simp add: finite_acyclic_wf_converse)
  then obtain z where "z \<in> R" "\<And>y. (y, z) \<in> (r \<inter> R \<times> R)\<inverse> \<Longrightarrow> y \<notin> R"
    using assms(2) by (metis all_not_in_conv wfE_min)
  with assms(3) show False by blast
qed

definition remaining :: "resolved_feature list \<Rightarrow> nat set" where
  "remaining fs = {i. i < length fs \<and> k_inDegree (kahnRun fs) ! i > 0}"

lemma remaining_out: "set (k_out (kahnRun fs)) = {..<length fs} - remaining fs"
  using kahnRun_inv(1,3) [of fs] by (fastforce simp: kahnInv_def degOk_def remaining_def)

lemma remaining_dep:
  assumes "i \<in> remaining fs"
  shows "\<exists>j \<in> remaining fs. j \<in> preds (edgeList fs) i"
proof -
  have "i \<notin> set (k_out (kahnRun fs))" "i < length fs"
    using assms unfolding remaining_out by (auto simp: remaining_def)
  moreover have "k_inDegree (kahnRun fs) ! i \<noteq> 0" using assms by (simp add: remaining_def)
  ultimately have "\<not> preds (edgeList fs) i \<subseteq> set (k_out (kahnRun fs))"
    using degOk_zero [of "edgeList fs" "length fs" "kahnRun fs" i] kahnRun_inv(1) [of fs]
    by (simp add: kahnInv_def)
  moreover have "preds (edgeList fs) i \<subseteq> {..<length fs}"
    using edgeList_inside [of fs] by (auto simp: preds_def inside_def)
  ultimately show ?thesis unfolding remaining_out by blast
qed

definition featureRel :: "resolved_feature list \<Rightarrow> (nat \<times> nat) set" where
  "featureRel fs = dep_rel {..<length fs} (\<lambda>i. set (edgesInto fs i))"

lemma featureRel_preds: "featureRel fs = dep_rel {..<length fs} (preds (edgeList fs))"
  by (auto simp: featureRel_def dep_rel_def preds_edgeList)

lemma remaining_cyclic:
  assumes "remaining fs \<noteq> {}"
  shows "\<not> acyclic (featureRel fs \<inter> remaining fs \<times> remaining fs)"
proof (rule all_depend_cyclic [OF _ assms])
  show "finite (remaining fs)" by (simp add: remaining_def)
  show "\<exists>y \<in> remaining fs. (x, y) \<in> featureRel fs" if "x \<in> remaining fs" for x
    using remaining_dep [OF that] that by (auto simp: featureRel_preds dep_rel_def remaining_def)
qed

lemma kahnRun_acyclic: "\<not> length (k_out (kahnRun fs)) < length fs \<longleftrightarrow> acyclic (featureRel fs)"
proof
  assume "\<not> length (k_out (kahnRun fs)) < length fs"
  then have "featureOrder fs = Inr (k_out (kahnRun fs))" by (simp add: featureOrder_def)
  then show "acyclic (featureRel fs)"
    unfolding featureRel_preds by (rule feature_order.success_acyclic [OF TrueI])
next
  assume "acyclic (featureRel fs)"
  then have "remaining fs = {}"
    using remaining_cyclic [of fs] by (meson Int_lower1 acyclic_subset)
  then show "\<not> length (k_out (kahnRun fs)) < length fs"
    unfolding kahnRun_full remaining_out by simp
qed

text \<open>Chains of features, each installed before the next because the next depends on it.\<close>

definition featureChain :: "resolved_feature list \<Rightarrow> nat list \<Rightarrow> bool" where
  "featureChain fs is \<longleftrightarrow> is \<noteq> [] \<and> set is \<subseteq> {..<length fs} \<and>
     walk (\<lambda>i. {j. j < length fs \<and> i \<in> set (edgesInto fs j)}) is"

lemma succs_edgeList: "succs (edgeList fs) = (\<lambda>i. {j. j < length fs \<and> i \<in> set (edgesInto fs j)})"
  by (auto simp: succs_def edgeList_iff)

lemma featureChain_walk:
  "featureChain fs is \<longleftrightarrow> is \<noteq> [] \<and> set is \<subseteq> {..<length fs} \<and> walk (succs (edgeList fs)) is"
  by (simp add: featureChain_def succs_edgeList)

lemma walk_depth:
  "walk (succs es) (x # is) \<Longrightarrow> depthOk es n out depth \<Longrightarrow> set (x # is) \<subseteq> set out \<Longrightarrow> set out \<subseteq> {..<n} \<Longrightarrow>
     depth ! x + length is \<le> depth ! last (x # is)"
proof (induction "is" arbitrary: x)
  case Nil
  then show ?case by simp
next
  case (Cons y ys)
  then have "depth ! x + 1 \<le> depth ! y" by (auto simp: depthOk_def succs_def)
  with Cons.IH [of y] Cons.prems show ?case by simp
qed

lemma kahnRun_depth:
  assumes "acyclic (featureRel fs)"
  shows "featureChain fs is \<Longrightarrow> length is \<le> k_maxDepth (kahnRun fs) + 1"
    and "k_maxDepth (kahnRun fs) > 0 \<Longrightarrow> \<exists>is. featureChain fs is \<and> length is = k_maxDepth (kahnRun fs) + 1
      \<and> k_deepest (kahnRun fs) = map (\<lambda>i. rf_Ref (fs ! i)) is"
proof -
  let ?st = "kahnRun fs"
  have out: "set (k_out ?st) = {..<length fs}"
    using assms kahnRun_acyclic [of fs] kahnRun_full [of fs] by blast
  have d: "depthOk (edgeList fs) (length fs) (k_out ?st) (k_depth ?st)"
    using kahnRun_inv(1) [of fs] by (simp add: kahnInv_def)
  have m: "maxOk fs (edgeList fs) ?st" by (rule kahnRun_inv)
  show "length is \<le> k_maxDepth ?st + 1" if chain: "featureChain fs is"
  proof -
    obtain x xs where x: "is = x # xs" using chain by (cases "is") (auto simp: featureChain_def)
    then have "k_depth ?st ! x + length xs \<le> k_depth ?st ! last is"
      using walk_depth [OF _ d, of x xs] chain out by (auto simp: featureChain_walk)
    moreover have "last is \<in> set (k_out ?st)"
      unfolding out using chain unfolding featureChain_def by (meson last_in_set subsetD)
    then have "k_depth ?st ! last is \<le> k_maxDepth ?st" using m by (simp add: maxOk_def)
    ultimately show ?thesis using x by simp
  qed
  show "\<exists>is. featureChain fs is \<and> length is = k_maxDepth ?st + 1 \<and>
      k_deepest ?st = map (\<lambda>i. rf_Ref (fs ! i)) is" if pos: "k_maxDepth ?st > 0"
  proof -
    obtain js where "k_deepest ?st = map (\<lambda>i. rf_Ref (fs ! i)) js" "walk (succs (edgeList fs)) js"
        "length js = k_maxDepth ?st + 1" "set js \<subseteq> set (k_out ?st)"
      using m pos unfolding maxOk_def by auto
    with out show ?thesis by (intro exI [of _ js]) (auto simp: featureChain_walk)
  qed
qed

section \<open>The depth-first search\<close>

text \<open>
  The invariant: the grey nodes are the stack, each entered from the one below it; of the children
  of a frame those already looked at are black or on the stack above it; black nodes have black
  successors and no cycle among them.
\<close>

fun stackLinked :: "(nat \<times> nat) list \<Rightarrow> nat option list \<Rightarrow> frame list \<Rightarrow> bool" where
  "stackLinked es parent ((v, vs) # (u, us) # st) =
     (parent ! v = Some u \<and> v \<in> succs es u \<and> stackLinked es parent ((u, us) # st))"
| "stackLinked es parent _ = True"

fun framesOk :: "(nat \<times> nat) list \<Rightarrow> color list \<Rightarrow> nat set \<Rightarrow> frame list \<Rightarrow> bool" where
  "framesOk es color abv [] = True"
| "framesOk es color abv ((u, vs) # st) =
     (set vs \<subseteq> succs es u \<and> (\<forall>w \<in> succs es u. w \<in> set vs \<or> color ! w = Black \<or> w \<in> abv)
      \<and> framesOk es color (insert u abv) st)"

definition blackRel :: "(nat \<times> nat) list \<Rightarrow> color list \<Rightarrow> (nat \<times> nat) set" where
  "blackRel es color = {(x, y). x < length color \<and> color ! x = Black \<and> y \<in> succs es x}"

definition dfsInv :: "nat \<Rightarrow> (nat \<times> nat) list \<Rightarrow> color list \<Rightarrow> nat option list \<Rightarrow> frame list \<Rightarrow> bool" where
  "dfsInv n es color parent stack \<longleftrightarrow> length color = n \<and> length parent = n \<and>
     distinct (map fst stack) \<and>
     (\<forall>x < n. color ! x = Gray \<longleftrightarrow> x \<in> fst ` set stack) \<and> fst ` set stack \<subseteq> {..<n} \<and>
     stackLinked es parent stack \<and> framesOk es color {} stack \<and>
     (\<forall>(x, y) \<in> blackRel es color. color ! y = Black) \<and> acyclic (blackRel es color)"

lemma framesOk_mono:
  "framesOk es color abv st \<Longrightarrow> abv \<subseteq> abv' \<union> {x. color' ! x = Black} \<Longrightarrow>
     (\<And>x. color ! x = Black \<Longrightarrow> color' ! x = Black) \<Longrightarrow> framesOk es color' abv' st"
proof (induction es color abv st arbitrary: abv' rule: framesOk.induct)
  case (1 es color abv)
  then show ?case by simp
next
  case (2 es color abv u vs st)
  have "framesOk es color' (insert u abv') st"
    using 2 by (intro "2.IH") auto
  with 2 show ?case by (auto 4 4)
qed

lemma stackLinked_update:
  "v \<notin> fst ` set st \<Longrightarrow> stackLinked es (parent[v := p]) st = stackLinked es parent st"
  by (induction es parent st rule: stackLinked.induct) auto

lemma stackLinked_tl: "stackLinked es parent (f # st) \<Longrightarrow> stackLinked es parent st"
  by (cases st; cases f) auto

lemma stackLinked_top: "stackLinked es parent ((u, vs) # st) = stackLinked es parent ((u, us) # st)"
  by (cases st) auto

lemma acyclic_insert_source:
  assumes "acyclic r" "u \<notin> Field r" "u \<notin> S"
  shows "acyclic (r \<union> {u} \<times> S)"
proof -
  have no_in: "(x, u) \<notin> r \<union> {u} \<times> S" for x using assms by (auto simp: Field_def)
  have "(x, y) \<in> (r \<union> {u} \<times> S)\<^sup>+ \<Longrightarrow> (x, y) \<in> r\<^sup>+ \<or> (x = u \<and> y \<noteq> u)" for x y
  proof (induction rule: trancl_induct)
    case (base y)
    then show ?case using assms by auto
  next
    case (step y z)
    have "z \<noteq> u" using step.hyps(2) no_in by blast
    moreover have "(x, z) \<in> r\<^sup>+" if "(x, y) \<in> r\<^sup>+"
    proof -
      have "y \<noteq> u" using that assms(2) by (metis FieldI2 trancl.cases)
      then have "(y, z) \<in> r" using step.hyps(2) by blast
      with that show ?thesis by (rule trancl_into_trancl)
    qed
    ultimately show ?case using step.IH by blast
  qed
  with assms(1) show ?thesis unfolding acyclic_def by blast
qed

lemma dfsInv_pop:
  assumes "dfsInv n es color parent ((u, []) # stack)" "inside n es"
  shows "dfsInv n es (color[u := Black]) parent stack"
proof -
  let ?c = "color[u := Black]"
  have u: "u < n" "color ! u = Gray" "u \<notin> fst ` set stack" "length color = n"
    using assms(1) by (auto simp: dfsInv_def)
  have blackS: "color ! w = Black" if "w \<in> succs es u" for w
    using assms(1) that by (auto simp: dfsInv_def)
  have self: "u \<notin> succs es u" using blackS u(2) by force
  have rel: "blackRel es ?c = blackRel es color \<union> {u} \<times> succs es u"
    using u by (auto simp: blackRel_def nth_list_update split: if_splits)
  have field: "u \<notin> Field (blackRel es color)"
  proof
    assume "u \<in> Field (blackRel es color)"
    then obtain z where "(u, z) \<in> blackRel es color \<or> (z, u) \<in> blackRel es color"
      by (auto simp: Field_def)
    then have "color ! u = Black" using assms(1) by (auto simp: dfsInv_def blackRel_def)
    with u(2) show False by simp
  qed
  have "acyclic (blackRel es ?c)"
    unfolding rel using assms(1) field self by (intro acyclic_insert_source) (auto simp: dfsInv_def)
  moreover have "\<forall>(x, y) \<in> blackRel es ?c. ?c ! y = Black"
  proof -
    have "\<forall>(x, y) \<in> blackRel es color. color ! y = Black" using assms(1) by (simp add: dfsInv_def)
    moreover have "?c ! x = Black" if "color ! x = Black" for x
      using that u by (simp add: nth_list_update)
    ultimately show ?thesis unfolding rel using blackS by blast
  qed
  moreover have "framesOk es ?c {} stack"
  proof (rule framesOk_mono [of es color "{u}"])
    show "framesOk es color {u} stack" using assms(1) by (simp add: dfsInv_def)
  qed (use u in \<open>simp_all add: nth_list_update\<close>)
  moreover have "stackLinked es parent stack"
    using assms(1) stackLinked_tl by (auto simp: dfsInv_def)
  ultimately show ?thesis using assms(1) u by (auto simp: dfsInv_def nth_list_update)
qed

lemma dfsInv_skip:
  assumes "dfsInv n es color parent ((u, v # vs) # stack)" "color ! v = Black"
  shows "dfsInv n es color parent ((u, vs) # stack)"
  using assms stackLinked_top [of es parent u "v # vs" stack vs] by (auto simp: dfsInv_def)

lemma dfsInv_push:
  assumes "dfsInv n es color parent ((u, v # vs) # stack)" "color ! v = White" "v < n"
  shows "dfsInv n es (color[v := Gray]) (parent[v := Some u]) ((v, outEdges es v) # (u, vs) # stack)"
proof -
  let ?c = "color[v := Gray]"
  have v: "length color = n" "length parent = n" "v \<in> succs es u" "v \<notin> fst ` set ((u, v # vs) # stack)"
    using assms by (auto simp: dfsInv_def)
  have rel: "blackRel es ?c = blackRel es color"
    using assms v(1) by (auto simp: blackRel_def nth_list_update split: if_splits)
  have keep: "?c ! x = Black" if "color ! x = Black" for x
    using that assms(2,3) v(1) by (auto simp: nth_list_update)
  have "stackLinked es (parent[v := Some u]) ((u, vs) # stack)"
    using assms(1) v(4) stackLinked_update [of v "(u, vs) # stack"]
      stackLinked_top [of es parent u "v # vs" stack vs] by (auto simp: dfsInv_def)
  moreover have "framesOk es ?c {v, u} stack"
    using assms(1) keep by (intro framesOk_mono [of es color "{u}" stack "{v, u}" ?c]) (auto simp: dfsInv_def)
  moreover have "\<forall>w \<in> succs es u. w \<in> set vs \<or> ?c ! w = Black \<or> w \<in> {v}"
    using assms(1) keep by (auto simp: dfsInv_def)
  moreover have "set vs \<subseteq> succs es u" using assms(1) by (auto simp: dfsInv_def)
  ultimately have "framesOk es ?c {} ((v, outEdges es v) # (u, vs) # stack)"
    "stackLinked es (parent[v := Some u]) ((v, outEdges es v) # (u, vs) # stack)"
    using v assms(3) by (auto simp: insert_commute)
  then show ?thesis
    unfolding dfsInv_def rel using assms v keep
    by (auto simp: dfsInv_def nth_list_update split: if_splits)
qed

lemma dfsInv_root:
  assumes "dfsInv n es color parent []" "color ! i = White" "i < n"
  shows "dfsInv n es (color[i := Gray]) parent [(i, outEdges es i)]"
proof -
  have rel: "blackRel es (color[i := Gray]) = blackRel es color"
    using assms by (auto simp: blackRel_def dfsInv_def nth_list_update split: if_splits)
  then show ?thesis
    using assms unfolding dfsInv_def rel by (auto simp: nth_list_update split: if_splits)
qed

text \<open>What the search returns: a finished search, or a back edge from the top of the stack.\<close>

definition dfsResult ::
    "nat \<Rightarrow> (nat \<times> nat) list \<Rightarrow> color list \<Rightarrow> color list \<times> nat option list \<times> (nat \<times> nat) option \<Rightarrow> bool" where
  "dfsResult n es color res \<longleftrightarrow>
     (case res of
        (color', parent', None) \<Rightarrow>
          dfsInv n es color' parent' [] \<and> (\<forall>x < n. color ! x \<noteq> White \<longrightarrow> color' ! x \<noteq> White)
      | (color', parent', Some (v, u)) \<Rightarrow>
          (\<exists>vs st. dfsInv n es color' parent' ((u, v # vs) # st) \<and> v \<in> insert u (fst ` set st)))"

lemma dfsResult_weaken:
  assumes "dfsResult n es color' res" "\<And>x. x < n \<Longrightarrow> color ! x \<noteq> White \<Longrightarrow> color' ! x \<noteq> White"
  shows "dfsResult n es color res"
  using assms by (auto simp: dfsResult_def split: prod.splits option.splits)

lemma nonwhite_update: "c \<noteq> White \<Longrightarrow> color ! x \<noteq> White \<Longrightarrow> color[v := c] ! x \<noteq> White"
  by (cases "x = v"; cases "v < length color") (auto simp: list_update_beyond)

lemma dfsLoop_result:
  assumes "dfsInv n es color parent stack" "inside n es" "adj = map (outEdges es) [0..<n]"
  shows "dfsResult n es color (dfsLoop adj color parent stack)"
  using assms
proof (induction adj color parent stack rule: dfsLoop.induct)
  case (1 adj color parent)
  then show ?case by (simp add: dfsResult_def)
next
  case (2 adj color parent u stack)
  have "dfsInv n es (color[u := Black]) parent stack" using "2.prems" by (intro dfsInv_pop)
  from "2.IH" [OF this "2.prems"(2,3)] show ?case
    by (auto intro: dfsResult_weaken simp: nonwhite_update)
next
  case (3 adj color parent u v vs stack)
  have v: "v < n" using "3.prems" by (auto simp: dfsInv_def inside_def succs_def)
  have at: "colorAt color v = color ! v" "adj ! v = outEdges es v"
    using "3.prems" v by (auto simp: colorAt_def dfsInv_def)
  show ?case
  proof (cases "color ! v")
    case White
    have "dfsInv n es (color[v := Gray]) (parent[v := Some u]) ((v, adj ! v) # (u, vs) # stack)"
      unfolding at(2) using "3.prems"(1) White v by (rule dfsInv_push)
    from "3.IH"(1) [OF White [folded at(1)] this "3.prems"(2,3)] White show ?thesis
      by (auto simp: at(1) nonwhite_update intro: dfsResult_weaken)
  next
    case Gray
    have "v \<in> insert u (fst ` set stack)" using "3.prems"(1) Gray v by (auto simp: dfsInv_def)
    with Gray "3.prems"(1) show ?thesis by (auto simp: at(1) dfsResult_def)
  next
    case Black
    have "dfsInv n es color parent ((u, vs) # stack)" using "3.prems"(1) Black by (rule dfsInv_skip)
    from "3.IH"(2) [OF Black [folded at(1)] this "3.prems"(2,3)] Black show ?thesis by (simp add: at(1))
  qed
qed

lemma dfsRoots_result:
  assumes "dfsInv n es color parent []" "inside n es" "adj = map (outEdges es) [0..<n]"
    and "\<And>i. i \<in> set is \<Longrightarrow> i < n"
  shows "dfsResult n es color (dfsRoots adj deg is color parent)
    \<and> (\<forall>color' parent'. dfsRoots adj deg is color parent = (color', parent', None) \<longrightarrow>
         (\<forall>i \<in> set is. deg ! i > 0 \<longrightarrow> color' ! i \<noteq> White))"
  using assms
proof (induction adj deg "is" color parent rule: dfsRoots.induct)
  case (1 adj deg color parent)
  then show ?case by (simp add: dfsResult_def)
next
  case (2 adj deg i "is" color parent)
  have i: "i < n" "\<And>k. k \<in> set is \<Longrightarrow> k < n" using "2.prems"(4) by auto
  show ?case
  proof (cases "deg ! i > 0 \<and> color ! i = White")
    case False
    from "2.IH"(2) [OF False "2.prems"(1-3) i(2)]
    have ih: "dfsResult n es color (dfsRoots adj deg is color parent)"
      "\<And>color' parent' k. dfsRoots adj deg is color parent = (color', parent', None) \<Longrightarrow> k \<in> set is \<Longrightarrow>
         deg ! k > 0 \<Longrightarrow> color' ! k \<noteq> White" by auto
    have "dfsRoots adj deg (i # is) color parent = dfsRoots adj deg is color parent"
      using False by auto
    moreover have "color' ! i \<noteq> White" if "dfsRoots adj deg is color parent = (color', parent', None)"
        "deg ! i > 0" for color' parent'
      using that False ih(1) i(1) by (auto simp: dfsResult_def)
    ultimately show ?thesis using ih by auto
  next
    case True
    let ?c = "color[i := Gray]"
    have at: "adj ! i = outEdges es i" using i(1) "2.prems"(3) by simp
    have inv: "dfsInv n es ?c parent [(i, adj ! i)]"
      unfolding at using "2.prems"(1) True i(1) by (intro dfsInv_root) auto
    obtain c1 p1 r1 where run: "dfsLoop adj ?c parent [(i, adj ! i)] = (c1, p1, r1)"
      by (metis prod_cases3)
    have res: "dfsResult n es ?c (c1, p1, r1)"
      using dfsLoop_result [OF inv "2.prems"(2,3)] run by simp
    show ?thesis
    proof (cases r1)
      case (Some e)
      then have "dfsRoots adj deg (i # is) color parent = (c1, p1, Some e)" using True run by simp
      then show ?thesis using res Some by (cases e) (auto simp: dfsResult_def)
    next
      case None
      then have inv1: "dfsInv n es c1 p1 []" and grey: "\<And>x. x < n \<Longrightarrow> ?c ! x \<noteq> White \<Longrightarrow> c1 ! x \<noteq> White"
        using res by (auto simp: dfsResult_def)
      have eq: "dfsRoots adj deg (i # is) color parent = dfsRoots adj deg is c1 p1"
        using True run None by simp
      from "2.IH"(1) [OF True run [symmetric] refl None inv1 "2.prems"(2,3) i(2)]
      have ih: "dfsResult n es c1 (dfsRoots adj deg is c1 p1)"
        "\<And>color' parent' k. dfsRoots adj deg is c1 p1 = (color', parent', None) \<Longrightarrow> k \<in> set is \<Longrightarrow>
           deg ! k > 0 \<Longrightarrow> color' ! k \<noteq> White" by auto
      have "?c ! i \<noteq> White" using i(1) "2.prems"(1) by (simp add: dfsInv_def)
      then have c1i: "c1 ! i \<noteq> White" using grey i(1) by blast
      then have "color' ! i \<noteq> White" if "dfsRoots adj deg is c1 p1 = (color', parent', None)"
        for color' parent'
        using that ih(1) i(1) by (auto simp: dfsResult_def)
      moreover have "dfsResult n es color (dfsRoots adj deg is c1 p1)"
        using ih(1)
      proof (rule dfsResult_weaken)
        show "c1 ! x \<noteq> White" if "x < n" "color ! x \<noteq> White" for x
          using grey [OF that(1)] nonwhite_update [of Gray color x i] that(2) by simp
      qed
      ultimately show ?thesis unfolding eq using ih(2) by auto
    qed
  qed
qed

lemma parentLoop_stack:
  assumes "stackLinked es parent ((u, us) # st)" "distinct (u # map fst st)"
    and "v \<in> insert u (fst ` set st)" "length st \<le> fuel"
  shows "\<exists>cs. parentLoop fuel parent v u path = Some (cs @ path) \<and> walk (succs es) (v # cs)
    \<and> last (v # cs) = u \<and> distinct (v # cs) \<and> set cs \<subseteq> insert u (fst ` set st)"
  using assms
proof (induction st arbitrary: u us path fuel)
  case Nil
  then show ?case by (intro exI [of _ "[]"]) (cases fuel; simp)
next
  case (Cons f st)
  show ?case
  proof (cases "u = v")
    case True
    then show ?thesis by (intro exI [of _ "[]"]) (cases fuel; simp)
  next
    case False
    obtain w ws where f: "f = (w, ws)" by fastforce
    obtain k where k: "fuel = Suc k" "length st \<le> k" using Cons.prems(4) by (cases fuel) auto
    have link: "parent ! u = Some w" "u \<in> succs es w" "stackLinked es parent ((w, ws) # st)"
      using Cons.prems(1) f by auto
    obtain cs where cs: "parentLoop k parent v w (u # path) = Some (cs @ u # path)"
        "walk (succs es) (v # cs)" "last (v # cs) = w" "distinct (v # cs)"
        "set cs \<subseteq> insert w (fst ` set st)"
      using Cons.IH [OF link(3), of k "u # path"] Cons.prems(2,3) f False k(2) by auto
    have "walk (succs es) ((v # cs) @ [u])"
      using cs(2,3) link(2) by (intro walk_snoc) auto
    moreover have "u \<notin> set (v # cs)" using cs(5) Cons.prems(2) f False by auto
    ultimately show ?thesis
      using cs False k(1) link(1) f by (intro exI [of _ "cs @ [u]"]) auto
  qed
qed

section \<open>The reported cycle\<close>

lemma blackRel_converse:
  assumes "dfsInv n es color parent []" "\<And>x. x \<in> R \<Longrightarrow> x < n \<and> color ! x \<noteq> White"
  shows "acyclic ({(x, y). y \<in> succs es x} \<inter> R \<times> R)"
proof (rule acyclic_subset)
  show "acyclic (blackRel es color)" using assms(1) by (simp add: dfsInv_def)
  have "color ! x = Black" if "x \<in> R" for x
    using assms that by (cases "color ! x") (auto simp: dfsInv_def)
  then show "{(x, y). y \<in> succs es x} \<inter> R \<times> R \<subseteq> blackRel es color"
    using assms by (auto simp: blackRel_def dfsInv_def)
qed

lemma cyclePath_spec:
  assumes "remaining fs \<noteq> {}"
  shows "\<exists>c0 cs. cyclePath fs (k_inDegree (kahnRun fs)) (fst (buildGraph fs)) =
      Some (map (\<lambda>i. rf_Ref (fs ! i)) (cs @ [c0, c0]))
    \<and> closed_walk (succs (edgeList fs)) (c0 # cs @ [c0]) \<and> distinct (c0 # cs)
    \<and> set (c0 # cs) \<subseteq> {..<length fs}"
proof -
  let ?es = "edgeList fs" and ?n = "length fs" and ?deg = "k_inDegree (kahnRun fs)"
  let ?adj = "map (outEdges ?es) [0..<?n]"
  let ?run = "dfsRoots ?adj ?deg [0..<?n] (replicate ?n White) (replicate ?n None)"
  have adj: "fst (buildGraph fs) = ?adj" by (simp add: buildGraph_spec)
  have len: "length ?deg = ?n" using kahnRun_inv(1) [of fs] by (simp add: kahnInv_def degOk_def)
  have "blackRel ?es (replicate ?n White) = {}" by (auto simp: blackRel_def)
  then have init: "dfsInv ?n ?es (replicate ?n White) (replicate ?n None) []"
    by (auto simp: dfsInv_def acyclic_def)
  have res: "dfsResult ?n ?es (replicate ?n White) ?run"
    "\<And>color' parent' i. ?run = (color', parent', None) \<Longrightarrow> i \<in> remaining fs \<Longrightarrow> color' ! i \<noteq> White"
    using dfsRoots_result [OF init edgeList_inside refl, of "[0..<?n]" ?deg] by (auto simp: remaining_def)
  obtain color parent r where run: "?run = (color, parent, r)" by (metis prod_cases3)
  have "r \<noteq> None"
  proof
    assume "r = None"
    then have inv: "dfsInv ?n ?es color parent []" and seen: "\<And>i. i \<in> remaining fs \<Longrightarrow> color ! i \<noteq> White"
      using res run by (auto simp: dfsResult_def)
    have "acyclic ({(x, y). y \<in> succs ?es x} \<inter> remaining fs \<times> remaining fs)"
      using inv by (rule blackRel_converse) (auto simp: seen remaining_def)
    then have "acyclic (({(x, y). y \<in> succs ?es x} \<inter> remaining fs \<times> remaining fs)\<inverse>)"
      by simp
    moreover have "featureRel fs \<inter> remaining fs \<times> remaining fs \<subseteq>
        ({(x, y). y \<in> succs ?es x} \<inter> remaining fs \<times> remaining fs)\<inverse>"
      by (auto simp: featureRel_preds dep_rel_def preds_def succs_def)
    ultimately show False using remaining_cyclic [OF assms] acyclic_subset by blast
  qed
  then obtain v u where r: "r = Some (v, u)" by auto
  then obtain vs st where inv: "dfsInv ?n ?es color parent ((u, v # vs) # st)"
      and v: "v \<in> insert u (fst ` set st)"
    using res(1) run by (auto simp: dfsResult_def)
  have "distinct (u # map fst st)" "set (u # map fst st) \<subseteq> {..<?n}"
    using inv by (auto simp: dfsInv_def)
  then have "length (u # map fst st) \<le> card {..<?n}"
    by (metis card_mono distinct_card finite_lessThan)
  then have "length st \<le> ?n" by simp
  then obtain cs where cs: "parentLoop ?n parent v u [v] = Some (cs @ [v])" "walk (succs ?es) (v # cs)"
      "last (v # cs) = u" "distinct (v # cs)" "set cs \<subseteq> insert u (fst ` set st)"
    using parentLoop_stack [of ?es parent u "v # vs" st v ?n "[v]"] inv v by (auto simp: dfsInv_def)
  have "v \<in> succs ?es u" using inv by (simp add: dfsInv_def)
  then have "walk (succs ?es) ((v # cs) @ [v])" using cs(2,3) by (intro walk_snoc) auto
  then have "closed_walk (succs ?es) (v # cs @ [v])" by (simp add: closed_walk_def)
  moreover have "cyclePath fs ?deg ?adj = Some (map (\<lambda>i. rf_Ref (fs ! i)) (cs @ [v, v]))"
    unfolding cyclePath_def len Let_def run r using cs(1) by simp
  moreover have "insert u (fst ` set st) \<subseteq> {..<?n}" using inv by (simp add: dfsInv_def)
  with cs(5) v have "set (v # cs) \<subseteq> {..<?n}" by auto
  ultimately show ?thesis unfolding adj using cs(4) by blast
qed

section \<open>Properties\<close>

lemma topoSort_sorted:
  assumes "topoSort fs = Inr (out, ws)" "length fs \<noteq> 1"
  shows "mset out = mset fs \<and>
    (\<exists>ord. out = map ((!) fs) ord \<and> distinct ord \<and> set ord = {..<length fs} \<and>
       (\<forall>as x bs. ord = as @ x # bs \<longrightarrow> set (edgesInto fs x) \<subseteq> set as))"
proof (cases "fs = []")
  case True
  with assms show ?thesis by (simp add: topoSort_def)
next
  case False
  then have "\<not> length fs \<le> 1" using assms(2) by (cases fs) auto
  with assms(1) have full: "\<not> length (k_out (kahnRun fs)) < length fs"
    and out: "out = map ((!) fs) (k_out (kahnRun fs))"
    by (auto simp: topoSort_def Let_def split: if_splits option.splits)
  let ?ord = "k_out (kahnRun fs)"
  have ord: "featureOrder fs = Inr ?ord" using full by (simp add: featureOrder_def)
  have dist: "distinct ?ord" "set ?ord = {..<length fs}"
    using feature_order.distinct_out [OF TrueI ord] feature_order.covers [OF TrueI ord] by auto
  then have "mset ?ord = mset [0..<length fs]"
    by (metis atLeast0LessThan atLeastLessThan_upt distinct_upt set_eq_iff_mset_eq_distinct)
  then have "mset out = mset (map ((!) fs) [0..<length fs])" unfolding out by (metis mset_map)
  moreover have "set (edgesInto fs x) \<subseteq> set as" if split: "?ord = as @ x # bs" for as x bs
  proof -
    have "x < length fs" using dist(2) split by (metis in_set_conv_decomp lessThan_iff)
    then show ?thesis
      using feature_order.deps_first [OF TrueI ord [unfolded split]] by (simp add: preds_edgeList)
  qed
  ultimately show ?thesis using out dist by (intro conjI exI [of _ ?ord]) (simp_all add: map_nth)
qed

text \<open>
  C31. Whenever \<^verbatim>\<open>topoSort\<close> succeeds on two or more features, its output lists every feature exactly
  once and every feature after all entries its \<^verbatim>\<open>installsAfter\<close> and \<^verbatim>\<open>dependsOn\<close> resolve to.
\<close>

theorem topoSort_order:
  assumes "topoSort fs = Inr (out, ws)" "length fs \<noteq> 1"
  shows "mset out = mset fs \<and>
    (\<exists>ord. out = map ((!) fs) ord \<and> distinct ord \<and> set ord = {..<length fs} \<and>
       (\<forall>as x bs. ord = as @ x # bs \<longrightarrow> set (edgesInto fs x) \<subseteq> set as))"
  using topoSort_sorted [OF assms] .

text \<open>
  C32. The outcome of \<^verbatim>\<open>topoSort\<close> on two or more features is decided by the dependency relation alone.
  It reports a cycle exactly when there is one; otherwise it reports a chain that is too deep exactly
  when some chain has more than 64 features (depth 64 is already refused), with a longest chain as its
  path; otherwise it succeeds, warning exactly when some chain has more than 16 features. The search
  for a cycle always comes to an end.
\<close>

theorem topoSort_outcome:
  assumes "2 \<le> length fs"
  shows "((\<exists>p. topoSort fs = Inl (FeatureCycleError p)) \<longleftrightarrow> \<not> acyclic (featureRel fs))
    \<and> ((\<exists>d p. topoSort fs = Inl (FeatureDAGTooDeepError d p)) \<longleftrightarrow>
         acyclic (featureRel fs) \<and> (\<exists>is. featureChain fs is \<and> length is > dagErrorDepth))
    \<and> (\<forall>d p. topoSort fs = Inl (FeatureDAGTooDeepError d p) \<longrightarrow>
         (\<exists>is. featureChain fs is \<and> length is = d + 1 \<and> p = map (\<lambda>i. rf_Ref (fs ! i)) is)
         \<and> (\<forall>is. featureChain fs is \<longrightarrow> length is \<le> d + 1))
    \<and> (\<forall>out ws. topoSort fs = Inr (out, ws) \<longrightarrow>
         (ws \<noteq> [] \<longleftrightarrow> (\<exists>is. featureChain fs is \<and> length is > dagWarnDepth)))
    \<and> topoSort fs \<noteq> Inl CyclePathDiverges"
proof (cases "acyclic (featureRel fs)")
  case False
  then have short: "length (k_out (kahnRun fs)) < length fs" using kahnRun_acyclic by blast
  have "remaining fs \<noteq> {}"
  proof
    assume "remaining fs = {}"
    then have "set (k_out (kahnRun fs)) = {..<length fs}" unfolding remaining_out by simp
    with short kahnRun_full [of fs] show False by blast
  qed
  from cyclePath_spec [OF this] obtain p where
    "cyclePath fs (k_inDegree (kahnRun fs)) (fst (buildGraph fs)) = Some p" by blast
  then have "topoSort fs = Inl (FeatureCycleError p)"
    using assms short by (simp add: topoSort_def)
  with False show ?thesis by simp
next
  case True
  let ?st = "kahnRun fs"
  have full: "\<not> length (k_out ?st) < length fs" using True kahnRun_acyclic by blast
  note depth = kahnRun_depth [OF True]
  have deep: "k_maxDepth ?st \<ge> k \<longleftrightarrow> (\<exists>is. featureChain fs is \<and> length is > k)" if "k > 0" for k
  proof
    assume "k_maxDepth ?st \<ge> k"
    with depth(2) that show "\<exists>is. featureChain fs is \<and> length is > k" by fastforce
  next
    assume "\<exists>is. featureChain fs is \<and> length is > k"
    with depth(1) show "k_maxDepth ?st \<ge> k" by fastforce
  qed
  have lim: "dagErrorDepth > 0" "dagWarnDepth > 0" by (simp_all add: dagErrorDepth_def dagWarnDepth_def)
  have eq: "topoSort fs = (if k_maxDepth ?st \<ge> dagErrorDepth
      then Inl (FeatureDAGTooDeepError (k_maxDepth ?st) (k_deepest ?st))
      else Inr (map ((!) fs) (k_out ?st), if k_maxDepth ?st \<ge> dagWarnDepth
        then [deepChainWarning (k_maxDepth ?st) (k_deepest ?st)] else []))"
    using assms full by (simp add: topoSort_def Let_def)
  show ?thesis
  proof (cases "k_maxDepth ?st \<ge> dagErrorDepth")
    case deepTrue: True
    then have pos: "k_maxDepth ?st > 0" using lim(1) by simp
    from eq deepTrue have t: "topoSort fs = Inl (FeatureDAGTooDeepError (k_maxDepth ?st) (k_deepest ?st))" by simp
    show ?thesis unfolding t using True deep [OF lim(1)] deepTrue depth(1) depth(2) [OF pos] by auto
  next
    case False
    from eq False have t: "topoSort fs = Inr (map ((!) fs) (k_out ?st), if k_maxDepth ?st \<ge> dagWarnDepth
        then [deepChainWarning (k_maxDepth ?st) (k_deepest ?st)] else [])" by simp
    show ?thesis unfolding t using True deep [OF lim(1)] deep [OF lim(2)] False by auto
  qed
qed

text \<open>
  C33. The path of a cycle error. It always comes from a genuine cycle of distinct features, but it is
  not the closed loop the error type documents: the start of the cycle is written twice at the end
  and not at the front, so for every cycle of two or more features the first and the last entry
  belong to different features.
\<close>

theorem topoSort_cycle_path:
  assumes "topoSort fs = Inl (FeatureCycleError p)"
  shows "\<exists>c0 cs. p = map (\<lambda>i. rf_Ref (fs ! i)) (cs @ [c0, c0]) \<and> distinct (c0 # cs)
    \<and> set (c0 # cs) \<subseteq> {..<length fs}
    \<and> closed_walk (\<lambda>i. {j. j < length fs \<and> i \<in> set (edgesInto fs j)}) (c0 # cs @ [c0])"
proof -
  have short: "length (k_out (kahnRun fs)) < length fs"
    and path: "cyclePath fs (k_inDegree (kahnRun fs)) (fst (buildGraph fs)) = Some p"
    using assms by (auto simp: topoSort_def Let_def split: if_splits option.splits)
  have "remaining fs \<noteq> {}"
  proof
    assume "remaining fs = {}"
    then have "set (k_out (kahnRun fs)) = {..<length fs}" unfolding remaining_out by simp
    with short kahnRun_full [of fs] show False by blast
  qed
  from cyclePath_spec [OF this] path show ?thesis unfolding succs_edgeList by auto
qed

section \<open>Demonstrations\<close>

definition demoFeature :: "string \<Rightarrow> string list \<Rightarrow> resolved_feature" where
  "demoFeature ref after = \<lparr>rf_Ref = ref, rf_ResolvedRef = [], rf_Dir = [],
     rf_Metadata = emptyMetadata\<lparr>fm_InstallsAfter := after\<rparr>, rf_Options = None,
     rf_SourceKind = ''oci'', rf_AlreadyInstalled = False\<rparr>"

definition demoFeatures :: "resolved_feature list" where
  "demoFeatures = [demoFeature ''r/c:1'' [''r/b''], demoFeature ''r/b:2'' [''r/a:9''], demoFeature ''r/a'' []]"

definition demoCycle :: "resolved_feature list" where
  "demoCycle = [demoFeature ''a'' [''b''], demoFeature ''b'' [''a'']]"

theorem topoSort_order_witness:
  "\<exists>out ws. topoSort demoFeatures = Inr (out, ws) \<and> mset out = mset demoFeatures
     \<and> map rf_Ref out = [''r/a'', ''r/b:2'', ''r/c:1'']"
proof -
  have "map_sum id (\<lambda>p. map rf_Ref (fst p)) (topoSort demoFeatures) = Inr [''r/a'', ''r/b:2'', ''r/c:1'']"
    by code_simp
  then obtain out ws where run: "topoSort demoFeatures = Inr (out, ws)"
      "map rf_Ref out = [''r/a'', ''r/b:2'', ''r/c:1'']"
    by (cases "topoSort demoFeatures") auto
  have "length demoFeatures \<noteq> 1" by (simp add: demoFeatures_def)
  from topoSort_order [OF run(1) this] have "mset out = mset demoFeatures" by (rule conjunct1)
  with run show ?thesis by (intro exI conjI)
qed

theorem topoSort_outcome_witness: "\<not> acyclic (featureRel demoCycle)"
proof -
  have "topoSort demoCycle = Inl (FeatureCycleError [''b'', ''a'', ''a''])" by code_simp
  moreover have "2 \<le> length demoCycle" by (simp add: demoCycle_def)
  from topoSort_outcome [OF this]
  have "(\<exists>p. topoSort demoCycle = Inl (FeatureCycleError p)) \<longleftrightarrow> \<not> acyclic (featureRel demoCycle)"
    by (rule conjunct1)
  ultimately show ?thesis by simp
qed

theorem topoSort_cycle_path_witness:
  "\<exists>c0 cs. [''b'', ''a'', ''a''] = map (\<lambda>i. rf_Ref (demoCycle ! i)) (cs @ [c0, c0])
    \<and> distinct (c0 # cs) \<and> set (c0 # cs) \<subseteq> {..<length demoCycle}
    \<and> closed_walk (\<lambda>i. {j. j < length demoCycle \<and> i \<in> set (edgesInto demoCycle j)}) (c0 # cs @ [c0])"
proof -
  have "topoSort demoCycle = Inl (FeatureCycleError [''b'', ''a'', ''a''])" by code_simp
  then show ?thesis by (rule topoSort_cycle_path)
qed

section \<open>Override order\<close>

lemma takeOverride_split:
  "takeOverride fs ords free = (taken, left) \<Longrightarrow>
     mset taken + mset left = mset free
     \<and> left = filter (\<lambda>i. normalizeID (rf_Ref (fs ! i)) \<notin> normalizeID ` set ords) free
     \<and> set taken = {i \<in> set free. normalizeID (rf_Ref (fs ! i)) \<in> normalizeID ` set ords}"
proof (induction fs ords free arbitrary: taken left rule: takeOverride.induct)
  case (1 fs free)
  then show ?case by auto
next
  case (2 fs ord ords free)
  let ?hit = "\<lambda>i. normalizeID (rf_Ref (fs ! i)) = normalizeID ord"
  obtain more where more: "takeOverride fs ords (filter (\<lambda>i. \<not> ?hit i) free) = (more, left)"
      "taken = filter ?hit free @ more"
    using "2.prems" by (auto simp: Let_def split: prod.splits)
  note ih = "2.IH" [OF refl more(1)]
  have "mset (filter ?hit free) + mset (filter (\<lambda>i. \<not> ?hit i) free) = mset free"
    by (simp add: multiset_partition [symmetric])
  moreover have "mset more + mset left = mset (filter (\<lambda>i. \<not> ?hit i) free)" using ih by blast
  ultimately have "mset taken + mset left = mset free"
    unfolding more(2) mset_append by (metis add.assoc)
  moreover have "left = filter (\<lambda>i. normalizeID (rf_Ref (fs ! i)) \<notin> normalizeID ` set (ord # ords)) free"
    using ih by (auto intro!: filter_cong)
  ultimately show ?case using ih more(2) by auto
qed

text \<open>The position of an id in the override list, the length of the list for the others.\<close>

definition overrideRank :: "string list \<Rightarrow> string \<Rightarrow> nat" where
  "overrideRank ords ref = length (takeWhile (\<lambda>o'. normalizeID o' \<noteq> normalizeID ref) ords)"

lemma takeOverride_sorted:
  "takeOverride fs ords free = (taken, left) \<Longrightarrow> sorted (map (\<lambda>i. overrideRank ords (rf_Ref (fs ! i))) taken)"
proof (induction fs ords free arbitrary: taken left rule: takeOverride.induct)
  case (1 fs free)
  then show ?case by simp
next
  case (2 fs ord ords free)
  let ?hit = "\<lambda>i. normalizeID (rf_Ref (fs ! i)) = normalizeID ord"
  obtain more where more: "takeOverride fs ords (filter (\<lambda>i. \<not> ?hit i) free) = (more, left)"
      "taken = filter ?hit free @ more"
    using "2.prems" by (auto simp: Let_def split: prod.splits)
  have sub: "\<not> ?hit i" if "i \<in> set more" for i
    using takeOverride_split [OF more(1)] that by auto
  have rank: "overrideRank (ord # ords) (rf_Ref (fs ! i)) =
      (if ?hit i then 0 else Suc (overrideRank ords (rf_Ref (fs ! i))))" for i
    by (auto simp: overrideRank_def)
  have "map (\<lambda>i. overrideRank (ord # ords) (rf_Ref (fs ! i))) more =
      map Suc (map (\<lambda>i. overrideRank ords (rf_Ref (fs ! i))) more)"
    using sub by (simp add: rank)
  moreover have "sorted (map Suc (map (\<lambda>i. overrideRank ords (rf_Ref (fs ! i))) more))"
    using "2.IH" [OF refl more(1)] by (simp add: sorted_map sorted_wrt_map)
  ultimately have "sorted (map (\<lambda>i. overrideRank (ord # ords) (rf_Ref (fs ! i))) more)" by metis
  moreover have "map (\<lambda>i. overrideRank (ord # ords) (rf_Ref (fs ! i))) (filter ?hit free) =
      replicate (length (filter ?hit free)) 0"
    by (rule replicate_eqI) (auto simp: rank)
  ultimately show ?case unfolding more(2) map_append by (simp add: sorted_append)
qed

lemma splitByOverride_spec:
  assumes "splitByOverride fs ords = (over, rest)"
  shows "mset over + mset rest = mset fs
    \<and> rest = filter (\<lambda>f. normalizeID (rf_Ref f) \<notin> normalizeID ` set ords) fs
    \<and> (\<forall>f \<in> set over. normalizeID (rf_Ref f) \<in> normalizeID ` set ords)
    \<and> sorted (map (\<lambda>f. overrideRank ords (rf_Ref f)) over)"
proof (cases "ords = []")
  case True
  with assms show ?thesis by (auto simp: splitByOverride_def)
next
  case False
  obtain taken left where run: "takeOverride fs ords [0..<length fs] = (taken, left)" by fastforce
  have out: "over = map ((!) fs) taken" "rest = map ((!) fs) left"
    using assms False run by (auto simp: splitByOverride_def)
  note split = takeOverride_split [OF run]
  have "mset over + mset rest = image_mset ((!) fs) (mset taken + mset left)" by (simp add: out)
  also have "\<dots> = mset (map ((!) fs) [0..<length fs])" using split by (metis mset_map)
  finally have "mset over + mset rest = mset fs" by (simp add: map_nth)
  moreover have "rest = filter (\<lambda>f. normalizeID (rf_Ref f) \<notin> normalizeID ` set ords) (map ((!) fs) [0..<length fs])"
    unfolding filter_map comp_def out(2) using split by simp
  then have "rest = filter (\<lambda>f. normalizeID (rf_Ref f) \<notin> normalizeID ` set ords) fs"
    by (simp only: map_nth)
  moreover have "\<forall>f \<in> set over. normalizeID (rf_Ref f) \<in> normalizeID ` set ords"
    using split by (auto simp: out)
  moreover have "sorted (map (\<lambda>f. overrideRank ords (rf_Ref f)) over)"
    using takeOverride_sorted [OF run] by (simp add: out comp_def)
  ultimately show ?thesis by blast
qed

text \<open>
  C34. \<^verbatim>\<open>Order\<close> rearranges the features. The features whose id the override list names come first, in
  the order of the list; the others follow in the order \<^verbatim>\<open>topoSort\<close> gives them among themselves, and an error of \<^verbatim>\<open>topoSort\<close> on those
  others is the only way \<^verbatim>\<open>Order\<close> fails: cycles through an overridden feature are never reported.
\<close>

theorem Order_override:
  fixes fs ords
  defines "rest \<equiv> filter (\<lambda>f. normalizeID (rf_Ref f) \<notin> normalizeID ` set ords) fs"
  shows "case Order fs ords of
      Inl e \<Rightarrow> topoSort rest = Inl e
    | Inr (out, ws) \<Rightarrow>
        mset out = mset fs \<and>
        (\<exists>over tail. out = over @ tail \<and> topoSort rest = Inr (tail, ws)
           \<and> (\<forall>f \<in> set over. normalizeID (rf_Ref f) \<in> normalizeID ` set ords)
           \<and> sorted (map (\<lambda>f. overrideRank ords (rf_Ref f)) over))"
proof (cases "fs = []")
  case True
  then show ?thesis by (simp add: Order_def rest_def topoSort_def)
next
  case False
  obtain over left where split: "splitByOverride fs ords = (over, left)" by fastforce
  note spec = splitByOverride_spec [OF split, folded rest_def]
  then have left: "left = rest" by blast
  show ?thesis
  proof (cases "topoSort rest")
    case (Inl e)
    with False split left show ?thesis by (simp add: Order_def)
  next
    case (Inr r)
    obtain tail ws where r: "r = (tail, ws)" by fastforce
    have out: "Order fs ords = Inr (over @ tail, ws)" using False split left Inr r by (simp add: Order_def)
    have "mset tail = mset rest"
    proof (cases "length rest = 1")
      case True
      then show ?thesis using Inr r by (simp add: topoSort_def)
    next
      case len: False
      from topoSort_sorted [OF Inr [unfolded r] len] show ?thesis by (rule conjunct1)
    qed
    then have "mset (over @ tail) = mset fs" using spec left by simp
    with spec Inr r show ?thesis unfolding out by auto
  qed
qed

theorem Order_override_witness:
  "\<exists>out ws. Order demoFeatures [''r/c''] = Inr (out, ws) \<and> mset out = mset demoFeatures
     \<and> map rf_Ref out = [''r/c:1'', ''r/a'', ''r/b:2'']"
proof -
  have "map_sum id (\<lambda>p. map rf_Ref (fst p)) (Order demoFeatures [''r/c'']) =
      Inr [''r/c:1'', ''r/a'', ''r/b:2'']"
    by code_simp
  then obtain out ws where run: "Order demoFeatures [''r/c''] = Inr (out, ws)"
      "map rf_Ref out = [''r/c:1'', ''r/a'', ''r/b:2'']"
    by (cases "Order demoFeatures [''r/c'']") auto
  have "mset out = mset demoFeatures"
    using Order_override [where fs = demoFeatures and ords = "[''r/c'']"] unfolding run(1) by simp
  with run show ?thesis by (intro exI conjI)
qed

end
