(* ===== verification/Go_Path.thy ===== *)
theory Go_Path
  imports Prelude
begin

text \<open>
  \<^verbatim>\<open>path/filepath\<close> on Unix: \<^verbatim>\<open>Clean\<close>, \<^verbatim>\<open>Join\<close>, \<^verbatim>\<open>Dir\<close>, \<^verbatim>\<open>IsAbs\<close> and \<^verbatim>\<open>Abs\<close> with the working directory as an
  argument, and what they do to paths made of proper names.
\<close>

section \<open>Definitions\<close>

definition isAbsPath :: "string \<Rightarrow> bool" where
  "isAbsPath p \<longleftrightarrow> hasPrefix p ''/''"

text \<open>One element of the path, over the elements kept so far, the last first.\<close>

definition cleanStep :: "bool \<Rightarrow> string \<Rightarrow> string list \<Rightarrow> string list" where
  "cleanStep rooted part kept =
     (if part = [] \<or> part = ''.'' then kept
      else if part = ''..''
      then (case kept of
              [] \<Rightarrow> if rooted then [] else [''..'']
            | p # rest \<Rightarrow> if p = ''..'' then ''..'' # kept else rest)
      else part # kept)"

definition cleanParts :: "bool \<Rightarrow> string list \<Rightarrow> string list" where
  "cleanParts rooted parts = rev (fold (cleanStep rooted) parts [])"

definition pathClean :: "string \<Rightarrow> string" where
  "pathClean p =
     (let parts = cleanParts (isAbsPath p) (splitc (CHR ''/'') p) in
      if isAbsPath p then CHR ''/'' # joinWith ''/'' parts
      else if parts = [] then ''.''
      else joinWith ''/'' parts)"

definition pathJoin :: "string list \<Rightarrow> string" where
  "pathJoin elems =
     (case dropWhile (\<lambda>e. e = []) elems of
        [] \<Rightarrow> []
      | e # es \<Rightarrow> pathClean (joinWith ''/'' (e # es)))"

definition pathDir :: "string \<Rightarrow> string" where
  "pathDir p = (case cutLast (CHR ''/'') p of None \<Rightarrow> ''.'' | Some (a, b) \<Rightarrow> pathClean (a @ ''/''))"

definition pathAbs :: "string \<Rightarrow> string \<Rightarrow> string" where
  "pathAbs cwd p = (if isAbsPath p then pathClean p else pathJoin [cwd, p])"

section \<open>Proper names\<close>

definition properName :: "string \<Rightarrow> bool" where
  "properName n \<longleftrightarrow> n \<noteq> [] \<and> n \<noteq> ''.'' \<and> n \<noteq> ''..'' \<and> CHR ''/'' \<notin> set n"

definition absPath :: "string list \<Rightarrow> string" where
  "absPath parts = CHR ''/'' # joinWith ''/'' parts"

lemma cleanStep_proper: "properName n \<Longrightarrow> cleanStep rooted n kept = n # kept"
  by (simp add: cleanStep_def properName_def)

lemma fold_clean_proper:
  "list_all properName ps \<Longrightarrow> fold (cleanStep rooted) ps kept = rev ps @ kept"
  by (induction ps arbitrary: kept) (auto simp: cleanStep_proper)

lemma cleanStep_empty [simp]: "cleanStep rooted [] kept = kept"
  by (simp add: cleanStep_def)

lemma splitc_app: "splitc c (a @ c # b) = splitc c a @ splitc c b"
proof (induction a)
  case Nil
  then show ?case by simp
next
  case (Cons d a)
  obtain p ps where "splitc c a = p # ps" by (cases "splitc c a") auto
  with Cons show ?case by simp
qed

lemma splitc_parts: "list_all properName ps \<Longrightarrow> ps \<noteq> [] \<Longrightarrow> splitc (CHR ''/'') (joinWith ''/'' ps) = ps"
  by (rule splitc_join) (auto simp: list_all_iff properName_def)

text \<open>The splitting of an absolute path starts with an empty element.\<close>

lemma splitc_absPath:
  assumes "list_all properName ps"
  shows "fold (cleanStep rooted) (splitc (CHR ''/'') (absPath ps)) kept = rev ps @ kept"
proof (cases "ps = []")
  case True
  then show ?thesis by (simp add: absPath_def)
next
  case False
  then show ?thesis
    using splitc_parts [OF assms] by (simp add: absPath_def fold_clean_proper [OF assms])
qed

lemma pathClean_absPath: "list_all properName ps \<Longrightarrow> pathClean (absPath ps) = absPath ps"
  using splitc_absPath [of ps True "[]"]
  by (simp add: pathClean_def cleanParts_def isAbsPath_def absPath_def)

lemma pathAbs_absPath: "list_all properName ps \<Longrightarrow> pathAbs cwd (absPath ps) = absPath ps"
  by (simp add: pathAbs_def pathClean_absPath) (simp add: isAbsPath_def absPath_def)

text \<open>A cleaned relative path: some \<^verbatim>\<open>..\<close> and then proper names.\<close>

definition cleanForm :: "string list \<Rightarrow> bool" where
  "cleanForm ps \<longleftrightarrow> (\<exists>n qs. ps = replicate n ''..'' @ qs \<and> list_all properName qs)"

lemma cleanForm_snoc: "cleanForm ps \<Longrightarrow> properName q \<Longrightarrow> cleanForm (ps @ [q])"
proof -
  assume "cleanForm ps" "properName q"
  then obtain n qs where "ps = replicate n ''..'' @ qs" "list_all properName (qs @ [q])"
    by (auto simp: cleanForm_def)
  then show ?thesis unfolding cleanForm_def by (intro exI [of _ n] exI [of _ "qs @ [q]"]) simp
qed

lemma cleanStep_form:
  assumes "cleanForm (rev kept)" "CHR ''/'' \<notin> set part"
  shows "cleanForm (rev (cleanStep False part kept))"
proof -
  obtain n qs where k: "rev kept = replicate n ''..'' @ qs" "list_all properName qs"
    using assms(1) by (auto simp: cleanForm_def)
  consider "part = [] \<or> part = ''.''" | (up) "part = ''..''" | (name) "properName part"
    using assms(2) by (auto simp: properName_def)
  then show ?thesis
  proof cases
    case 1
    with assms(1) show ?thesis by (simp add: cleanStep_def)
  next
    case name
    with assms(1) show ?thesis by (simp add: cleanStep_proper cleanForm_snoc)
  next
    case up
    show ?thesis
    proof (cases qs rule: rev_cases)
      case Nil
      with k have r: "kept = replicate n ''..''" by (metis append_Nil2 rev_replicate rev_rev_ident)
      then have "cleanStep False ''..'' kept = replicate (Suc n) ''..''"
        by (cases n) (simp_all add: cleanStep_def)
      with up show ?thesis by (auto simp: cleanForm_def simp del: replicate_Suc intro!: exI [of _ "Suc n"] exI [of _ "[]"])
    next
      case (snoc qs' q)
      with k have kept: "kept = q # rev (replicate n ''..'' @ qs')" "properName q"
        using rev_rev_ident [of kept] by (auto simp del: rev_rev_ident)
      then have "cleanStep False ''..'' kept = rev (replicate n ''..'' @ qs')"
        by (simp add: cleanStep_def properName_def)
      with up k(2) snoc show ?thesis by (auto simp: cleanForm_def)
    qed
  qed
qed

lemma cleanParts_form: "(\<And>p. p \<in> set parts \<Longrightarrow> CHR ''/'' \<notin> set p) \<Longrightarrow> cleanForm (cleanParts False parts)"
proof -
  have "(\<And>p. p \<in> set parts \<Longrightarrow> CHR ''/'' \<notin> set p) \<Longrightarrow> cleanForm (rev kept) \<Longrightarrow>
      cleanForm (rev (fold (cleanStep False) parts kept))" for kept
    by (induction parts arbitrary: kept) (auto intro: cleanStep_form)
  moreover have "cleanForm []" by (auto simp: cleanForm_def intro!: exI [of _ 0])
  ultimately show "(\<And>p. p \<in> set parts \<Longrightarrow> CHR ''/'' \<notin> set p) \<Longrightarrow> ?thesis"
    by (simp add: cleanParts_def)
qed

text \<open>
  What passes the test of a relative path without a leading \<^verbatim>\<open>..\<close>: proper names only.
\<close>

lemma relative_proper:
  assumes "\<not> isAbsPath p" "\<not> hasPrefix (pathClean p) ''../''" "pathClean p \<noteq> ''..''"
  shows "\<exists>qs. list_all properName qs \<and> pathClean p = (if qs = [] then ''.'' else joinWith ''/'' qs)"
proof -
  let ?ps = "cleanParts False (splitc (CHR ''/'') p)"
  have c: "pathClean p = (if ?ps = [] then ''.'' else joinWith ''/'' ?ps)"
    using assms(1) by (simp add: pathClean_def)
  have "cleanForm ?ps" by (rule cleanParts_form) (rule splitc_sep_free)
  then obtain n qs where q: "?ps = replicate n ''..'' @ qs" "list_all properName qs"
    by (auto simp: cleanForm_def)
  have "n = 0"
  proof (rule ccontr)
    assume "n \<noteq> 0"
    then obtain m where "n = Suc m" by (cases n) auto
    with q have r: "?ps = ''..'' # (replicate m ''..'' @ qs)" by simp
    show False
    proof (cases "replicate m ''..'' @ qs")
      case Nil
      with r c assms(3) show False by simp
    next
      case (Cons x xs)
      with r c assms(2) show False by simp
    qed
  qed
  with q c show ?thesis by auto
qed

lemma pathJoin_proper:
  assumes "list_all properName ds" "list_all properName qs"
  shows "pathJoin [absPath ds, if qs = [] then ''.'' else joinWith ''/'' qs] = absPath (ds @ qs)"
proof -
  let ?q = "if qs = [] then ''.'' else joinWith ''/'' qs"
  have "fold (cleanStep True) (splitc (CHR ''/'') ?q) kept = rev qs @ kept" for kept
    using splitc_parts [OF assms(2)] by (simp add: fold_clean_proper [OF assms(2)]) (simp add: cleanStep_def)
  then have "fold (cleanStep True) (splitc (CHR ''/'') (absPath ds @ CHR ''/'' # ?q)) [] = rev (ds @ qs)"
    by (simp only: splitc_app fold_append comp_apply splitc_absPath [OF assms(1)]) simp
  moreover have "isAbsPath (absPath ds @ CHR ''/'' # ?q)" by (simp add: isAbsPath_def absPath_def)
  ultimately have "pathClean (absPath ds @ CHR ''/'' # ?q) = absPath (ds @ qs)"
    by (simp add: pathClean_def cleanParts_def absPath_def del: fold_append)
  moreover have "absPath ds \<noteq> []" by (simp add: absPath_def)
  ultimately show ?thesis by (simp add: pathJoin_def)
qed

lemma absPath_inj: "list_all properName ps \<Longrightarrow> list_all properName qs \<Longrightarrow> absPath ps = absPath qs \<longleftrightarrow> ps = qs"
  using splitc_absPath [of ps True "[]"] splitc_absPath [of qs True "[]"] by (metis append_Nil2 rev_rev_ident)

end
