(* ===== verification/Feature_Extract.thy ===== *)
theory Feature_Extract
  imports Go_Path
begin

text \<open>
  Unpacking a feature's tarball (\<^verbatim>\<open>feature/extract.go\<close>) over a file system with directories, files with
  inodes, and symbolic links. \<^verbatim>\<open>archive/tar\<close> is the list of entries it returns and the error it ends
  with, if any; the calls of \<^verbatim>\<open>os\<close> do what POSIX says of them and fail only for what they find in the
  file system. The gzip layer and the mode bits are left out.
\<close>

section \<open>The file system\<close>

datatype node = Directory | File nat | Link string

type_synonym fpath = "string list"

record fs =
  fs_nodes :: "(fpath \<times> node) list"
  fs_data :: "(nat \<times> string) list"
  fs_next :: nat

definition lookup :: "fs \<Rightarrow> fpath \<Rightarrow> node option" where
  "lookup s p = (if p = [] then Some Directory else map_of (fs_nodes s) p)"

definition setNode :: "fpath \<Rightarrow> node \<Rightarrow> fs \<Rightarrow> fs" where
  "setNode p n s = s\<lparr>fs_nodes := AList.update p n (fs_nodes s)\<rparr>"

definition delNode :: "fpath \<Rightarrow> fs \<Rightarrow> fs" where
  "delNode p s = s\<lparr>fs_nodes := AList.delete p (fs_nodes s)\<rparr>"

text \<open>
  The resolution of a path from a directory: the path of what it names, following symbolic links
  (the last one too, unless \<open>nofollow\<close>), with at most 40 links as on Linux. What it names need not
  exist, but the directories on the way do.
\<close>

fun walk :: "nat \<Rightarrow> fs \<Rightarrow> bool \<Rightarrow> fpath \<Rightarrow> string list \<Rightarrow> fpath option" where
  "walk links s nofollow cur [] = Some cur"
| "walk links s nofollow cur (c # rest) =
     (if c = [] \<or> c = ''.'' then walk links s nofollow cur rest
      else if c = ''..'' then walk links s nofollow (butlast cur) rest
      else case lookup s (cur @ [c]) of
        None \<Rightarrow> if rest = [] then Some (cur @ [c]) else None
      | Some Directory \<Rightarrow> walk links s nofollow (cur @ [c]) rest
      | Some (File i) \<Rightarrow> if rest = [] then Some (cur @ [c]) else None
      | Some (Link t) \<Rightarrow>
          if rest = [] \<and> nofollow then Some (cur @ [c])
          else (case links of
                  0 \<Rightarrow> None
                | Suc n \<Rightarrow> walk n s nofollow (if isAbsPath t then [] else cur) (splitc (CHR ''/'') t @ rest)))"

definition maxLinks :: nat where "maxLinks = 40"

definition resolvePath :: "fs \<Rightarrow> bool \<Rightarrow> string list \<Rightarrow> fpath option" where
  "resolvePath s nofollow parts = walk maxLinks s nofollow [] parts"

definition statNode :: "fs \<Rightarrow> string list \<Rightarrow> node option" where
  "statNode s parts = (case resolvePath s False parts of None \<Rightarrow> None | Some p \<Rightarrow> lookup s p)"

definition lstatNode :: "fs \<Rightarrow> string list \<Rightarrow> node option" where
  "lstatNode s parts = (case resolvePath s True parts of None \<Rightarrow> None | Some p \<Rightarrow> lookup s p)"

text \<open>\<^verbatim>\<open>mkdir\<close>, \<^verbatim>\<open>symlink\<close>: the name must be free.\<close>

definition createNode :: "node \<Rightarrow> fs \<Rightarrow> string list \<Rightarrow> fs option" where
  "createNode n s parts =
     (case resolvePath s True parts of
        None \<Rightarrow> None
      | Some p \<Rightarrow> if lookup s p = None then Some (setNode p n s) else None)"

text \<open>\<^verbatim>\<open>os.MkdirAll\<close>, over the elements of a cleaned path, the last first.\<close>

fun mkdirAllRev :: "fs \<Rightarrow> string list \<Rightarrow> fs option" where
  "mkdirAllRev s [] = Some s"
| "mkdirAllRev s (c # cs) =
     (case statNode s (rev (c # cs)) of
        Some Directory \<Rightarrow> Some s
      | Some n \<Rightarrow> None
      | None \<Rightarrow>
          (case mkdirAllRev s cs of
             None \<Rightarrow> None
           | Some s1 \<Rightarrow>
               (case createNode Directory s1 (rev (c # cs)) of
                  Some s2 \<Rightarrow> Some s2
                | None \<Rightarrow> if lstatNode s1 (rev (c # cs)) = Some Directory then Some s1 else None)))"

definition mkdirAll :: "fs \<Rightarrow> string list \<Rightarrow> fs option" where
  "mkdirAll s parts = mkdirAllRev s (rev parts)"

text \<open>\<^verbatim>\<open>os.OpenFile\<close> with \<^verbatim>\<open>O_CREATE|O_WRONLY|O_TRUNC\<close>, and what is written then.\<close>

definition writeFile :: "string \<Rightarrow> fs \<Rightarrow> string list \<Rightarrow> fs option" where
  "writeFile content s parts =
     (case resolvePath s False parts of
        None \<Rightarrow> None
      | Some p \<Rightarrow>
          (case lookup s p of
             None \<Rightarrow> Some ((setNode p (File (fs_next s)) s)
                \<lparr>fs_data := AList.update (fs_next s) content (fs_data s), fs_next := Suc (fs_next s)\<rparr>)
           | Some (File i) \<Rightarrow> Some (s\<lparr>fs_data := AList.update i content (fs_data s)\<rparr>)
           | Some n \<Rightarrow> None))"

text \<open>\<^verbatim>\<open>os.Remove\<close> of a name; an error leaves things as they are.\<close>

definition removeNode :: "fs \<Rightarrow> string list \<Rightarrow> fs" where
  "removeNode s parts =
     (case resolvePath s True parts of
        None \<Rightarrow> s
      | Some p \<Rightarrow>
          (case lookup s p of
             None \<Rightarrow> s
           | Some Directory \<Rightarrow>
               if list_all (\<lambda>(q, n). take (length p) q \<noteq> p \<or> q = p) (fs_nodes s) then delNode p s else s
           | Some n \<Rightarrow> delNode p s))"

text \<open>\<^verbatim>\<open>os.Link\<close>: a second name of the node, without following a link that is the last element.\<close>

definition hardLink :: "fs \<Rightarrow> string list \<Rightarrow> string list \<Rightarrow> fs option" where
  "hardLink s old new =
     (case lstatNode s old of
        None \<Rightarrow> None
      | Some Directory \<Rightarrow> None
      | Some n \<Rightarrow> createNode n s new)"

section \<open>Entries\<close>

datatype entry_type = TypeDir | TypeReg | TypeSymlink | TypeLink | TypeOther

text \<open>\<open>te_Cut\<close>: reading the data of a regular file fails after \<open>te_Data\<close>.\<close>

record tar_entry =
  te_Name :: string
  te_Type :: entry_type
  te_Linkname :: string
  te_Data :: string
  te_Cut :: bool

datatype extract_error =
    UnsafePath string
  | EscapesDestination string
  | SymlinkEscapes string
  | OsFailed string
  | TarRead
  | WriteFailed string

definition elements :: "string \<Rightarrow> string list" where
  "elements p = splitc (CHR ''/'') p"

text \<open>\<^verbatim>\<open>strings.HasPrefix(abs+"/", dst+"/") || abs == dst\<close>.\<close>

definition insideOf :: "string \<Rightarrow> string \<Rightarrow> bool" where
  "insideOf dst p \<longleftrightarrow> hasPrefix (p @ ''/'') (dst @ ''/'') \<or> p = dst"

definition safeTargetPath :: "string \<Rightarrow> string \<Rightarrow> string \<Rightarrow> extract_error + string" where
  "safeTargetPath cwd dst name =
     (let clean = pathClean name in
      if isAbsPath clean \<or> hasPrefix clean ''../'' \<or> clean = ''..'' then Inl (UnsafePath name)
      else let target = pathJoin [dst, clean] in
        if \<not> insideOf dst (pathAbs cwd target) then Inl (EscapesDestination name) else Inr target)"

definition linkTargetOf :: "string \<Rightarrow> string \<Rightarrow> string" where
  "linkTargetOf target linkname =
     (if isAbsPath linkname then linkname else pathJoin [pathDir target, linkname])"

definition orFail :: "string \<Rightarrow> fs \<Rightarrow> fs option \<Rightarrow> extract_error option \<times> fs" where
  "orFail what s r = (case r of None \<Rightarrow> (Some (OsFailed what), s) | Some s' \<Rightarrow> (None, s'))"

definition extractRegular :: "tar_entry \<Rightarrow> string \<Rightarrow> fs \<Rightarrow> extract_error option \<times> fs" where
  "extractRegular e target s =
     (case mkdirAll s (elements (pathDir target)) of
        None \<Rightarrow> (Some (OsFailed ''mkdir''), s)
      | Some s1 \<Rightarrow>
          (case writeFile (te_Data e) s1 (elements target) of
             None \<Rightarrow> (Some (OsFailed ''create''), s1)
           | Some s2 \<Rightarrow> (if te_Cut e then Some (WriteFailed target) else None, s2)))"

definition extractLink :: "string \<Rightarrow> string \<Rightarrow> tar_entry \<Rightarrow> string \<Rightarrow> fs \<Rightarrow> extract_error option \<times> fs" where
  "extractLink cwd dst e target s =
     (let linkTarget = linkTargetOf target (te_Linkname e) in
      if \<not> insideOf dst (pathAbs cwd linkTarget) then (Some (SymlinkEscapes (te_Name e)), s)
      else let s1 = removeNode s (elements target) in
        if te_Type e = TypeSymlink
        then orFail ''symlink'' s1 (createNode (Link (te_Linkname e)) s1 (elements target))
        else orFail ''hardlink'' s1 (hardLink s1 (elements linkTarget) (elements target)))"

definition extractEntry :: "string \<Rightarrow> string \<Rightarrow> tar_entry \<Rightarrow> fs \<Rightarrow> extract_error option \<times> fs" where
  "extractEntry cwd dst e s =
     (case safeTargetPath cwd dst (te_Name e) of
        Inl err \<Rightarrow> (Some err, s)
      | Inr target \<Rightarrow>
          (case te_Type e of
             TypeDir \<Rightarrow> orFail ''mkdir'' s (mkdirAll s (elements target))
           | TypeReg \<Rightarrow> extractRegular e target s
           | TypeSymlink \<Rightarrow> extractLink cwd dst e target s
           | TypeLink \<Rightarrow> extractLink cwd dst e target s
           | TypeOther \<Rightarrow> (None, s)))"

fun extractEntries ::
    "string \<Rightarrow> string \<Rightarrow> tar_entry list \<Rightarrow> bool \<Rightarrow> fs \<Rightarrow> extract_error option \<times> fs" where
  "extractEntries cwd dst [] readFails s = (if readFails then Some TarRead else None, s)"
| "extractEntries cwd dst (e # es) readFails s =
     (case extractEntry cwd dst e s of
        (Some err, s') \<Rightarrow> (Some err, s')
      | (None, s') \<Rightarrow> extractEntries cwd dst es readFails s')"

definition extractTar :: "string \<Rightarrow> tar_entry list \<Rightarrow> bool \<Rightarrow> string \<Rightarrow> fs \<Rightarrow> extract_error option \<times> fs" where
  "extractTar cwd entries readFails dst s =
     (case mkdirAll s (elements (pathAbs cwd dst)) of
        None \<Rightarrow> (Some (OsFailed ''create''), s)
      | Some s1 \<Rightarrow> extractEntries cwd (pathAbs cwd dst) entries readFails s1)"

section \<open>Links can leave the destination\<close>

definition plainEntry :: "string \<Rightarrow> entry_type \<Rightarrow> string \<Rightarrow> string \<Rightarrow> tar_entry" where
  "plainEntry name ty link content =
     \<lparr>te_Name = name, te_Type = ty, te_Linkname = link, te_Data = content, te_Cut = False\<rparr>"

definition emptyFs :: fs where
  "emptyFs = \<lparr>fs_nodes = [([''r''], Directory), ([''r'', ''dst''], Directory)], fs_data = [], fs_next = 0\<rparr>"

definition escapeArchive :: "string \<Rightarrow> tar_entry list" where
  "escapeArchive content =
     [plainEntry ''x'' TypeDir [] [], plainEntry ''x/y'' TypeSymlink ''..'' [],
      plainEntry ''x/y/z'' TypeSymlink ''../../evil'' [], plainEntry ''z'' TypeReg [] content]"

section \<open>Paths below the destination\<close>

lemma safeTargetPath_inside:
  assumes "list_all properName d" "safeTargetPath cwd (absPath d) name = Inr target"
  shows "\<exists>qs. list_all properName qs \<and> target = absPath (d @ qs)"
proof -
  from assms(2) have c: "\<not> isAbsPath (pathClean name)" "\<not> hasPrefix (pathClean name) ''../''" "pathClean name \<noteq> ''..''"
      and t: "target = pathJoin [absPath d, pathClean name]"
    by (auto simp: safeTargetPath_def Let_def split: if_splits)
  have "\<not> isAbsPath name"
  proof
    assume "isAbsPath name"
    with c(1) show False by (simp add: pathClean_def isAbsPath_def Let_def)
  qed
  from relative_proper [OF this c(2,3)]
  obtain qs where q: "list_all properName qs" "pathClean name = (if qs = [] then ''.'' else joinWith ''/'' qs)" by blast
  have "target = absPath (d @ qs)" unfolding t q(2) by (rule pathJoin_proper [OF assms(1) q(1)])
  with q(1) show ?thesis by blast
qed

definition plainTree :: "fpath \<Rightarrow> fs \<Rightarrow> bool" where
  "plainTree d s \<longleftrightarrow>
     (\<forall>q. prefix q d \<longrightarrow> lookup s q = Some Directory) \<and> (\<forall>q t. prefix d q \<longrightarrow> lookup s q \<noteq> Some (Link t))"

text \<open>Inodes are below the next one, and no file has a name inside and another outside the destination.\<close>

definition ownInodes :: "fpath \<Rightarrow> fs \<Rightarrow> bool" where
  "ownInodes d s \<longleftrightarrow>
     (\<forall>p i. lookup s p = Some (File i) \<longrightarrow> i < fs_next s)
     \<and> (\<forall>p q i. prefix d p \<longrightarrow> lookup s p = Some (File i) \<longrightarrow> lookup s q = Some (File i) \<longrightarrow> prefix d q)"

text \<open>What a path names: the node, and the data of a file.\<close>

definition view :: "fs \<Rightarrow> fpath \<Rightarrow> (node \<times> string option) option" where
  "view s p = (case lookup s p of
     None \<Rightarrow> None
   | Some (File i) \<Rightarrow> Some (File i, map_of (fs_data s) i)
   | Some n \<Rightarrow> Some (n, None))"

definition stays :: "fpath \<Rightarrow> fs \<Rightarrow> fs \<Rightarrow> bool" where
  "stays d s s' \<longleftrightarrow> plainTree d s' \<and> ownInodes d s' \<and> (\<forall>p. \<not> prefix d p \<longrightarrow> view s' p = view s p)"

lemma stays_refl: "plainTree d s \<Longrightarrow> ownInodes d s \<Longrightarrow> stays d s s"
  by (simp add: stays_def)

lemma stays_trans: "stays d s s1 \<Longrightarrow> stays d s1 s2 \<Longrightarrow> stays d s s2"
  by (simp add: stays_def)

lemma lookup_setNode: "p \<noteq> [] \<Longrightarrow> lookup (setNode p n s) q = (if q = p then Some n else lookup s q)"
  by (simp add: lookup_def setNode_def update_conv')

lemma lookup_more [simp]: "lookup (s\<lparr>fs_data := x\<rparr>) = lookup s" "lookup (s\<lparr>fs_next := n\<rparr>) = lookup s"
  by (auto simp: lookup_def fun_eq_iff)

lemma setNode_more [simp]: "fs_data (setNode p n s) = fs_data s" "fs_next (setNode p n s) = fs_next s"
  by (simp_all add: setNode_def)

lemma walk_plain:
  assumes "list_all properName rest"
    and "\<And>q t. strict_prefix cur q \<Longrightarrow> prefix q (cur @ rest) \<Longrightarrow> lookup s q \<noteq> Some (Link t)"
  shows "walk n s b cur rest = None \<or> walk n s b cur rest = Some (cur @ rest)"
  using assms
proof (induction rest arbitrary: cur)
  case Nil
  then show ?case by simp
next
  case (Cons c rest)
  from Cons.prems(1) have p: "properName c" and r: "list_all properName rest" by simp_all
  from p have c: "c \<noteq> []" "c \<noteq> ''.''" "c \<noteq> ''..''" by (simp_all add: properName_def)
  have "lookup s (cur @ [c]) \<noteq> Some (Link t)" for t using Cons.prems(2) [of "cur @ [c]"] by (simp add: strict_prefix_def)
  moreover have "walk n s b (cur @ [c]) rest = None \<or> walk n s b (cur @ [c]) rest = Some ((cur @ [c]) @ rest)"
  proof (rule Cons.IH [OF r])
    fix q t
    assume "strict_prefix (cur @ [c]) q" "prefix q ((cur @ [c]) @ rest)"
    then have "strict_prefix cur q" "prefix q (cur @ c # rest)"
      by (auto simp: strict_prefix_def dest: append_prefixD)
    then show "lookup s q \<noteq> Some (Link t)" by (rule Cons.prems(2))
  qed
  ultimately show ?case using c by (auto split: option.splits node.splits)
qed

lemma resolve_plain:
  assumes "plainTree d s" "list_all properName d" "list_all properName qs"
  shows "resolvePath s b ([] # d @ qs) = None \<or> resolvePath s b ([] # d @ qs) = Some (d @ qs)"
proof -
  have "lookup s q \<noteq> Some (Link t)" if "prefix q (d @ qs)" for q t
    using that assms(1) unfolding prefix_append by (auto simp: plainTree_def)
  with walk_plain [of "d @ qs" "[]" s maxLinks b] assms(2,3) show ?thesis by (auto simp: resolvePath_def)
qed

lemma walk_directories:
  assumes "list_all properName rest" "\<And>q. strict_prefix cur q \<Longrightarrow> prefix q (cur @ rest) \<Longrightarrow> lookup s q = Some Directory"
  shows "walk n s b cur rest = Some (cur @ rest)"
  using assms
proof (induction rest arbitrary: cur)
  case Nil
  then show ?case by simp
next
  case (Cons c rest)
  from Cons.prems(1) have p: "properName c" and r: "list_all properName rest" by simp_all
  from p have c: "c \<noteq> []" "c \<noteq> ''.''" "c \<noteq> ''..''" by (simp_all add: properName_def)
  have "lookup s (cur @ [c]) = Some Directory" using Cons.prems(2) [of "cur @ [c]"] by (simp add: strict_prefix_def)
  moreover have "walk n s b (cur @ [c]) rest = Some ((cur @ [c]) @ rest)"
  proof (rule Cons.IH [OF r])
    fix q
    assume "strict_prefix (cur @ [c]) q" "prefix q ((cur @ [c]) @ rest)"
    then have "strict_prefix cur q" "prefix q (cur @ c # rest)"
      by (auto simp: strict_prefix_def dest: append_prefixD)
    then show "lookup s q = Some Directory" by (rule Cons.prems(2))
  qed
  ultimately show ?case using c by simp
qed

lemma stat_destination: "plainTree d s \<Longrightarrow> list_all properName d \<Longrightarrow> statNode s ([] # d) = Some Directory"
proof -
  assume d: "plainTree d s" "list_all properName d"
  then have "walk maxLinks s False [] d = Some ([] @ d)" by (intro walk_directories) (auto simp: plainTree_def)
  with d show ?thesis by (simp add: statNode_def resolvePath_def plainTree_def)
qed

lemma joinWith_snoc: "ps \<noteq> [] \<Longrightarrow> joinWith sep (ps @ [q]) = joinWith sep ps @ sep @ q"
  by (induction ps rule: list_nonempty_induct) (auto simp: neq_Nil_conv)

section \<open>Operations below the destination\<close>

lemma stays_setNode:
  assumes "plainTree d s" "ownInodes d s" "d \<noteq> []" "prefix d p" "lookup s p = None"
  shows "stays d s (setNode p Directory s)"
proof -
  have p: "p \<noteq> []" using assms(3,4) by auto
  have "\<not> prefix p d" using assms(1,4,5) by (auto simp: plainTree_def prefix_order.eq_iff)
  then show ?thesis
    using assms p by (auto simp: stays_def plainTree_def ownInodes_def view_def lookup_setNode
        split: if_splits option.splits node.splits)
qed

lemma elements_absPath: "list_all properName ps \<Longrightarrow> ps \<noteq> [] \<Longrightarrow> elements (absPath ps) = [] # ps"
  by (simp add: elements_def absPath_def splitc_parts)

lemma stays_mkdirAll:
  assumes "plainTree d s" "ownInodes d s" "d \<noteq> []" "list_all properName d" "list_all properName qs"
    and "mkdirAll s ([] # d @ qs) = Some s'"
  shows "stays d s s'"
  using assms(5,6)
proof (induction qs arbitrary: s' rule: rev_induct)
  case Nil
  obtain c cs where "rev d = c # cs" using assms(3) by (cases "rev d") auto
  then have "rev ([] # d) = c # (cs @ [[]])" "rev (c # (cs @ [[]])) = [] # d" by auto
  with Nil.prems stat_destination [OF assms(1,4)] have "s' = s" by (simp add: mkdirAll_def)
  with assms(1,2) show ?case by (simp add: stays_refl)
next
  case (snoc q qs)
  let ?ps = "[] # d @ qs @ [q]"
  have r: "rev ?ps = q # rev ([] # d @ qs)" "rev (q # rev ([] # d @ qs)) = ?ps" by simp_all
  consider "s' = s" | (made) s1 where "mkdirAll s ([] # d @ qs) = Some s1"
      "s' = s1 \<or> createNode Directory s1 ?ps = Some s'"
    using snoc.prems(2) unfolding mkdirAll_def r mkdirAllRev.simps
    by (auto split: option.splits node.splits if_splits)
  then show ?case
  proof cases
    case 1
    with assms(1,2) show ?thesis by (simp add: stays_refl)
  next
    case made
    have s1: "stays d s s1" using snoc made(1) by auto
    then have "stays d s1 s'"
    proof (cases "s' = s1")
      case True
      with s1 show ?thesis by (simp add: stays_def)
    next
      case False
      with made(2) have c: "createNode Directory s1 ?ps = Some s'" by blast
      have "resolvePath s1 True ?ps = None \<or> resolvePath s1 True ?ps = Some (d @ qs @ [q])"
        using resolve_plain [of d s1 "qs @ [q]" True] s1 assms(4) snoc.prems(1) by (simp add: stays_def)
      with c have "s' = setNode (d @ qs @ [q]) Directory s1" "lookup s1 (d @ qs @ [q]) = None"
        by (auto simp: createNode_def split: option.splits if_splits)
      with s1 assms(3) stays_setNode [of d s1 "d @ qs @ [q]"] show ?thesis by (simp add: stays_def)
    qed
    with s1 show ?thesis by (rule stays_trans)
  qed
qed

lemma stays_writeFile:
  assumes "plainTree d s" "ownInodes d s" "d \<noteq> []" "list_all properName d" "list_all properName qs"
    and "writeFile content s ([] # d @ qs) = Some s'"
  shows "stays d s s'"
proof -
  let ?p = "d @ qs"
  have p: "resolvePath s False ([] # ?p) = Some ?p" "?p \<noteq> []"
    using resolve_plain [OF assms(1,4,5), of False] assms(3,6) by (auto simp: writeFile_def)
  have bound: "\<And>q i. lookup s q = Some (File i) \<Longrightarrow> i < fs_next s"
    and own: "\<And>q r i. prefix d q \<Longrightarrow> lookup s q = Some (File i) \<Longrightarrow> lookup s r = Some (File i) \<Longrightarrow> prefix d r"
    using assms(2) by (auto simp: ownInodes_def)
  consider (fresh) "lookup s ?p = None" "s' = (setNode ?p (File (fs_next s)) s)
        \<lparr>fs_data := AList.update (fs_next s) content (fs_data s), fs_next := Suc (fs_next s)\<rparr>"
    | (old) i where "lookup s ?p = Some (File i)" "s' = s\<lparr>fs_data := AList.update i content (fs_data s)\<rparr>"
    using assms(6) p(1) by (auto simp: writeFile_def split: option.splits node.splits)
  then show ?thesis
  proof cases
    case fresh
    have l: "lookup s' q = (if q = ?p then Some (File (fs_next s)) else lookup s q)" for q
      using lookup_setNode [OF p(2)] by (simp add: fresh(2))
    have nx: "fs_next s' = Suc (fs_next s)" by (simp add: fresh(2))
    have "\<not> prefix ?p d" using assms(1) fresh(1) by (auto simp: plainTree_def)
    then have "plainTree d s'" using assms(1) by (auto simp: plainTree_def l)
    moreover have "ownInodes d s'"
      unfolding ownInodes_def l nx
      by (auto simp: less_Suc_eq dest: bound own split: if_splits)
    moreover have "view s' q = view s q" if "\<not> prefix d q" for q
    proof -
      have "q \<noteq> ?p" using that by auto
      then have "lookup s' q = lookup s q" by (simp add: l)
      moreover have "map_of (fs_data s') i = map_of (fs_data s) i" if "lookup s q = Some (File i)" for i
        using bound [OF that] by (simp add: fresh(2) update_conv')
      ultimately show ?thesis by (simp add: view_def split: option.splits node.splits)
    qed
    ultimately show ?thesis by (simp add: stays_def)
  next
    case old
    have l: "lookup s' = lookup s" by (simp add: old(2))
    have "view s' q = view s q" if "\<not> prefix d q" for q
    proof -
      have "lookup s q \<noteq> Some (File i)" using own [of ?p i q] old(1) that by auto
      then have "map_of (fs_data s') j = map_of (fs_data s) j" if "lookup s q = Some (File j)" for j
        using that by (auto simp: old(2) update_conv')
      then show ?thesis by (simp add: view_def l split: option.splits node.splits)
    qed
    then show ?thesis using assms(1,2) by (simp add: stays_def plainTree_def ownInodes_def l old(2))
  qed
qed

lemma proper_butlast: "list_all properName (d @ qs @ [q]) \<Longrightarrow> pathDir (absPath (d @ qs @ [q])) = absPath (d @ qs)"
proof -
  assume a: "list_all properName (d @ qs @ [q])"
  have "CHR ''/'' \<notin> set q" using a by (simp add: properName_def)
  obtain pre where p: "absPath (d @ qs @ [q]) = pre @ CHR ''/'' # q" "pre = [] \<and> d @ qs = [] \<or> pre = absPath (d @ qs)"
  proof (cases "d @ qs = []")
    case True
    then show ?thesis using that [of "[]"] by (simp add: absPath_def)
  next
    case False
    then have "joinWith ''/'' ((d @ qs) @ [q]) = joinWith ''/'' (d @ qs) @ ''/'' @ q"
      by (rule joinWith_snoc)
    then show ?thesis using that [of "absPath (d @ qs)"] by (simp add: absPath_def)
  qed
  with \<open>CHR ''/'' \<notin> set q\<close> have c: "cutLast (CHR ''/'') (absPath (d @ qs @ [q])) = Some (pre, q)"
    by (simp add: cutLast_Some)
  have "pathClean (pre @ ''/'') = absPath (d @ qs)"
  proof (cases "d @ qs = []")
    case True
    with p(2) have "pre = [] \<or> pre = ''/''" by (auto simp: absPath_def)
    then have "pathClean (pre @ ''/'') = ''/''" by (elim disjE) (simp_all, code_simp+)
    with True show ?thesis by (simp add: absPath_def)
  next
    case False
    with p(2) have pre: "pre = absPath (d @ qs)" by blast
    have "fold (cleanStep True) (splitc (CHR ''/'') (absPath (d @ qs) @ CHR ''/'' # [])) [] = rev (d @ qs)"
      using a by (simp only: splitc_app fold_append comp_apply) (simp add: splitc_absPath)
    then show ?thesis unfolding pre
      by (simp add: pathClean_def cleanParts_def isAbsPath_def del: fold_append) (simp add: absPath_def)
  qed
  with c show ?thesis by (simp add: pathDir_def)
qed

lemma mkdirAll_existing:
  assumes "list_all properName e" "\<And>q. prefix q e \<Longrightarrow> lookup s q = Some Directory"
  shows "mkdirAll s (elements (absPath e)) = Some s"
proof (cases e rule: rev_cases)
  case Nil
  then show ?thesis by (simp add: elements_def absPath_def mkdirAll_def statNode_def resolvePath_def lookup_def)
next
  case (snoc e' c)
  have "walk maxLinks s False [] e = Some ([] @ e)" by (rule walk_directories) (use assms in auto)
  then have "statNode s ([] # e) = Some Directory" using assms(2) [of e] by (simp add: statNode_def resolvePath_def)
  then show ?thesis using snoc assms(1) by (simp add: elements_absPath mkdirAll_def)
qed

lemma stays_extractEntry:
  assumes d: "plainTree d s" "ownInodes d s" "d \<noteq> []" "list_all properName d"
    and e: "te_Type e \<notin> {TypeSymlink, TypeLink}" and r: "extractEntry cwd (absPath d) e s = (err, s')"
  shows "stays d s s'"
proof (cases "safeTargetPath cwd (absPath d) (te_Name e)")
  case (Inl x)
  with r d show ?thesis by (simp add: extractEntry_def stays_refl)
next
  case (Inr target)
  then obtain qs where q: "list_all properName qs" "target = absPath (d @ qs)"
    using safeTargetPath_inside [OF d(4)] by blast
  have el: "elements target = [] # d @ qs" using q d(3,4) by (simp add: elements_absPath)
  note mk = stays_mkdirAll [OF d]
  consider "te_Type e = TypeDir" | "te_Type e = TypeReg" | "te_Type e = TypeOther" using e by (cases "te_Type e") auto
  then show ?thesis
  proof cases
    case 1
    with r Inr el show ?thesis using mk [OF q(1)] d
      by (auto simp: extractEntry_def orFail_def stays_refl split: option.splits)
  next
    case 3
    with r Inr d show ?thesis by (simp add: extractEntry_def stays_refl)
  next
    case 2
    have parent: "stays d s s1" if "mkdirAll s (elements (pathDir target)) = Some s1" for s1
    proof (cases qs rule: rev_cases)
      case Nil
      obtain d' c where c: "d = d' @ [c]" using d(3) by (cases d rule: rev_cases) auto
      have "pathDir target = absPath d'" using proper_butlast [of "[]" d' c] Nil q(2) c d(4) by simp
      moreover have "mkdirAll s (elements (absPath d')) = Some s"
        by (rule mkdirAll_existing) (use d c in \<open>auto simp: plainTree_def prefix_append\<close>)
      ultimately show ?thesis using that d by (simp add: stays_refl)
    next
      case (snoc qs' c)
      then have "pathDir target = absPath (d @ qs')" using proper_butlast [of d qs' c] q d(4) by simp
      then show ?thesis using that mk [of qs'] snoc q(1) d(3,4) by (simp add: elements_absPath)
    qed
    have wr: "stays d s s2" if "mkdirAll s (elements (pathDir target)) = Some s1"
        "writeFile (te_Data e) s1 (elements target) = Some s2" for s1 s2
    proof -
      note s1 = parent [OF that(1)]
      then have "stays d s1 s2"
        using stays_writeFile [of d s1 qs] that(2) d(3,4) q(1) by (simp add: stays_def el)
      with s1 show ?thesis by (rule stays_trans)
    qed
    from 2 r Inr parent wr d show ?thesis
      by (auto simp: extractEntry_def extractRegular_def stays_refl split: option.splits)
  qed
qed

lemma stays_extractEntries:
  "plainTree d s \<Longrightarrow> ownInodes d s \<Longrightarrow> d \<noteq> [] \<Longrightarrow> list_all properName d \<Longrightarrow>
     list_all (\<lambda>e. te_Type e \<notin> {TypeSymlink, TypeLink}) es \<Longrightarrow>
     extractEntries cwd (absPath d) es readFails s = (err, s') \<Longrightarrow> stays d s s'"
proof (induction es arbitrary: s)
  case Nil
  then show ?case by (simp add: stays_refl)
next
  case (Cons e es)
  obtain err1 s1 where e: "extractEntry cwd (absPath d) e s = (err1, s1)" by fastforce
  have s1: "stays d s s1"
    by (rule stays_extractEntry [OF Cons.prems(1-4) _ e]) (use Cons.prems(5) in auto)
  show ?case
  proof (cases err1)
    case (Some x)
    with Cons.prems(6) e s1 show ?thesis by simp
  next
    case None
    with Cons.prems e s1 have "stays d s1 s'" by (intro Cons.IH) (simp_all add: stays_def)
    with s1 show ?thesis by (rule stays_trans)
  qed
qed

section \<open>The properties\<close>

text \<open>
  C18. Unpacking without links stays inside. An archive without symbolic or hard links, whatever its
  names, data and errors, unpacked into an existing directory that has no links on its path or below it
  and shares no inode with the outside, leaves every path outside it as it was, its data included; what
  is below it is still free of links.
\<close>

theorem extract_stays_inside:
  assumes "list_all properName d \<and> d \<noteq> []" and "plainTree d s \<and> ownInodes d s"
    and "list_all (\<lambda>e. te_Type e \<notin> {TypeSymlink, TypeLink}) entries"
    and "extractTar cwd entries readFails (absPath d) s = (err, s')"
  shows "plainTree d s' \<and> (\<forall>p. prefix d p \<or> view s' p = view s p)"
proof -
  have "mkdirAll s (elements (absPath d)) = Some s"
    by (rule mkdirAll_existing) (use assms(1,2) in \<open>auto simp: plainTree_def\<close>)
  with assms(1,4) have "extractEntries cwd (absPath d) entries readFails s = (err, s')"
    by (simp add: extractTar_def pathAbs_absPath)
  with stays_extractEntries assms(1-3) have "stays d s s'" by blast
  then show ?thesis by (auto simp: stays_def)
qed

lemma emptyFs_plain: "plainTree [''r'', ''dst''] emptyFs \<and> ownInodes [''r'', ''dst''] emptyFs"
  by (auto simp: plainTree_def ownInodes_def lookup_def emptyFs_def prefix_Cons split: if_splits)

theorem extract_stays_inside_witness:
  "view (snd (extractTar ''/'' [plainEntry ''a/../b//f'' TypeReg [] ''data''] False (absPath [''r'', ''dst'']) emptyFs)) [''evil'']
     = None"
proof -
  let ?r = "extractTar ''/'' [plainEntry ''a/../b//f'' TypeReg [] ''data''] False (absPath [''r'', ''dst'']) emptyFs"
  have "plainTree [''r'', ''dst''] (snd ?r) \<and> (\<forall>p. prefix [''r'', ''dst''] p \<or> view (snd ?r) p = view emptyFs p)"
    by (rule extract_stays_inside [OF _ emptyFs_plain, of _ "''/''" False "fst ?r"])
      (simp_all add: properName_def plainEntry_def)
  then have "prefix [''r'', ''dst''] [''evil''] \<or> view (snd ?r) [''evil''] = view emptyFs [''evil'']" by blast
  then have "view (snd ?r) [''evil''] = view emptyFs [''evil'']" by simp
  also have "\<dots> = None" by code_simp
  finally show ?thesis .
qed

text \<open>
  Links leave the destination. The test of a link's target looks at the names of the paths only:
  an archive whose four entries all pass it makes \<^verbatim>\<open>x/y\<close> a link to the destination itself, through it a link
  \<^verbatim>\<open>z\<close> whose target climbs out, and then writes its data through \<^verbatim>\<open>z\<close> to a new file at the root of the file
  system, without an error.
\<close>

theorem extract_symlink_escape:
  "fst (extractTar ''/'' (escapeArchive content) False ''/r/dst'' emptyFs) = None
   \<and> lookup (snd (extractTar ''/'' (escapeArchive content) False ''/r/dst'' emptyFs)) [''evil''] = Some (File 0)
   \<and> map_of (fs_data (snd (extractTar ''/'' (escapeArchive content) False ''/r/dst'' emptyFs))) 0 = Some content"
  by code_simp

end
