(* ===== verification/Json_Raw.thy ===== *)
theory Json_Raw
  imports Go_Json "HOL-Library.Monad_Syntax"
begin

text \<open>
  What the repository uses of \<^verbatim>\<open>encoding/json\<close> around \<^verbatim>\<open>json.RawMessage\<close>: the pieces of a document by
  their text, the decoding of a struct field from the members that name it, and the encoding of
  members with \<^verbatim>\<open>omitempty\<close>. A struct is decoded member by member: the last one wins, \<^verbatim>\<open>null\<close> keeps a
  scalar and resets a pointer, a slice or a map, and a map takes the members of all of them.
  Names are matched without regard to the case of ASCII letters.
\<close>

section \<open>Pieces of a document\<close>

text \<open>The text of the next value, and the rest.\<close>

definition valueSlice :: "string \<Rightarrow> (string \<times> string) option" where
  "valueSlice s =
     (let t = skipWs s in
      case parseValue (2 * length t + 2) t of
        None \<Rightarrow> None
      | Some (v, r) \<Rightarrow> Some (take (length t - length r) t, r))"

fun sliceElems :: "nat \<Rightarrow> string \<Rightarrow> (string list \<times> string) option" where
  "sliceElems 0 s = None"
| "sliceElems (Suc n) s =
     (case valueSlice s of
        None \<Rightarrow> None
      | Some (x, u) \<Rightarrow> moreOf (CHR '']'') (sliceElems n) x u)"

fun sliceMembers :: "nat \<Rightarrow> string \<Rightarrow> ((string \<times> string) list \<times> string) option" where
  "sliceMembers 0 s = None"
| "sliceMembers (Suc n) s =
     (case keyOf s of
        None \<Rightarrow> None
      | Some (k, u) \<Rightarrow>
          (case valueSlice u of
             None \<Rightarrow> None
           | Some (x, w) \<Rightarrow> moreOf (CHR ''}'') (sliceMembers n) (k, x) w))"

text \<open>\<^verbatim>\<open>json.Unmarshal\<close> into a \<^verbatim>\<open>[]json.RawMessage\<close>.\<close>

definition rawElems :: "string \<Rightarrow> string list option" where
  "rawElems s =
     (case jsonParse s of
        Some JNull \<Rightarrow> Some []
      | Some (JArr []) \<Rightarrow> Some []
      | Some (JArr (v # vs)) \<Rightarrow> map_option fst (sliceElems (length s) (drop 1 (skipWs s)))
      | _ \<Rightarrow> None)"

text \<open>The members of an object, for a struct or a map; \<^verbatim>\<open>null\<close> has none.\<close>

definition rawMembers :: "string \<Rightarrow> (string \<times> string) list option" where
  "rawMembers s =
     (case jsonParse s of
        Some JNull \<Rightarrow> Some []
      | Some (JObj []) \<Rightarrow> Some []
      | Some (JObj (m # ms)) \<Rightarrow> map_option fst (sliceMembers (length s) (drop 1 (skipWs s)))
      | _ \<Rightarrow> None)"

section \<open>Fields\<close>

definition fieldVals :: "string \<Rightarrow> (string \<times> string) list \<Rightarrow> string list" where
  "fieldVals k ms = map snd (filter (\<lambda>m. toLower (fst m) = k) ms)"

fun foldField :: "('a \<Rightarrow> json \<Rightarrow> 'a option) \<Rightarrow> 'a \<Rightarrow> string list \<Rightarrow> 'a option" where
  "foldField dec acc [] = Some acc"
| "foldField dec acc (t # ts) =
     (case jsonParse t of
        None \<Rightarrow> None
      | Some v \<Rightarrow> (case dec acc v of None \<Rightarrow> None | Some a \<Rightarrow> foldField dec a ts))"

definition setString :: "string \<Rightarrow> json \<Rightarrow> string option" where
  "setString acc v = (if v = JNull then Some acc else unmarshalString v)"

definition setInt :: "int \<Rightarrow> json \<Rightarrow> int option" where
  "setInt acc v = (if v = JNull then Some acc else unmarshalInt v)"

definition setBool :: "bool \<Rightarrow> json \<Rightarrow> bool option" where
  "setBool acc v = (if v = JNull then Some acc else unmarshalBool v)"

definition setBoolPtr :: "bool option \<Rightarrow> json \<Rightarrow> bool option option" where
  "setBoolPtr acc v = (if v = JNull then Some None else map_option Some (unmarshalBool v))"

definition setStrings :: "string list \<Rightarrow> json \<Rightarrow> string list option" where
  "setStrings acc v = unmarshalStrings v"

fun putMembers :: "(json \<Rightarrow> 'v option) \<Rightarrow> (string \<times> json) list \<Rightarrow> 'v gomap \<Rightarrow> 'v gomap option" where
  "putMembers dec [] m = Some m"
| "putMembers dec ((k, v) # kvs) m =
     (case dec v of None \<Rightarrow> None | Some x \<Rightarrow> putMembers dec kvs (mput k x m))"

definition setMap :: "(json \<Rightarrow> 'v option) \<Rightarrow> 'v gomap \<Rightarrow> json \<Rightarrow> 'v gomap option" where
  "setMap dec acc v = (case v of JNull \<Rightarrow> Some [] | JObj kvs \<Rightarrow> putMembers dec kvs acc | _ \<Rightarrow> None)"

definition stringField :: "string \<Rightarrow> (string \<times> string) list \<Rightarrow> string option" where
  "stringField k ms = foldField setString [] (fieldVals k ms)"

definition intField :: "string \<Rightarrow> (string \<times> string) list \<Rightarrow> int option" where
  "intField k ms = foldField setInt 0 (fieldVals k ms)"

definition boolField :: "string \<Rightarrow> (string \<times> string) list \<Rightarrow> bool option" where
  "boolField k ms = foldField setBool False (fieldVals k ms)"

definition boolPtrField :: "string \<Rightarrow> (string \<times> string) list \<Rightarrow> bool option option" where
  "boolPtrField k ms = foldField setBoolPtr None (fieldVals k ms)"

definition stringsField :: "string \<Rightarrow> (string \<times> string) list \<Rightarrow> string list option" where
  "stringsField k ms = foldField setStrings [] (fieldVals k ms)"

definition stringMapField :: "string \<Rightarrow> (string \<times> string) list \<Rightarrow> string gomap option" where
  "stringMapField k ms = foldField (setMap unmarshalString) [] (fieldVals k ms)"

text \<open>A \<^verbatim>\<open>json.RawMessage\<close>: the text of the last member, \<^verbatim>\<open>null\<close> included; empty when there is none.\<close>

definition rawField :: "string \<Rightarrow> (string \<times> string) list \<Rightarrow> string" where
  "rawField k ms = (case fieldVals k ms of [] \<Rightarrow> [] | t # ts \<Rightarrow> last (t # ts))"

text \<open>A \<^verbatim>\<open>map[string]json.RawMessage\<close>.\<close>

fun foldRawMap :: "string gomap \<Rightarrow> string list \<Rightarrow> string gomap option" where
  "foldRawMap acc [] = Some acc"
| "foldRawMap acc (t # ts) =
     (case rawMembers t of
        None \<Rightarrow> None
      | Some ms \<Rightarrow> foldRawMap (if jsonParse t = Some JNull then [] else mputall acc ms) ts)"

definition rawMapField :: "string \<Rightarrow> (string \<times> string) list \<Rightarrow> string gomap option" where
  "rawMapField k ms = foldRawMap [] (fieldVals k ms)"

section \<open>Encoding\<close>

definition omit :: "bool \<Rightarrow> string \<Rightarrow> string \<Rightarrow> (string \<times> string) list" where
  "omit e k t = (if e then [] else [(k, t)])"

definition objText :: "(string \<times> string) list \<Rightarrow> string" where
  "objText ms = ''{'' @ joinWith '','' (map (\<lambda>m. jsonQuote (fst m) @ '':'' @ snd m) ms) @ ''}''"

definition arrText :: "string list \<Rightarrow> string" where
  "arrText ts = ''['' @ joinWith '','' ts @ '']''"

definition boolText :: "bool \<Rightarrow> string" where
  "boolText b = (if b then ''true'' else ''false'')"

text \<open>The members of a Go map, in key order.\<close>

definition sortedMap :: "'v gomap \<Rightarrow> 'v gomap" where
  "sortedMap m = map (\<lambda>k. (k, the (map_of m k))) (sortedKeys m)"

definition mapText :: "('v \<Rightarrow> string) \<Rightarrow> 'v gomap \<Rightarrow> string" where
  "mapText f m = objText (map (\<lambda>(k, v). (k, f v)) (sortedMap m))"

definition stringsText :: "string list \<Rightarrow> string" where
  "stringsText xs = arrText (map jsonQuote xs)"

text \<open>
  \<^verbatim>\<open>json.Marshal\<close> of a \<^verbatim>\<open>json.RawMessage\<close>: the text without the white space around its tokens and with
  \<^verbatim>\<open><\<close>, \<^verbatim>\<open>>\<close> and \<^verbatim>\<open>&\<close> escaped; an error when it is not a document.
\<close>

fun compactFrom :: "bool \<Rightarrow> string \<Rightarrow> string" where
  "compactFrom q [] = []"
| "compactFrom False (c # s) =
     (if isSpaceJ c then compactFrom False s else c # compactFrom (c = CHR 0x22) s)"
| "compactFrom True [c] = (if c = CHR 0x5C then [c] else if c = CHR 0x22 then [c] else jsonEscape c)"
| "compactFrom True (c # d # s) =
     (if c = CHR 0x5C then c # d # compactFrom True s
      else if c = CHR 0x22 then c # compactFrom False (d # s)
      else jsonEscape c @ compactFrom True (d # s))"

definition rawText :: "string \<Rightarrow> string option" where
  "rawText t = (if jsonParse t = None then None else Some (compactFrom False t))"

fun rawTexts :: "string gomap \<Rightarrow> string gomap option" where
  "rawTexts [] = Some []"
| "rawTexts ((k, t) # m) =
     (case (rawText t, rawTexts m) of (Some x, Some xs) \<Rightarrow> Some ((k, x) # xs) | _ \<Rightarrow> None)"

section \<open>Texts of documents\<close>

definition jsonText :: "string \<Rightarrow> bool" where
  "jsonText t \<longleftrightarrow> (\<exists>v. wfRaw v \<and> t = jsonPrint v)"

lemma jsonTextI: "wfRaw v \<Longrightarrow> jsonText (jsonPrint v)"
  by (auto simp: jsonText_def)

lemma parseValue_print:
  assumes "wfRaw v" "numStop r"
  shows "parseValue (2 * length (jsonPrint v @ r) + 2) (jsonPrint v @ r) = Some (v, r)"
proof -
  from parse_print [OF assms] obtain n where "parseValue n (jsonPrint v @ r) = Some (v, r)" by blast
  then have "parseValue (2 * length (jsonPrint v @ r) + 1) (jsonPrint v @ r) = Some (v, r)"
    using parse_enough [of n] by blast
  then show ?thesis by (rule parseValue_mono [rotated]) simp
qed

lemma skipWs_print: "wfRaw v \<Longrightarrow> skipWs (jsonPrint v @ r) = jsonPrint v @ r"
  by (rule skipWs_starts [OF jsonPrint_starts])

lemma valueSlice_text: "jsonText t \<Longrightarrow> numStop r \<Longrightarrow> valueSlice (t @ r) = Some (t, r)"
  unfolding jsonText_def valueSlice_def Let_def
  by (elim exE conjE, simp only: skipWs_print parseValue_print option.case prod.case) simp

lemma jsonText_length: "jsonText t \<Longrightarrow> t \<noteq> []"
  using jsonPrint_starts [of _ "[]"] by (fastforce simp: jsonText_def startsValue_def)

lemma sliceElems_text:
  "ts \<noteq> [] \<Longrightarrow> list_all jsonText ts \<Longrightarrow> length ts \<le> n \<Longrightarrow>
     sliceElems n (joinWith '','' ts @ CHR '']'' # r) = Some (ts, r)"
proof (induction ts arbitrary: n)
  case Nil
  then show ?case by simp
next
  case (Cons t ts)
  then obtain m where n: "n = Suc m" by (cases n) auto
  show ?case
  proof (cases ts)
    case Nil
    with Cons.prems n show ?thesis
      using valueSlice_text [of t "CHR '']'' # r"] by (simp add: moreOf_def skipWs_Cons isSpaceJ_def)
  next
    case (Cons y ys)
    let ?rest = "joinWith '','' ts @ CHR '']'' # r"
    have "sliceElems m ?rest = Some (ts, r)" using Cons.IH Cons.prems n Cons by simp
    moreover have "joinWith '','' (t # ts) @ CHR '']'' # r = t @ CHR '','' # ?rest" using Cons by simp
    ultimately show ?thesis
      using Cons.prems n valueSlice_text [of t "CHR '','' # ?rest"]
      by (simp add: moreOf_def skipWs_Cons isSpaceJ_def)
  qed
qed

lemma sliceMembers_text:
  "ms \<noteq> [] \<Longrightarrow> list_all (\<lambda>m. jsonText (snd m)) ms \<Longrightarrow> length ms \<le> n \<Longrightarrow>
     sliceMembers n (joinWith '','' (map (\<lambda>m. jsonQuote (fst m) @ '':'' @ snd m) ms) @ CHR ''}'' # r) = Some (ms, r)"
proof (induction ms arbitrary: n)
  case Nil
  then show ?case by simp
next
  case (Cons m ms)
  then obtain j where n: "n = Suc j" by (cases n) auto
  obtain k t where m: "m = (k, t)" by fastforce
  let ?line = "\<lambda>m. jsonQuote (fst m) @ '':'' @ snd m"
  show ?case
  proof (cases ms)
    case Nil
    with Cons.prems n m show ?thesis
      using valueSlice_text [of t "CHR ''}'' # r"]
      by (simp add: keyOf_quote moreOf_def skipWs_Cons isSpaceJ_def)
  next
    case (Cons y ys)
    let ?rest = "joinWith '','' (map ?line ms) @ CHR ''}'' # r"
    have "sliceMembers j ?rest = Some (ms, r)" using Cons.IH Cons.prems n Cons by simp
    moreover have "joinWith '','' (map ?line (m # ms)) @ CHR ''}'' # r = ?line m @ CHR '','' # ?rest"
      using Cons by simp
    ultimately show ?thesis
      using Cons.prems n m valueSlice_text [of t "CHR '','' # ?rest"]
      by (simp add: keyOf_quote moreOf_def skipWs_Cons isSpaceJ_def)
  qed
qed

text \<open>Members and elements that are documents make a document, and are its pieces.\<close>

lemma texts_values:
  assumes "list_all jsonText ts"
  obtains vs where "ts = map jsonPrint vs" "list_all wfRaw vs"
proof -
  have "\<exists>vs. ts = map jsonPrint vs \<and> list_all wfRaw vs"
    using assms
  proof (induction ts)
    case Nil
    then show ?case by simp
  next
    case (Cons t ts)
    then obtain v vs where "t = jsonPrint v" "wfRaw v" "ts = map jsonPrint vs" "list_all wfRaw vs"
      by (auto simp: jsonText_def)
    then show ?case by (intro exI [of _ "v # vs"]) simp
  qed
  with that show ?thesis by blast
qed

lemma arrText_print: "arrText (map jsonPrint vs) = jsonPrint (JArr vs)"
  by (simp add: arrText_def)

lemma objText_print: "objText (map (\<lambda>(k, v). (k, jsonPrint v)) kvs) = jsonPrint (JObj kvs)"
  by (simp add: objText_def case_prod_unfold comp_def)

lemma length_joinWith_ge: "(\<And>x. x \<in> set xs \<Longrightarrow> f x \<noteq> []) \<Longrightarrow> length xs \<le> Suc (length (joinWith sep (map f xs)))"
proof (induction xs)
  case Nil
  then show ?case by simp
next
  case (Cons x xs)
  then have "length xs \<le> Suc (length (joinWith sep (map f xs)))" "f x \<noteq> []" by auto
  moreover from this(2) have "1 \<le> length (f x)" by (cases "f x") auto
  ultimately show ?case by (cases xs) auto
qed

lemma jsonText_arr: "list_all jsonText ts \<Longrightarrow> jsonText (arrText ts)"
  by (erule texts_values) (auto simp: jsonText_def arrText_print list_all_iff simp del: jsonPrint.simps
      intro!: exI [of _ "JArr vs" for vs])

lemma members_values:
  assumes "list_all (\<lambda>m. jsonText (snd m)) ms"
  obtains kvs where "ms = map (\<lambda>(k, v). (k, jsonPrint v)) kvs" "list_all (\<lambda>m. wfRaw (snd m)) kvs"
proof -
  have "\<exists>kvs. ms = map (\<lambda>(k, v). (k, jsonPrint v)) kvs \<and> list_all (\<lambda>m. wfRaw (snd m)) kvs"
    using assms
  proof (induction ms)
    case Nil
    then show ?case by simp
  next
    case (Cons m ms)
    then obtain v kvs where "snd m = jsonPrint v" "wfRaw v" "ms = map (\<lambda>(k, v). (k, jsonPrint v)) kvs"
        "list_all (\<lambda>m. wfRaw (snd m)) kvs" by (auto simp: jsonText_def)
    then show ?case by (intro exI [of _ "(fst m, v) # kvs"]) (cases m, simp)
  qed
  with that show ?thesis by blast
qed

lemma jsonText_obj: "list_all (\<lambda>m. jsonText (snd m)) ms \<Longrightarrow> jsonText (objText ms)"
proof (erule members_values)
  fix kvs assume "ms = map (\<lambda>(k, v). (k, jsonPrint v)) kvs" "list_all (\<lambda>m. wfRaw (snd m)) kvs"
  then have "objText ms = jsonPrint (JObj kvs)" "wfRaw (JObj kvs)"
    by (auto simp: objText_print list_all_iff simp del: jsonPrint.simps)
  then show ?thesis unfolding jsonText_def by blast
qed

lemma jsonParse_text: "wfRaw v \<Longrightarrow> jsonParse (jsonPrint v) = Some v"
  using jsonParse_print [of v "[]"] by (simp add: skipWs_def)

lemma objText_obj: "jsonText (objText ms) \<Longrightarrow> list_all (\<lambda>m. jsonText (snd m)) ms \<Longrightarrow> rawMembers (objText ms) = Some ms"
proof (erule members_values)
  fix kvs assume kvs: "ms = map (\<lambda>(k, v). (k, jsonPrint v)) kvs" "list_all (\<lambda>m. wfRaw (snd m)) kvs"
  then have w: "objText ms = jsonPrint (JObj kvs)" "wfRaw (JObj kvs)" "list_all (\<lambda>m. jsonText (snd m)) ms"
    by (auto simp: objText_print list_all_iff jsonText_def simp del: jsonPrint.simps)
  then have p: "jsonParse (objText ms) = Some (JObj kvs)" by (simp add: jsonParse_text del: jsonPrint.simps)
  show ?thesis
  proof (cases ms)
    case Nil
    with kvs p show ?thesis by (simp add: rawMembers_def)
  next
    case (Cons m ms')
    let ?body = "joinWith '','' (map (\<lambda>m. jsonQuote (fst m) @ '':'' @ snd m) ms)"
    have d: "drop 1 (skipWs (objText ms)) = ?body @ CHR ''}'' # []"
      by (simp add: objText_def skipWs_Cons isSpaceJ_def)
    have "length ms \<le> length (objText ms)"
      using length_joinWith_ge [of ms "\<lambda>m. jsonQuote (fst m) @ '':'' @ snd m" "'',''"] by (simp add: objText_def)
    from sliceMembers_text [OF _ w(3) this, of "[]"] Cons kvs p d show ?thesis
      by (cases kvs) (simp_all add: rawMembers_def)
  qed
qed

lemma arrText_arr: "list_all jsonText ts \<Longrightarrow> rawElems (arrText ts) = Some ts"
proof (frule texts_values)
  fix vs assume t: "list_all jsonText ts" and vs: "ts = map jsonPrint vs" "list_all wfRaw vs"
  then have w: "arrText ts = jsonPrint (JArr vs)" "wfRaw (JArr vs)"
    by (auto simp: arrText_print list_all_iff simp del: jsonPrint.simps)
  then have p: "jsonParse (arrText ts) = Some (JArr vs)" by (simp add: jsonParse_text del: jsonPrint.simps)
  show ?thesis
  proof (cases ts)
    case Nil
    with vs p show ?thesis by (simp add: rawElems_def)
  next
    case (Cons u us)
    have d: "drop 1 (skipWs (arrText ts)) = joinWith '','' ts @ CHR '']'' # []"
      by (simp add: arrText_def skipWs_Cons isSpaceJ_def)
    have "x \<in> set ts \<Longrightarrow> x \<noteq> []" for x using t jsonText_length by (auto simp: list_all_iff)
    then have "length ts \<le> length (arrText ts)"
      using length_joinWith_ge [of ts "\<lambda>x. x" "'',''"] by (simp add: arrText_def)
    from sliceElems_text [OF _ t this, of "[]"] Cons vs p d show ?thesis
      by (cases vs) (simp_all add: rawElems_def)
  qed
qed

section \<open>Fields of printed members\<close>

lemma jsonText_simps [simp]:
  "jsonText (jsonQuote x)" "jsonText (boolText b)" "jsonText (itoa i)" "jsonText ''null''"
proof -
  show "jsonText (jsonQuote x)" using jsonTextI [of "JStr x"] by simp
  show "jsonText (boolText b)" using jsonTextI [of "JBool b"] by (simp add: boolText_def)
  show "jsonText (itoa i)" using jsonTextI [of "JNum (itoa i)"] by (simp add: numLit_itoa)
  show "jsonText ''null''" using jsonTextI [of JNull] by simp
qed

lemma jsonParse_simps [simp]:
  "jsonParse (jsonQuote x) = Some (JStr x)" "jsonParse (boolText b) = Some (JBool b)"
  "jsonParse (itoa i) = Some (JNum (itoa i))" "jsonParse ''null'' = Some JNull"
proof -
  show "jsonParse (jsonQuote x) = Some (JStr x)" using jsonParse_text [of "JStr x"] by simp
  show "jsonParse (boolText b) = Some (JBool b)" using jsonParse_text [of "JBool b"] by (simp add: boolText_def)
  show "jsonParse (itoa i) = Some (JNum (itoa i))" using jsonParse_text [of "JNum (itoa i)"] by (simp add: numLit_itoa)
  show "jsonParse ''null'' = Some JNull" using jsonParse_text [of JNull] by simp
qed

lemma jsonText_strings [simp]: "jsonText (stringsText xs)"
  by (simp add: stringsText_def jsonText_arr list_all_iff)

lemma jsonParse_strings [simp]: "jsonParse (stringsText xs) = Some (JArr (map JStr xs))"
proof -
  have "stringsText xs = jsonPrint (JArr (map JStr xs))"
    by (simp add: stringsText_def arrText_def comp_def)
  then show ?thesis by (simp only:) (rule jsonParse_text, simp)
qed

lemma unmarshalStrings_JStr [simp]: "unmarshalStrings (JArr (map JStr xs)) = Some xs"
  by (simp add: unmarshalStrings_def unmarshalString_def list_all_iff comp_def)

lemma fieldVals_simps [simp]:
  "fieldVals k [] = []"
  "fieldVals k (ms @ ns) = fieldVals k ms @ fieldVals k ns"
  "fieldVals k (omit e j t) = (if toLower j = k then if e then [] else [t] else [])"
  by (simp_all add: fieldVals_def omit_def)

lemma omit_text [simp]: "list_all (\<lambda>m. jsonText (snd m)) (omit e j t) \<longleftrightarrow> e \<or> jsonText t"
  by (simp add: omit_def)

lemma foldField_string [simp]:
  "foldField setString [] (if x = [] then [] else [jsonQuote x]) = Some x"
  by (simp add: setString_def unmarshalString_def)

lemma foldField_boolPtr [simp]:
  "foldField setBoolPtr None (if b = None then [] else [boolText (the b)]) = Some b"
  by (cases b) (simp_all add: setBoolPtr_def unmarshalBool_def)

lemma foldField_strings [simp]:
  "foldField setStrings [] (if xs = [] then [] else [stringsText xs]) = Some xs"
  by (simp add: setStrings_def)

lemma foldField_int:
  "inIntRange i \<Longrightarrow> foldField setInt 0 (if i = 0 then [] else [itoa i]) = Some i"
  using atoi_itoa [of i] by (simp add: setInt_def unmarshalInt_def)

text \<open>Maps come back in key order.\<close>

lemma sortedMap_simps [simp]:
  "wf_map m \<Longrightarrow> map_of (sortedMap m) = map_of m" "wf_map m \<Longrightarrow> wf_map (sortedMap m)"
  "sortedMap m = [] \<longleftrightarrow> m = []"
proof -
  assume m: "wf_map m"
  show "map_of (sortedMap m) = map_of m"
  proof
    fix k
    show "map_of (sortedMap m) k = map_of m k"
    proof (cases "map_of m k")
      case None
      then have "k \<notin> set (sortedKeys m)" by (simp add: map_of_eq_None_iff)
      then have "k \<notin> fst ` set (sortedMap m)" by (auto simp: sortedMap_def simp del: sortedKeys_set)
      with None show ?thesis unfolding map_of_eq_None_iff [symmetric] by metis
    next
      case (Some v)
      then have "k \<in> set (sortedKeys m)" by (force dest: map_of_SomeD)
      then have "(k, the (map_of m k)) \<in> set (sortedMap m)" by (auto simp: sortedMap_def)
      moreover have "distinct (map fst (sortedMap m))" using m by (simp add: sortedMap_def comp_def)
      ultimately show ?thesis using Some by simp
    qed
  qed
  show "wf_map (sortedMap m)" using m by (simp add: sortedMap_def wf_map_def comp_def sortedKeys_def)
next
  show "sortedMap m = [] \<longleftrightarrow> m = []" by (simp add: sortedMap_def sortedKeys_def)
qed

lemma sortedMap_Nil [simp]: "sortedMap [] = []"
  by (simp add: sortedMap_def sortedKeys_def)

lemma sortedMap_idem [simp]: "wf_map m \<Longrightarrow> sortedMap (sortedMap m) = sortedMap m"
proof -
  assume m: "wf_map m"
  have "sortedKeys (sortedMap m) = sortedKeys m"
    by (simp add: sortedMap_def sortedKeys_def comp_def sorted_sort_id)
  then have "sortedMap (sortedMap m) = map (\<lambda>k. (k, the (map_of (sortedMap m) k))) (sortedKeys m)"
    by (simp add: sortedMap_def [of "sortedMap m"])
  also have "\<dots> = sortedMap m" using m by (simp add: sortedMap_def [of m, symmetric] del: sortedKeys_set)
  finally show ?thesis .
qed

lemma mput_fresh: "k \<notin> fst ` set m \<Longrightarrow> mput k v m = m @ [(k, v)]"
  by (induction m) (auto simp: mput_def)

lemma putMembers_fresh:
  "(\<And>k v. (k, v) \<in> set kvs \<Longrightarrow> dec (enc v) = Some v) \<Longrightarrow> wf_map (acc @ kvs) \<Longrightarrow>
     putMembers dec (map (\<lambda>(k, v). (k, enc v)) kvs) acc = Some (acc @ kvs)"
proof (induction kvs arbitrary: acc)
  case Nil
  then show ?case by simp
next
  case (Cons kv kvs)
  obtain k v where kv: "kv = (k, v)" by fastforce
  have "mput k v acc = acc @ [(k, v)]"
    by (rule mput_fresh) (use Cons.prems(2) kv in \<open>auto simp: wf_map_def\<close>)
  moreover have "dec (enc v) = Some v" using Cons.prems(1) [of k v] kv by simp
  moreover have "putMembers dec (map (\<lambda>(k, v). (k, enc v)) kvs) (acc @ [(k, v)]) = Some ((acc @ [(k, v)]) @ kvs)"
    by (rule Cons.IH) (use Cons.prems kv in auto)
  ultimately show ?case using kv by simp
qed

lemma mputall_fresh: "wf_map (acc @ ms) \<Longrightarrow> mputall acc ms = acc @ ms"
proof (induction ms arbitrary: acc)
  case Nil
  then show ?case by simp
next
  case (Cons m ms)
  obtain k v where m: "m = (k, v)" by fastforce
  have "mput k v acc = acc @ [(k, v)]"
    by (rule mput_fresh) (use Cons.prems m in \<open>auto simp: wf_map_def\<close>)
  with Cons.IH [of "acc @ [(k, v)]"] Cons.prems m show ?case by simp
qed

section \<open>Printed documents are compact\<close>

lemma compactFrom_plain:
  "(\<And>c. c \<in> set t \<Longrightarrow> \<not> isSpaceJ c \<and> c \<noteq> CHR 0x22) \<Longrightarrow> compactFrom False (t @ r) = t @ compactFrom False r"
  by (induction t) auto

lemma compactFrom_inside:
  "c \<noteq> CHR 0x5C \<Longrightarrow> c \<noteq> CHR 0x22 \<Longrightarrow> compactFrom True (c # s) = jsonEscape c @ compactFrom True s"
  by (cases s) auto

lemma hexc_escape: "d < 16 \<Longrightarrow> jsonEscape (hexc d) = [hexc d] \<and> hexc d \<noteq> CHR 0x5C \<and> hexc d \<noteq> CHR 0x22"
proof -
  assume d: "d < 16"
  have n: "of_char (hexc d) = (if d < 10 then 48 + d else 87 + d)" using d by (simp add: hexc_def)
  have "of_char (CHR 0x22) = (34::nat)" "of_char (CHR 0x5C) = (92::nat)" by code_simp+
  with n d have "hexc d \<noteq> CHR 0x5C" "hexc d \<noteq> CHR 0x22" by (auto split: if_splits)
  moreover have "jsonEscape (hexc d) = [hexc d]" using n d by (simp add: jsonEscape_def)
  ultimately show ?thesis by simp
qed

lemma compactFrom_escape: "compactFrom True (jsonEscape c @ s) = jsonEscape c @ compactFrom True s"
proof -
  let ?n = "of_char c :: nat"
  have h: "?n div 16 < 16" "?n mod 16 < 16" by (simp_all add: less_mult_imp_div_less)
  have z: "jsonEscape (CHR ''0'') = [CHR ''0'']" by code_simp
  have "of_char (CHR 0x22) = (34::nat)" "of_char (CHR 0x5C) = (92::nat)" by code_simp+
  then have "?n \<noteq> 34 \<Longrightarrow> c \<noteq> CHR 0x22" "?n \<noteq> 92 \<Longrightarrow> c \<noteq> CHR 0x5C" by metis+
  then have "compactFrom True (c # s) = jsonEscape c @ compactFrom True s" if "?n \<noteq> 34" "?n \<noteq> 92"
    using that by (simp add: compactFrom_inside)
  then show ?thesis
    using hexc_escape [OF h(1)] hexc_escape [OF h(2)] z
    by (auto simp: jsonEscape_def [of c] Let_def compactFrom_inside)
qed

lemma compactFrom_quote: "compactFrom False (jsonQuote x @ r) = jsonQuote x @ compactFrom False r"
proof -
  have "compactFrom True (concat (map jsonEscape x) @ CHR 0x22 # r) =
      concat (map jsonEscape x) @ CHR 0x22 # compactFrom False r"
  proof (induction x)
    case Nil
    then show ?case by (cases r) auto
  next
    case (Cons c x)
    then show ?case by (simp add: compactFrom_escape)
  qed
  then show ?thesis by (simp add: jsonQuote_def isSpaceJ_def)
qed

lemma numLit_plain: "numLit t \<Longrightarrow> c \<in> set t \<Longrightarrow> \<not> isSpaceJ c \<and> c \<noteq> CHR 0x22"
proof -
  assume n: "numLit t" and c: "c \<in> set t"
  have frac: "c \<in> set f \<Longrightarrow> isDecDigit c \<or> c = CHR ''.''" if "scanFrac s = Some (f, u)" for s f u
    using that by (auto simp: scanFrac_def Let_def split: if_splits dest: set_takeWhileD)
  have expo: "c \<in> set f \<Longrightarrow> isDecDigit c \<or> c \<in> set ''eE+-''" if "scanExp s = Some (f, u)" for s f u
    using that by (auto simp: scanExp_def Let_def hasPrefix_iff prefix_def split: list.splits if_splits dest: set_takeWhileD)
  let ?t = "trimPrefix t ''-''"
  obtain f u g where f: "scanFrac (dropWhile isDecDigit ?t) = Some (f, u)" and g: "scanExp u = Some (g, [])"
    and t: "t = (if hasPrefix t ''-'' then ''-'' else []) @ takeWhile isDecDigit ?t @ f @ g"
    using n by (auto simp: numLit_def scanNum_def Let_def split: if_splits option.splits)
  have "c \<in> set ''-'' \<or> c \<in> set (takeWhile isDecDigit ?t) \<or> c \<in> set f \<or> c \<in> set g"
    using c by (subst (asm) t) (auto split: if_splits)
  then have "isDecDigit c \<or> c \<in> set ''.eE+-''"
    using frac [OF f] expo [OF g] by (auto dest: set_takeWhileD)
  moreover have "isDecDigit c \<Longrightarrow> \<not> isSpaceJ c \<and> c \<noteq> CHR 0x22" by (auto simp: isDecDigit_iff isSpaceJ_def)
  ultimately show ?thesis by (auto simp: isSpaceJ_def)
qed

lemma compactFrom_join:
  "(\<And>x r. x \<in> set xs \<Longrightarrow> compactFrom False (f x @ r) = f x @ compactFrom False r) \<Longrightarrow>
     compactFrom False (joinWith '','' (map f xs) @ r) = joinWith '','' (map f xs) @ compactFrom False r"
proof (induction xs)
  case Nil
  then show ?case by simp
next
  case (Cons x xs)
  then have "compactFrom False (joinWith '','' (map f xs) @ r) = joinWith '','' (map f xs) @ compactFrom False r"
    by simp
  with Cons.prems [of x] show ?case by (cases xs) (simp_all add: isSpaceJ_def)
qed

lemma compactFrom_print: "wfRaw v \<Longrightarrow> compactFrom False (jsonPrint v @ r) = jsonPrint v @ compactFrom False r"
proof (induction v arbitrary: r)
  case (JNum t)
  then show ?case using compactFrom_plain [of t r] numLit_plain by simp
next
  case (JStr s)
  then show ?case by (simp add: compactFrom_quote)
next
  case (JArr xs)
  then have "compactFrom False (joinWith '','' (map jsonPrint xs) @ CHR '']'' # r) =
      joinWith '','' (map jsonPrint xs) @ compactFrom False (CHR '']'' # r)"
    by (intro compactFrom_join) auto
  then show ?case by (simp add: isSpaceJ_def)
next
  case (JObj kvs)
  let ?line = "\<lambda>kv. jsonQuote (fst kv) @ '':'' @ jsonPrint (snd kv)"
  have "compactFrom False (joinWith '','' (map ?line kvs) @ CHR ''}'' # r) =
      joinWith '','' (map ?line kvs) @ compactFrom False (CHR ''}'' # r)"
  proof (rule compactFrom_join)
    fix kv r
    assume kv: "kv \<in> set kvs"
    moreover have "snd kv \<in> Basic_BNFs.snds kv" by (simp add: prod_set_defs)
    ultimately have "compactFrom False (jsonPrint (snd kv) @ r) = jsonPrint (snd kv) @ compactFrom False r"
      using JObj.prems by (intro JObj.IH) auto
    then show "compactFrom False (?line kv @ r) = ?line kv @ compactFrom False r"
      by (simp add: compactFrom_quote isSpaceJ_def)
  qed
  then show ?case by (simp add: isSpaceJ_def)
qed (use compactFrom_plain [of "''null''" r] compactFrom_plain [of "''true''" r] compactFrom_plain [of "''false''" r]
  in \<open>auto simp: isSpaceJ_def\<close>)

lemma rawText_print: "jsonText t \<Longrightarrow> rawText t = Some t"
proof -
  assume "jsonText t"
  then obtain v where v: "wfRaw v" "t = jsonPrint v" by (auto simp: jsonText_def)
  then show ?thesis using compactFrom_print [of v "[]"] by (simp add: rawText_def jsonParse_text)
qed

lemma rawTexts_print: "list_all (\<lambda>m. jsonText (snd m)) m \<Longrightarrow> rawTexts m = Some m"
  by (induction m) (auto simp: rawText_print)

end
