(* ===== verification/Config_Normalize.thy ===== *)
theory Config_Normalize
  imports Json_Raw Substitute
begin

text \<open>
  The polymorphic fields of \<^verbatim>\<open>devcontainer.json\<close> (\<^verbatim>\<open>config/normalize.go\<close>). A field is the text of its
  \<^verbatim>\<open>json.RawMessage\<close>, empty when it is absent; a decoder is \<open>None\<close> where the source returns an error.
\<close>

section \<open>Scalars and lists\<close>

definition asString :: "string \<Rightarrow> string option" where
  "asString data = Option.bind (jsonParse data) unmarshalString"

definition asStrings :: "string \<Rightarrow> string list option" where
  "asStrings data = Option.bind (jsonParse data) unmarshalStrings"

definition asInt :: "string \<Rightarrow> int option" where
  "asInt data = Option.bind (jsonParse data) unmarshalInt"

definition decodeStringOrStringArray :: "string \<Rightarrow> string list option" where
  "decodeStringOrStringArray data =
     (if data = [] then Some []
      else case asString data of
             Some s \<Rightarrow> Some [s]
           | None \<Rightarrow> asStrings data)"

section \<open>Lifecycle commands\<close>

definition decodeCommandValue :: "string \<Rightarrow> command option" where
  "decodeCommandValue data =
     (case asString data of
        Some s \<Rightarrow> Some \<lparr>cm_Shell = s, cm_Exec = []\<rparr>
      | None \<Rightarrow> map_option (\<lambda>arr. \<lparr>cm_Shell = [], cm_Exec = arr\<rparr>) (asStrings data))"

fun decodeParallel :: "string gomap \<Rightarrow> command gomap option" where
  "decodeParallel [] = Some []"
| "decodeParallel ((name, raw) # m) =
     (case (decodeCommandValue raw, decodeParallel m) of
        (Some c, Some cs) \<Rightarrow> Some ((name, c) # cs)
      | _ \<Rightarrow> None)"

definition decodeLifecycleCommand :: "string \<Rightarrow> lifecycle_command option" where
  "decodeLifecycleCommand data =
     (if data = [] then Some emptyCommand
      else case asString data of
        Some s \<Rightarrow> Some \<lparr>lc_Single = Some \<lparr>cm_Shell = s, cm_Exec = []\<rparr>, lc_Parallel = []\<rparr>
      | None \<Rightarrow>
          (case asStrings data of
             Some arr \<Rightarrow> Some \<lparr>lc_Single = Some \<lparr>cm_Shell = [], cm_Exec = arr\<rparr>, lc_Parallel = []\<rparr>
           | None \<Rightarrow>
               (case rawMembers data of
                  None \<Rightarrow> None
                | Some ms \<Rightarrow>
                    map_option (\<lambda>par. \<lparr>lc_Single = None, lc_Parallel = par\<rparr>)
                      (decodeParallel (mputall [] ms)))))"

section \<open>Mounts\<close>

definition plainMount :: "string \<Rightarrow> string \<Rightarrow> string \<Rightarrow> bool \<Rightarrow> mount" where
  "plainMount ty src tgt ro =
     \<lparr>m_Type = ty, m_Source = src, m_Target = tgt, m_ReadOnly = ro,
      m_BindOptions = None, m_VolumeOptions = None, m_TmpfsOptions = None\<rparr>"

definition mountPart :: "string \<Rightarrow> mount \<Rightarrow> mount" where
  "mountPart p m =
     (case cutc (CHR ''='') p of
        None \<Rightarrow> m
      | Some (key, val) \<Rightarrow>
          if key = ''type'' then m\<lparr>m_Type := val\<rparr>
          else if key = ''source'' \<or> key = ''src'' then m\<lparr>m_Source := val\<rparr>
          else if key = ''target'' \<or> key = ''dst'' \<or> key = ''destination'' then m\<lparr>m_Target := val\<rparr>
          else if key = ''readonly'' \<or> key = ''ro'' then m\<lparr>m_ReadOnly := (val = ''true'' \<or> val = ''1'')\<rparr>
          else m)"

definition parseMountString :: "string \<Rightarrow> mount" where
  "parseMountString s = fold mountPart (splitc (CHR '','') s) (plainMount [] [] [] False)"

text \<open>\<^verbatim>\<open>rawMountObject\<close>.\<close>

definition decodeMountObject :: "string \<Rightarrow> mount option" where
  "decodeMountObject data =
     do { ms \<leftarrow> rawMembers data;
          ty \<leftarrow> stringField ''type'' ms;
          src \<leftarrow> stringField ''source'' ms;
          tgt \<leftarrow> stringField ''target'' ms;
          ro \<leftarrow> boolField ''readonly'' ms;
          Some (plainMount ty src tgt ro) }"

definition WarnUnknownField :: string where
  "WarnUnknownField = ''unknown_field''"

definition fieldWarning :: "string \<Rightarrow> string \<Rightarrow> warning" where
  "fieldWarning msg path = (mkWarning WarnUnknownField msg)\<lparr>w_Path := path\<rparr>"

definition mountWarning :: "nat \<Rightarrow> warning" where
  "mountWarning i =
     fieldWarning (''mounts['' @ itoaNat i @ '']: not a recognized string or object; skipped'')
       (''/mounts/'' @ itoaNat i)"

definition decodeMount :: "string \<Rightarrow> mount option" where
  "decodeMount item =
     (case asString item of
        Some s \<Rightarrow> Some (parseMountString s)
      | None \<Rightarrow>
          (case decodeMountObject item of
             None \<Rightarrow> None
           | Some m \<Rightarrow> if m_Type m \<noteq> [] \<or> m_Source m \<noteq> [] \<or> m_Target m \<noteq> [] then Some m else None))"

fun decodeMountItems :: "nat \<Rightarrow> string list \<Rightarrow> mount list \<times> warning list" where
  "decodeMountItems i [] = ([], [])"
| "decodeMountItems i (item # items) =
     (let (ms, ws) = decodeMountItems (Suc i) items in
      case decodeMount item of
        Some m \<Rightarrow> (m # ms, ws)
      | None \<Rightarrow> (ms, mountWarning i # ws))"

definition decodeMounts :: "string \<Rightarrow> (mount list \<times> warning list) option" where
  "decodeMounts data =
     (if data = [] then Some ([], []) else map_option (decodeMountItems 0) (rawElems data))"

definition decodeWorkspaceMount :: "string \<Rightarrow> mount option option" where
  "decodeWorkspaceMount data =
     (if data = [] then Some None
      else case asString data of
        Some s \<Rightarrow> Some (Some (parseMountString s))
      | None \<Rightarrow> map_option Some (decodeMountObject data))"

section \<open>Ports\<close>

definition containerPort :: "int \<Rightarrow> port_spec" where
  "containerPort n = \<lparr>ps_Container = n, ps_Host = 0, ps_Label = []\<rparr>"

definition parsePortString :: "string \<Rightarrow> string + port_spec" where
  "parsePortString s =
     (case cutc (CHR '':'') s of
        Some (host, container) \<Rightarrow>
          (case (atoi host, atoi container) of
             (Some h, Some c) \<Rightarrow> Inr \<lparr>ps_Container = c, ps_Host = h, ps_Label = []\<rparr>
           | _ \<Rightarrow> Inl (''invalid port spec '' @ goQuote s))
      | None \<Rightarrow>
          (case atoi s of
             None \<Rightarrow> Inl (''invalid port '' @ goQuote s)
           | Some n \<Rightarrow> Inr (containerPort n)))"

definition portWarning :: "nat \<Rightarrow> string \<Rightarrow> warning" where
  "portWarning i what =
     fieldWarning (''forwardPorts['' @ itoaNat i @ '']: '' @ what @ ''; skipped'') (''/forwardPorts/'' @ itoaNat i)"

definition decodePort :: "string \<Rightarrow> string + port_spec" where
  "decodePort item =
     (case asInt item of
        Some n \<Rightarrow> Inr (containerPort n)
      | None \<Rightarrow>
          (case asString item of
             Some s \<Rightarrow> parsePortString s
           | None \<Rightarrow> Inl ''not a number or string''))"

fun decodePortItems :: "nat \<Rightarrow> string list \<Rightarrow> port_spec list \<times> warning list" where
  "decodePortItems i [] = ([], [])"
| "decodePortItems i (item # items) =
     (let (ps, ws) = decodePortItems (Suc i) items in
      case decodePort item of
        Inr p \<Rightarrow> (p # ps, ws)
      | Inl e \<Rightarrow> (ps, portWarning i e # ws))"

definition decodeForwardPorts :: "string \<Rightarrow> (port_spec list \<times> warning list) option" where
  "decodeForwardPorts data =
     (if data = [] then Some ([], []) else map_option (decodePortItems 0) (rawElems data))"

text \<open>\<^verbatim>\<open>strings.Replace(s, old, new, 1)\<close>.\<close>

fun replaceOnce :: "string \<Rightarrow> string \<Rightarrow> string \<Rightarrow> string" where
  "replaceOnce [] old new = (if old = [] then new else [])"
| "replaceOnce (c # s) old new =
     (if hasPrefix (c # s) old then new @ drop (length old) (c # s) else c # replaceOnce s old new)"

definition retagAppPort :: "warning \<Rightarrow> warning" where
  "retagAppPort w = w\<lparr>w_Path := replaceOnce (w_Path w) ''/forwardPorts'' ''/appPort'',
     w_Message := replaceOnce (w_Message w) ''forwardPorts'' ''appPort''\<rparr>"

definition decodeAppPort :: "string \<Rightarrow> (port_spec list \<times> warning list) option" where
  "decodeAppPort data =
     (if data = [] then Some ([], [])
      else case asInt data of
        Some n \<Rightarrow> Some ([containerPort n], [])
      | None \<Rightarrow>
          (case asString data of
             Some s \<Rightarrow>
               (case parsePortString s of
                  Inl e \<Rightarrow> Some ([], [fieldWarning (''appPort: '' @ e @ ''; skipped'') ''/appPort''])
                | Inr p \<Rightarrow> Some ([p], []))
           | None \<Rightarrow> map_option (\<lambda>(ps, ws). (ps, map retagAppPort ws)) (decodeForwardPorts data)))"

section \<open>Every item is decoded or reported\<close>

lemma decodeMountItems_length:
  "length (fst (decodeMountItems i items)) + length (snd (decodeMountItems i items)) = length items"
  by (induction i items rule: decodeMountItems.induct) (auto split: option.splits prod.splits)

lemma decodePortItems_length:
  "length (fst (decodePortItems i items)) + length (snd (decodePortItems i items)) = length items"
  by (induction i items rule: decodePortItems.induct) (auto split: sum.splits prod.splits)

lemma parsePortString_print:
  assumes "inIntRange h" "inIntRange c"
  shows "parsePortString (itoa h @ '':'' @ itoa c) = Inr \<lparr>ps_Container = c, ps_Host = h, ps_Label = []\<rparr>"
proof -
  have "CHR '':'' \<notin> set (itoa h)"
    by (auto simp: itoa_def isDecDigit_iff dest!: itoaNat_decDigits)
  then have "cutc (CHR '':'') (itoa h @ '':'' @ itoa c) = Some (itoa h, itoa c)" by (simp add: cutc_Some)
  with assms show ?thesis by (simp add: parsePortString_def atoi_itoa)
qed

section \<open>Round trips of the canonical forms\<close>

lemma asString_quote [simp]: "asString (jsonQuote s) = Some s"
  by (simp add: asString_def unmarshalString_def)

lemma asString_strings [simp]: "asString (stringsText xs) = None" "asStrings (stringsText xs) = Some xs"
  by (simp_all add: asString_def asStrings_def unmarshalString_def)

lemma asString_null [simp]: "asString ''null'' = Some []"
  by (simp add: asString_def unmarshalString_def)

end
