(* ===== verification/Metadata_Label.thy ===== *)
theory Metadata_Label
  imports Config_Normalize Feature_Graph
begin

text \<open>
  The image label that carries the metadata of installed features (\<^verbatim>\<open>feature/metadata.go\<close>): encoding a
  build plan, decoding a label, and what survives the way through it. A \<^verbatim>\<open>json.RawMessage\<close> is its text,
  empty for nil. \<^verbatim>\<open>map[string]any\<close> inside \<^verbatim>\<open>dependsOn\<close> is a map that is not nil.
\<close>

section \<open>Entries\<close>

record raw_host_req =
  rh_CPUs :: int
  rh_Memory :: string
  rh_Storage :: string

record metadata_entry =
  me_ID :: string
  me_Version :: string
  me_ResolvedRef :: string
  me_DependsOn :: "json gomap gomap option"
  me_RemoteUser :: string
  me_ContainerUser :: string
  me_UserEnvProbe :: string
  me_WaitFor :: string
  me_ShutdownAction :: string
  me_UpdateRemoteUserUID :: "bool option"
  me_ContainerEnv :: "string gomap"
  me_RemoteEnv :: "string gomap"
  me_Init :: "bool option"
  me_Privileged :: "bool option"
  me_OverrideCommand :: "bool option"
  me_CapAdd :: "string list"
  me_SecurityOpt :: "string list"
  me_Entrypoint :: string
  me_Mounts :: string
  me_HostRequirements :: "raw_host_req option"
  me_OnCreateCommand :: string
  me_UpdateContentCommand :: string
  me_PostCreateCommand :: string
  me_PostStartCommand :: string
  me_PostAttachCommand :: string
  me_Customizations :: "string gomap"

section \<open>From metadata to entries\<close>

definition mountText :: "mount \<Rightarrow> string" where
  "mountText m = objText
     (omit (m_Type m = []) ''type'' (jsonQuote (m_Type m))
      @ omit (m_Source m = []) ''source'' (jsonQuote (m_Source m))
      @ omit (m_Target m = []) ''target'' (jsonQuote (m_Target m))
      @ omit (\<not> m_ReadOnly m) ''readonly'' (boolText (m_ReadOnly m)))"

definition encodeMounts :: "mount list \<Rightarrow> string" where
  "encodeMounts ms = arrText (map mountText ms)"

text \<open>A parallel command without a shell is its exec slice, nil when it is empty.\<close>

definition commandText :: "command \<Rightarrow> string" where
  "commandText c =
     (if cm_Shell c \<noteq> [] then jsonQuote (cm_Shell c)
      else if cm_Exec c = [] then ''null'' else stringsText (cm_Exec c))"

definition encodeLifecycleCommand :: "lifecycle_command \<Rightarrow> string" where
  "encodeLifecycleCommand l =
     (let par = (if lc_Parallel l = [] then [] else mapText commandText (lc_Parallel l)) in
      case lc_Single l of
        None \<Rightarrow> par
      | Some c \<Rightarrow>
          if cm_Shell c \<noteq> [] then jsonQuote (cm_Shell c)
          else if cm_Exec c \<noteq> [] then stringsText (cm_Exec c)
          else par)"

definition metadataFromFeatureMetadata :: "feature_metadata \<Rightarrow> metadata_entry" where
  "metadataFromFeatureMetadata m =
     \<lparr>me_ID = fm_ID m, me_Version = fm_Version m, me_ResolvedRef = fm_ResolvedRef m,
      me_DependsOn = fm_DependsOn m, me_RemoteUser = fm_RemoteUser m, me_ContainerUser = fm_ContainerUser m,
      me_UserEnvProbe = fm_UserEnvProbe m, me_WaitFor = fm_WaitFor m, me_ShutdownAction = fm_ShutdownAction m,
      me_UpdateRemoteUserUID = fm_UpdateRemoteUserUID m, me_ContainerEnv = fm_ContainerEnv m,
      me_RemoteEnv = fm_RemoteEnv m, me_Init = fm_Init m, me_Privileged = fm_Privileged m,
      me_OverrideCommand = fm_OverrideCommand m, me_CapAdd = fm_CapAdd m, me_SecurityOpt = fm_SecurityOpt m,
      me_Entrypoint = fm_Entrypoint m,
      me_Mounts = (if fm_Mounts m \<noteq> [] then encodeMounts (fm_Mounts m) else []),
      me_HostRequirements = map_option
        (\<lambda>h. \<lparr>rh_CPUs = hr_CPUs h, rh_Memory = hr_Memory h, rh_Storage = hr_Storage h\<rparr>) (fm_HostRequirements m),
      me_OnCreateCommand = encodeLifecycleCommand (fm_OnCreateCommand m),
      me_UpdateContentCommand = encodeLifecycleCommand (fm_UpdateContentCommand m),
      me_PostCreateCommand = encodeLifecycleCommand (fm_PostCreateCommand m),
      me_PostStartCommand = encodeLifecycleCommand (fm_PostStartCommand m),
      me_PostAttachCommand = encodeLifecycleCommand (fm_PostAttachCommand m),
      me_Customizations = fm_Customizations m\<rparr>"

section \<open>Encoding\<close>

definition hostReqText :: "raw_host_req \<Rightarrow> string" where
  "hostReqText h = objText
     (omit (rh_CPUs h = 0) ''cpus'' (itoa (rh_CPUs h))
      @ omit (rh_Memory h = []) ''memory'' (jsonQuote (rh_Memory h))
      @ omit (rh_Storage h = []) ''storage'' (jsonQuote (rh_Storage h)))"

definition dependsOnText :: "json gomap gomap \<Rightarrow> string" where
  "dependsOnText d = mapText (mapText jsonMarshal) d"

definition omitString :: "string \<Rightarrow> string \<Rightarrow> (string \<times> string) list" where
  "omitString k s = omit (s = []) k (jsonQuote s)"

definition omitBool :: "string \<Rightarrow> bool option \<Rightarrow> (string \<times> string) list" where
  "omitBool k b = omit (b = None) k (boolText (the b))"

definition omitRaw :: "string \<Rightarrow> string \<Rightarrow> (string \<times> string) list" where
  "omitRaw k t = omit (t = []) k t"

definition entryHead :: "metadata_entry \<Rightarrow> (string \<times> string) list" where
  "entryHead e =
     omitString ''id'' (me_ID e) @ omitString ''version'' (me_Version e)
     @ omitString ''resolvedRef'' (me_ResolvedRef e)
     @ omit (me_DependsOn e = None) ''dependsOn'' (dependsOnText (the (me_DependsOn e)))
     @ omitString ''remoteUser'' (me_RemoteUser e) @ omitString ''containerUser'' (me_ContainerUser e)
     @ omitString ''userEnvProbe'' (me_UserEnvProbe e) @ omitString ''waitFor'' (me_WaitFor e)
     @ omitString ''shutdownAction'' (me_ShutdownAction e)
     @ omitBool ''updateRemoteUserUID'' (me_UpdateRemoteUserUID e)
     @ omit (me_ContainerEnv e = []) ''containerEnv'' (mapText jsonQuote (me_ContainerEnv e))
     @ omit (me_RemoteEnv e = []) ''remoteEnv'' (mapText jsonQuote (me_RemoteEnv e))"

definition entryTail :: "metadata_entry \<Rightarrow> (string \<times> string) list" where
  "entryTail e =
     omitBool ''init'' (me_Init e) @ omitBool ''privileged'' (me_Privileged e)
     @ omitBool ''overrideCommand'' (me_OverrideCommand e)
     @ omit (me_CapAdd e = []) ''capAdd'' (stringsText (me_CapAdd e))
     @ omit (me_SecurityOpt e = []) ''securityOpt'' (stringsText (me_SecurityOpt e))
     @ omitString ''entrypoint'' (me_Entrypoint e) @ omitRaw ''mounts'' (me_Mounts e)
     @ omit (me_HostRequirements e = None) ''hostRequirements'' (hostReqText (the (me_HostRequirements e)))
     @ omitRaw ''onCreateCommand'' (me_OnCreateCommand e)
     @ omitRaw ''updateContentCommand'' (me_UpdateContentCommand e)
     @ omitRaw ''postCreateCommand'' (me_PostCreateCommand e)
     @ omitRaw ''postStartCommand'' (me_PostStartCommand e)
     @ omitRaw ''postAttachCommand'' (me_PostAttachCommand e)"

text \<open>
  \<^verbatim>\<open>json.Marshal\<close> of an entry. The texts of mounts and hooks were made by \<^verbatim>\<open>json.Marshal\<close> and are
  compact; customizations are texts of other documents, compacted here, and an error when they are none.
\<close>

definition entryText :: "metadata_entry \<Rightarrow> string option" where
  "entryText e =
     map_option (\<lambda>cust. objText (entryHead e @ entryTail e
         @ omit (me_Customizations e = []) ''customizations'' (objText cust)))
       (rawTexts (sortedMap (me_Customizations e)))"

fun entryTexts :: "metadata_entry list \<Rightarrow> string list option" where
  "entryTexts [] = Some []"
| "entryTexts (e # es) =
     (case (entryText e, entryTexts es) of (Some t, Some ts) \<Rightarrow> Some (t # ts) | _ \<Rightarrow> None)"

record build_plan =
  bp_BaseImage :: string
  bp_Features :: "resolved_feature list"
  bp_RemoteUser :: string
  bp_ContainerUser :: string
  bp_BaseImageMetadata :: "feature_metadata list"

definition installedEntry :: "resolved_feature \<Rightarrow> metadata_entry" where
  "installedEntry f =
     (metadataFromFeatureMetadata (rf_Metadata f))\<lparr>me_ResolvedRef := rf_ResolvedRef f,
        me_DependsOn := Some (case fm_DependsOn (rf_Metadata f) of None \<Rightarrow> [] | Some d \<Rightarrow> d)\<rparr>"

definition finalEntry :: "build_plan \<Rightarrow> metadata_entry" where
  "finalEntry plan = (metadataFromFeatureMetadata emptyMetadata)\<lparr>me_RemoteUser := bp_RemoteUser plan,
     me_ContainerUser := bp_ContainerUser plan\<rparr>"

definition labelEntries :: "build_plan \<Rightarrow> metadata_entry list" where
  "labelEntries plan =
     map metadataFromFeatureMetadata (bp_BaseImageMetadata plan)
     @ map installedEntry (filter (\<lambda>f. \<not> rf_AlreadyInstalled f) (bp_Features plan))
     @ [finalEntry plan]"

definition buildMetadataLabel :: "build_plan \<Rightarrow> string option" where
  "buildMetadataLabel plan = map_option arrText (entryTexts (labelEntries plan))"

section \<open>Decoding\<close>

definition setHostReq :: "raw_host_req option \<Rightarrow> string \<Rightarrow> raw_host_req option option" where
  "setHostReq acc t =
     (if jsonParse t = Some JNull then Some None
      else do { ms \<leftarrow> rawMembers t;
        let h = (case acc of None \<Rightarrow> \<lparr>rh_CPUs = 0, rh_Memory = [], rh_Storage = []\<rparr> | Some h \<Rightarrow> h);
        cpus \<leftarrow> foldField setInt (rh_CPUs h) (fieldVals ''cpus'' ms);
        mem \<leftarrow> foldField setString (rh_Memory h) (fieldVals ''memory'' ms);
        sto \<leftarrow> foldField setString (rh_Storage h) (fieldVals ''storage'' ms);
        Some (Some \<lparr>rh_CPUs = cpus, rh_Memory = mem, rh_Storage = sto\<rparr>) })"

fun foldHostReq :: "raw_host_req option \<Rightarrow> string list \<Rightarrow> raw_host_req option option" where
  "foldHostReq acc [] = Some acc"
| "foldHostReq acc (t # ts) =
     (case setHostReq acc t of None \<Rightarrow> None | Some a \<Rightarrow> foldHostReq a ts)"

definition anyMap :: "json \<Rightarrow> json gomap option" where
  "anyMap v = setMap (\<lambda>x. Some (toAny x)) [] v"

definition setDependsOn :: "json gomap gomap option \<Rightarrow> json \<Rightarrow> json gomap gomap option option" where
  "setDependsOn acc v =
     (if v = JNull then Some None
      else map_option Some (setMap anyMap (case acc of None \<Rightarrow> [] | Some d \<Rightarrow> d) v))"

definition decodeEntry :: "string \<Rightarrow> metadata_entry option" where
  "decodeEntry t =
     do { ms \<leftarrow> rawMembers t;
          i \<leftarrow> stringField ''id'' ms;
          version \<leftarrow> stringField ''version'' ms;
          ref \<leftarrow> stringField ''resolvedref'' ms;
          deps \<leftarrow> foldField setDependsOn None (fieldVals ''dependson'' ms);
          remoteUser \<leftarrow> stringField ''remoteuser'' ms;
          containerUser \<leftarrow> stringField ''containeruser'' ms;
          probe \<leftarrow> stringField ''userenvprobe'' ms;
          waitFor \<leftarrow> stringField ''waitfor'' ms;
          shutdown \<leftarrow> stringField ''shutdownaction'' ms;
          uid \<leftarrow> boolPtrField ''updateremoteuseruid'' ms;
          cenv \<leftarrow> stringMapField ''containerenv'' ms;
          renv \<leftarrow> stringMapField ''remoteenv'' ms;
          ini \<leftarrow> boolPtrField ''init'' ms;
          priv \<leftarrow> boolPtrField ''privileged'' ms;
          over \<leftarrow> boolPtrField ''overridecommand'' ms;
          cap \<leftarrow> stringsField ''capadd'' ms;
          secopt \<leftarrow> stringsField ''securityopt'' ms;
          entry \<leftarrow> stringField ''entrypoint'' ms;
          host \<leftarrow> foldHostReq None (fieldVals ''hostrequirements'' ms);
          cust \<leftarrow> rawMapField ''customizations'' ms;
          Some \<lparr>me_ID = i, me_Version = version, me_ResolvedRef = ref, me_DependsOn = deps,
            me_RemoteUser = remoteUser, me_ContainerUser = containerUser, me_UserEnvProbe = probe,
            me_WaitFor = waitFor, me_ShutdownAction = shutdown, me_UpdateRemoteUserUID = uid,
            me_ContainerEnv = cenv, me_RemoteEnv = renv, me_Init = ini, me_Privileged = priv,
            me_OverrideCommand = over, me_CapAdd = cap, me_SecurityOpt = secopt, me_Entrypoint = entry,
            me_Mounts = rawField ''mounts'' ms, me_HostRequirements = host,
            me_OnCreateCommand = rawField ''oncreatecommand'' ms,
            me_UpdateContentCommand = rawField ''updatecontentcommand'' ms,
            me_PostCreateCommand = rawField ''postcreatecommand'' ms,
            me_PostStartCommand = rawField ''poststartcommand'' ms,
            me_PostAttachCommand = rawField ''postattachcommand'' ms, me_Customizations = cust\<rparr> }"

definition mountsOf :: "string \<Rightarrow> mount list option" where
  "mountsOf data = (if data = [] then Some [] else map_option fst (decodeMounts data))"

definition toFeatureMetadata :: "metadata_entry \<Rightarrow> feature_metadata option" where
  "toFeatureMetadata e =
     do { mounts \<leftarrow> mountsOf (me_Mounts e);
          onCreate \<leftarrow> decodeLifecycleCommand (me_OnCreateCommand e);
          updateContent \<leftarrow> decodeLifecycleCommand (me_UpdateContentCommand e);
          postCreate \<leftarrow> decodeLifecycleCommand (me_PostCreateCommand e);
          postStart \<leftarrow> decodeLifecycleCommand (me_PostStartCommand e);
          postAttach \<leftarrow> decodeLifecycleCommand (me_PostAttachCommand e);
          Some (emptyMetadata\<lparr>fm_ID := me_ID e, fm_Version := me_Version e, fm_ResolvedRef := me_ResolvedRef e,
            fm_RemoteUser := me_RemoteUser e, fm_ContainerUser := me_ContainerUser e,
            fm_UserEnvProbe := me_UserEnvProbe e, fm_WaitFor := me_WaitFor e,
            fm_ShutdownAction := me_ShutdownAction e, fm_UpdateRemoteUserUID := me_UpdateRemoteUserUID e,
            fm_ContainerEnv := me_ContainerEnv e, fm_RemoteEnv := me_RemoteEnv e, fm_Init := me_Init e,
            fm_Privileged := me_Privileged e, fm_OverrideCommand := me_OverrideCommand e,
            fm_CapAdd := me_CapAdd e, fm_SecurityOpt := me_SecurityOpt e, fm_Entrypoint := me_Entrypoint e,
            fm_Customizations := me_Customizations e, fm_DependsOn := me_DependsOn e,
            fm_HostRequirements := map_option (\<lambda>h. \<lparr>hr_CPUs = rh_CPUs h, hr_Memory = rh_Memory h,
              hr_Storage = rh_Storage h, hr_GPU = None\<rparr>) (me_HostRequirements e),
            fm_Mounts := mounts, fm_OnCreateCommand := onCreate, fm_UpdateContentCommand := updateContent,
            fm_PostCreateCommand := postCreate, fm_PostStartCommand := postStart,
            fm_PostAttachCommand := postAttach\<rparr>) }"

fun entriesMetadata :: "metadata_entry list \<Rightarrow> feature_metadata list option" where
  "entriesMetadata [] = Some []"
| "entriesMetadata (e # es) =
     (case (toFeatureMetadata e, entriesMetadata es) of (Some m, Some ms) \<Rightarrow> Some (m # ms) | _ \<Rightarrow> None)"

fun decodeEntries :: "string list \<Rightarrow> metadata_entry list option" where
  "decodeEntries [] = Some []"
| "decodeEntries (t # ts) =
     (case (decodeEntry t, decodeEntries ts) of (Some e, Some es) \<Rightarrow> Some (e # es) | _ \<Rightarrow> None)"

definition ParseMetadataLabel :: "string \<Rightarrow> feature_metadata list option" where
  "ParseMetadataLabel label =
     (case label of
        [] \<Rightarrow> Some []
      | c # cs \<Rightarrow>
          if c = CHR ''{''
          then do { ms \<leftarrow> rawMembers label;
                    i \<leftarrow> stringField ''id'' ms;
                    version \<leftarrow> stringField ''version'' ms;
                    ref \<leftarrow> stringField ''resolvedref'' ms;
                    Some [emptyMetadata\<lparr>fm_ID := i, fm_Version := version, fm_ResolvedRef := ref\<rparr>] }
          else do { ts \<leftarrow> rawElems label;
                    es \<leftarrow> decodeEntries ts;
                    entriesMetadata es })"

section \<open>What a label keeps\<close>

definition keptSingle :: "command \<Rightarrow> command" where
  "keptSingle c = (if cm_Shell c \<noteq> [] then \<lparr>cm_Shell = cm_Shell c, cm_Exec = []\<rparr> else c)"

definition keptCommand :: "lifecycle_command \<Rightarrow> lifecycle_command" where
  "keptCommand l =
     (let par = \<lparr>lc_Single = None, lc_Parallel = map (\<lambda>(k, c). (k, keptSingle c)) (sortedMap (lc_Parallel l))\<rparr> in
      case lc_Single l of
        None \<Rightarrow> par
      | Some c \<Rightarrow> if cm_Shell c \<noteq> [] \<or> cm_Exec c \<noteq> [] then \<lparr>lc_Single = Some (keptSingle c), lc_Parallel = []\<rparr>
                  else par)"

definition namesMount :: "mount \<Rightarrow> bool" where
  "namesMount m \<longleftrightarrow> m_Type m \<noteq> [] \<or> m_Source m \<noteq> [] \<or> m_Target m \<noteq> []"

definition keptMounts :: "mount list \<Rightarrow> mount list" where
  "keptMounts ms =
     map (\<lambda>m. plainMount (m_Type m) (m_Source m) (m_Target m) (m_ReadOnly m)) (filter namesMount ms)"

definition keptDeps :: "json gomap gomap \<Rightarrow> json gomap gomap" where
  "keptDeps d = map (\<lambda>(k, opts). (k, sortedMap opts)) (sortedMap d)"

definition labelMetadata :: "feature_metadata \<Rightarrow> feature_metadata" where
  "labelMetadata m =
     m\<lparr>fm_Name := [], fm_Description := [], fm_DocumentationURL := [], fm_LicenseURL := [], fm_Options := [],
       fm_InstallsAfter := [], fm_ContainerEnv := sortedMap (fm_ContainerEnv m),
       fm_RemoteEnv := sortedMap (fm_RemoteEnv m), fm_Customizations := sortedMap (fm_Customizations m),
       fm_DependsOn := map_option keptDeps (fm_DependsOn m),
       fm_HostRequirements := map_option (\<lambda>h. h\<lparr>hr_GPU := None\<rparr>) (fm_HostRequirements m),
       fm_Mounts := keptMounts (fm_Mounts m), fm_OnCreateCommand := keptCommand (fm_OnCreateCommand m),
       fm_UpdateContentCommand := keptCommand (fm_UpdateContentCommand m),
       fm_PostCreateCommand := keptCommand (fm_PostCreateCommand m),
       fm_PostStartCommand := keptCommand (fm_PostStartCommand m),
       fm_PostAttachCommand := keptCommand (fm_PostAttachCommand m)\<rparr>"

text \<open>
  The metadata the round trip is about: maps with distinct keys, a CPU count in range, customizations that
  are compact documents (\<^verbatim>\<open>json.Marshal\<close> compacts a raw one, so a pretty-printed one comes back without its
  spaces), and option values that \<^verbatim>\<open>encoding/json\<close> gives back as they are.
\<close>

definition canonText :: "string \<Rightarrow> bool" where
  "canonText t = (case jsonParse t of None \<Rightarrow> False | Some v \<Rightarrow> wfRaw v \<and> jsonPrint v = t)"

definition stableAny :: "json \<Rightarrow> bool" where
  "stableAny v \<longleftrightarrow> wfRaw (fromAny v) \<and> toAny (fromAny v) = v"

definition depsWf :: "json gomap gomap option \<Rightarrow> bool" where
  "depsWf d = (case d of None \<Rightarrow> True | Some m \<Rightarrow>
     wf_map m \<and> list_all (\<lambda>(k, opts). wf_map opts \<and> list_all (\<lambda>(n, v). stableAny v) opts) m)"

definition labelWf :: "feature_metadata \<Rightarrow> bool" where
  "labelWf m \<longleftrightarrow>
     wf_map (fm_ContainerEnv m) \<and> wf_map (fm_RemoteEnv m) \<and> wf_map (fm_Customizations m)
     \<and> list_all (\<lambda>(k, t). canonText t) (fm_Customizations m) \<and> depsWf (fm_DependsOn m)
     \<and> (case fm_HostRequirements m of None \<Rightarrow> True | Some h \<Rightarrow> inIntRange (hr_CPUs h))
     \<and> list_all (\<lambda>c. wf_map (lc_Parallel c)) [fm_OnCreateCommand m, fm_UpdateContentCommand m,
         fm_PostCreateCommand m, fm_PostStartCommand m, fm_PostAttachCommand m]"

section \<open>Fields of an entry\<close>

lemma canonText_jsonText: "canonText t \<Longrightarrow> jsonText t"
  by (auto simp: canonText_def jsonText_def split: option.splits)

lemma sortedMap_mem: "wf_map m \<Longrightarrow> (k, v) \<in> set (sortedMap m) \<Longrightarrow> (k, v) \<in> set m"
  by (metis map_of_SomeD map_of_eq_Some_iff sortedMap_simps(1,2) wf_map_def)

lemma jsonText_mapText: "(\<And>v. jsonText (f v)) \<Longrightarrow> jsonText (mapText f m)"
  unfolding mapText_def by (rule jsonText_obj) (auto simp: list_all_iff)

lemma mapText_print:
  "mapText (\<lambda>v. jsonPrint (enc v)) m = jsonPrint (JObj (map (\<lambda>(k, v). (k, enc v)) (sortedMap m)))"
  unfolding mapText_def objText_print [symmetric] by (simp add: case_prod_unfold comp_def)

lemma mapText_quote: "mapText jsonQuote m = jsonPrint (JObj (map (\<lambda>(k, v). (k, JStr v)) (sortedMap m)))"
  using mapText_print [of JStr m] by simp

lemma stringMap_field:
  assumes "wf_map m"
  shows "foldField (setMap unmarshalString) [] (if m = [] then [] else [mapText jsonQuote m]) = Some (sortedMap m)"
proof (cases "m = []")
  case True
  then show ?thesis by simp
next
  case False
  have "jsonParse (mapText jsonQuote m) = Some (JObj (map (\<lambda>(k, v). (k, JStr v)) (sortedMap m)))"
    unfolding mapText_quote by (rule jsonParse_text) auto
  moreover have "putMembers unmarshalString (map (\<lambda>(k, v). (k, JStr v)) (sortedMap m)) [] = Some ([] @ sortedMap m)"
    by (rule putMembers_fresh) (use assms in \<open>simp_all add: unmarshalString_def\<close>)
  ultimately show ?thesis using False by (simp add: setMap_def)
qed

lemma anyMap_print:
  assumes "wf_map opts" "list_all (\<lambda>(n, v). stableAny v) opts"
  shows "anyMap (JObj (map (\<lambda>(n, v). (n, fromAny v)) opts)) = Some opts"
proof -
  have "putMembers (\<lambda>x. Some (toAny x)) (map (\<lambda>(n, v). (n, fromAny v)) opts) [] = Some ([] @ opts)"
    by (rule putMembers_fresh) (use assms in \<open>auto simp: list_all_iff stableAny_def\<close>)
  then show ?thesis by (simp add: anyMap_def setMap_def)
qed

definition depsJson :: "json gomap gomap \<Rightarrow> json" where
  "depsJson d = JObj (map (\<lambda>(k, opts). (k, JObj (map (\<lambda>(n, v). (n, fromAny v)) opts))) (keptDeps d))"

lemma dependsOnText_print: "dependsOnText d = jsonPrint (depsJson d)"
proof -
  have "mapText jsonMarshal = (\<lambda>opts. jsonPrint (JObj (map (\<lambda>(n, v). (n, fromAny v)) (sortedMap opts))))"
    using mapText_print [of fromAny] by (simp only: jsonMarshal_def [abs_def] fun_eq_iff) blast
  then have "dependsOnText d = mapText (\<lambda>opts. jsonPrint (JObj (map (\<lambda>(n, v). (n, fromAny v)) (sortedMap opts)))) d"
    by (simp only: dependsOnText_def)
  then show ?thesis unfolding mapText_print depsJson_def keptDeps_def
    by (simp add: case_prod_unfold comp_def del: jsonPrint.simps)
qed

lemma keptDeps_mem:
  assumes "depsWf (Some d)" "(k, opts) \<in> set (keptDeps d)"
  shows "wf_map opts \<and> list_all (\<lambda>(n, v). stableAny v) opts"
proof -
  from assms(2) obtain o' where o': "(k, o') \<in> set (sortedMap d)" "opts = sortedMap o'" by (auto simp: keptDeps_def)
  with assms(1) have "(k, o') \<in> set d" by (auto simp: depsWf_def intro: sortedMap_mem)
  with assms(1) have "wf_map o'" "list_all (\<lambda>(n, v). stableAny v) o'" by (auto simp: depsWf_def list_all_iff)
  with o'(2) show ?thesis by (auto simp: list_all_iff dest: sortedMap_mem)
qed

lemma keptDeps_wf: "depsWf (Some d) \<Longrightarrow> wf_map (keptDeps d)"
  using sortedMap_simps(2) [of d] by (simp add: depsWf_def keptDeps_def wf_map_def comp_def case_prod_unfold)

lemma wfRaw_depsJson: "depsWf (Some d) \<Longrightarrow> wfRaw (depsJson d)"
proof -
  assume d: "depsWf (Some d)"
  have "wfRaw (JObj (map (\<lambda>(n, v). (n, fromAny v)) opts))" if "(k, opts) \<in> set (keptDeps d)" for k opts
    using keptDeps_mem [OF d that] by (force simp: list_all_iff stableAny_def)
  then show ?thesis by (force simp: depsJson_def simp del: wfRaw.simps intro: wfRaw.simps(3) [THEN iffD2])
qed

lemma dependsOn_field:
  assumes "depsWf d"
  shows "foldField setDependsOn None (if d = None then [] else [dependsOnText (the d)]) = Some (map_option keptDeps d)"
proof (cases d)
  case None
  then show ?thesis by simp
next
  case (Some m)
  with assms have w: "depsWf (Some m)" by simp
  have p: "jsonParse (dependsOnText m) = Some (depsJson m)"
    unfolding dependsOnText_print by (rule jsonParse_text [OF wfRaw_depsJson [OF w]])
  have "putMembers anyMap (map (\<lambda>(k, opts). (k, JObj (map (\<lambda>(n, v). (n, fromAny v)) opts))) (keptDeps m)) []
      = Some ([] @ keptDeps m)"
    by (rule putMembers_fresh) (use keptDeps_mem [OF w] keptDeps_wf [OF w] anyMap_print in auto)
  then have "setDependsOn None (depsJson m) = Some (Some (keptDeps m))"
    by (simp add: setDependsOn_def depsJson_def setMap_def)
  with p Some show ?thesis by simp
qed

lemma hostReq_field:
  assumes "case h of None \<Rightarrow> True | Some x \<Rightarrow> inIntRange (rh_CPUs x)"
  shows "foldHostReq None (if h = None then [] else [hostReqText (the h)]) = Some h"
proof (cases h)
  case None
  then show ?thesis by simp
next
  case (Some x)
  let ?ms = "omit (rh_CPUs x = 0) ''cpus'' (itoa (rh_CPUs x)) @ omit (rh_Memory x = []) ''memory'' (jsonQuote (rh_Memory x))
      @ omit (rh_Storage x = []) ''storage'' (jsonQuote (rh_Storage x))"
  have t: "list_all (\<lambda>m. jsonText (snd m)) ?ms" by simp
  have r: "rawMembers (hostReqText x) = Some ?ms"
    unfolding hostReqText_def by (rule objText_obj [OF jsonText_obj [OF t] t])
  have "jsonParse (hostReqText x) \<noteq> Some JNull"
  proof -
    obtain kvs where "?ms = map (\<lambda>(k, v). (k, jsonPrint v)) kvs" "list_all (\<lambda>m. wfRaw (snd m)) kvs"
      using t by (rule members_values)
    then have "hostReqText x = jsonPrint (JObj kvs)" "wfRaw (JObj kvs)"
      unfolding hostReqText_def by (auto simp only: objText_print list_all_iff wfRaw.simps)
    then show ?thesis by (simp add: jsonParse_text del: jsonPrint.simps)
  qed
  moreover have "toLower ''cpus'' = ''cpus''" "toLower ''memory'' = ''memory''" "toLower ''storage'' = ''storage''"
    by code_simp+
  then have "fieldVals ''cpus'' ?ms = (if rh_CPUs x = 0 then [] else [itoa (rh_CPUs x)])"
      "fieldVals ''memory'' ?ms = (if rh_Memory x = [] then [] else [jsonQuote (rh_Memory x)])"
      "fieldVals ''storage'' ?ms = (if rh_Storage x = [] then [] else [jsonQuote (rh_Storage x)])"
    by simp_all
  moreover have "inIntRange (rh_CPUs x)" using assms Some by simp
  ultimately have "setHostReq None (hostReqText x) = Some (Some x)"
    by (simp add: setHostReq_def r foldField_int Let_def del: fieldVals_simps split del: if_split)
  with Some show ?thesis by simp
qed

section \<open>Entries\<close>

definition entryWf :: "metadata_entry \<Rightarrow> bool" where
  "entryWf e \<longleftrightarrow>
     wf_map (me_ContainerEnv e) \<and> wf_map (me_RemoteEnv e) \<and> wf_map (me_Customizations e)
     \<and> list_all (\<lambda>m. jsonText (snd m)) (me_Customizations e) \<and> depsWf (me_DependsOn e)
     \<and> (case me_HostRequirements e of None \<Rightarrow> True | Some h \<Rightarrow> inIntRange (rh_CPUs h))
     \<and> list_all (\<lambda>t. t = [] \<or> jsonText t) [me_Mounts e, me_OnCreateCommand e, me_UpdateContentCommand e,
         me_PostCreateCommand e, me_PostStartCommand e, me_PostAttachCommand e]"

definition canonEntry :: "metadata_entry \<Rightarrow> metadata_entry" where
  "canonEntry e = e\<lparr>me_ContainerEnv := sortedMap (me_ContainerEnv e), me_RemoteEnv := sortedMap (me_RemoteEnv e),
     me_Customizations := sortedMap (me_Customizations e), me_DependsOn := map_option keptDeps (me_DependsOn e)\<rparr>"

definition entryMembers :: "metadata_entry \<Rightarrow> (string \<times> string) list" where
  "entryMembers e = entryHead e @ entryTail e
     @ omit (me_Customizations e = []) ''customizations'' (objText (sortedMap (me_Customizations e)))"

lemma entryHead_texts: "depsWf (me_DependsOn e) \<Longrightarrow> list_all (\<lambda>m. jsonText (snd m)) (entryHead e)"
proof -
  assume "depsWf (me_DependsOn e)"
  then have "me_DependsOn e = None \<or> jsonText (dependsOnText (the (me_DependsOn e)))"
    by (cases "me_DependsOn e") (auto simp: dependsOnText_print intro: jsonTextI wfRaw_depsJson)
  then show ?thesis by (simp add: entryHead_def omitString_def omitBool_def jsonText_mapText)
qed

lemma jsonText_hostReq: "jsonText (hostReqText h)"
  unfolding hostReqText_def by (rule jsonText_obj) simp

lemma entryTail_texts: "entryWf e \<Longrightarrow> list_all (\<lambda>m. jsonText (snd m)) (entryTail e)"
  by (simp add: entryTail_def entryWf_def omitString_def omitBool_def omitRaw_def jsonText_hostReq)

lemma customizations_texts:
  "entryWf e \<Longrightarrow> list_all (\<lambda>m. jsonText (snd m)) (sortedMap (me_Customizations e))"
  by (auto simp: entryWf_def list_all_iff dest: sortedMap_mem)

lemma entryMembers_texts: "entryWf e \<Longrightarrow> list_all (\<lambda>m. jsonText (snd m)) (entryMembers e)"
  using entryHead_texts [of e] entryTail_texts [of e] jsonText_obj [OF customizations_texts [of e]]
  by (simp add: entryMembers_def entryWf_def)

lemma entryText_members: "entryWf e \<Longrightarrow> entryText e = Some (objText (entryMembers e))"
  by (simp add: entryText_def entryMembers_def rawTexts_print [OF customizations_texts])

text \<open>The texts under each name.\<close>

definition stringVals :: "string \<Rightarrow> string list" where
  "stringVals s = (if s = [] then [] else [jsonQuote s])"

definition boolVals :: "bool option \<Rightarrow> string list" where
  "boolVals b = (if b = None then [] else [boolText (the b)])"

definition rawVals :: "string \<Rightarrow> string list" where
  "rawVals t = (if t = [] then [] else [t])"

lemma fieldVals_omit:
  "fieldVals k (omitString j s) = (if toLower j = k then stringVals s else [])"
  "fieldVals k (omitBool j b) = (if toLower j = k then boolVals b else [])"
  "fieldVals k (omitRaw j t) = (if toLower j = k then rawVals t else [])"
  by (simp_all add: omitString_def omitBool_def omitRaw_def stringVals_def boolVals_def rawVals_def)

lemma lower_names:
  "toLower ''id'' = ''id''" "toLower ''version'' = ''version''" "toLower ''resolvedRef'' = ''resolvedref''"
  "toLower ''dependsOn'' = ''dependson''" "toLower ''remoteUser'' = ''remoteuser''"
  "toLower ''containerUser'' = ''containeruser''" "toLower ''userEnvProbe'' = ''userenvprobe''"
  "toLower ''waitFor'' = ''waitfor''" "toLower ''shutdownAction'' = ''shutdownaction''"
  "toLower ''updateRemoteUserUID'' = ''updateremoteuseruid''" "toLower ''containerEnv'' = ''containerenv''"
  "toLower ''remoteEnv'' = ''remoteenv''" "toLower ''init'' = ''init''" "toLower ''privileged'' = ''privileged''"
  "toLower ''overrideCommand'' = ''overridecommand''" "toLower ''capAdd'' = ''capadd''"
  "toLower ''securityOpt'' = ''securityopt''" "toLower ''entrypoint'' = ''entrypoint''"
  "toLower ''mounts'' = ''mounts''" "toLower ''hostRequirements'' = ''hostrequirements''"
  "toLower ''onCreateCommand'' = ''oncreatecommand''" "toLower ''updateContentCommand'' = ''updatecontentcommand''"
  "toLower ''postCreateCommand'' = ''postcreatecommand''" "toLower ''postStartCommand'' = ''poststartcommand''"
  "toLower ''postAttachCommand'' = ''postattachcommand''" "toLower ''customizations'' = ''customizations''"
  by code_simp+

lemmas entry_fields = entryMembers_def entryHead_def entryTail_def fieldVals_omit lower_names

lemma vals_head:
  "fieldVals ''id'' (entryMembers e) = stringVals (me_ID e)"
  "fieldVals ''version'' (entryMembers e) = stringVals (me_Version e)"
  "fieldVals ''resolvedref'' (entryMembers e) = stringVals (me_ResolvedRef e)"
  "fieldVals ''dependson'' (entryMembers e) =
     (if me_DependsOn e = None then [] else [dependsOnText (the (me_DependsOn e))])"
  "fieldVals ''remoteuser'' (entryMembers e) = stringVals (me_RemoteUser e)"
  "fieldVals ''containeruser'' (entryMembers e) = stringVals (me_ContainerUser e)"
  "fieldVals ''userenvprobe'' (entryMembers e) = stringVals (me_UserEnvProbe e)"
  "fieldVals ''waitfor'' (entryMembers e) = stringVals (me_WaitFor e)"
  "fieldVals ''shutdownaction'' (entryMembers e) = stringVals (me_ShutdownAction e)"
  "fieldVals ''updateremoteuseruid'' (entryMembers e) = boolVals (me_UpdateRemoteUserUID e)"
  "fieldVals ''containerenv'' (entryMembers e) =
     (if me_ContainerEnv e = [] then [] else [mapText jsonQuote (me_ContainerEnv e)])"
  "fieldVals ''remoteenv'' (entryMembers e) =
     (if me_RemoteEnv e = [] then [] else [mapText jsonQuote (me_RemoteEnv e)])"
  by (simp_all add: entry_fields)

lemma vals_tail:
  "fieldVals ''init'' (entryMembers e) = boolVals (me_Init e)"
  "fieldVals ''privileged'' (entryMembers e) = boolVals (me_Privileged e)"
  "fieldVals ''overridecommand'' (entryMembers e) = boolVals (me_OverrideCommand e)"
  "fieldVals ''capadd'' (entryMembers e) = (if me_CapAdd e = [] then [] else [stringsText (me_CapAdd e)])"
  "fieldVals ''securityopt'' (entryMembers e) =
     (if me_SecurityOpt e = [] then [] else [stringsText (me_SecurityOpt e)])"
  "fieldVals ''entrypoint'' (entryMembers e) = stringVals (me_Entrypoint e)"
  "fieldVals ''mounts'' (entryMembers e) = rawVals (me_Mounts e)"
  "fieldVals ''hostrequirements'' (entryMembers e) =
     (if me_HostRequirements e = None then [] else [hostReqText (the (me_HostRequirements e))])"
  "fieldVals ''oncreatecommand'' (entryMembers e) = rawVals (me_OnCreateCommand e)"
  "fieldVals ''updatecontentcommand'' (entryMembers e) = rawVals (me_UpdateContentCommand e)"
  "fieldVals ''postcreatecommand'' (entryMembers e) = rawVals (me_PostCreateCommand e)"
  "fieldVals ''poststartcommand'' (entryMembers e) = rawVals (me_PostStartCommand e)"
  "fieldVals ''postattachcommand'' (entryMembers e) = rawVals (me_PostAttachCommand e)"
  "fieldVals ''customizations'' (entryMembers e) =
     (if me_Customizations e = [] then [] else [objText (sortedMap (me_Customizations e))])"
  by (simp_all add: entry_fields)

lemma vals_decode:
  "foldField setString [] (stringVals s) = Some s"
  "foldField setBoolPtr None (boolVals b) = Some b"
  "(case rawVals t of [] \<Rightarrow> [] | u # us \<Rightarrow> last (u # us)) = t"
  by (simp_all add: stringVals_def boolVals_def rawVals_def del: foldField.simps)

lemma customizations_field:
  assumes "wf_map m" "list_all (\<lambda>m. jsonText (snd m)) (sortedMap m)"
  shows "foldRawMap [] (if m = [] then [] else [objText (sortedMap m)]) = Some (sortedMap m)"
proof -
  have "rawMembers (objText (sortedMap m)) = Some (sortedMap m)"
    by (rule objText_obj [OF jsonText_obj [OF assms(2)] assms(2)])
  moreover have "mputall [] (sortedMap m) = sortedMap m"
    using mputall_fresh [of "[]" "sortedMap m"] assms(1) by simp
  moreover have "jsonParse (objText (sortedMap m)) \<noteq> Some JNull"
  proof -
    obtain kvs where "sortedMap m = map (\<lambda>(k, v). (k, jsonPrint v)) kvs" "list_all (\<lambda>m. wfRaw (snd m)) kvs"
      using assms(2) by (rule members_values)
    then have "objText (sortedMap m) = jsonPrint (JObj kvs)" "wfRaw (JObj kvs)"
      by (auto simp only: objText_print list_all_iff wfRaw.simps)
    then show ?thesis by (simp add: jsonParse_text del: jsonPrint.simps)
  qed
  ultimately show ?thesis by simp
qed

lemma decodeEntry_text:
  assumes "entryWf e"
  shows "decodeEntry (objText (entryMembers e)) = Some (canonEntry e)"
proof -
  note t = entryMembers_texts [OF assms]
  have r: "rawMembers (objText (entryMembers e)) = Some (entryMembers e)"
    by (rule objText_obj [OF jsonText_obj [OF t] t])
  have w: "wf_map (me_ContainerEnv e)" "wf_map (me_RemoteEnv e)" "wf_map (me_Customizations e)"
      "depsWf (me_DependsOn e)" "case me_HostRequirements e of None \<Rightarrow> True | Some h \<Rightarrow> inIntRange (rh_CPUs h)"
    using assms by (simp_all add: entryWf_def)
  show ?thesis
    by (simp add: decodeEntry_def r stringField_def boolPtrField_def stringsField_def stringMapField_def
        rawMapField_def rawField_def vals_head vals_tail vals_decode
        stringMap_field [OF w(1)] stringMap_field [OF w(2)] dependsOn_field [OF w(4)] hostReq_field [OF w(5)]
        customizations_field [OF w(3) customizations_texts [OF assms]] canonEntry_def
        del: foldField.simps foldRawMap.simps foldHostReq.simps split del: if_split)
qed

section \<open>Mounts and hooks\<close>

lemma mountText_object:
  "rawMembers (mountText m) =
     Some (omitString ''type'' (m_Type m) @ omitString ''source'' (m_Source m) @ omitString ''target'' (m_Target m)
       @ omit (\<not> m_ReadOnly m) ''readonly'' (boolText (m_ReadOnly m)))"
  unfolding mountText_def omitString_def by (rule objText_obj [OF jsonText_obj]) simp_all

lemma jsonText_mount: "jsonText (mountText m)"
  unfolding mountText_def by (rule jsonText_obj) simp

lemma not_string_obj: "list_all (\<lambda>m. jsonText (snd m)) ms \<Longrightarrow> asString (objText ms) = None \<and> asStrings (objText ms) = None"
proof (erule members_values)
  fix kvs assume kvs: "ms = map (\<lambda>(k, v). (k, jsonPrint v)) kvs" "list_all (\<lambda>m. wfRaw (snd m)) kvs"
  then have "objText ms = jsonPrint (JObj kvs)" "wfRaw (JObj kvs)"
    by (auto simp: objText_print list_all_iff simp del: jsonPrint.simps)
  then have "jsonParse (objText ms) = Some (JObj kvs)" by (simp add: jsonParse_text del: jsonPrint.simps)
  then show ?thesis by (simp add: asString_def asStrings_def unmarshalString_def unmarshalStrings_def)
qed

lemma decodeMount_text:
  "decodeMount (mountText m) =
     (if namesMount m then Some (plainMount (m_Type m) (m_Source m) (m_Target m) (m_ReadOnly m)) else None)"
proof -
  have l: "toLower ''type'' = ''type''" "toLower ''source'' = ''source''" "toLower ''target'' = ''target''"
    "toLower ''readonly'' = ''readonly''" by code_simp+
  have "asString (mountText m) = None"
    unfolding mountText_def by (rule conjunct1 [OF not_string_obj]) simp
  moreover have "foldField setBool False (if \<not> m_ReadOnly m then [] else [boolText (m_ReadOnly m)]) = Some (m_ReadOnly m)"
    by (simp add: setBool_def unmarshalBool_def)
  then have "decodeMountObject (mountText m) = Some (plainMount (m_Type m) (m_Source m) (m_Target m) (m_ReadOnly m))"
    by (simp add: decodeMountObject_def mountText_object stringField_def boolField_def fieldVals_omit l vals_decode
        del: foldField.simps split del: if_split)
  ultimately show ?thesis by (simp add: decodeMount_def namesMount_def plainMount_def)
qed

lemma decodeMountItems_text: "fst (decodeMountItems i (map mountText ms)) = keptMounts ms"
  by (induction ms arbitrary: i) (simp_all add: keptMounts_def decodeMount_text case_prod_beta)

lemma decodeMounts_text: "map_option fst (decodeMounts (encodeMounts ms)) = Some (keptMounts ms)"
proof -
  have "list_all jsonText (map mountText ms)" by (simp add: list_all_iff jsonText_mount)
  then have "rawElems (encodeMounts ms) = Some (map mountText ms)"
    unfolding encodeMounts_def by (rule arrText_arr)
  moreover have "encodeMounts ms \<noteq> []" by (simp add: encodeMounts_def arrText_def)
  ultimately show ?thesis
    by (simp only: decodeMounts_def if_False option.map decodeMountItems_text)
qed

lemma jsonText_mounts: "jsonText (encodeMounts ms)"
  unfolding encodeMounts_def by (rule jsonText_arr) (simp add: list_all_iff jsonText_mount)

lemma jsonText_command: "jsonText (commandText c)"
  by (simp add: commandText_def)

lemma decodeCommandValue_text: "decodeCommandValue (commandText c) = Some (keptSingle c)"
  by (cases c) (auto simp: commandText_def decodeCommandValue_def keptSingle_def)

lemma decodeParallel_text:
  "decodeParallel (map (\<lambda>(k, c). (k, commandText c)) m) = Some (map (\<lambda>(k, c). (k, keptSingle c)) m)"
  by (induction m) (auto simp: decodeCommandValue_text)

lemma jsonText_lifecycle: "encodeLifecycleCommand l = [] \<or> jsonText (encodeLifecycleCommand l)"
  by (auto simp: encodeLifecycleCommand_def Let_def jsonText_mapText jsonText_command split: option.splits)

lemma decodeLifecycle_parallel:
  assumes "wf_map m"
  shows "decodeLifecycleCommand (if m = [] then [] else mapText commandText m)
    = Some \<lparr>lc_Single = None, lc_Parallel = map (\<lambda>(k, c). (k, keptSingle c)) (sortedMap m)\<rparr>"
proof (cases "m = []")
  case True
  then show ?thesis by (simp add: decodeLifecycleCommand_def emptyCommand_def)
next
  case False
  let ?ms = "map (\<lambda>(k, c). (k, commandText c)) (sortedMap m)"
  have t: "list_all (\<lambda>m. jsonText (snd m)) ?ms" by (auto simp: list_all_iff jsonText_command)
  have r: "rawMembers (mapText commandText m) = Some ?ms"
    unfolding mapText_def by (rule objText_obj [OF jsonText_obj [OF t] t])
  have s: "asString (mapText commandText m) = None" "asStrings (mapText commandText m) = None"
    using not_string_obj [OF t] by (simp_all add: mapText_def)
  have "wf_map ?ms" using sortedMap_simps(2) [OF assms] by (simp add: wf_map_def comp_def case_prod_unfold)
  then have "mputall [] ?ms = ?ms" using mputall_fresh [of "[]" ?ms] by simp
  moreover have "mapText commandText m \<noteq> []" by (simp add: mapText_def objText_def)
  ultimately show ?thesis using False r s
    by (simp add: decodeLifecycleCommand_def decodeParallel_text)
qed

lemma decodeLifecycle_text:
  assumes "wf_map (lc_Parallel l)"
  shows "decodeLifecycleCommand (encodeLifecycleCommand l) = Some (keptCommand l)"
proof -
  have q: "jsonQuote s \<noteq> []" "stringsText xs \<noteq> []" for s xs
    by (simp_all add: jsonQuote_def stringsText_def arrText_def)
  show ?thesis
  proof (cases "lc_Single l")
    case None
    then show ?thesis using decodeLifecycle_parallel [OF assms]
      by (simp add: encodeLifecycleCommand_def keptCommand_def Let_def)
  next
    case (Some c)
    consider "cm_Shell c \<noteq> []" | "cm_Shell c = []" "cm_Exec c \<noteq> []" | "cm_Shell c = []" "cm_Exec c = []" by blast
    then show ?thesis
    proof cases
      case 1
      with Some show ?thesis
        by (simp add: encodeLifecycleCommand_def keptCommand_def keptSingle_def decodeLifecycleCommand_def q Let_def)
    next
      case 2
      with Some show ?thesis
        by (cases c) (simp add: encodeLifecycleCommand_def keptCommand_def keptSingle_def decodeLifecycleCommand_def q Let_def)
    next
      case 3
      with Some show ?thesis using decodeLifecycle_parallel [OF assms]
        by (simp add: encodeLifecycleCommand_def keptCommand_def Let_def)
    qed
  qed
qed

section \<open>The round trip\<close>

lemma entryWf_metadata: "labelWf m \<Longrightarrow> entryWf (metadataFromFeatureMetadata m)"
  by (auto simp: labelWf_def entryWf_def metadataFromFeatureMetadata_def jsonText_lifecycle jsonText_mounts
      canonText_jsonText list_all_iff split: option.splits)

lemma toFeatureMetadata_entry:
  assumes "labelWf m" "d = map_option keptDeps d'"
  shows "toFeatureMetadata (canonEntry ((metadataFromFeatureMetadata m)
      \<lparr>me_ResolvedRef := ref, me_DependsOn := d', me_RemoteUser := ru, me_ContainerUser := cu\<rparr>))
    = Some ((labelMetadata m)\<lparr>fm_ResolvedRef := ref, fm_DependsOn := d, fm_RemoteUser := ru, fm_ContainerUser := cu\<rparr>)"
proof -
  have "encodeMounts ms \<noteq> []" for ms by (simp add: encodeMounts_def arrText_def)
  then have ms: "mountsOf (me_Mounts (metadataFromFeatureMetadata m)) = Some (keptMounts (fm_Mounts m))"
    using decodeMounts_text [of "fm_Mounts m"]
    by (simp add: metadataFromFeatureMetadata_def keptMounts_def mountsOf_def)
  have h: "decodeLifecycleCommand (encodeLifecycleCommand l) = Some (keptCommand l)"
    if "l \<in> {fm_OnCreateCommand m, fm_UpdateContentCommand m, fm_PostCreateCommand m, fm_PostStartCommand m,
      fm_PostAttachCommand m}" for l
    using that assms(1) by (auto simp: labelWf_def intro: decodeLifecycle_text)
  let ?e = "metadataFromFeatureMetadata m"
  have sel: "me_ID ?e = fm_ID m" "me_Version ?e = fm_Version m" "me_UserEnvProbe ?e = fm_UserEnvProbe m"
    "me_WaitFor ?e = fm_WaitFor m" "me_ShutdownAction ?e = fm_ShutdownAction m"
    "me_UpdateRemoteUserUID ?e = fm_UpdateRemoteUserUID m" "me_ContainerEnv ?e = fm_ContainerEnv m"
    "me_RemoteEnv ?e = fm_RemoteEnv m" "me_Init ?e = fm_Init m" "me_Privileged ?e = fm_Privileged m"
    "me_OverrideCommand ?e = fm_OverrideCommand m" "me_CapAdd ?e = fm_CapAdd m"
    "me_SecurityOpt ?e = fm_SecurityOpt m" "me_Entrypoint ?e = fm_Entrypoint m"
    "me_Customizations ?e = fm_Customizations m"
    "me_OnCreateCommand ?e = encodeLifecycleCommand (fm_OnCreateCommand m)"
    "me_UpdateContentCommand ?e = encodeLifecycleCommand (fm_UpdateContentCommand m)"
    "me_PostCreateCommand ?e = encodeLifecycleCommand (fm_PostCreateCommand m)"
    "me_PostStartCommand ?e = encodeLifecycleCommand (fm_PostStartCommand m)"
    "me_PostAttachCommand ?e = encodeLifecycleCommand (fm_PostAttachCommand m)"
    by (simp_all add: metadataFromFeatureMetadata_def)
  have hr: "map_option (\<lambda>h. \<lparr>hr_CPUs = rh_CPUs h, hr_Memory = rh_Memory h, hr_Storage = rh_Storage h, hr_GPU = None\<rparr>)
      (me_HostRequirements ?e) = map_option (\<lambda>h. h\<lparr>hr_GPU := None\<rparr>) (fm_HostRequirements m)"
    by (cases "fm_HostRequirements m") (simp_all add: metadataFromFeatureMetadata_def)
  let ?k = "(labelMetadata m)\<lparr>fm_ResolvedRef := ref, fm_DependsOn := d, fm_RemoteUser := ru, fm_ContainerUser := cu\<rparr>"
  have "toFeatureMetadata (canonEntry (?e\<lparr>me_ResolvedRef := ref, me_DependsOn := d', me_RemoteUser := ru, me_ContainerUser := cu\<rparr>))
      = Some (emptyMetadata\<lparr>fm_ID := fm_ID ?k, fm_Version := fm_Version ?k, fm_ResolvedRef := ref, fm_RemoteUser := ru,
          fm_ContainerUser := cu, fm_UserEnvProbe := fm_UserEnvProbe ?k, fm_WaitFor := fm_WaitFor ?k,
          fm_ShutdownAction := fm_ShutdownAction ?k, fm_UpdateRemoteUserUID := fm_UpdateRemoteUserUID ?k,
          fm_ContainerEnv := fm_ContainerEnv ?k, fm_RemoteEnv := fm_RemoteEnv ?k, fm_Init := fm_Init ?k,
          fm_Privileged := fm_Privileged ?k, fm_OverrideCommand := fm_OverrideCommand ?k, fm_CapAdd := fm_CapAdd ?k,
          fm_SecurityOpt := fm_SecurityOpt ?k, fm_Entrypoint := fm_Entrypoint ?k,
          fm_Customizations := fm_Customizations ?k, fm_DependsOn := d,
          fm_HostRequirements := fm_HostRequirements ?k, fm_Mounts := fm_Mounts ?k,
          fm_OnCreateCommand := fm_OnCreateCommand ?k, fm_UpdateContentCommand := fm_UpdateContentCommand ?k,
          fm_PostCreateCommand := fm_PostCreateCommand ?k, fm_PostStartCommand := fm_PostStartCommand ?k,
          fm_PostAttachCommand := fm_PostAttachCommand ?k\<rparr>)"
    using assms(2)
    by (simp add: toFeatureMetadata_def canonEntry_def sel ms h hr labelMetadata_def)
  also have "\<dots> = Some ?k"
    by (cases m) (simp add: labelMetadata_def emptyMetadata_def)
  finally show ?thesis .
qed

definition labelFeature :: "resolved_feature \<Rightarrow> feature_metadata" where
  "labelFeature f = (labelMetadata (rf_Metadata f))\<lparr>fm_ResolvedRef := rf_ResolvedRef f,
     fm_DependsOn := Some (case fm_DependsOn (rf_Metadata f) of None \<Rightarrow> [] | Some d \<Rightarrow> keptDeps d)\<rparr>"

definition finalMetadata :: "build_plan \<Rightarrow> feature_metadata" where
  "finalMetadata plan = emptyMetadata\<lparr>fm_RemoteUser := bp_RemoteUser plan, fm_ContainerUser := bp_ContainerUser plan\<rparr>"

definition labelContents :: "build_plan \<Rightarrow> feature_metadata list" where
  "labelContents plan =
     map labelMetadata (bp_BaseImageMetadata plan)
     @ map labelFeature (filter (\<lambda>f. \<not> rf_AlreadyInstalled f) (bp_Features plan))
     @ [finalMetadata plan]"

definition planWf :: "build_plan \<Rightarrow> bool" where
  "planWf plan \<longleftrightarrow>
     list_all labelWf (bp_BaseImageMetadata plan)
     \<and> list_all (\<lambda>f. rf_AlreadyInstalled f \<or> labelWf (rf_Metadata f)) (bp_Features plan)"

lemma labelWf_empty: "labelWf emptyMetadata"
  by (simp add: labelWf_def emptyMetadata_def emptyCommand_def depsWf_def)

lemma labelMetadata_empty: "labelMetadata emptyMetadata = emptyMetadata"
  by (simp add: labelMetadata_def emptyMetadata_def emptyCommand_def keptCommand_def keptMounts_def)

lemma entry_base:
  assumes "labelWf m"
  shows "entryWf (metadataFromFeatureMetadata m)
    \<and> toFeatureMetadata (canonEntry (metadataFromFeatureMetadata m)) = Some (labelMetadata m)"
proof -
  have e: "(metadataFromFeatureMetadata m)\<lparr>me_ResolvedRef := fm_ResolvedRef m, me_DependsOn := fm_DependsOn m,
      me_RemoteUser := fm_RemoteUser m, me_ContainerUser := fm_ContainerUser m\<rparr> = metadataFromFeatureMetadata m"
    by (simp add: metadataFromFeatureMetadata_def)
  have "(labelMetadata m)\<lparr>fm_ResolvedRef := fm_ResolvedRef m, fm_DependsOn := map_option keptDeps (fm_DependsOn m),
      fm_RemoteUser := fm_RemoteUser m, fm_ContainerUser := fm_ContainerUser m\<rparr> = labelMetadata m"
    by (simp add: labelMetadata_def)
  with toFeatureMetadata_entry [OF assms refl, where ref = "fm_ResolvedRef m" and d' = "fm_DependsOn m"
      and ru = "fm_RemoteUser m" and cu = "fm_ContainerUser m"]
  show ?thesis unfolding e using entryWf_metadata [OF assms] by simp
qed

lemma entry_installed:
  assumes "labelWf (rf_Metadata f)"
  shows "entryWf (installedEntry f) \<and> toFeatureMetadata (canonEntry (installedEntry f)) = Some (labelFeature f)"
proof -
  let ?m = "rf_Metadata f" and ?d = "Some (case fm_DependsOn (rf_Metadata f) of None \<Rightarrow> [] | Some d \<Rightarrow> d)"
  have k: "keptDeps [] = []" by (simp add: keptDeps_def)
  have "entryWf (installedEntry f)"
    using entryWf_metadata [OF assms] assms
    by (auto simp: entryWf_def installedEntry_def labelWf_def depsWf_def split: option.splits)
  moreover have "map_option keptDeps ?d = Some (case fm_DependsOn ?m of None \<Rightarrow> [] | Some d \<Rightarrow> keptDeps d)"
    by (simp add: k split: option.splits)
  note t = toFeatureMetadata_entry [OF assms this [symmetric], where ref = "rf_ResolvedRef f"
      and ru = "fm_RemoteUser ?m" and cu = "fm_ContainerUser ?m"]
  have "(metadataFromFeatureMetadata ?m)\<lparr>me_ResolvedRef := rf_ResolvedRef f, me_DependsOn := ?d,
      me_RemoteUser := fm_RemoteUser ?m, me_ContainerUser := fm_ContainerUser ?m\<rparr> = installedEntry f"
    by (simp add: installedEntry_def metadataFromFeatureMetadata_def)
  with t have "toFeatureMetadata (canonEntry (installedEntry f)) = Some (labelFeature f)"
    by (simp add: labelFeature_def labelMetadata_def)
  ultimately show ?thesis by blast
qed

lemma entry_final:
  "entryWf (finalEntry plan) \<and> toFeatureMetadata (canonEntry (finalEntry plan)) = Some (finalMetadata plan)"
proof -
  have "entryWf (finalEntry plan)"
    using entryWf_metadata [OF labelWf_empty] by (simp add: entryWf_def finalEntry_def)
  moreover have "(metadataFromFeatureMetadata emptyMetadata)\<lparr>me_ResolvedRef := [], me_DependsOn := None,
      me_RemoteUser := bp_RemoteUser plan, me_ContainerUser := bp_ContainerUser plan\<rparr> = finalEntry plan"
    by (simp add: finalEntry_def metadataFromFeatureMetadata_def emptyMetadata_def)
  moreover have "emptyMetadata\<lparr>fm_ResolvedRef := [], fm_DependsOn := None,
      fm_RemoteUser := bp_RemoteUser plan, fm_ContainerUser := bp_ContainerUser plan\<rparr> = finalMetadata plan"
    by (simp add: finalMetadata_def emptyMetadata_def)
  moreover note toFeatureMetadata_entry [OF labelWf_empty, where ref = "[]" and d' = None and d = None
      and ru = "bp_RemoteUser plan" and cu = "bp_ContainerUser plan"]
  ultimately show ?thesis by (simp add: labelMetadata_empty)
qed

lemma entries_texts: "list_all entryWf es \<Longrightarrow> entryTexts es = Some (map (\<lambda>e. objText (entryMembers e)) es)"
  by (induction es) (simp_all add: entryText_members)

lemma entries_decode:
  "list_all entryWf es \<Longrightarrow> decodeEntries (map (\<lambda>e. objText (entryMembers e)) es) = Some (map canonEntry es)"
  by (induction es) (simp_all add: decodeEntry_text)

lemma entries_metadata:
  "list_all2 (\<lambda>e m. toFeatureMetadata (canonEntry e) = Some m) es ms \<Longrightarrow> entriesMetadata (map canonEntry es) = Some ms"
  by (induction rule: list_all2_induct) simp_all

lemma label_contents:
  assumes "planWf plan"
  obtains label where "buildMetadataLabel plan = Some label" "ParseMetadataLabel label = Some (labelContents plan)"
proof -
  let ?es = "labelEntries plan"
  have w: "list_all entryWf ?es"
    using assms entry_base entry_installed entry_final
    by (auto simp: labelEntries_def planWf_def list_all_iff)
  have "list_all2 (\<lambda>e m. toFeatureMetadata (canonEntry e) = Some m)
      (map metadataFromFeatureMetadata (bp_BaseImageMetadata plan)) (map labelMetadata (bp_BaseImageMetadata plan))"
    using assms entry_base by (simp add: planWf_def list_all_iff list.rel_map list_all2_same)
  moreover have "list_all2 (\<lambda>e m. toFeatureMetadata (canonEntry e) = Some m)
      (map installedEntry (filter (\<lambda>f. \<not> rf_AlreadyInstalled f) (bp_Features plan)))
      (map labelFeature (filter (\<lambda>f. \<not> rf_AlreadyInstalled f) (bp_Features plan)))"
    using assms entry_installed by (auto simp: planWf_def list_all_iff list.rel_map list_all2_same)
  moreover have "list_all2 (\<lambda>e m. toFeatureMetadata (canonEntry e) = Some m) [finalEntry plan] [finalMetadata plan]"
    using entry_final by simp
  ultimately have m: "list_all2 (\<lambda>e m. toFeatureMetadata (canonEntry e) = Some m) ?es (labelContents plan)"
    unfolding labelEntries_def labelContents_def by (intro list_all2_appendI)
  let ?ts = "map (\<lambda>e. objText (entryMembers e)) ?es"
  have t: "list_all jsonText ?ts"
    using w by (auto simp: list_all_iff intro: jsonText_obj entryMembers_texts)
  have b: "buildMetadataLabel plan = Some (arrText ?ts)"
    by (simp add: buildMetadataLabel_def entries_texts [OF w])
  have "arrText ?ts = CHR ''['' # joinWith '','' ?ts @ '']''" by (simp add: arrText_def)
  with arrText_arr [OF t] have "ParseMetadataLabel (arrText ?ts) = Some (labelContents plan)"
    by (simp add: ParseMetadataLabel_def entries_decode [OF w] entries_metadata [OF m])
  with b that show ?thesis by blast
qed

section \<open>A label built on a label\<close>

lemma sortedMap_sorted: "wf_map m \<Longrightarrow> sorted (map fst m) \<Longrightarrow> sortedMap m = m"
proof -
  assume m: "wf_map m" "sorted (map fst m)"
  then have "sortedKeys m = map fst m" by (simp add: sortedKeys_def sorted_sort_id)
  moreover have "the (map_of m (fst p)) = snd p" if "p \<in> set m" for p
  proof -
    from that have "(fst p, snd p) \<in> set m" by simp
    with m(1) have "map_of m (fst p) = Some (snd p)" unfolding wf_map_def by (rule map_of_is_SomeI)
    then show ?thesis by simp
  qed
  ultimately show ?thesis by (simp add: sortedMap_def map_idI)
qed

lemma sortedMap_keys: "map fst (sortedMap m) = sortedKeys m"
  by (simp add: sortedMap_def comp_def)

lemma sortedMap_values: "wf_map m \<Longrightarrow> sortedMap (map (\<lambda>(k, v). (k, f v)) (sortedMap m)) = map (\<lambda>(k, v). (k, f v)) (sortedMap m)"
proof -
  assume m: "wf_map m"
  have k: "map fst (map (\<lambda>(k, v). (k, f v)) (sortedMap m)) = sortedKeys m"
    by (simp add: sortedMap_keys [symmetric] case_prod_unfold comp_def)
  show ?thesis
    by (rule sortedMap_sorted) (simp_all only: wf_map_def k sortedKeys_sorted sortedKeys_distinct [OF m])
qed

lemma keptDeps_idem:
  assumes "depsWf (Some d)"
  shows "keptDeps (keptDeps d) = keptDeps d \<and> depsWf (Some (keptDeps d))"
proof -
  have "sortedMap (keptDeps d) = keptDeps d"
    using assms sortedMap_values [of d sortedMap] by (simp add: keptDeps_def depsWf_def)
  moreover have "sortedMap opts = opts" if "(k, opts) \<in> set (keptDeps d)" for k opts
  proof -
    from that obtain o' where "(k, o') \<in> set d" "opts = sortedMap o'"
      using assms by (auto simp: keptDeps_def depsWf_def dest: sortedMap_mem)
    with assms show ?thesis by (auto simp: depsWf_def list_all_iff)
  qed
  then have "map (\<lambda>(k, opts). (k, sortedMap opts)) (keptDeps d) = keptDeps d" by (auto intro!: map_idI)
  ultimately have "keptDeps (keptDeps d) = keptDeps d" by (simp add: keptDeps_def [of "keptDeps d"])
  moreover have "depsWf (Some (keptDeps d))"
    using keptDeps_wf [OF assms] keptDeps_mem [OF assms] by (auto simp: depsWf_def list_all_iff [of _ "keptDeps d"])
  ultimately show ?thesis by blast
qed

lemma keptSingle_idem: "keptSingle (keptSingle c) = keptSingle c"
  by (simp add: keptSingle_def)

lemma keptCommand_idem: "wf_map (lc_Parallel l) \<Longrightarrow> keptCommand (keptCommand l) = keptCommand l \<and> wf_map (lc_Parallel (keptCommand l))"
proof -
  assume w: "wf_map (lc_Parallel l)"
  have "wf_map (map (\<lambda>(k, c). (k, keptSingle c)) (sortedMap (lc_Parallel l)))"
    using sortedMap_simps(2) [OF w] by (simp add: wf_map_def comp_def case_prod_unfold)
  then show ?thesis
    using sortedMap_values [OF w, of keptSingle]
    by (auto simp: keptCommand_def Let_def keptSingle_def comp_def case_prod_unfold split: option.splits)
qed

lemma keptMounts_idem: "keptMounts (keptMounts ms) = keptMounts ms"
proof -
  have "filter namesMount (keptMounts ms) = keptMounts ms"
    by (induction ms) (simp_all add: keptMounts_def namesMount_def plainMount_def)
  then show ?thesis by (simp add: keptMounts_def plainMount_def)
qed

lemma label_idem:
  assumes "labelWf m"
  shows "labelWf (labelMetadata m) \<and> labelMetadata (labelMetadata m) = labelMetadata m"
proof
  have d: "depsWf (map_option keptDeps (fm_DependsOn m)) \<and>
      map_option keptDeps (map_option keptDeps (fm_DependsOn m)) = map_option keptDeps (fm_DependsOn m)"
    using assms keptDeps_idem by (cases "fm_DependsOn m") (simp_all add: labelWf_def depsWf_def)
  show "labelWf (labelMetadata m)"
    using assms d keptCommand_idem
    by (auto simp: labelWf_def labelMetadata_def list_all_iff dest: sortedMap_mem split: option.splits)
  show "labelMetadata (labelMetadata m) = labelMetadata m"
    using assms d keptCommand_idem
    by (auto simp: labelWf_def labelMetadata_def keptMounts_idem option.map_comp comp_def)
qed

lemma labelFeature_idem:
  assumes "labelWf (rf_Metadata f)"
  shows "labelWf (labelFeature f) \<and> labelMetadata (labelFeature f) = labelFeature f"
proof -
  let ?d = "case fm_DependsOn (rf_Metadata f) of None \<Rightarrow> [] | Some d \<Rightarrow> keptDeps d"
  have "depsWf (Some ?d) \<and> keptDeps ?d = ?d"
  proof (cases "fm_DependsOn (rf_Metadata f)")
    case None
    then show ?thesis by (simp add: depsWf_def keptDeps_def)
  next
    case (Some d)
    with assms have "depsWf (Some d)" by (simp add: labelWf_def)
    with Some keptDeps_idem show ?thesis by simp
  qed
  moreover have "labelMetadata (x\<lparr>fm_ResolvedRef := r, fm_DependsOn := Some d\<rparr>) =
      (labelMetadata x)\<lparr>fm_ResolvedRef := r, fm_DependsOn := Some (keptDeps d)\<rparr>" for x r d
    by (simp add: labelMetadata_def)
  moreover have "labelWf (x\<lparr>fm_ResolvedRef := r, fm_DependsOn := Some d\<rparr>)" if "labelWf x" "depsWf (Some d)" for x r d
    using that by (simp add: labelWf_def)
  ultimately show ?thesis
    using label_idem [OF assms] by (simp add: labelFeature_def)
qed

text \<open>
  C40. What a label keeps. A label built from a plan whose metadata is well formed, with compact customizations, parses back to one entry per base entry, per
  feature to install and for the configuration, each equal to its metadata up to the fields a label has
  no place for: documentation, options, \<^verbatim>\<open>installsAfter\<close>, the GPU requirement, mount options, mounts without
  type, source and target, and the parts of a hook that would never run. A second build on top of the
  image carries those entries through unchanged.
\<close>

theorem metadata_label_roundtrip:
  assumes "planWf plan"
  shows "\<exists>label label2. buildMetadataLabel plan = Some label
    \<and> ParseMetadataLabel label = Some (labelContents plan)
    \<and> buildMetadataLabel (plan\<lparr>bp_BaseImageMetadata := labelContents plan, bp_Features := []\<rparr>) = Some label2
    \<and> ParseMetadataLabel label2 = Some (labelContents plan @ [finalMetadata plan])"
proof -
  obtain label where l: "buildMetadataLabel plan = Some label" "ParseMetadataLabel label = Some (labelContents plan)"
    using label_contents [OF assms] by blast
  let ?next = "plan\<lparr>bp_BaseImageMetadata := labelContents plan, bp_Features := []\<rparr>"
  have fin: "labelWf (finalMetadata plan) \<and> labelMetadata (finalMetadata plan) = finalMetadata plan"
    by (simp add: finalMetadata_def labelWf_def labelMetadata_def emptyMetadata_def emptyCommand_def depsWf_def
        keptCommand_def keptMounts_def)
  have k: "list_all (\<lambda>m. labelWf m \<and> labelMetadata m = m) (labelContents plan)"
    using assms fin label_idem labelFeature_idem by (auto simp: labelContents_def planWf_def list_all_iff)
  then have "planWf ?next" by (simp add: planWf_def list_all_iff)
  then obtain label2 where "buildMetadataLabel ?next = Some label2" "ParseMetadataLabel label2 = Some (labelContents ?next)"
    using label_contents by blast
  moreover have "labelContents ?next = labelContents plan @ [finalMetadata plan]"
    using k by (simp add: labelContents_def [of ?next] list_all_iff map_idI) (simp add: finalMetadata_def)
  ultimately show ?thesis using l by metis
qed

definition demoPlan :: build_plan where
  "demoPlan = \<lparr>bp_BaseImage = ''debian'', bp_Features =
     [\<lparr>rf_Ref = ''ghcr.io/x/go:1'', rf_ResolvedRef = ''ghcr.io/x/go@sha256:1'', rf_Dir = ''/t'',
       rf_Metadata = emptyMetadata\<lparr>fm_ID := ''go'', fm_ContainerEnv := [(''Z'', ''1''), (''A'', ''2'')],
         fm_DependsOn := Some [(''b'', [(''v'', JNum ''1.5'')])],
         fm_PostCreateCommand := \<lparr>lc_Single = Some \<lparr>cm_Shell = ''make'', cm_Exec = [''x'']\<rparr>, lc_Parallel = []\<rparr>\<rparr>,
       rf_Options = None, rf_SourceKind = ''oci'', rf_AlreadyInstalled = False\<rparr>],
     bp_RemoteUser = ''dev'', bp_ContainerUser = [], bp_BaseImageMetadata = []\<rparr>"

theorem metadata_label_roundtrip_witness:
  "\<exists>label. buildMetadataLabel demoPlan = Some label \<and> ParseMetadataLabel label = Some (labelContents demoPlan)"
proof -
  have "planWf demoPlan" by code_simp
  from metadata_label_roundtrip [OF this] show ?thesis by blast
qed

end
