(* ===== verification/Exec_Env.thy ===== *)
theory Exec_Env
  imports Merge_Metadata
begin

text \<open>
  The environment of a command run in a workspace: parsing of the probed environment and of secrets
  (\<^verbatim>\<open>userenvprobe.go\<close>, \<^verbatim>\<open>secrets.go\<close>, \<^verbatim>\<open>workspace.go\<close>), the layering of probed, configured and caller
  environments, and the merge of two search paths.
\<close>

section \<open>Parsing\<close>

fun putEntries :: "(string \<Rightarrow> (string \<times> string) option) \<Rightarrow> string gomap \<Rightarrow> string list \<Rightarrow> string gomap" where
  "putEntries entry out [] = out"
| "putEntries entry out (l # ls) =
     (case entry l of
        None \<Rightarrow> putEntries entry out ls
      | Some (k, v) \<Rightarrow> putEntries entry (mput k v out) ls)"

text \<open>\<^verbatim>\<open>eq <= 0\<close>: no equals sign, or nothing before it.\<close>

definition environEntry :: "string \<Rightarrow> (string \<times> string) option" where
  "environEntry line =
     (case cutc (CHR ''='') line of
        None \<Rightarrow> None
      | Some (k, v) \<Rightarrow> if k = [] then None else Some (k, v))"

definition parseEnvironBytes :: "string \<Rightarrow> char \<Rightarrow> string gomap" where
  "parseEnvironBytes s sep = mdel ''PWD'' (putEntries environEntry [] (splitc sep s))"

definition envListToMap :: "string list \<Rightarrow> string gomap" where
  "envListToMap env = putEntries (cutc (CHR ''='')) [] env"

definition secretsEntry :: "string \<Rightarrow> (string \<times> string) option" where
  "secretsEntry line0 =
     (let line = trimSuffix line0 [CHR 0x0D];
          trimmed = trimLeft [CHR '' '', CHR 0x09] line
      in if trimmed = [] \<or> hasPrefix trimmed ''#'' then None
         else case cutc (CHR ''='') trimmed of
                None \<Rightarrow> None
              | Some (k, v) \<Rightarrow>
                  if k = [] then None
                  else let key = trimRight [CHR '' '', CHR 0x09] k
                       in if key = [] then None else Some (key, v))"

definition parseSecretsKV :: "string \<Rightarrow> string gomap" where
  "parseSecretsKV s = putEntries secretsEntry [] (splitc (CHR 0x0A) s)"

section \<open>Search paths\<close>

text \<open>\<^verbatim>\<open>/sbin(/|$)\<close>.\<close>

definition sbinSegment :: "string \<Rightarrow> bool" where
  "sbinSegment e \<longleftrightarrow> containsSub e ''/sbin/'' \<or> hasPrefix (rev e) (rev ''/sbin'')"

definition isRootUser :: "string \<Rightarrow> bool" where
  "isRootUser u \<longleftrightarrow> u = ''root'' \<or> u = ''0'' \<or> u = []"

text \<open>\<^verbatim>\<open>slices.Index\<close> and \<^verbatim>\<open>slices.Insert\<close>.\<close>

fun sliceIndex :: "'a list \<Rightarrow> 'a \<Rightarrow> nat option" where
  "sliceIndex [] e = None"
| "sliceIndex (x # xs) e = (if x = e then Some 0 else map_option Suc (sliceIndex xs e))"

definition sliceInsert :: "'a list \<Rightarrow> nat \<Rightarrow> 'a \<Rightarrow> 'a list" where
  "sliceInsert xs i e = take i xs @ e # drop i xs"

fun mergePathLoop :: "bool \<Rightarrow> string list \<Rightarrow> nat \<Rightarrow> string list \<Rightarrow> string list" where
  "mergePathLoop root tokens insertAt [] = tokens"
| "mergePathLoop root tokens insertAt (e # es) =
     (case sliceIndex tokens e of
        None \<Rightarrow>
          if root \<or> \<not> sbinSegment e
          then mergePathLoop root (sliceInsert tokens insertAt e) (insertAt + 1) es
          else mergePathLoop root tokens insertAt es
      | Some i \<Rightarrow> mergePathLoop root tokens (i + 1) es)"

definition mergePath :: "string \<Rightarrow> string \<Rightarrow> string \<Rightarrow> string" where
  "mergePath probed remote remoteUser =
     joinWith '':'' (mergePathLoop (isRootUser remoteUser) (splitc (CHR '':'') probed) 0
       (splitc (CHR '':'') remote))"

section \<open>Layering\<close>

definition mergeProbedEnv ::
    "string gomap \<Rightarrow> string gomap \<Rightarrow> string gomap \<Rightarrow> string \<Rightarrow> string gomap" where
  "mergeProbedEnv probed remoteEnv callerEnv remoteUser =
     (if probed = [] \<and> remoteEnv = [] then callerEnv
      else let out = mputall (mputall [] probed) remoteEnv;
               out1 = (case (map_of probed ''PATH'', map_of remoteEnv ''PATH'') of
                         (Some p, Some r) \<Rightarrow> mput ''PATH'' (mergePath p r remoteUser) out
                       | _ \<Rightarrow> out)
           in mputall out1 callerEnv)"

definition effectiveUser :: "resolved_config \<Rightarrow> string" where
  "effectiveUser cfg = (if cfg_RemoteUser cfg \<noteq> [] then cfg_RemoteUser cfg else cfg_ContainerUser cfg)"

section \<open>Facts about parsing\<close>

lemma putEntries_wf: "wf_map out \<Longrightarrow> wf_map (putEntries entry out ls)"
  by (induction entry out ls rule: putEntries.induct) (auto split: option.splits)

text \<open>The entries of a well-formed map, written one per line and read back.\<close>

lemma putEntries_lines:
  assumes "\<And>k v. (k, v) \<in> set m \<Longrightarrow> entry (line k v) = Some (k, v)"
  shows "putEntries entry out (map (\<lambda>(k, v). line k v) m) = mputall out m"
  using assms
proof (induction m arbitrary: out)
  case Nil
  then show ?case by simp
next
  case (Cons p m)
  obtain k v where "p = (k, v)" by fastforce
  with Cons.prems have "entry (line k v) = Some (k, v)" by simp
  moreover have "putEntries entry (mput k v out) (map (\<lambda>(k, v). line k v) m) = mputall (mput k v out) m"
    using Cons.prems by (intro Cons.IH) simp
  ultimately show ?case using \<open>p = (k, v)\<close> by simp
qed

definition assign :: "string \<Rightarrow> string \<Rightarrow> string" where
  "assign k v = k @ CHR ''='' # v"

lemma cutc_assign: "CHR ''='' \<notin> set k \<Longrightarrow> cutc (CHR ''='') (assign k v) = Some (k, v)"
  by (simp add: assign_def cutc_Some)

text \<open>
  The probed environment is read back exactly. For an environment whose names are non-empty and
  contain no equals sign and whose entries contain no separator (for \<^verbatim>\<open>/proc/self/environ\<close> the NUL
  byte, which no entry can contain), parsing the entries joined by the separator gives every
  variable its value, newlines and equals signs in values included, except \<^verbatim>\<open>PWD\<close>, which is
  dropped.
\<close>

theorem parseEnvironBytes_roundtrip:
  assumes "wf_map env"
    and "\<And>k v. (k, v) \<in> set env \<Longrightarrow> k \<noteq> [] \<and> CHR ''='' \<notin> set k \<and> sep \<notin> set (assign k v)"
  shows "map_of (parseEnvironBytes (joinWith [sep] (map (\<lambda>(k, v). assign k v) env)) sep) =
    (map_of env)(''PWD'' := None)"
proof (cases "env = []")
  case True
  then show ?thesis by (simp add: parseEnvironBytes_def environEntry_def)
next
  case False
  have "splitc sep (joinWith [sep] (map (\<lambda>(k, v). assign k v) env)) = map (\<lambda>(k, v). assign k v) env"
    using False assms(2) by (intro splitc_join) auto
  moreover have "environEntry (assign k v) = Some (k, v)" if "(k, v) \<in> set env" for k v
    using assms(2) [OF that] by (simp add: environEntry_def cutc_assign)
  then have "putEntries environEntry [] (map (\<lambda>(k, v). assign k v) env) = mputall [] env"
    by (rule putEntries_lines)
  ultimately show ?thesis using assms(1) by (simp add: parseEnvironBytes_def)
qed

theorem parseEnvironBytes_roundtrip_witness:
  "map_of (parseEnvironBytes (joinWith [CHR 0x00] (map (\<lambda>(k, v). assign k v)
     [(''A'', ''x=y''), (''PWD'', ''/''), (''PATH'', ''/bin'')])) (CHR 0x00)) ''A'' = Some ''x=y''"
proof -
  let ?e = "[(''A'', ''x=y''), (''PWD'', ''/''), (''PATH'', ''/bin'')]"
  have "map_of (parseEnvironBytes (joinWith [CHR 0x00] (map (\<lambda>(k, v). assign k v) ?e)) (CHR 0x00)) =
      (map_of ?e)(''PWD'' := None)"
    by (rule parseEnvironBytes_roundtrip) (auto simp: assign_def)
  then show ?thesis by simp
qed

section \<open>Facts about search paths\<close>

lemma sliceIndex_None: "sliceIndex xs e = None \<longleftrightarrow> e \<notin> set xs"
  by (induction xs) auto

lemma sliceIndex_Some: "sliceIndex xs e = Some i \<Longrightarrow> i < length xs \<and> xs ! i = e"
  by (induction xs arbitrary: i) (auto split: if_splits)

lemma set_sliceInsert [simp]: "set (sliceInsert xs i e) = insert e (set xs)"
  unfolding sliceInsert_def by (metis append_take_drop_id list.simps(15) set_append Un_insert_right)

lemma distinct_sliceInsert: "distinct xs \<Longrightarrow> e \<notin> set xs \<Longrightarrow> distinct (sliceInsert xs i e)"
  unfolding sliceInsert_def using set_take_disj_set_drop_if_distinct [of xs i i]
  by (auto dest: in_set_takeD in_set_dropD)

lemma subseq_sliceInsert: "subseq xs ys \<Longrightarrow> subseq xs (sliceInsert ys i e)"
proof -
  assume "subseq xs ys"
  moreover have "subseq ys (sliceInsert ys i e)"
    unfolding sliceInsert_def
    by (metis append_take_drop_id list_emb_append_mono subseq_Cons' subseq_order.refl subseq_Cons2 list_emb_Cons)
  ultimately show ?thesis by (rule subseq_order.trans)
qed

lemma mergePathLoop_spec:
  fixes root tokens at es
  defines "out \<equiv> mergePathLoop root tokens at es"
  shows "subseq tokens out
    \<and> set out = set tokens \<union> {e \<in> set es. root \<or> \<not> sbinSegment e}
    \<and> (distinct tokens \<longrightarrow> distinct out)"
  unfolding out_def
proof (induction root tokens at es rule: mergePathLoop.induct)
  case (1 root tokens at)
  then show ?case by simp
next
  case (2 root tokens at e es)
  show ?case
  proof (cases "sliceIndex tokens e")
    case None
    then have e: "e \<notin> set tokens" by (simp add: sliceIndex_None)
    show ?thesis
    proof (cases "root \<or> \<not> sbinSegment e")
      case True
      note ih = "2.IH"(1) [OF None True]
      have "subseq tokens (mergePathLoop root (sliceInsert tokens at e) (at + 1) es)"
        using ih subseq_sliceInsert [of tokens tokens at e] subseq_order.trans by blast
      with ih True None e show ?thesis by (auto simp: distinct_sliceInsert)
    next
      case False
      with "2.IH"(2) [OF None False] None show ?thesis by auto
    qed
  next
    case (Some i)
    then have "e \<in> set tokens" using sliceIndex_Some nth_mem by metis
    with "2.IH"(3) [OF Some] Some show ?thesis by auto
  qed
qed

lemma mergePathLoop_nonempty: "tokens \<noteq> [] \<Longrightarrow> mergePathLoop root tokens at es \<noteq> []"
  using mergePathLoop_spec [of tokens root at es] by auto

lemma mergePath_tokens:
  "splitc (CHR '':'') (mergePath probed remote user) =
     mergePathLoop (isRootUser user) (splitc (CHR '':'') probed) 0 (splitc (CHR '':'') remote)"
  unfolding mergePath_def
proof (rule splitc_join)
  let ?out = "mergePathLoop (isRootUser user) (splitc (CHR '':'') probed) 0 (splitc (CHR '':'') remote)"
  show "?out \<noteq> []" by (rule mergePathLoop_nonempty) simp
  fix x
  assume "x \<in> set ?out"
  then have "x \<in> set (splitc (CHR '':'') probed) \<union> set (splitc (CHR '':'') remote)"
    using mergePathLoop_spec by blast
  then show "CHR '':'' \<notin> set x" using splitc_sep_free by blast
qed

text \<open>
  C36. The environment of an exec. A variable has the caller's value if there is one, else the value of
  \<^verbatim>\<open>remoteEnv\<close>, else the probed one; only \<^verbatim>\<open>PATH\<close>, when both probed and configured, is the merge of
  the two. That merge keeps the probed entries in their order, contains every configured entry
  except, for a user that is not root, those with an \<^verbatim>\<open>/sbin\<close> segment, contains nothing else, and
  introduces no duplicate.
\<close>

theorem mergeProbedEnv_spec:
  assumes "wf_map probed" "wf_map remoteEnv" "wf_map callerEnv"
  shows "map_of (mergeProbedEnv probed remoteEnv callerEnv user) k =
      (case map_of callerEnv k of Some v \<Rightarrow> Some v
       | None \<Rightarrow>
          (case (map_of probed k, map_of remoteEnv k) of
             (Some p, Some r) \<Rightarrow> Some (if k = ''PATH'' then mergePath p r user else r)
           | (None, Some r) \<Rightarrow> Some r
           | (p, None) \<Rightarrow> p))
    \<and> (let toks = splitc (CHR '':'') (mergePath p r user)
       in subseq (splitc (CHR '':'') p) toks
        \<and> set toks = set (splitc (CHR '':'') p) \<union>
            {e \<in> set (splitc (CHR '':'') r). isRootUser user \<or> \<not> sbinSegment e}
        \<and> distinct (splitc (CHR '':'') p) \<le> distinct toks)"
proof
  show "map_of (mergeProbedEnv probed remoteEnv callerEnv user) k =
      (case map_of callerEnv k of Some v \<Rightarrow> Some v
       | None \<Rightarrow>
          (case (map_of probed k, map_of remoteEnv k) of
             (Some p, Some r) \<Rightarrow> Some (if k = ''PATH'' then mergePath p r user else r)
           | (None, Some r) \<Rightarrow> Some r
           | (p, None) \<Rightarrow> p))"
    using assms by (auto simp: mergeProbedEnv_def Let_def map_add_def split: option.splits)
next
  show "let toks = splitc (CHR '':'') (mergePath p r user)
       in subseq (splitc (CHR '':'') p) toks
        \<and> set toks = set (splitc (CHR '':'') p) \<union>
            {e \<in> set (splitc (CHR '':'') r). isRootUser user \<or> \<not> sbinSegment e}
        \<and> distinct (splitc (CHR '':'') p) \<le> distinct toks"
    unfolding mergePath_tokens Let_def le_bool_def by (rule mergePathLoop_spec)
qed

theorem mergeProbedEnv_spec_witness:
  "map_of (mergeProbedEnv [(''PATH'', ''/usr/bin:/bin'')] [(''PATH'', ''/opt/x:/usr/sbin:/bin'')] []
     ''node'') ''PATH'' = Some ''/opt/x:/usr/bin:/bin''"
proof -
  have "mergePath ''/usr/bin:/bin'' ''/opt/x:/usr/sbin:/bin'' ''node'' = ''/opt/x:/usr/bin:/bin''"
    by code_simp
  with mergeProbedEnv_spec [of "[(''PATH'', ''/usr/bin:/bin'')]" "[(''PATH'', ''/opt/x:/usr/sbin:/bin'')]"
      "[]" "''node''" "''PATH''"]
  show ?thesis by simp
qed

end
