(* ===== verification/Go_Time.thy ===== *)
theory Go_Time
  imports Go_Json "HOL-Library.Monad_Syntax"
begin

text \<open>
  The text form of a \<^verbatim>\<open>time.Time\<close> in JSON (RFC 3339 with nanoseconds). An instant is the number of
  nanoseconds since the zero time, the first of January of year 1. Instants are written in UTC (the
  zone of the times a daemon reports); a time with another zone is read as the instant it denotes.
\<close>

section \<open>Calendar\<close>

definition isLeap :: "int \<Rightarrow> bool" where
  "isLeap y \<longleftrightarrow> y mod 4 = 0 \<and> (y mod 100 \<noteq> 0 \<or> y mod 400 = 0)"

definition monthLens :: "int \<Rightarrow> int list" where
  "monthLens y = [31, if isLeap y then 29 else 28, 31, 30, 31, 30, 31, 31, 30, 31, 30, 31]"

definition yearLen :: "int \<Rightarrow> int" where
  "yearLen y = (if isLeap y then 366 else 365)"

text \<open>The year and the day in it, of a day counted from the start of year \<open>y\<close>; likewise for months.\<close>

function splitYear :: "int \<Rightarrow> int \<Rightarrow> int \<times> int" where
  "splitYear y d = (if d < yearLen y then (y, d) else splitYear (y + 1) (d - yearLen y))"
  by pat_completeness auto
termination
  by (relation "measure (\<lambda>(y, d). nat d)") (auto simp: yearLen_def split: if_splits)

declare splitYear.simps [simp del]

fun splitMonth :: "int \<Rightarrow> int list \<Rightarrow> int \<Rightarrow> int \<times> int" where
  "splitMonth m [] d = (m, d)"
| "splitMonth m (l # ls) d = (if d < l then (m, d) else splitMonth (m + 1) ls (d - l))"

text \<open>Days before a year, and before a month of a year.\<close>

function yearStart :: "int \<Rightarrow> int" where
  "yearStart y = (if y \<le> 0 then 0 else yearStart (y - 1) + yearLen (y - 1))"
  by pat_completeness auto
termination
  by (relation "measure nat") auto

declare yearStart.simps [simp del]

definition monthStart :: "int \<Rightarrow> int \<Rightarrow> int" where
  "monthStart y m = sum_list (take (nat (m - 1)) (monthLens y))"

lemma yearStart_step: "0 \<le> y \<Longrightarrow> yearStart (y + 1) = yearStart y + yearLen y"
  by (subst yearStart.simps) simp

lemma splitYear_inverse:
  "splitYear y d = (y', d') \<Longrightarrow> 0 \<le> y \<Longrightarrow> 0 \<le> d \<Longrightarrow>
     0 \<le> y' \<and> 0 \<le> d' \<and> yearStart y' + d' = yearStart y + d \<and> d' < yearLen y'"
proof (induction y d rule: splitYear.induct)
  case (1 y d)
  show ?case
  proof (cases "d < yearLen y")
    case True
    with "1.prems" show ?thesis by (auto simp: splitYear.simps [of y d])
  next
    case False
    with "1.prems" "1.IH" show ?thesis by (simp add: splitYear.simps [of y d] yearStart_step)
  qed
qed

lemma splitMonth_inverse:
  "splitMonth m ls d = (m', d') \<Longrightarrow> 0 \<le> d \<Longrightarrow> d < sum_list ls \<Longrightarrow>
     m \<le> m' \<and> nat (m' - m) < length ls \<and> 0 \<le> d' \<and> d' < ls ! nat (m' - m)
     \<and> sum_list (take (nat (m' - m)) ls) + d' = d"
proof (induction m ls d rule: splitMonth.induct)
  case (1 m d)
  then show ?case by simp
next
  case (2 m l ls d)
  show ?case
  proof (cases "d < l")
    case True
    with "2.prems" show ?thesis by auto
  next
    case False
    with "2.prems" have "splitMonth (m + 1) ls (d - l) = (m', d')" "0 \<le> d - l" "d - l < sum_list ls" by auto
    note ih = "2.IH" [OF False this]
    then have "nat (m' - m) = Suc (nat (m' - (m + 1)))" by linarith
    with ih False show ?thesis by (auto simp: not_less)
  qed
qed

lemma sum_monthLens: "sum_list (monthLens y) = yearLen y"
  by (simp add: monthLens_def yearLen_def)

section \<open>Fixed-width numbers\<close>

primrec padInt :: "nat \<Rightarrow> int \<Rightarrow> string" where
  "padInt 0 n = []"
| "padInt (Suc w) n = padInt w (n div 10) @ [digitc (nat (n mod 10))]"

definition readInt :: "nat \<Rightarrow> string \<Rightarrow> (int \<times> string) option" where
  "readInt w s =
     (if length s < w then None else map_option (\<lambda>n. (int n, drop w s)) (atoiDigits 0 (take w s)))"

definition expectc :: "char \<Rightarrow> string \<Rightarrow> string option" where
  "expectc c s = (case s of [] \<Rightarrow> None | d # t \<Rightarrow> if d = c then Some t else None)"

lemma length_padInt [simp]: "length (padInt w n) = w"
  by (induction w arbitrary: n) auto

lemma digitVal_mod: "digitVal (digitc (nat (n mod 10))) = Some (nat (n mod 10))"
  by (rule digitVal_digitc) (simp add: nat_less_iff)

lemma atoiDigits_padInt: "0 \<le> n \<Longrightarrow> atoiDigits acc (padInt w n) = Some (acc * 10 ^ w + nat n mod 10 ^ w)"
proof (induction w arbitrary: n)
  case 0
  then show ?case by simp
next
  case (Suc w)
  have "nat n mod 10 ^ Suc w = 10 * (nat n div 10 mod 10 ^ w) + nat n mod 10"
    by (simp add: mod_mult2_eq)
  moreover have "nat (n div 10) = nat n div 10" "nat (n mod 10) = nat n mod 10"
    using Suc.prems by (simp_all add: nat_div_distrib nat_mod_distrib)
  moreover have "atoiDigits acc (padInt w (n div 10)) = Some (acc * 10 ^ w + nat (n div 10) mod 10 ^ w)"
    using Suc.prems by (intro Suc.IH) simp
  moreover have "digitVal (digitc (nat n mod 10)) = Some (nat n mod 10)" by (rule digitVal_digitc) simp
  ultimately show ?case by (simp add: atoiDigits_append algebra_simps)
qed

lemma readInt_padInt:
  assumes "0 \<le> n" "n < 10 ^ w"
  shows "readInt w (padInt w n @ s) = Some (n, s)"
proof -
  have "nat n < 10 ^ w" using assms by (simp add: nat_less_iff)
  then show ?thesis using assms by (simp add: readInt_def atoiDigits_padInt)
qed

lemma expectc_Cons [simp]: "expectc c (c # s) = Some s"
  by (simp add: expectc_def)

lemma padInt_digits: "c \<in> set (padInt w n) \<Longrightarrow> isDecDigit c"
  by (induction w arbitrary: n) (auto simp: isDecDigit_def digitVal_mod)

section \<open>Format and parse\<close>

definition nsPerSec :: int where "nsPerSec = 1000000000"

text \<open>Year 0, which precedes the zero time, has 366 days.\<close>

definition zeroShift :: int where "zeroShift = 366 * 86400 * nsPerSec"

definition fracText :: "int \<Rightarrow> string" where
  "fracText ns = (if ns = 0 then [] else CHR ''.'' # trimRight ''0'' (padInt 9 ns))"

definition formatTime :: "int \<Rightarrow> string option" where
  "formatTime t =
     (if t + zeroShift < 0 then None
      else let total = t + zeroShift; ns = total mod nsPerSec; secs = total div nsPerSec;
               (y, yd) = splitYear 0 (secs div 86400); (m, md) = splitMonth 1 (monthLens y) yd;
               sd = secs mod 86400
           in if y > 9999 then None
              else Some (padInt 4 y @ CHR ''-'' # padInt 2 m @ CHR ''-'' # padInt 2 (md + 1) @ CHR ''T''
                # padInt 2 (sd div 3600) @ CHR '':'' # padInt 2 (sd div 60 mod 60) @ CHR '':''
                # padInt 2 (sd mod 60) @ fracText ns @ ''Z''))"

definition parseFrac :: "string \<Rightarrow> (int \<times> string) option" where
  "parseFrac s =
     (if hasPrefix s ''.''
      then let ds = takeWhile isDecDigit (drop 1 s)
           in if ds = [] then None
              else map_option (\<lambda>n. (int n, dropWhile isDecDigit (drop 1 s)))
                (atoiDigits 0 (take 9 (ds @ replicate 9 (CHR ''0''))))
      else Some (0, s))"

definition parseZone :: "string \<Rightarrow> int option" where
  "parseZone s =
     (case s of
        [] \<Rightarrow> None
      | c # t \<Rightarrow>
          if c = CHR ''Z'' then (if t = [] then Some 0 else None)
          else if c = CHR ''+'' \<or> c = CHR ''-''
          then do {
            (h, u) \<leftarrow> readInt 2 t;
            u \<leftarrow> expectc (CHR '':'') u;
            (m, w) \<leftarrow> readInt 2 u;
            if w = [] \<and> h \<le> 24 \<and> m < 60
            then Some ((if c = CHR ''-'' then - 1 else 1) * (h * 3600 + m * 60)) else None}
          else None)"

definition parseTime :: "string \<Rightarrow> int option" where
  "parseTime s = do {
     (y, s) \<leftarrow> readInt 4 s; s \<leftarrow> expectc (CHR ''-'') s;
     (m, s) \<leftarrow> readInt 2 s; s \<leftarrow> expectc (CHR ''-'') s;
     (d, s) \<leftarrow> readInt 2 s; s \<leftarrow> expectc (CHR ''T'') s;
     (h, s) \<leftarrow> readInt 2 s; s \<leftarrow> expectc (CHR '':'') s;
     (mi, s) \<leftarrow> readInt 2 s; s \<leftarrow> expectc (CHR '':'') s;
     (sc, s) \<leftarrow> readInt 2 s;
     (ns, s) \<leftarrow> parseFrac s;
     off \<leftarrow> parseZone s;
     if 1 \<le> m \<and> m \<le> 12 \<and> 1 \<le> d \<and> d \<le> monthLens y ! nat (m - 1) \<and> h < 24 \<and> mi < 60 \<and> sc < 60
     then Some (((yearStart y + monthStart y m + (d - 1)) * 86400 + h * 3600 + mi * 60 + sc - off)
                  * nsPerSec + ns - zeroShift)
     else None}"

lemma trimRight_split:
  obtains k where "s = trimRight [c] s @ replicate k c"
proof
  let ?z = "takeWhile (\<lambda>d. d = c) (rev s)"
  have "?z = replicate (length ?z) c"
    by (rule replicate_length_same [symmetric]) (auto dest: set_takeWhileD)
  then have "rev ?z = replicate (length ?z) c" by (metis rev_replicate)
  moreover have "s = rev (dropWhile (\<lambda>d. d = c) (rev s)) @ rev ?z"
    by (metis rev_append rev_rev_ident takeWhile_dropWhile_id)
  ultimately show "s = trimRight [c] s @ replicate (length ?z) c" by (simp add: trimRight_def)
qed

lemma fracText_parse:
  assumes "0 \<le> ns" "ns < 1000000000"
  shows "parseFrac (fracText ns @ ''Z'') = Some (ns, ''Z'')"
proof (cases "ns = 0")
  case True
  then show ?thesis by (simp add: fracText_def parseFrac_def)
next
  case False
  define p where "p = padInt 9 ns"
  define q where "q = trimRight ''0'' p"
  obtain k where p: "p = q @ replicate k (CHR ''0'')"
    unfolding q_def by (rule trimRight_split)
  have z: "\<not> isDecDigit (CHR ''Z'')" by code_simp
  have "nat ns < 10 ^ 9" using assms by simp
  then have val: "atoiDigits 0 p = Some (nat ns)" using assms by (simp add: p_def atoiDigits_padInt)
  have "q \<noteq> []"
  proof
    assume "q = []"
    then have "p = replicate k (CHR ''0'')" using p by simp
    moreover have "atoiDigits 0 (replicate k (CHR ''0'')) = Some 0" for k
      by (induction k) (auto simp: digitVal_def)
    ultimately show False using val False assms by simp
  qed
  moreover have "\<forall>c \<in> set q. isDecDigit c" using p padInt_digits [of _ 9 ns] p_def by auto
  moreover have "length q + k = 9" using arg_cong [OF p, of length] by (simp add: p_def)
  then have "take 9 (q @ replicate 9 (CHR ''0'')) = p" using p by (simp add: min_def)
  ultimately show ?thesis using False val z assms
    by (simp add: fracText_def parseFrac_def Let_def p_def [symmetric] q_def [symmetric] takeWhile_append)
qed

lemma parseTime_fields:
  assumes "0 \<le> y" "y < 10000" "0 \<le> m" "m < 100" "0 \<le> d" "d < 100" "0 \<le> h" "h < 100" "0 \<le> mi" "mi < 100"
    "0 \<le> sc" "sc < 100" "0 \<le> ns" "ns < 1000000000"
  shows "parseTime (padInt 4 y @ CHR ''-'' # padInt 2 m @ CHR ''-'' # padInt 2 d @ CHR ''T''
      # padInt 2 h @ CHR '':'' # padInt 2 mi @ CHR '':'' # padInt 2 sc @ fracText ns @ ''Z'') =
    (if 1 \<le> m \<and> m \<le> 12 \<and> 1 \<le> d \<and> d \<le> monthLens y ! nat (m - 1) \<and> h < 24 \<and> mi < 60 \<and> sc < 60
     then Some (((yearStart y + monthStart y m + (d - 1)) * 86400 + h * 3600 + mi * 60 + sc - 0)
                  * nsPerSec + ns - zeroShift)
     else None)"
  using assms by (simp add: parseTime_def readInt_padInt fracText_parse parseZone_def)

lemma monthLens_bounds: "i < 12 \<Longrightarrow> 28 \<le> monthLens y ! i \<and> monthLens y ! i \<le> 31"
  by (auto simp: monthLens_def less_Suc_eq numeral_eq_Suc)

lemma parseTime_formatTime:
  assumes "formatTime t = Some s"
  shows "parseTime s = Some t"
proof -
  define total where "total = t + zeroShift"
  define secs where "secs = total div nsPerSec"
  define sd where "sd = secs mod 86400"
  define ns where "ns = total mod nsPerSec"
  obtain y yd where y: "splitYear 0 (secs div 86400) = (y, yd)" by fastforce
  obtain m md where m: "splitMonth 1 (monthLens y) yd = (m, md)" by fastforce
  have t: "0 \<le> total" and y4: "y \<le> 9999"
    and s: "s = padInt 4 y @ CHR ''-'' # padInt 2 m @ CHR ''-'' # padInt 2 (md + 1) @ CHR ''T''
      # padInt 2 (sd div 3600) @ CHR '':'' # padInt 2 (sd div 60 mod 60) @ CHR '':''
      # padInt 2 (sd mod 60) @ fracText ns @ ''Z''"
    using assms y m
    by (auto simp: formatTime_def Let_def total_def secs_def sd_def ns_def split: if_splits)
  have "0 \<le> secs" using t by (simp add: secs_def nsPerSec_def)
  then have "0 \<le> secs div 86400" by simp
  note yi = splitYear_inverse [OF y order.refl this]
  have "1 \<le> m \<and> nat (m - 1) < length (monthLens y) \<and> 0 \<le> md \<and> md < monthLens y ! nat (m - 1)
      \<and> sum_list (take (nat (m - 1)) (monthLens y)) + md = yd"
    by (rule splitMonth_inverse [OF m]) (use yi in \<open>simp_all add: sum_monthLens\<close>)
  then have mi: "1 \<le> m" "m \<le> 12" "0 \<le> md" "md < monthLens y ! nat (m - 1)" "monthStart y m + md = yd"
    by (auto simp: monthLens_def monthStart_def)
  have "nat (m - 1) < 12" using mi by simp
  then have d: "md < 31" using monthLens_bounds [of "nat (m - 1)" y] mi by linarith
  have sd: "0 \<le> sd" "sd < 86400" by (simp_all add: sd_def)
  then have h: "0 \<le> sd div 3600" "sd div 3600 < 24"
    "0 \<le> sd div 60 mod 60" "sd div 60 mod 60 < 60" "0 \<le> sd mod 60" "sd mod 60 < 60"
    by (simp_all add: pos_imp_zdiv_nonneg_iff)
  have hms: "sd div 3600 * 3600 + sd div 60 mod 60 * 60 + sd mod 60 = sd"
  proof -
    have "sd div 3600 = sd div 60 div 60" by (simp add: zdiv_zmult2_eq [symmetric])
    then have "sd div 3600 * 60 + sd div 60 mod 60 = sd div 60" by simp
    moreover have "sd div 60 * 60 + sd mod 60 = sd" by simp
    ultimately show ?thesis by linarith
  qed
  have ns: "0 \<le> ns" "ns < 1000000000" by (simp_all add: ns_def nsPerSec_def)
  have "(yearStart y + monthStart y m + (md + 1 - 1)) * 86400 + sd div 3600 * 3600
      + sd div 60 mod 60 * 60 + sd mod 60 - 0 = (yearStart y + yd) * 86400 + sd"
    using mi(5) hms by simp
  also have "\<dots> = secs" using yi by (simp add: sd_def yearStart.simps)
  finally have sum: "(yearStart y + monthStart y m + (md + 1 - 1)) * 86400 + sd div 3600 * 3600
      + sd div 60 mod 60 * 60 + sd mod 60 - 0 = secs" .
  have "0 \<le> y" "y < 10000" "0 \<le> m" "m < 100" "0 \<le> md + 1" "md + 1 < 100" "0 \<le> sd div 3600" "sd div 3600 < 100"
    "0 \<le> sd div 60 mod 60" "sd div 60 mod 60 < 100" "0 \<le> sd mod 60" "sd mod 60 < 100"
    using yi y4 mi d h by linarith+
  note fields = parseTime_fields [OF this ns]
  have "1 \<le> m \<and> m \<le> 12 \<and> 1 \<le> md + 1 \<and> md + 1 \<le> monthLens y ! nat (m - 1) \<and> sd div 3600 < 24
      \<and> sd div 60 mod 60 < 60 \<and> sd mod 60 < 60"
    using mi h by simp
  then have "parseTime s = Some (secs * nsPerSec + ns - zeroShift)"
    unfolding s fields sum by (rule if_P)
  moreover have "secs * nsPerSec + ns = total" by (simp add: secs_def ns_def)
  ultimately show ?thesis by (simp add: total_def)
qed

end
