(* ===== verification/Lifecycle.thy ===== *)
theory Lifecycle
  imports Exec_Env Go_Time Runtime_Prog
begin

text \<open>
  Running commands in a workspace and its lifecycle hooks: \<^verbatim>\<open>exec.go\<close>, \<^verbatim>\<open>lifecycle.go\<close>, \<^verbatim>\<open>marker.go\<close>,
  the host side of \<^verbatim>\<open>secrets.go\<close> and the probe of \<^verbatim>\<open>userenvprobe.go\<close>, as programs of runtime calls.
  An event bus is a flag: a nil bus discards what is emitted. \<^verbatim>\<open>EngineOptions.HostExecutor\<close> is a flag
  too; what it does is the response to \<open>ExecHost\<close>. The timeout of the probe's context is one of the
  errors its calls can return. Definitions only; the proofs are in \<^verbatim>\<open>Lifecycle_Correct\<close>.
\<close>

section \<open>Goroutines with a result slice\<close>

text \<open>
  The goroutines of one wait group, each writing its own element of a slice when it ends. A
  scheduler picks the one that makes the next call.
\<close>

function parallel ::
    "(nat \<Rightarrow> nat) \<Rightarrow> nat \<Rightarrow> (nat \<times> 'r prog) list \<Rightarrow> 'r list \<Rightarrow> 'r list prog" where
  "parallel pick n threads results =
     (if threads = [] then Ret results
      else let i = pick n mod length threads; j = fst (threads ! i) in
        case snd (threads ! i) of
          Ret r \<Rightarrow> parallel pick (Suc n) (removeNth i threads) (results[j := r])
        | Do c k \<Rightarrow> Do c (\<lambda>r. parallel pick (Suc n) (threads[i := (j, k r)]) results))"
  by pat_completeness auto

termination parallel
proof (relation "inv_image (mult subprog) (\<lambda>(pick, n, threads, results). mset (map snd threads))",
    goal_cases)
  case 1
  then show ?case by (intro wf_inv_image wf_mult wf_subprog)
qed (auto intro!: pool_shrinks_end pool_shrinks_step simp del: mset_map)

declare parallel.simps [simp del]

text \<open>\<open>runAll pick zero progs\<close>: start them all, wait, read the slice.\<close>

definition runAll :: "(nat \<Rightarrow> nat) \<Rightarrow> 'r \<Rightarrow> 'r prog list \<Rightarrow> 'r list prog" where
  "runAll pick zero progs =
     parallel pick 0 (zip [0..<length progs] progs) (replicate (length progs) zero)"

section \<open>Workspaces and errors\<close>

record workspace =
  ws_ID :: string
  ws_Config :: resolved_config
  ws_Container :: container_details
  ws_subst :: substitution_context
  ws_probedEnv :: "string gomap"

abbreviation containerID :: "workspace \<Rightarrow> string" where
  "containerID ws \<equiv> ct_ID (cd_Container (ws_Container ws))"

datatype engine_error =
    CtxDone runtime_error
  | WorkspaceRequired string
  | RuntimeFailed runtime_error
  | HostExecutorNotConfigured
  | HostFailed runtime_error
  | ReadMarkerFailed string runtime_error
  | MarshalMarkerFailed string
  | ExecWriteMarkerFailed string runtime_error
  | WriteMarkerExit string int string
  | LifecycleError string int string string "engine_error option"

section \<open>Substitution against the live container\<close>

definition newSubstituter ::
    "resolved_config \<Rightarrow> container_details \<Rightarrow> string gomap \<Rightarrow> substitution_context" where
  "newSubstituter cfg container localEnv =
     \<lparr>sc_LocalWorkspaceFolder = cfg_LocalWorkspaceFolder cfg,
      sc_ContainerWorkspaceFolder = cfg_ContainerWorkspaceFolder cfg,
      sc_DevcontainerID = cfg_DevcontainerID cfg, sc_LocalEnv = localEnv,
      sc_ContainerEnv = Some (envListToMap (cd_Env container))\<rparr>"

definition substString :: "substitution_context \<Rightarrow> string \<Rightarrow> string" where
  "substString ctx s = fst (ResolveString s ctx)"

definition substSlice :: "substitution_context \<Rightarrow> string list \<Rightarrow> string list" where
  "substSlice ctx xs = map (substString ctx) xs"

definition substMap :: "substitution_context \<Rightarrow> string gomap \<Rightarrow> string gomap" where
  "substMap ctx m = map (\<lambda>(k, v). (k, substString ctx v)) m"

section \<open>Exec\<close>

record engine_exec =
  ee_Cmd :: "string list"
  ee_Env :: "string gomap"
  ee_User :: string
  ee_WorkingDir :: string
  ee_SkipUserEnvProbe :: bool
  ee_EmitEvents :: bool

definition emit :: "bool \<Rightarrow> event \<Rightarrow> 'a prog \<Rightarrow> 'a prog" where
  "emit bus ev p = (if bus then Do (Emit ev) (\<lambda>_. p) else p)"

text \<open>\<^verbatim>\<open>time.Since(start).Milliseconds()\<close>; a duration saturates at the range of an \<^verbatim>\<open>int64\<close>.\<close>

definition millis :: "int \<Rightarrow> int \<Rightarrow> int" where
  "millis start now = sgn (now - start) * (min \<bar>now - start\<bar> (2 ^ 63 - 1) div 1000000)"

definition since :: "int \<Rightarrow> (int \<Rightarrow> 'a prog) \<Rightarrow> 'a prog" where
  "since start f = Do Now (\<lambda>t. f (millis start (asTime t)))"

text \<open>What \<^verbatim>\<open>Exec\<close> hands to the runtime.\<close>

definition execOptionsOf :: "workspace \<Rightarrow> engine_exec \<Rightarrow> exec_options" where
  "execOptionsOf ws opts =
     (let ctx = ws_subst ws; cfg = ws_Config ws;
          env = substMap ctx (ee_Env opts);
          user = substString ctx (ee_User opts)
      in \<lparr>xo_Cmd = substSlice ctx (ee_Cmd opts),
          xo_Env = (if ee_SkipUserEnvProbe opts then env
                    else mergeProbedEnv (ws_probedEnv ws) (substMap ctx (cfg_RemoteEnv cfg)) env
                           (effectiveUser cfg)),
          xo_User = (if user = [] then effectiveUser cfg else user),
          xo_WorkingDir = substString ctx (ee_WorkingDir opts)\<rparr>)"

definition Exec :: "workspace option \<Rightarrow> engine_exec \<Rightarrow> (engine_error + exec_result) prog" where
  "Exec wso opts =
     Do CtxErr (\<lambda>cr.
       case errOf cr of
         Some e \<Rightarrow> Ret (Inl (CtxDone e))
       | None \<Rightarrow>
           (case wso of
              None \<Rightarrow> Ret (Inl (WorkspaceRequired ''Engine.Exec''))
            | Some ws \<Rightarrow>
                let bus = ee_EmitEvents opts; xo = execOptionsOf ws opts; cid = containerID ws in
                emit bus (ExecStartEvent cid (xo_Cmd xo))
                  (Do Now (\<lambda>t0.
                     Do (ExecContainer cid xo) (\<lambda>r.
                       since (asTime t0) (\<lambda>ms.
                         case asExec r of
                           Inl e \<Rightarrow> emit bus (ExecCompletedEvent cid (- 1) ms) (Ret (Inl (RuntimeFailed e)))
                         | Inr x \<Rightarrow> emit bus (ExecCompletedEvent cid (er_ExitCode x) ms) (Ret (Inr x))))))))"

section \<open>Commands in the container\<close>

text \<open>Exit code, standard output, standard error and error of one command.\<close>

type_synonym outcome = "int \<times> string \<times> string \<times> engine_error option"

definition commandExec :: "workspace \<Rightarrow> command \<Rightarrow> engine_exec" where
  "commandExec ws c =
     \<lparr>ee_Cmd = (if cm_Shell c \<noteq> [] then [''sh'', ''-c'', cm_Shell c] else cm_Exec c),
      ee_Env = [], ee_User = effectiveUser (ws_Config ws),
      ee_WorkingDir = cfg_ContainerWorkspaceFolder (ws_Config ws),
      ee_SkipUserEnvProbe = False, ee_EmitEvents = False\<rparr>"

definition execCommand :: "workspace \<Rightarrow> command \<Rightarrow> outcome prog" where
  "execCommand ws c =
     andThen (Exec (Some ws) (commandExec ws c)) (\<lambda>r.
       case r of
         Inl e \<Rightarrow> Ret (0, [], [], Some e)
       | Inr x \<Rightarrow> Ret (er_ExitCode x, er_Stdout x, er_Stderr x, None))"

text \<open>The outputs of named commands, each under its name; empty ones are left out.\<close>

definition labelled :: "string \<Rightarrow> string \<Rightarrow> string" where
  "labelled name out = (if out = [] then [] else ''['' @ name @ '']'' @ [CHR 0x0A] @ out @ [CHR 0x0A])"

fun firstOf :: "('a \<Rightarrow> 'b option) \<Rightarrow> 'a list \<Rightarrow> 'b option" where
  "firstOf f [] = None"
| "firstOf f (x # xs) = (case f x of None \<Rightarrow> firstOf f xs | Some y \<Rightarrow> Some y)"

definition aggregate :: "(string \<times> outcome) list \<Rightarrow> outcome" where
  "aggregate results =
     (let out = concat (map (\<lambda>(n, ec, so, se, er). labelled n so) results);
          err = concat (map (\<lambda>(n, ec, so, se, er). labelled n se) results)
      in case firstOf (\<lambda>(n, ec, so, se, er). er) results of
           Some e \<Rightarrow> (0, out, err, Some e)
         | None \<Rightarrow>
             (case firstOf (\<lambda>(n, ec, so, se, er). if ec \<noteq> 0 then Some ec else None) results of
                Some ec \<Rightarrow> (ec, out, err, None)
              | None \<Rightarrow> (0, out, err, None)))"

definition namedCommand :: "command gomap \<Rightarrow> string \<Rightarrow> command" where
  "namedCommand m name = (case map_of m name of Some c \<Rightarrow> c | None \<Rightarrow> \<lparr>cm_Shell = [], cm_Exec = []\<rparr>)"

definition execParallel :: "(nat \<Rightarrow> nat) \<Rightarrow> workspace \<Rightarrow> command gomap \<Rightarrow> outcome prog" where
  "execParallel pick ws par =
     (let names = sortedKeys par in
      andThen (runAll pick (0, [], [], None) (map (\<lambda>n. execCommand ws (namedCommand par n)) names))
        (\<lambda>results. Ret (aggregate (zip names results))))"

definition execLifecycleCommand :: "(nat \<Rightarrow> nat) \<Rightarrow> workspace \<Rightarrow> lifecycle_command \<Rightarrow> outcome prog" where
  "execLifecycleCommand pick ws cmd =
     (case lc_Single cmd of
        Some c \<Rightarrow> execCommand ws c
      | None \<Rightarrow>
          if lc_Parallel cmd \<noteq> [] then execParallel pick ws (lc_Parallel cmd)
          else Ret (0, [], [], None))"

section \<open>Commands on the host\<close>

definition asHost :: "resp \<Rightarrow> outcome" where
  "asHost r = (case asExec r of
     Inl e \<Rightarrow> (0, [], [], Some (HostFailed e))
   | Inr x \<Rightarrow> (er_ExitCode x, er_Stdout x, er_Stderr x, None))"

definition hostCommand :: "resolved_config \<Rightarrow> command \<Rightarrow> host_command" where
  "hostCommand cfg c = \<lparr>hx_Shell = cm_Shell c, hx_Exec = cm_Exec c, hx_Env = [],
     hx_WorkingDir = cfg_LocalWorkspaceFolder cfg\<rparr>"

text \<open>The error of a phase: the cause, or a non-zero exit with its outputs.\<close>

definition outcomeError :: "string \<Rightarrow> outcome \<Rightarrow> engine_error option" where
  "outcomeError phase r = (case r of (ec, so, se, er) \<Rightarrow>
     (case er of
        Some e \<Rightarrow> Some (LifecycleError phase 0 [] [] (Some e))
      | None \<Rightarrow> if ec \<noteq> 0 then Some (LifecycleError phase ec so se None) else None))"

definition runInitializeSingle :: "workspace \<Rightarrow> command \<Rightarrow> engine_error option prog" where
  "runInitializeSingle ws c =
     Do (ExecHost (hostCommand (ws_Config ws) c)) (\<lambda>r. Ret (outcomeError LifecycleInitialize (asHost r)))"

text \<open>Errors of the executor come before non-zero exits.\<close>

definition runInitializeParallel ::
    "(nat \<Rightarrow> nat) \<Rightarrow> workspace \<Rightarrow> command gomap \<Rightarrow> engine_error option prog" where
  "runInitializeParallel pick ws par =
     andThen (runAll pick (0, [], [], None)
         (map (\<lambda>n. Do (ExecHost (hostCommand (ws_Config ws) (namedCommand par n))) (\<lambda>r. Ret (asHost r)))
           (sortedKeys par)))
       (\<lambda>results.
          Ret (case firstOf (\<lambda>(ec, so, se, er). er) results of
                 Some e \<Rightarrow> Some (LifecycleError LifecycleInitialize 0 [] [] (Some e))
               | None \<Rightarrow> firstOf (outcomeError LifecycleInitialize) results))"

definition runInitialize ::
    "(nat \<Rightarrow> nat) \<Rightarrow> bool \<Rightarrow> workspace \<Rightarrow> lifecycle_command \<Rightarrow> engine_error option prog" where
  "runInitialize pick host ws cmd =
     (if \<not> host then Ret (Some (LifecycleError LifecycleInitialize 0 [] [] (Some HostExecutorNotConfigured)))
      else case lc_Single cmd of
        Some c \<Rightarrow> runInitializeSingle ws c
      | None \<Rightarrow> if lc_Parallel cmd \<noteq> [] then runInitializeParallel pick ws (lc_Parallel cmd) else Ret None)"

section \<open>Markers\<close>

definition markerDir :: string where "markerDir = ''/var/devcontainer-go/markers''"
definition markerVersion :: int where "markerVersion = 1"

record marker =
  mk_Version :: int
  mk_Phase :: string
  mk_KeyTimestamp :: int
  mk_RanAt :: int
  mk_DurationMs :: int
  mk_ExitCode :: int

definition zeroMarker :: marker where
  "zeroMarker = \<lparr>mk_Version = 0, mk_Phase = [], mk_KeyTimestamp = 0, mk_RanAt = 0, mk_DurationMs = 0,
     mk_ExitCode = 0\<rparr>"

text \<open>\<^verbatim>\<open>json.Marshal\<close> fails on a time whose year has more than four digits.\<close>

definition markerDoc :: "marker \<Rightarrow> string \<Rightarrow> string \<Rightarrow> json" where
  "markerDoc m key start = JObj
     [(''v'', JNum (itoa (mk_Version m))), (''phase'', JStr (mk_Phase m)), (''keyTimestamp'', JStr key),
      (''ranAt'', JStr start), (''durationMs'', JNum (itoa (mk_DurationMs m))),
      (''exitCode'', JNum (itoa (mk_ExitCode m)))]"

definition marshalMarker :: "marker \<Rightarrow> string option" where
  "marshalMarker m =
     (case (formatTime (mk_KeyTimestamp m), formatTime (mk_RanAt m)) of
        (Some key, Some start) \<Rightarrow> Some (jsonPrint (markerDoc m key start))
      | _ \<Rightarrow> None)"

text \<open>
  \<^verbatim>\<open>json.Unmarshal\<close> into a marker: members are matched to fields without regard to case, \<^verbatim>\<open>null\<close> leaves a
  field as it is, unknown members are ignored, and a value of the wrong shape is an error.
\<close>

definition unmarshalTime :: "json \<Rightarrow> int option" where
  "unmarshalTime v = (case v of JStr s \<Rightarrow> parseTime s | _ \<Rightarrow> None)"

definition markerMember :: "string \<times> json \<Rightarrow> marker \<Rightarrow> marker option" where
  "markerMember kv m =
     (let k = toLower (fst kv); v = snd kv in
      if v = JNull then Some m
      else if k = ''v'' then map_option (\<lambda>x. m\<lparr>mk_Version := x\<rparr>) (unmarshalInt v)
      else if k = ''phase'' then map_option (\<lambda>x. m\<lparr>mk_Phase := x\<rparr>) (unmarshalString v)
      else if k = ''keytimestamp'' then map_option (\<lambda>x. m\<lparr>mk_KeyTimestamp := x\<rparr>) (unmarshalTime v)
      else if k = ''ranat'' then map_option (\<lambda>x. m\<lparr>mk_RanAt := x\<rparr>) (unmarshalTime v)
      else if k = ''durationms'' then map_option (\<lambda>x. m\<lparr>mk_DurationMs := x\<rparr>) (unmarshalInt v)
      else if k = ''exitcode'' then map_option (\<lambda>x. m\<lparr>mk_ExitCode := x\<rparr>) (unmarshalInt v)
      else Some m)"

fun markerMembers :: "(string \<times> json) list \<Rightarrow> marker \<Rightarrow> marker option" where
  "markerMembers [] m = Some m"
| "markerMembers (kv # kvs) m =
     (case markerMember kv m of None \<Rightarrow> None | Some m' \<Rightarrow> markerMembers kvs m')"

definition unmarshalMarker :: "string \<Rightarrow> marker option" where
  "unmarshalMarker s =
     (case jsonParse s of
        Some (JObj kvs) \<Rightarrow> markerMembers kvs zeroMarker
      | Some JNull \<Rightarrow> Some zeroMarker
      | _ \<Rightarrow> None)"

definition readScript :: "string \<Rightarrow> string" where
  "readScript phase = ''cat '' @ markerDir @ ''/'' @ phase @ '' 2>/dev/null''"

definition shExec :: "string \<Rightarrow> exec_options" where
  "shExec script = \<lparr>xo_Cmd = [''sh'', ''-c'', script], xo_Env = [], xo_User = [], xo_WorkingDir = []\<rparr>"

text \<open>What the text of a marker file says: nothing when it is corrupt or of another version.\<close>

definition markerOf :: "exec_result \<Rightarrow> marker option" where
  "markerOf x =
     (if er_ExitCode x \<noteq> 0 \<or> dropWhile isSpaceJ (er_Stdout x) = [] then None
      else case unmarshalMarker (er_Stdout x) of
             None \<Rightarrow> None
           | Some m \<Rightarrow> if mk_Version m \<noteq> markerVersion then None else Some m)"

definition readMarker :: "workspace \<Rightarrow> string \<Rightarrow> (runtime_error + marker option) prog" where
  "readMarker ws phase =
     Do (ExecContainer (containerID ws) (shExec (readScript phase))) (\<lambda>r.
       Ret (case asExec r of Inl e \<Rightarrow> Inl e | Inr x \<Rightarrow> Inr (markerOf x)))"

definition eofTag :: string where "eofTag = ''__DC_GO_EOF__''"

definition writeScript :: "string \<Rightarrow> string \<Rightarrow> string" where
  "writeScript phase body =
     ''mkdir -p '' @ markerDir @ '' && cat > '' @ markerDir @ ''/'' @ phase @ '' <<'' @ [CHR 0x27] @ eofTag
     @ [CHR 0x27, CHR 0x0A] @ body @ [CHR 0x0A] @ eofTag @ [CHR 0x0A]"

definition writeMarker :: "workspace \<Rightarrow> marker \<Rightarrow> engine_error option prog" where
  "writeMarker ws m =
     (case marshalMarker m of
        None \<Rightarrow> Ret (Some (MarshalMarkerFailed (mk_Phase m)))
      | Some body \<Rightarrow>
          Do (ExecContainer (containerID ws) (shExec (writeScript (mk_Phase m) body))) (\<lambda>r.
            Ret (case asExec r of
                   Inl e \<Rightarrow> Some (ExecWriteMarkerFailed (mk_Phase m) e)
                 | Inr x \<Rightarrow> if er_ExitCode x \<noteq> 0
                            then Some (WriteMarkerExit (mk_Phase m) (er_ExitCode x) (er_Stderr x))
                            else None)))"

definition keyTimestampFor :: "string \<Rightarrow> container_details \<Rightarrow> int" where
  "keyTimestampFor phase container =
     (if phase = LifecyclePostStart then cd_StartedAt container else cd_Created container)"

definition shouldRun :: "string \<Rightarrow> marker option \<Rightarrow> container_details \<Rightarrow> bool" where
  "shouldRun phase m container \<longleftrightarrow>
     phase = LifecyclePostAttach
     \<or> (case m of None \<Rightarrow> True | Some mk \<Rightarrow> mk_KeyTimestamp mk \<noteq> keyTimestampFor phase container)"

section \<open>Phases\<close>

definition orderedPhases :: "string list" where
  "orderedPhases = [LifecycleInitialize, LifecycleOnCreate, LifecycleUpdateContent, LifecyclePostCreate,
     LifecyclePostStart, LifecyclePostAttach]"

definition lifecycleCommandsFor :: "resolved_config \<Rightarrow> string \<Rightarrow> lifecycle_command list" where
  "lifecycleCommandsFor cfg phase =
     (let l = cfg_Lifecycle cfg in
      if phase = LifecycleInitialize then lcs_Initialize l
      else if phase = LifecycleOnCreate then lcs_OnCreate l
      else if phase = LifecycleUpdateContent then lcs_UpdateContent l
      else if phase = LifecyclePostCreate then lcs_PostCreate l
      else if phase = LifecyclePostStart then lcs_PostStart l
      else if phase = LifecyclePostAttach then lcs_PostAttach l
      else [])"

definition lifecycleCommandDisplay :: "lifecycle_command \<Rightarrow> string" where
  "lifecycleCommandDisplay c =
     (let par = (if lc_Parallel c \<noteq> [] then joinWith '','' (sortedKeys (lc_Parallel c)) else []) in
      case lc_Single c of
        None \<Rightarrow> par
      | Some s \<Rightarrow> if cm_Shell s \<noteq> [] then cm_Shell s
                  else if cm_Exec s \<noteq> [] then joinWith '' '' (cm_Exec s)
                  else par)"

definition exitCodeFromErr :: "engine_error option \<Rightarrow> int" where
  "exitCodeFromErr err =
     (case err of Some (LifecycleError p ec so se c) \<Rightarrow> if ec \<noteq> 0 then ec else - 1 | _ \<Rightarrow> - 1)"

fun runInitializeHooks ::
    "(nat \<Rightarrow> nat) \<Rightarrow> bool \<Rightarrow> bool \<Rightarrow> workspace \<Rightarrow> lifecycle_command list \<Rightarrow> engine_error option prog" where
  "runInitializeHooks pick host bus ws [] = Ret None"
| "runInitializeHooks pick host bus ws (c # cs) =
     emit bus (LifecycleStartEvent LifecycleInitialize (lifecycleCommandDisplay c))
       (Do Now (\<lambda>t0.
          andThen (runInitialize pick host ws c) (\<lambda>err.
            since (asTime t0) (\<lambda>ms.
              case err of
                Some e \<Rightarrow> emit bus (LifecycleCompletedEvent LifecycleInitialize (exitCodeFromErr err) ms)
                            (Ret (Some e))
              | None \<Rightarrow> emit bus (LifecycleCompletedEvent LifecycleInitialize 0 ms)
                          (runInitializeHooks pick host bus ws cs)))))"

fun runHooks ::
    "(nat \<Rightarrow> nat) \<Rightarrow> bool \<Rightarrow> workspace \<Rightarrow> string \<Rightarrow> lifecycle_command list \<Rightarrow> engine_error option prog" where
  "runHooks pick bus ws phase [] = Ret None"
| "runHooks pick bus ws phase (c # cs) =
     emit bus (LifecycleStartEvent phase (lifecycleCommandDisplay c))
       (Do Now (\<lambda>t0.
          andThen (execLifecycleCommand pick ws c) (\<lambda>(ec, so, se, err).
            since (asTime t0) (\<lambda>ms.
              emit bus (LifecycleCompletedEvent phase (if err \<noteq> None then - 1 else ec) ms)
                (case outcomeError phase (ec, so, se, err) of
                   Some e \<Rightarrow> Ret (Some e)
                 | None \<Rightarrow> runHooks pick bus ws phase cs)))))"

definition freshMarker :: "workspace \<Rightarrow> string \<Rightarrow> int \<Rightarrow> int \<Rightarrow> marker" where
  "freshMarker ws phase start ms =
     \<lparr>mk_Version = markerVersion, mk_Phase = phase,
      mk_KeyTimestamp = keyTimestampFor phase (ws_Container ws), mk_RanAt = start, mk_DurationMs = ms,
      mk_ExitCode = 0\<rparr>"

text \<open>The hooks of a phase in the container, and the marker after them.\<close>

definition runMarked ::
    "(nat \<Rightarrow> nat) \<Rightarrow> bool \<Rightarrow> workspace \<Rightarrow> string \<Rightarrow> lifecycle_command list \<Rightarrow> engine_error option prog" where
  "runMarked pick bus ws phase cmds =
     Do Now (\<lambda>t0.
       andThen (runHooks pick bus ws phase cmds) (\<lambda>err.
         case err of
           Some e \<Rightarrow> Ret (Some e)
         | None \<Rightarrow>
             if phase = LifecyclePostAttach then Ret None
             else since (asTime t0) (\<lambda>ms. writeMarker ws (freshMarker ws phase (asTime t0) ms))))"

definition runPhase ::
    "(nat \<Rightarrow> nat) \<Rightarrow> bool \<Rightarrow> bool \<Rightarrow> workspace \<Rightarrow> string \<Rightarrow> lifecycle_command list \<Rightarrow> engine_error option prog" where
  "runPhase pick host bus ws phase cmds =
     (if cmds = [] then Ret None
      else if phase = LifecycleInitialize then runInitializeHooks pick host bus ws cmds
      else if phase = LifecyclePostAttach then runMarked pick bus ws phase cmds
      else andThen (readMarker ws phase) (\<lambda>r.
             case r of
               Inl e \<Rightarrow> Ret (Some (ReadMarkerFailed phase e))
             | Inr m \<Rightarrow>
                 if \<not> shouldRun phase m (ws_Container ws)
                 then emit bus (LifecycleSkippedEvent phase ''marker_present'') (Ret None)
                 else runMarked pick bus ws phase cmds))"

fun runPhases ::
    "(nat \<Rightarrow> nat) \<Rightarrow> bool \<Rightarrow> bool \<Rightarrow> bool \<Rightarrow> workspace \<Rightarrow> string list \<Rightarrow> engine_error option prog" where
  "runPhases pick host runInit bus ws [] = Ret None"
| "runPhases pick host runInit bus ws (phase # phases) =
     (if phase = LifecycleInitialize \<and> \<not> runInit then runPhases pick host runInit bus ws phases
      else andThen (runPhase pick host bus ws phase (lifecycleCommandsFor (ws_Config ws) phase)) (\<lambda>err.
             case err of
               Some e \<Rightarrow> Ret (Some e)
             | None \<Rightarrow> runPhases pick host runInit bus ws phases))"

definition runAllLifecycle ::
    "(nat \<Rightarrow> nat) \<Rightarrow> bool \<Rightarrow> workspace \<Rightarrow> bool \<Rightarrow> bool \<Rightarrow> engine_error option prog" where
  "runAllLifecycle pick host ws runInit bus = runPhases pick host runInit bus ws orderedPhases"

definition RunLifecycle ::
    "(nat \<Rightarrow> nat) \<Rightarrow> bool \<Rightarrow> workspace option \<Rightarrow> string \<Rightarrow> engine_error option prog" where
  "RunLifecycle pick host wso phase =
     Do CtxErr (\<lambda>cr.
       case errOf cr of
         Some e \<Rightarrow> Ret (Some (CtxDone e))
       | None \<Rightarrow>
           (case wso of
              None \<Rightarrow> Ret (Some (WorkspaceRequired ''Engine.RunLifecycle''))
            | Some ws \<Rightarrow> runPhase pick host False ws phase (lifecycleCommandsFor (ws_Config ws) phase)))"

section \<open>Secrets\<close>

definition phaseSecretsCommand :: string where "phaseSecretsCommand = ''secretsCommand''"

definition execSecretsHost :: "resolved_config \<Rightarrow> command \<Rightarrow> (engine_error + string gomap) prog" where
  "execSecretsHost cfg c =
     Do (ExecHost (hostCommand cfg c)) (\<lambda>r.
       Ret (case outcomeError phaseSecretsCommand (asHost r) of
              Some e \<Rightarrow> Inl e
            | None \<Rightarrow> (case asHost r of (ec, so, se, er) \<Rightarrow> Inr (parseSecretsKV so))))"

fun secretsLoop ::
    "resolved_config \<Rightarrow> command gomap \<Rightarrow> string list \<Rightarrow> string gomap \<Rightarrow> (engine_error + string gomap) prog" where
  "secretsLoop cfg par [] merged = Ret (Inr merged)"
| "secretsLoop cfg par (n # ns) merged =
     andThen (execSecretsHost cfg (namedCommand par n)) (\<lambda>r.
       case r of Inl e \<Rightarrow> Ret (Inl e) | Inr env \<Rightarrow> secretsLoop cfg par ns (mputall merged env))"

definition runSecretsCommand :: "bool \<Rightarrow> resolved_config \<Rightarrow> (engine_error + string gomap) prog" where
  "runSecretsCommand host cfg =
     (let cmd = cfg_SecretsCommand cfg in
      if lifecycleCommand_IsEmpty cmd then Ret (Inr [])
      else if \<not> host
      then Ret (Inl (LifecycleError phaseSecretsCommand 0 [] [] (Some HostExecutorNotConfigured)))
      else case lc_Single cmd of
             Some c \<Rightarrow> execSecretsHost cfg c
           | None \<Rightarrow> secretsLoop cfg (lc_Parallel cmd) (sortedKeys (lc_Parallel cmd)) [])"

definition collectSecretsEnv ::
    "bool \<Rightarrow> resolved_config \<Rightarrow> bool \<Rightarrow> string gomap \<Rightarrow> (engine_error + string gomap) prog" where
  "collectSecretsEnv host cfg runSecrets extra =
     (if \<not> runSecrets then Ret (Inr extra)
      else andThen (runSecretsCommand host cfg) (\<lambda>r.
        Ret (case r of
               Inl e \<Rightarrow> Inl e
             | Inr secrets \<Rightarrow>
                 if secrets = [] then Inr extra
                 else if extra = [] then Inr secrets
                 else Inr (mputall (mputall [] secrets) extra))))"

section \<open>The probe of the user's environment\<close>

definition probeShellFlags :: "string \<Rightarrow> string" where
  "probeShellFlags probe =
     (if probe = ''loginShell'' then ''-lc''
      else if probe = ''interactiveShell'' then ''-ic''
      else ''-lic'')"

definition probeExec :: "workspace \<Rightarrow> string list \<Rightarrow> exec_options" where
  "probeExec ws cmd = \<lparr>xo_Cmd = cmd, xo_Env = [], xo_User = effectiveUser (ws_Config ws), xo_WorkingDir = []\<rparr>"

definition probeUserEnv :: "workspace \<Rightarrow> string \<Rightarrow> (runtime_error + string gomap) prog" where
  "probeUserEnv ws probe =
     (if probe = ''none'' then Ret (Inr [])
      else let flags = probeShellFlags probe in
        Do (ExecContainer (containerID ws) (probeExec ws [''bash'', flags, ''cat /proc/self/environ''])) (\<lambda>r.
          let fallback = Do (ExecContainer (containerID ws) (probeExec ws [''sh'', flags, ''printenv''])) (\<lambda>r2.
                Ret (case (asExec r2, asExec r) of
                       (Inl e2, Inl e) \<Rightarrow> Inl e
                     | (Inl e2, Inr x) \<Rightarrow> Inl e2
                     | (Inr y, _) \<Rightarrow> if er_ExitCode y \<noteq> 0 then Inr []
                                    else Inr (parseEnvironBytes (er_Stdout y) (CHR 0x0A))))
          in case asExec r of
               Inr x \<Rightarrow> if er_ExitCode x = 0 \<and> er_Stdout x \<noteq> []
                        then Ret (Inr (parseEnvironBytes (er_Stdout x) (CHR 0x00)))
                        else fallback
             | Inl e \<Rightarrow> fallback))"

end
