(* ===== verification/Lifecycle_Correct.thy ===== *)
theory Lifecycle_Correct
  imports Lifecycle
begin

text \<open>
  The lifecycle runner on a container that keeps its marker files. \<open>box\<close> is such a container: its two
  timestamps, its marker files, and a log of the hooks that started and the phases that were marked.
  Everything the runner does not decide (what a hook returns, clocks, failures of the daemon) is
  answered by an arbitrary \<open>world\<close>.
\<close>

section \<open>Markers are read back\<close>

lemma jsonEscape_printable: "c \<in> set (jsonEscape d) \<Longrightarrow> 32 \<le> (of_char c :: nat)"
proof -
  have hex: "32 \<le> (of_char (hexc n) :: nat)" if "n < 16" for n
    using that by (auto simp: hexc_def)
  have "(of_char d :: nat) < 256" by simp
  then have "(of_char d :: nat) div 16 < 16" "(of_char d :: nat) mod 16 < 16"
    by (auto simp: less_mult_imp_div_less)
  then show "c \<in> set (jsonEscape d) \<Longrightarrow> 32 \<le> (of_char c :: nat)"
    using hex unfolding jsonEscape_def Let_def by (auto split: if_splits)
qed

lemma jsonQuote_printable: "c \<in> set (jsonQuote s) \<Longrightarrow> 32 \<le> (of_char c :: nat)"
  using jsonEscape_printable by (auto simp: jsonQuote_def)

lemma itoa_printable: "c \<in> set (itoa i) \<Longrightarrow> 32 \<le> (of_char c :: nat)"
  using itoaNat_decDigits unfolding itoa_def by (auto simp: isDecDigit_iff split: if_splits dest!: itoaNat_decDigits)

lemma markerDoc_printable:
  assumes "c \<in> set (jsonPrint (markerDoc m a b))"
  shows "32 \<le> (of_char c :: nat)"
  using assms unfolding markerDoc_def
  by (auto dest!: jsonQuote_printable itoa_printable)

lemma marshalMarker_printable:
  "marshalMarker m = Some body \<Longrightarrow> c \<in> set body \<Longrightarrow> 32 \<le> (of_char c :: nat)"
  by (auto simp: marshalMarker_def split: option.splits dest: markerDoc_printable)

lemma unmarshalInt_itoa: "inIntRange i \<Longrightarrow> unmarshalInt (JNum (itoa i)) = Some i"
  by (simp add: unmarshalInt_def atoi_itoa)

lemma marker_keys:
  "toLower ''v'' = ''v''" "toLower ''phase'' = ''phase''" "toLower ''keyTimestamp'' = ''keytimestamp''"
  "toLower ''ranAt'' = ''ranat''" "toLower ''durationMs'' = ''durationms''"
  "toLower ''exitCode'' = ''exitcode''"
  by code_simp+

lemma unmarshal_marshal:
  assumes "marshalMarker m = Some body"
    and "inIntRange (mk_Version m)" "inIntRange (mk_DurationMs m)" "inIntRange (mk_ExitCode m)"
  shows "unmarshalMarker (body @ [CHR 0x0A]) = Some m"
proof -
  obtain a b where a: "formatTime (mk_KeyTimestamp m) = Some a" and b: "formatTime (mk_RanAt m) = Some b"
      and body: "body = jsonPrint (markerDoc m a b)"
    using assms(1) by (auto simp: marshalMarker_def split: option.splits)
  have "wfRaw (markerDoc m a b)" by (simp add: markerDoc_def numLit_itoa)
  moreover have "skipWs [CHR 0x0A] = []" by (simp add: skipWs_def isSpaceJ_def)
  ultimately have "jsonParse (body @ [CHR 0x0A]) = Some (markerDoc m a b)"
    unfolding body by (rule jsonParse_print)
  then show ?thesis
    by (simp add: unmarshalMarker_def markerDoc_def markerMember_def marker_keys unmarshalInt_itoa assms
        unmarshalTime_def parseTime_formatTime [OF a] parseTime_formatTime [OF b] unmarshalString_def)
qed

lemma millis_range: "inIntRange (millis a b)"
proof -
  have "\<bar>millis a b\<bar> \<le> 2 ^ 63 - 1"
  proof -
    have "0 \<le> min \<bar>b - a\<bar> (2 ^ 63 - 1) div 1000000" by simp
    moreover have "min \<bar>b - a\<bar> (2 ^ 63 - 1) div 1000000 \<le> (2 ^ 63 - 1 :: int) div 1000000"
      by (rule zdiv_mono1) auto
    ultimately show ?thesis by (auto simp: millis_def abs_mult sgn_if)
  qed
  then have "millis a b \<le> 2 ^ 63 - 1" "- millis a b \<le> 2 ^ 63 - 1" by linarith+
  then show ?thesis unfolding inIntRange_def by linarith
qed

lemma markerOf_fresh:
  assumes "marshalMarker (freshMarker ws p start (millis a b)) = Some body"
  shows "markerOf \<lparr>er_ExitCode = 0, er_Stdout = body @ [CHR 0x0A], er_Stderr = []\<rparr> =
    Some (freshMarker ws p start (millis a b))"
proof -
  have "inIntRange 0" "inIntRange 1" by (simp_all add: inIntRange_def)
  then have "unmarshalMarker (body @ [CHR 0x0A]) = Some (freshMarker ws p start (millis a b))"
    by (intro unmarshal_marshal [OF assms]) (simp_all add: freshMarker_def markerVersion_def millis_range)
  moreover have "body \<noteq> [] \<and> \<not> isSpaceJ (hd body)"
    using assms by (auto simp: marshalMarker_def markerDoc_def isSpaceJ_def split: option.splits)
  then have "dropWhile isSpaceJ (body @ [CHR 0x0A]) \<noteq> []"
    by (cases body) auto
  ultimately show ?thesis by (simp add: markerOf_def freshMarker_def)
qed

section \<open>A container with marker files\<close>

datatype entry = Started string int | Marked string int

record box =
  bx_Created :: int
  bx_StartedAt :: int
  bx_Files :: "string gomap"
  bx_Log :: "entry list"
  bx_Calls :: nat

definition boxKey :: "string \<Rightarrow> box \<Rightarrow> int" where
  "boxKey p w = (if p = LifecyclePostStart then bx_StartedAt w else bx_Created w)"

definition markedPhases :: "string list" where
  "markedPhases = [LifecycleOnCreate, LifecycleUpdateContent, LifecyclePostCreate, LifecyclePostStart]"

datatype marker_op = ReadOp string | WriteOp string string

text \<open>
  What the container's shell does with a script of the two marker forms: print the file, or replace
  it by the lines of the here-document.
\<close>

definition heredoc :: "string \<Rightarrow> string option" where
  "heredoc rest =
     (let ls = splitc (CHR 0x0A) rest in
      if dropWhile (\<lambda>l. l \<noteq> eofTag) ls = [eofTag, []]
      then Some (concat (map (\<lambda>l. l @ [CHR 0x0A]) (takeWhile (\<lambda>l. l \<noteq> eofTag) ls)))
      else None)"

definition writeHead :: "string \<Rightarrow> string" where
  "writeHead phase =
     ''mkdir -p '' @ markerDir @ '' && cat > '' @ markerDir @ ''/'' @ phase @ '' <<'' @ [CHR 0x27] @ eofTag
     @ [CHR 0x27, CHR 0x0A]"

definition scriptOp :: "string \<Rightarrow> string \<Rightarrow> marker_op option" where
  "scriptOp script p =
     (if script = readScript p then Some (ReadOp p)
      else if hasPrefix script (writeHead p)
      then map_option (WriteOp p) (heredoc (drop (length (writeHead p)) script))
      else None)"

definition markerOp :: "exec_options \<Rightarrow> marker_op option" where
  "markerOp xo =
     (case xo_Cmd xo of
        [sh, c, script] \<Rightarrow> if sh = ''sh'' \<and> c = ''-c'' then firstOf (scriptOp script) markedPhases else None
      | _ \<Rightarrow> None)"

definition boxExec :: "resp \<Rightarrow> marker_op option \<Rightarrow> box \<Rightarrow> resp \<times> box" where
  "boxExec r oper w =
     (case (asExec r, oper) of
        (Inl e, _) \<Rightarrow> (r, w)
      | (Inr x, None) \<Rightarrow> (r, w)
      | (Inr x, Some (ReadOp p)) \<Rightarrow>
          (RExec (case map_of (bx_Files w) p of
             Some t \<Rightarrow> \<lparr>er_ExitCode = 0, er_Stdout = t, er_Stderr = []\<rparr>
           | None \<Rightarrow> \<lparr>er_ExitCode = 1, er_Stdout = [], er_Stderr = []\<rparr>), w)
      | (Inr x, Some (WriteOp p t)) \<Rightarrow>
          if er_ExitCode x \<noteq> 0 then (r, w)
          else (r, w\<lparr>bx_Files := mput p t (bx_Files w), bx_Log := Marked p (boxKey p w) # bx_Log w\<rparr>))"

definition boxHandler :: "(nat \<Rightarrow> call \<Rightarrow> resp) \<Rightarrow> call \<Rightarrow> box \<Rightarrow> resp \<times> box" where
  "boxHandler world c w0 =
     (let r = world (bx_Calls w0) c; w = w0\<lparr>bx_Calls := Suc (bx_Calls w0)\<rparr> in
      case c of
        ExecContainer cid xo \<Rightarrow> boxExec r (markerOp xo) w
      | Emit ev \<Rightarrow>
          (case ev of
             LifecycleStartEvent p d \<Rightarrow> (r, w\<lparr>bx_Log := Started p (boxKey p w) # bx_Log w\<rparr>)
           | _ \<Rightarrow> (r, w))
      | _ \<Rightarrow> (r, w))"

text \<open>The newest entry comes first: a phase that was marked neither starts nor is marked again under the same key.\<close>

fun noRerun :: "entry list \<Rightarrow> bool" where
  "noRerun [] = True"
| "noRerun (Started p k # l) = (Marked p k \<notin> set l \<and> noRerun l)"
| "noRerun (Marked p k # l) = (Marked p k \<notin> set l \<and> noRerun l)"

text \<open>The workspace of an Up describes the container as it is, and no hook is one of the marker scripts.\<close>

definition describes :: "workspace \<Rightarrow> box \<Rightarrow> bool" where
  "describes ws w \<longleftrightarrow>
     cd_Created (ws_Container ws) = bx_Created w \<and> cd_StartedAt (ws_Container ws) = bx_StartedAt w"

definition commandsOf :: "lifecycle_command \<Rightarrow> command list" where
  "commandsOf l = (case lc_Single l of
     Some c \<Rightarrow> [c] | None \<Rightarrow> map (namedCommand (lc_Parallel l)) (sortedKeys (lc_Parallel l)))"

definition hooksClean :: "workspace \<Rightarrow> bool" where
  "hooksClean ws \<longleftrightarrow>
     list_all (\<lambda>p. list_all (\<lambda>l. list_all
         (\<lambda>c. markerOp (execOptionsOf ws (commandExec ws c)) = None) (commandsOf l))
       (lifecycleCommandsFor (ws_Config ws) p)) orderedPhases"

inductive boxReach :: "box \<Rightarrow> bool" where
  fresh: "boxReach \<lparr>bx_Created = c, bx_StartedAt = s, bx_Files = [], bx_Log = [], bx_Calls = 0\<rparr>"
| up: "boxReach w \<Longrightarrow> describes ws w \<Longrightarrow> hooksClean ws \<Longrightarrow>
    runProg (runAllLifecycle pick host ws runInit True) (boxHandler world) w = (res, w', tr) \<Longrightarrow> boxReach w'"
| restart: "boxReach w \<Longrightarrow> bx_StartedAt w < s \<Longrightarrow> boxReach (w\<lparr>bx_StartedAt := s\<rparr>)"
| recreate: "boxReach w \<Longrightarrow> bx_Created w < c \<Longrightarrow> bx_StartedAt w < s \<Longrightarrow>
    boxReach (w\<lparr>bx_Created := c, bx_StartedAt := s, bx_Files := []\<rparr>)"

section \<open>Marker scripts\<close>

lemma heredoc_write:
  assumes "\<And>c. c \<in> set body \<Longrightarrow> 32 \<le> (of_char c :: nat)" "body \<noteq> eofTag"
  shows "heredoc (body @ [CHR 0x0A] @ eofTag @ [CHR 0x0A]) = Some (body @ [CHR 0x0A])"
proof -
  have nl: "CHR 0x0A \<notin> set body" "CHR 0x0A \<notin> set eofTag"
    using assms(1) [of "CHR 0x0A"] by (auto simp: eofTag_def)
  then have "splitc (CHR 0x0A) (body @ [CHR 0x0A] @ eofTag @ [CHR 0x0A]) = [body, eofTag, []]"
    by (simp add: splitc_append_sep)
  then show ?thesis using assms(2) by (simp add: heredoc_def)
qed

lemma writeScript_head: "writeScript p body = writeHead p @ body @ [CHR 0x0A] @ eofTag @ [CHR 0x0A]"
  by (simp add: writeScript_def writeHead_def)

lemma not_read_write: "writeHead p @ s \<noteq> readScript q"
  by (simp add: writeHead_def readScript_def)

lemma marked_distinct:
  "p \<in> set markedPhases \<Longrightarrow> q \<in> set markedPhases \<Longrightarrow> p \<noteq> q \<Longrightarrow> \<not> hasPrefix (writeHead p @ s) (writeHead q)"
  by (auto simp: markedPhases_def writeHead_def markerDir_def)

lemma readScript_inj: "readScript p = readScript q \<longleftrightarrow> p = q"
  by (simp add: readScript_def)

lemma firstOf_unique:
  "x \<in> set xs \<Longrightarrow> f x = Some y \<Longrightarrow> (\<And>z. z \<in> set xs \<Longrightarrow> z \<noteq> x \<Longrightarrow> f z = None) \<Longrightarrow> firstOf f xs = Some y"
proof (induction xs)
  case Nil
  then show ?case by simp
next
  case (Cons z xs)
  then show ?case by (cases "z = x") auto
qed

lemma scriptOp_read: "scriptOp (readScript p) q = (if p = q then Some (ReadOp p) else None)"
proof -
  have "\<not> hasPrefix (readScript p) (writeHead q)" by (simp add: readScript_def writeHead_def)
  then show ?thesis by (simp add: scriptOp_def readScript_inj)
qed

lemma markerOp_read: "p \<in> set markedPhases \<Longrightarrow> markerOp (shExec (readScript p)) = Some (ReadOp p)"
  by (auto simp: markerOp_def shExec_def scriptOp_read intro!: firstOf_unique)

lemma markerOp_write:
  assumes p: "p \<in> set markedPhases" and b: "marshalMarker m = Some body"
  shows "markerOp (shExec (writeScript p body)) = Some (WriteOp p (body @ [CHR 0x0A]))"
proof -
  have "body \<noteq> eofTag"
    using b by (auto simp: marshalMarker_def markerDoc_def eofTag_def split: option.splits)
  then have "heredoc (body @ [CHR 0x0A] @ eofTag @ [CHR 0x0A]) = Some (body @ [CHR 0x0A])"
    using marshalMarker_printable [OF b] by (intro heredoc_write)
  then have "scriptOp (writeScript p body) p = Some (WriteOp p (body @ [CHR 0x0A]))"
    unfolding writeScript_head scriptOp_def by (simp add: not_read_write)
  moreover have "scriptOp (writeScript p body) q = None" if "q \<in> set markedPhases" "q \<noteq> p" for q
    unfolding writeScript_head scriptOp_def
    using marked_distinct [OF p that(1)] that(2) by (simp add: not_read_write)
  ultimately have "firstOf (scriptOp (writeScript p body)) markedPhases = Some (WriteOp p (body @ [CHR 0x0A]))"
    by (rule firstOf_unique [OF p])
  then show ?thesis by (simp add: markerOp_def shExec_def)
qed

section \<open>Runs of the runner on the box\<close>

lemma runProg_andThen:
  "runProg (andThen p f) h w =
     (case runProg p h w of (x, w1, t1) \<Rightarrow> case runProg (f x) h w1 of (y, w2, t2) \<Rightarrow> (y, w2, t1 @ t2))"
  by (induction p arbitrary: w) (auto split: prod.splits)

lemma runProg_invariant:
  assumes "runProg p h w = (x, w', tr)" "allCalls P p" "I w"
    and "\<And>c v. P c \<Longrightarrow> I v \<Longrightarrow> I (snd (h c v))"
  shows "I w'"
  using assms(1-3)
proof (induction p arbitrary: w tr)
  case (Ret y)
  then show ?case by simp
next
  case (Do c k)
  obtain r v where h: "h c w = (r, v)" by fastforce
  with Do.prems obtain tr' where "runProg (k r) h v = (x, w', tr')" by (auto split: prod.splits)
  moreover have "I v" using assms(4) [of c w] Do.prems h by simp
  ultimately show ?case using Do.IH Do.prems(2) by simp
qed

text \<open>Calls that touch no marker and start only hooks of one phase.\<close>

definition hookCall :: "string \<Rightarrow> call \<Rightarrow> bool" where
  "hookCall p c = (case c of
     ExecContainer cid xo \<Rightarrow> markerOp xo = None
   | Emit ev \<Rightarrow> (case ev of LifecycleStartEvent q d \<Rightarrow> q = p | _ \<Rightarrow> True)
   | _ \<Rightarrow> True)"

definition onlyStarted :: "string \<Rightarrow> box \<Rightarrow> box \<Rightarrow> bool" where
  "onlyStarted p w w' \<longleftrightarrow> bx_Created w' = bx_Created w \<and> bx_StartedAt w' = bx_StartedAt w
     \<and> bx_Files w' = bx_Files w \<and> (\<exists>n. bx_Log w' = replicate n (Started p (boxKey p w)) @ bx_Log w)"

lemma onlyStarted_refl: "onlyStarted p w w"
  by (auto simp: onlyStarted_def intro: exI [of _ 0])

lemma onlyStarted_count [simp]: "onlyStarted p w (v\<lparr>bx_Calls := n\<rparr>) = onlyStarted p w v"
  by (simp add: onlyStarted_def)

lemma onlyStarted_start:
  "onlyStarted p w v \<Longrightarrow> onlyStarted p w (v\<lparr>bx_Calls := n, bx_Log := Started p (boxKey p v) # bx_Log v\<rparr>)"
  by (auto simp: onlyStarted_def boxKey_def intro: exI [of _ "Suc _"])

lemma onlyStarted_key: "onlyStarted p w v \<Longrightarrow> boxKey q v = boxKey q w"
  by (simp add: onlyStarted_def boxKey_def)

lemma boxHandler_hook:
  assumes "hookCall p c" "onlyStarted p w v"
  shows "onlyStarted p w (snd (boxHandler world c v))"
proof (cases c)
  case (ExecContainer cid xo)
  with assms show ?thesis by (simp add: boxHandler_def hookCall_def boxExec_def Let_def split: sum.splits)
next
  case (Emit ev)
  show ?thesis
  proof (cases ev)
    case (LifecycleStartEvent q d)
    have "boxKey p (v\<lparr>bx_Calls := n\<rparr>) = boxKey p v" for n by (simp add: boxKey_def)
    with LifecycleStartEvent Emit assms onlyStarted_start [OF assms(2)] show ?thesis
      by (simp add: boxHandler_def hookCall_def Let_def)
  qed (use Emit assms in \<open>simp_all add: boxHandler_def Let_def\<close>)
qed (use assms in \<open>simp_all add: boxHandler_def Let_def\<close>)

lemma run_hookCalls:
  "runProg q (boxHandler world) w = (x, w', tr) \<Longrightarrow> allCalls (hookCall p) q \<Longrightarrow> onlyStarted p w w'"
  by (rule runProg_invariant [where P = "hookCall p" and I = "onlyStarted p w"])
    (auto intro: onlyStarted_refl boxHandler_hook)

section \<open>The calls of hooks\<close>

lemma parallel_Nil: "parallel pick n [] rs = Ret rs"
  by (subst parallel.simps) simp

lemma parallel_Ret:
  "ts \<noteq> [] \<Longrightarrow> ts ! (pick n mod length ts) = (j, Ret r) \<Longrightarrow>
     parallel pick n ts rs = parallel pick (Suc n) (removeNth (pick n mod length ts) ts) (rs[j := r])"
  by (subst parallel.simps) (simp add: Let_def)

lemma parallel_Do:
  "ts \<noteq> [] \<Longrightarrow> ts ! (pick n mod length ts) = (j, Do c k) \<Longrightarrow>
     parallel pick n ts rs = Do c (\<lambda>r. parallel pick (Suc n) (ts[pick n mod length ts := (j, k r)]) rs)"
  by (subst parallel.simps) (simp add: Let_def)

lemma allCalls_parallel:
  "(\<And>t. t \<in> set ts \<Longrightarrow> allCalls P (snd t)) \<Longrightarrow> allCalls P (parallel pick n ts rs)"
proof (induction "mset (map snd ts)" arbitrary: n ts rs rule: wf_induct_rule [OF wf_mult [OF wf_subprog]])
  case (1 ts n rs)
  show ?case
  proof (cases "ts = []")
    case True
    then show ?thesis by (simp add: parallel_Nil)
  next
    case False
    define i where "i = pick n mod length ts"
    have i: "i < length ts" using False by (simp add: i_def)
    obtain j q where q: "ts ! i = (j, q)" by fastforce
    then have aq: "allCalls P q" using "1.prems" [OF nth_mem [OF i]] by simp
    show ?thesis
    proof (cases q)
      case (Ret r)
      have "allCalls P (parallel pick (Suc n) (removeNth i ts) (rs[j := r]))"
        using "1.prems" set_removeNth [of i ts]
        by (intro "1.hyps" pool_shrinks_end [OF i]) auto
      then show ?thesis using parallel_Ret [OF False] q Ret i_def by simp
    next
      case (Do c k)
      have "allCalls P (parallel pick (Suc n) (ts[i := (j, k r)]) rs)" for r
      proof (rule "1.hyps")
        show "(mset (map snd (ts[i := (j, k r)])), mset (map snd ts)) \<in> mult subprog"
          by (rule pool_shrinks_step [OF i]) (simp add: q Do)
        fix t
        assume "t \<in> set (ts[i := (j, k r)])"
        then show "allCalls P (snd t)"
          using "1.prems" [of t] aq Do by (auto dest!: set_update_subset_insert [THEN subsetD])
      qed
      then show ?thesis using parallel_Do [OF False] q Do i_def aq by simp
    qed
  qed
qed

lemma allCalls_runAll: "(\<And>q. q \<in> set ps \<Longrightarrow> allCalls P q) \<Longrightarrow> allCalls P (runAll pick z ps)"
  unfolding runAll_def by (rule allCalls_parallel) (auto dest: set_zip_rightD)

lemma allCalls_emit [simp]: "allCalls P (emit bus ev p) \<longleftrightarrow> (bus \<longrightarrow> P (Emit ev)) \<and> allCalls P p"
  by (simp add: emit_def)

lemma allCalls_since [simp]: "allCalls P (since t f) \<longleftrightarrow> P Now \<and> (\<forall>r. allCalls P (f (millis t (asTime r))))"
  by (simp add: since_def)

lemma allCalls_execCommand:
  assumes "P CtxErr" "P Now" "P (ExecContainer (containerID ws) (execOptionsOf ws (commandExec ws c)))"
  shows "allCalls P (execCommand ws c)"
  unfolding execCommand_def
  by (rule allCalls_andThenI)
    (use assms in \<open>auto simp: Exec_def commandExec_def emit_def Let_def split: option.splits sum.splits\<close>)

lemma allCalls_execLifecycleCommand:
  assumes "P CtxErr" "P Now"
    and "\<And>c. c \<in> set (commandsOf l) \<Longrightarrow> P (ExecContainer (containerID ws) (execOptionsOf ws (commandExec ws c)))"
  shows "allCalls P (execLifecycleCommand pick ws l)"
proof (cases "lc_Single l")
  case None
  then have "allCalls P (execCommand ws (namedCommand (lc_Parallel l) n))"
    if "n \<in> set (sortedKeys (lc_Parallel l))" for n
    using that by (intro allCalls_execCommand assms) (simp_all add: commandsOf_def)
  then have "allCalls P (execParallel pick ws (lc_Parallel l))"
    unfolding execParallel_def Let_def by (intro allCalls_andThenI allCalls_runAll) (auto simp del: sortedKeys_set)
  with None show ?thesis by (simp add: execLifecycleCommand_def)
next
  case (Some c)
  then have "allCalls P (execCommand ws c)" by (intro allCalls_execCommand assms) (simp_all add: commandsOf_def)
  with Some show ?thesis by (simp add: execLifecycleCommand_def)
qed

lemma allCalls_runHooks:
  assumes "P CtxErr" "P Now" "\<And>d. P (Emit (LifecycleStartEvent p d))"
    and "\<And>ec ms. P (Emit (LifecycleCompletedEvent p ec ms))"
    and "\<And>l c. l \<in> set cs \<Longrightarrow> c \<in> set (commandsOf l) \<Longrightarrow>
      P (ExecContainer (containerID ws) (execOptionsOf ws (commandExec ws c)))"
  shows "allCalls P (runHooks pick bus ws p cs)"
  using assms
proof (induction cs)
  case Nil
  then show ?case by simp
next
  case (Cons l cs)
  have "allCalls P (execLifecycleCommand pick ws l)"
    using Cons.prems(1,2) Cons.prems(5) [of l] by (intro allCalls_execLifecycleCommand) auto
  moreover have "allCalls P (runHooks pick bus ws p cs)"
    by (rule Cons.IH) (rule Cons.prems; simp)+
  ultimately show ?case using Cons.prems(1-4)
    by (auto simp del: runHooks.simps(1) split: prod.splits option.splits intro!: allCalls_andThenI)
qed

lemma allCalls_runInitialize:
  assumes "\<And>hc. P (ExecHost hc)"
  shows "allCalls P (runInitialize pick host ws l)"
  using assms unfolding runInitialize_def runInitializeSingle_def runInitializeParallel_def
  by (auto split: option.splits intro!: allCalls_andThenI allCalls_runAll)

lemma allCalls_runInitializeHooks:
  assumes "P Now" "\<And>d. P (Emit (LifecycleStartEvent LifecycleInitialize d))" "\<And>hc. P (ExecHost hc)"
    and "\<And>ec ms. P (Emit (LifecycleCompletedEvent LifecycleInitialize ec ms))"
  shows "allCalls P (runInitializeHooks pick host bus ws cs)"
  using assms
proof (induction cs)
  case (Cons l cs)
  have "allCalls P (runInitialize pick host ws l)" using Cons.prems by (intro allCalls_runInitialize)
  with Cons show ?case
    by (auto simp del: LifecycleInitialize_def split: option.splits intro!: allCalls_andThenI)
qed simp

section \<open>What a phase does to the box\<close>

text \<open>The marker file of a phase says that it ran under the current key.\<close>

definition marked :: "box \<Rightarrow> string \<Rightarrow> bool" where
  "marked w p \<longleftrightarrow>
     (case map_of (bx_Files w) p of
        None \<Rightarrow> False
      | Some t \<Rightarrow>
          (case markerOf \<lparr>er_ExitCode = 0, er_Stdout = t, er_Stderr = []\<rparr> of
             None \<Rightarrow> False
           | Some m \<Rightarrow> mk_KeyTimestamp m = boxKey p w))"

definition sameBox :: "box \<Rightarrow> box \<Rightarrow> bool" where
  "sameBox w w' \<longleftrightarrow> bx_Created w' = bx_Created w \<and> bx_StartedAt w' = bx_StartedAt w
     \<and> bx_Files w' = bx_Files w \<and> bx_Log w' = bx_Log w"

text \<open>
  The possible effects of a phase that keeps a marker: nothing (it was marked, or reading failed, or
  it has no hooks), hooks that started and failed, or hooks and then the marker.
\<close>

definition phaseEffect :: "string \<Rightarrow> bool \<Rightarrow> box \<Rightarrow> engine_error option \<Rightarrow> box \<Rightarrow> bool" where
  "phaseEffect p configured w res w' \<longleftrightarrow>
     sameBox w w' \<and> (res = None \<longrightarrow> configured \<longrightarrow> marked w p)
     \<or> \<not> marked w p \<and> res \<noteq> None \<and> onlyStarted p w w'
     \<or> \<not> marked w p \<and> res = None \<and> (\<exists>v t. onlyStarted p w v \<and> marked w' p
           \<and> bx_Created w' = bx_Created w \<and> bx_StartedAt w' = bx_StartedAt w
           \<and> bx_Files w' = mput p t (bx_Files w) \<and> bx_Log w' = Marked p (boxKey p w) # bx_Log v)"

lemma describes_key: "describes ws w \<Longrightarrow> keyTimestampFor p (ws_Container ws) = boxKey p w"
  by (simp add: describes_def keyTimestampFor_def boxKey_def)

lemma describes_same: "describes ws w \<Longrightarrow> onlyStarted p w v \<Longrightarrow> describes ws v"
  by (simp add: describes_def onlyStarted_def)

lemma run_readMarker:
  assumes "runProg (readMarker ws p) (boxHandler world) w = (x, w', tr)" "p \<in> set markedPhases" "describes ws w"
  shows "sameBox w w' \<and> (\<forall>m. x = Inr m \<longrightarrow> shouldRun p m (ws_Container ws) = (\<not> marked w p))"
proof -
  have pa: "p \<noteq> LifecyclePostAttach" using assms(2) by (auto simp: markedPhases_def)
  let ?r = "world (bx_Calls w) (ExecContainer (containerID ws) (shExec (readScript p)))"
  let ?w = "w\<lparr>bx_Calls := Suc (bx_Calls w)\<rparr>"
  have same: "sameBox w ?w" by (simp add: sameBox_def)
  have h: "boxHandler world (ExecContainer (containerID ws) (shExec (readScript p))) w = boxExec ?r (Some (ReadOp p)) ?w"
    by (simp only: boxHandler_def Let_def call.case markerOp_read [OF assms(2)])
  show ?thesis
  proof (cases "asExec ?r")
    case (Inl e)
    then have "boxExec ?r (Some (ReadOp p)) ?w = (?r, ?w)" by (simp add: boxExec_def)
    with assms(1) h Inl have "x = Inl e" "w' = ?w" by (simp_all add: readMarker_def)
    with same show ?thesis by simp
  next
    case (Inr y)
    define rd where "rd = (case map_of (bx_Files w) p of
       Some t \<Rightarrow> \<lparr>er_ExitCode = 0, er_Stdout = t, er_Stderr = []\<rparr>
     | None \<Rightarrow> \<lparr>er_ExitCode = 1, er_Stdout = [], er_Stderr = []\<rparr>)"
    have "boxExec ?r (Some (ReadOp p)) ?w = (RExec rd, ?w)" using Inr by (simp add: boxExec_def rd_def)
    with assms(1) h have x: "x = Inr (markerOf rd)" "w' = ?w" by (simp_all add: readMarker_def asExec_def)
    have "shouldRun p (markerOf rd) (ws_Container ws) = (\<not> marked w p)"
      using pa describes_key [OF assms(3), of p]
      by (cases "map_of (bx_Files w) p")
        (simp_all add: shouldRun_def marked_def rd_def markerOf_def split: option.split del: LifecyclePostAttach_def)
    with x same show ?thesis by simp
  qed
qed

lemma run_writeMarker:
  assumes r: "runProg (writeMarker ws (freshMarker ws p start (millis a b))) (boxHandler world) v = (res, w', tr)"
    and p: "p \<in> set markedPhases" and d: "describes ws v"
  shows "if res = None
    then marked w' p \<and> bx_Created w' = bx_Created v \<and> bx_StartedAt w' = bx_StartedAt v
      \<and> (\<exists>t. bx_Files w' = mput p t (bx_Files v)) \<and> bx_Log w' = Marked p (boxKey p v) # bx_Log v
    else sameBox v w'"
proof (cases "marshalMarker (freshMarker ws p start (millis a b))")
  case None
  with r show ?thesis by (auto simp: writeMarker_def sameBox_def)
next
  case (Some body)
  have ph: "mk_Phase (freshMarker ws p start (millis a b)) = p" by (simp add: freshMarker_def)
  have key: "mk_KeyTimestamp (freshMarker ws p start (millis a b)) = boxKey p v"
    using d by (simp add: freshMarker_def describes_key)
  have bk: "boxKey p (v\<lparr>bx_Calls := n, bx_Files := f, bx_Log := l\<rparr>) = boxKey p v"
    "boxKey p (v\<lparr>bx_Calls := n\<rparr>) = boxKey p v" for n f l
    by (simp_all add: boxKey_def)
  show ?thesis using r key
    by (auto simp: writeMarker_def Some ph boxHandler_def boxExec_def Let_def markerOp_write [OF p Some]
        sameBox_def marked_def asExec_def markerOf_fresh [OF Some] bk
        split: resp.splits sum.splits if_splits)
qed

lemma run_since:
  "runProg (since t f) (boxHandler world) w = (x, w', tr) \<Longrightarrow>
     \<exists>r tr'. runProg (f (millis t (asTime r))) (boxHandler world) (w\<lparr>bx_Calls := Suc (bx_Calls w)\<rparr>) = (x, w', tr')"
  by (auto simp: since_def boxHandler_def Let_def split: prod.splits)

lemma hooksClean_op:
  "hooksClean ws \<Longrightarrow> p \<in> set orderedPhases \<Longrightarrow> l \<in> set (lifecycleCommandsFor (ws_Config ws) p) \<Longrightarrow>
     c \<in> set (commandsOf l) \<Longrightarrow> markerOp (execOptionsOf ws (commandExec ws c)) = None"
  unfolding hooksClean_def list_all_iff by blast

lemma hookCalls_runHooks:
  assumes "hooksClean ws" "p \<in> set orderedPhases"
  shows "allCalls (hookCall p) (runHooks pick bus ws p (lifecycleCommandsFor (ws_Config ws) p))"
  by (rule allCalls_runHooks) (auto simp: hookCall_def hooksClean_op [OF assms])

lemma run_Now:
  "runProg (Do Now k) (boxHandler world) w = (x, w', tr) \<Longrightarrow>
     \<exists>r tr'. runProg (k r) (boxHandler world) (w\<lparr>bx_Calls := Suc (bx_Calls w)\<rparr>) = (x, w', tr')"
  by (auto simp: boxHandler_def Let_def split: prod.splits)

lemma onlyStarted_from [simp]: "onlyStarted p (w\<lparr>bx_Calls := n\<rparr>) v = onlyStarted p w v"
  by (simp add: onlyStarted_def boxKey_def)

lemma describes_count [simp]: "describes ws (w\<lparr>bx_Calls := n\<rparr>) = describes ws w"
  by (simp add: describes_def)

lemma boxKey_count [simp]: "boxKey p (w\<lparr>bx_Calls := n\<rparr>) = boxKey p w"
  by (simp add: boxKey_def)

text \<open>\<open>runMarked\<close>: hooks start, and an error or the marker follows.\<close>

lemma run_runMarked:
  assumes r: "runProg (runMarked pick bus ws p (lifecycleCommandsFor (ws_Config ws) p)) (boxHandler world) w
      = (res, w', tr)"
    and c: "hooksClean ws" and p: "p \<in> set orderedPhases"
  obtains (stop) "onlyStarted p w w'" "res = None \<longrightarrow> p = LifecyclePostAttach"
    | (mark) v start a b tr' where "onlyStarted p w v" "p \<noteq> LifecyclePostAttach"
        "runProg (writeMarker ws (freshMarker ws p start (millis a b))) (boxHandler world) v = (res, w', tr')"
proof -
  let ?hooks = "runHooks pick bus ws p (lifecycleCommandsFor (ws_Config ws) p)"
  let ?cont = "\<lambda>t0 err. case err of Some e \<Rightarrow> Ret (Some e)
         | None \<Rightarrow> if p = LifecyclePostAttach then Ret None
             else since (asTime t0) (\<lambda>ms. writeMarker ws (freshMarker ws p (asTime t0) ms))"
  from run_Now [OF r [unfolded runMarked_def]] obtain t0 t1 where
      "runProg (andThen ?hooks (?cont t0)) (boxHandler world) (w\<lparr>bx_Calls := Suc (bx_Calls w)\<rparr>) = (res, w', t1)"
    by blast
  then obtain err v ta tb where h: "runProg ?hooks (boxHandler world) (w\<lparr>bx_Calls := Suc (bx_Calls w)\<rparr>) = (err, v, ta)"
      and k: "runProg (?cont t0 err) (boxHandler world) v = (res, w', tb)"
    by (auto simp: runProg_andThen split: prod.splits)
  have os: "onlyStarted p w v"
    using run_hookCalls [OF h hookCalls_runHooks [OF c p]] by simp
  consider (err) e where "err = Some e" | (attach) "err = None" "p = LifecyclePostAttach"
    | (ok) "err = None" "p \<noteq> LifecyclePostAttach" by (cases err) auto
  then show thesis
  proof cases
    case err
    with k os show ?thesis by (intro stop) auto
  next
    case attach
    with k os show ?thesis by (intro stop) auto
  next
    case ok
    with k have "runProg (since (asTime t0) (\<lambda>ms. writeMarker ws (freshMarker ws p (asTime t0) ms)))
        (boxHandler world) v = (res, w', tb)" by simp
    from run_since [OF this] obtain r3 tc where
        "runProg (writeMarker ws (freshMarker ws p (asTime t0) (millis (asTime t0) (asTime r3))))
          (boxHandler world) (v\<lparr>bx_Calls := Suc (bx_Calls v)\<rparr>) = (res, w', tc)"
      by blast
    with os ok mark show ?thesis by (metis onlyStarted_count)
  qed
qed

lemma onlyStarted_same: "onlyStarted p w v \<Longrightarrow> sameBox v w' \<Longrightarrow> onlyStarted p w w'"
  by (simp add: onlyStarted_def sameBox_def)

lemma sameBox_key: "sameBox w v \<Longrightarrow> boxKey p v = boxKey p w"
  by (simp add: sameBox_def boxKey_def)

lemma sameBox_onlyStarted: "sameBox w v \<Longrightarrow> onlyStarted p v w' \<Longrightarrow> onlyStarted p w w'"
  using sameBox_key [of w v p] by (simp add: onlyStarted_def sameBox_def)

lemma sameBox_refl: "sameBox w w"
  by (simp add: sameBox_def)

lemma sameBox_marked: "sameBox w v \<Longrightarrow> marked v p = marked w p"
  using sameBox_key [of w v p] by (auto simp: sameBox_def marked_def split: option.splits)

lemma sameBox_describes: "sameBox w v \<Longrightarrow> describes ws v = describes ws w"
  by (simp add: sameBox_def describes_def)

lemma marked_phase_names:
  "p \<in> set markedPhases \<Longrightarrow> p \<in> set orderedPhases \<and> p \<noteq> LifecycleInitialize \<and> p \<noteq> LifecyclePostAttach"
  by (auto simp: markedPhases_def orderedPhases_def)

lemma run_runPhase_marked:
  assumes r: "runProg (runPhase pick host True ws p (lifecycleCommandsFor (ws_Config ws) p)) (boxHandler world) w
      = (res, w', tr)"
    and c: "hooksClean ws" and d: "describes ws w" and p: "p \<in> set markedPhases"
  shows "phaseEffect p (lifecycleCommandsFor (ws_Config ws) p \<noteq> []) w res w'"
proof (cases "lifecycleCommandsFor (ws_Config ws) p = []")
  case True
  with r show ?thesis by (simp add: runPhase_def phaseEffect_def sameBox_refl)
next
  case False
  let ?cmds = "lifecycleCommandsFor (ws_Config ws) p"
  let ?cont = "\<lambda>r. case r of Inl e \<Rightarrow> Ret (Some (ReadMarkerFailed p e))
     | Inr m \<Rightarrow> if \<not> shouldRun p m (ws_Container ws)
               then emit True (LifecycleSkippedEvent p ''marker_present'') (Ret None)
               else runMarked pick True ws p ?cmds"
  have "runPhase pick host True ws p ?cmds = andThen (readMarker ws p) ?cont"
    using False marked_phase_names [OF p] by (simp add: runPhase_def del: LifecycleInitialize_def LifecyclePostAttach_def)
  with r obtain x v ta tb where h: "runProg (readMarker ws p) (boxHandler world) w = (x, v, ta)"
      and k: "runProg (?cont x) (boxHandler world) v = (res, w', tb)"
    by (auto simp: runProg_andThen split: prod.splits)
  have sb: "sameBox w v" and sr: "\<And>m. x = Inr m \<Longrightarrow> shouldRun p m (ws_Container ws) = (\<not> marked w p)"
    using run_readMarker [OF h p d] by auto
  consider (err) e where "x = Inl e" | (skip) m where "x = Inr m" "marked w p" | (run) m where "x = Inr m" "\<not> marked w p"
    by (cases x) auto
  then show ?thesis
  proof cases
    case err
    with k sb show ?thesis by (auto simp: phaseEffect_def)
  next
    case skip
    with k sb sr show ?thesis
      by (auto simp: phaseEffect_def emit_def boxHandler_def Let_def sameBox_def)
  next
    case run
    with k sr have m: "runProg (runMarked pick True ws p ?cmds) (boxHandler world) v = (res, w', tb)" by simp
    from m c marked_phase_names [OF p, THEN conjunct1] show ?thesis
    proof (cases rule: run_runMarked)
      case stop
      then show ?thesis
        using run(2) sameBox_onlyStarted [OF sb] marked_phase_names [OF p] by (auto simp: phaseEffect_def)
    next
      case (mark u start a b tr')
      have os: "onlyStarted p w u" by (rule sameBox_onlyStarted [OF sb mark(1)])
      have du: "describes ws u" by (rule describes_same [OF d os])
      note wm = run_writeMarker [OF mark(3) p du]
      show ?thesis
      proof (cases "res = None")
        case True
        with wm obtain t where "marked w' p" "bx_Created w' = bx_Created u" "bx_StartedAt w' = bx_StartedAt u"
            "bx_Files w' = mput p t (bx_Files u)" "bx_Log w' = Marked p (boxKey p u) # bx_Log u" by auto
        with os True run(2) show ?thesis
          unfolding phaseEffect_def by (auto simp: onlyStarted_def boxKey_def)
      next
        case False
        with wm have "onlyStarted p w w'" using onlyStarted_same [OF os] by simp
        with False run(2) show ?thesis by (simp add: phaseEffect_def)
      qed
    qed
  qed
qed

lemma run_runPhase_unmarked:
  assumes r: "runProg (runPhase pick host True ws p (lifecycleCommandsFor (ws_Config ws) p)) (boxHandler world) w
      = (res, w', tr)"
    and c: "hooksClean ws" and p: "p = LifecycleInitialize \<or> p = LifecyclePostAttach"
  shows "onlyStarted p w w'"
proof (cases "lifecycleCommandsFor (ws_Config ws) p = []")
  case True
  with r show ?thesis by (simp add: runPhase_def onlyStarted_refl)
next
  case False
  show ?thesis
  proof (cases "p = LifecycleInitialize")
    case True
    with r False have "runProg (runInitializeHooks pick host True ws (lifecycleCommandsFor (ws_Config ws) p))
        (boxHandler world) w = (res, w', tr)"
      by (simp add: runPhase_def del: LifecycleInitialize_def)
    then show ?thesis
      by (rule run_hookCalls) (rule allCalls_runInitializeHooks; simp add: hookCall_def True del: LifecycleInitialize_def)
  next
    case init: False
    with p have pa: "p = LifecyclePostAttach" by simp
    with r False have m: "runProg (runMarked pick True ws p (lifecycleCommandsFor (ws_Config ws) p))
        (boxHandler world) w = (res, w', tr)"
      by (simp add: runPhase_def)
    have "p \<in> set orderedPhases" using pa by (simp add: orderedPhases_def)
    from m c this show ?thesis by (cases rule: run_runMarked) (use pa in auto)
  qed
qed

section \<open>Nothing is run again\<close>

text \<open>
  The invariant of a box: no phase ran after it was marked under the same key, the keys in the log
  are no later than the current ones, and the mark of a current key is in the phase's file.
\<close>

definition boxInv :: "box \<Rightarrow> bool" where
  "boxInv w \<longleftrightarrow> noRerun (bx_Log w)
     \<and> (\<forall>p k. Started p k \<in> set (bx_Log w) \<or> Marked p k \<in> set (bx_Log w) \<longrightarrow> k \<le> boxKey p w)
     \<and> (\<forall>p k. Marked p k \<in> set (bx_Log w) \<longrightarrow> p \<in> set markedPhases)
     \<and> (\<forall>p. Marked p (boxKey p w) \<in> set (bx_Log w) \<longrightarrow> marked w p)"

definition sameKeys :: "box \<Rightarrow> box \<Rightarrow> bool" where
  "sameKeys w w' \<longleftrightarrow> bx_Created w' = bx_Created w \<and> bx_StartedAt w' = bx_StartedAt w"

lemma sameKeys_key: "sameKeys w w' \<Longrightarrow> boxKey p w' = boxKey p w"
  by (simp add: sameKeys_def boxKey_def)

lemma onlyStarted_sameKeys: "onlyStarted p w w' \<Longrightarrow> sameKeys w w'"
  by (simp add: onlyStarted_def sameKeys_def)

lemma phaseEffect_sameKeys: "phaseEffect p c w res w' \<Longrightarrow> sameKeys w w'"
  by (auto simp: phaseEffect_def sameBox_def onlyStarted_def sameKeys_def)

lemma marked_cong:
  assumes "sameKeys w w'" "map_of (bx_Files w') p = map_of (bx_Files w) p"
  shows "marked w' p = marked w p"
  using assms sameKeys_key [OF assms(1), of p] by (auto simp: marked_def split: option.splits)

lemma noRerun_started: "Marked p k \<notin> set l \<Longrightarrow> noRerun (replicate n (Started p k) @ l) = noRerun l"
  by (induction n) auto

lemma boxInv_onlyStarted:
  assumes "boxInv w" "onlyStarted p w w'" "Marked p (boxKey p w) \<notin> set (bx_Log w)"
  shows "boxInv w'"
proof -
  from assms(2) obtain n where l: "bx_Log w' = replicate n (Started p (boxKey p w)) @ bx_Log w"
      and f: "bx_Files w' = bx_Files w"
    by (auto simp: onlyStarted_def)
  have k: "\<And>q. boxKey q w' = boxKey q w" by (rule onlyStarted_key [OF assms(2)])
  have m: "\<And>q. marked w' q = marked w q"
    by (rule marked_cong [OF onlyStarted_sameKeys [OF assms(2)]]) (simp add: f)
  have "noRerun (bx_Log w')" using assms(1,3) by (simp add: l noRerun_started boxInv_def)
  moreover have "Marked q k \<in> set (bx_Log w') \<longleftrightarrow> Marked q k \<in> set (bx_Log w)" for q k
    by (auto simp: l)
  moreover have "Started q j \<in> set (bx_Log w') \<Longrightarrow> j \<le> boxKey q w" for q j
    using assms(1) by (auto simp: l boxInv_def split: if_splits)
  ultimately show ?thesis using assms(1) by (auto simp: boxInv_def k m)
qed

lemma boxInv_phaseEffect:
  assumes "boxInv w" "phaseEffect p c w res w'" "p \<in> set markedPhases"
  shows "boxInv w'"
proof -
  have fresh: "\<not> marked w p \<Longrightarrow> Marked p (boxKey p w) \<notin> set (bx_Log w)"
    using assms(1) by (auto simp: boxInv_def)
  consider (same) "sameBox w w'" | (fail) "\<not> marked w p" "onlyStarted p w w'"
    | (mark) v t where "\<not> marked w p" "onlyStarted p w v" "marked w' p" "bx_Created w' = bx_Created w"
        "bx_StartedAt w' = bx_StartedAt w" "bx_Files w' = mput p t (bx_Files w)"
        "bx_Log w' = Marked p (boxKey p w) # bx_Log v"
    using assms(2) unfolding phaseEffect_def by blast
  then show ?thesis
  proof cases
    case same
    then have "onlyStarted p w w'" "sameKeys w w'"
      by (auto simp: sameBox_def onlyStarted_def sameKeys_def intro: exI [of _ 0])
    with same assms(1) sameKeys_key [of w w'] marked_cong [of w w'] show ?thesis
      by (simp add: boxInv_def sameBox_def)
  next
    case fail
    then show ?thesis using boxInv_onlyStarted [OF assms(1)] fresh by blast
  next
    case mark
    have iv: "boxInv v" by (rule boxInv_onlyStarted [OF assms(1) mark(2) fresh [OF mark(1)]])
    have k: "\<And>q. boxKey q w' = boxKey q w" "\<And>q. boxKey q v = boxKey q w"
      using mark(4,5) onlyStarted_key [OF mark(2)] by (simp_all add: boxKey_def)
    have m: "q \<noteq> p \<Longrightarrow> marked w' q = marked v q" for q
      by (rule marked_cong) (use mark onlyStarted_key [OF mark(2)] in \<open>auto simp: sameKeys_def onlyStarted_def\<close>)
    have "Marked p (boxKey p w) \<notin> set (bx_Log v)"
      using fresh [OF mark(1)] mark(2) by (auto simp: onlyStarted_def)
    then show ?thesis using iv mark(3) m assms(3)
      unfolding boxInv_def mark(7) k by (auto, metis)
  qed
qed

lemma ordered_cases:
  "p \<in> set orderedPhases \<Longrightarrow> p \<in> set markedPhases \<or> p = LifecycleInitialize \<or> p = LifecyclePostAttach"
  by (auto simp: orderedPhases_def markedPhases_def)

lemma run_runPhase_inv:
  assumes r: "runProg (runPhase pick host True ws p (lifecycleCommandsFor (ws_Config ws) p)) (boxHandler world) w
      = (res, w', tr)"
    and c: "hooksClean ws" and d: "describes ws w" and p: "p \<in> set orderedPhases" and i: "boxInv w"
  shows "boxInv w' \<and> sameKeys w w'"
proof (cases "p \<in> set markedPhases")
  case True
  then show ?thesis
    using boxInv_phaseEffect [OF i] phaseEffect_sameKeys run_runPhase_marked [OF r c d True] by blast
next
  case False
  then have "onlyStarted p w w'" using run_runPhase_unmarked [OF r c] ordered_cases [OF p] by blast
  moreover have "Marked p (boxKey p w) \<notin> set (bx_Log w)" using i False by (auto simp: boxInv_def)
  ultimately show ?thesis using boxInv_onlyStarted [OF i] onlyStarted_sameKeys by blast
qed

lemma describes_sameKeys: "sameKeys w w' \<Longrightarrow> describes ws w \<Longrightarrow> describes ws w'"
  by (simp add: sameKeys_def describes_def)

text \<open>One step of the loop over the phases.\<close>

lemma run_runPhases_Cons:
  assumes "runProg (runPhases pick host runInit True ws (p # ps)) (boxHandler world) w = (res, w', tr)"
  obtains (skip) "p = LifecycleInitialize" "\<not> runInit"
      "runProg (runPhases pick host runInit True ws ps) (boxHandler world) w = (res, w', tr)"
    | (fail) e where "res = Some e"
      "runProg (runPhase pick host True ws p (lifecycleCommandsFor (ws_Config ws) p)) (boxHandler world) w
         = (res, w', tr)"
    | (go) v t1 t2 where "runProg (runPhase pick host True ws p (lifecycleCommandsFor (ws_Config ws) p)) (boxHandler world) w
         = (None, v, t1)"
      "runProg (runPhases pick host runInit True ws ps) (boxHandler world) v = (res, w', t2)" "tr = t1 @ t2"
proof (cases "p = LifecycleInitialize \<and> \<not> runInit")
  case True
  with assms skip show ?thesis by (auto simp del: LifecycleInitialize_def)
next
  case False
  let ?ph = "runPhase pick host True ws p (lifecycleCommandsFor (ws_Config ws) p)"
  let ?k = "\<lambda>err. case err of Some e \<Rightarrow> Ret (Some e) | None \<Rightarrow> runPhases pick host runInit True ws ps"
  have "runPhases pick host runInit True ws (p # ps) = andThen ?ph ?k"
    by (simp only: runPhases.simps False if_False)
  with assms obtain err v t1 t2 where 1: "runProg ?ph (boxHandler world) w = (err, v, t1)"
      and 2: "runProg (?k err) (boxHandler world) v = (res, w', t2)" and t: "tr = t1 @ t2"
    by (auto simp: runProg_andThen split: prod.splits)
  show ?thesis
  proof (cases err)
    case None
    with 1 2 t go show ?thesis by simp
  next
    case (Some e)
    with 1 2 t show ?thesis by (intro fail) auto
  qed
qed

lemma run_runPhases_inv:
  "runProg (runPhases pick host runInit True ws ps) (boxHandler world) w = (res, w', tr) \<Longrightarrow>
     hooksClean ws \<Longrightarrow> describes ws w \<Longrightarrow> set ps \<subseteq> set orderedPhases \<Longrightarrow> boxInv w \<Longrightarrow> boxInv w'"
proof (induction ps arbitrary: w tr)
  case Nil
  then show ?case by simp
next
  case (Cons p ps)
  have p: "p \<in> set orderedPhases" "set ps \<subseteq> set orderedPhases" using Cons.prems(4) by auto
  from Cons.prems(1) show ?case
  proof (cases rule: run_runPhases_Cons)
    case skip
    with Cons p show ?thesis by blast
  next
    case (fail e)
    with run_runPhase_inv Cons.prems p show ?thesis by blast
  next
    case (go v t1 t2)
    have "boxInv v \<and> sameKeys w v" using run_runPhase_inv [OF go(1)] Cons.prems p by blast
    with Cons.IH [OF go(2) Cons.prems(2)] describes_sameKeys Cons.prems(3) p show ?thesis by blast
  qed
qed

lemma boxReach_inv: "boxReach w \<Longrightarrow> boxInv w"
proof (induction rule: boxReach.induct)
  case (fresh c s)
  then show ?case by (simp add: boxInv_def)
next
  case (up w ws pick host runInit world res w' tr)
  show ?case
    by (rule run_runPhases_inv [OF up.hyps(4) [unfolded runAllLifecycle_def] up.hyps(3,2) order.refl up.IH])
next
  case (restart w s)
  let ?w = "w\<lparr>bx_StartedAt := s\<rparr>"
  have ge: "boxKey p w \<le> boxKey p ?w" for p using restart.hyps by (simp add: boxKey_def)
  have "marked ?w p" if "Marked p (boxKey p ?w) \<in> set (bx_Log w)" for p
  proof (cases "p = LifecyclePostStart")
    case True
    have "boxKey p ?w \<le> boxKey p w" using that restart.IH by (auto simp: boxInv_def)
    with True restart.hyps show ?thesis by (simp add: boxKey_def)
  next
    case False
    then have k: "boxKey p ?w = boxKey p w" by (simp add: boxKey_def)
    then have "marked ?w p = marked w p" by (auto simp: marked_def split: option.splits)
    with that restart.IH k show ?thesis by (auto simp: boxInv_def)
  qed
  moreover have "k \<le> boxKey p ?w" if "Started p k \<in> set (bx_Log w) \<or> Marked p k \<in> set (bx_Log w)" for p k
    by (rule order_trans [OF _ ge]) (use that restart.IH in \<open>auto simp: boxInv_def\<close>)
  ultimately show ?case using restart.IH unfolding boxInv_def by simp
next
  case (recreate w c s)
  let ?w = "w\<lparr>bx_Created := c, bx_StartedAt := s, bx_Files := []\<rparr>"
  have gt: "boxKey p w < boxKey p ?w" for p using recreate.hyps by (simp add: boxKey_def)
  have le: "k \<le> boxKey p w" if "Started p k \<in> set (bx_Log w) \<or> Marked p k \<in> set (bx_Log w)" for p k
    using that recreate.IH by (auto simp: boxInv_def)
  have "Marked p (boxKey p ?w) \<notin> set (bx_Log w)" for p using le gt [of p] by (force simp: not_le [symmetric])
  moreover have "k \<le> boxKey p ?w" if "Started p k \<in> set (bx_Log w) \<or> Marked p k \<in> set (bx_Log w)" for p k
    using le [OF that] gt [of p] by linarith
  ultimately show ?case using recreate.IH unfolding boxInv_def by simp
qed

lemma noRerun_split: "noRerun (later @ e # earlier) \<Longrightarrow> e = Started p k \<or> e = Marked p k \<Longrightarrow> Marked p k \<notin> set earlier"
proof (induction later)
  case Nil
  then show ?case by auto
next
  case (Cons d later)
  then show ?case by (cases d) auto
qed

section \<open>A second Up\<close>

lemma onlyStarted_trans: "onlyStarted p w v \<Longrightarrow> onlyStarted p v u \<Longrightarrow> onlyStarted p w u"
proof -
  assume a: "onlyStarted p w v" "onlyStarted p v u"
  then obtain m n where "bx_Log v = replicate m (Started p (boxKey p w)) @ bx_Log w"
      "bx_Log u = replicate n (Started p (boxKey p w)) @ bx_Log v"
    using onlyStarted_key [OF a(1), of p] by (auto simp: onlyStarted_def)
  then have "bx_Log u = replicate (n + m) (Started p (boxKey p w)) @ bx_Log w"
    by (simp add: replicate_add)
  with a show ?thesis by (auto simp: onlyStarted_def)
qed

definition settled :: "workspace \<Rightarrow> string list \<Rightarrow> box \<Rightarrow> bool" where
  "settled ws ps w \<longleftrightarrow>
     (\<forall>p \<in> set ps \<inter> set markedPhases. lifecycleCommandsFor (ws_Config ws) p \<noteq> [] \<longrightarrow> marked w p)"

lemma phaseEffect_marks:
  assumes "phaseEffect p c w res w'"
  shows "(marked w q \<longrightarrow> marked w' q) \<and> (res = None \<longrightarrow> c \<longrightarrow> marked w' p)"
proof -
  have k: "sameKeys w w'" by (rule phaseEffect_sameKeys [OF assms])
  consider (files) "bx_Files w' = bx_Files w" "res = None \<longrightarrow> c \<longrightarrow> marked w p"
    | (mark) t where "bx_Files w' = mput p t (bx_Files w)" "marked w' p"
    using assms unfolding phaseEffect_def sameBox_def onlyStarted_def by blast
  then show ?thesis
  proof cases
    case files
    then have "\<And>q. marked w' q = marked w q" using marked_cong [OF k] by simp
    with files show ?thesis by simp
  next
    case mark
    then have "q \<noteq> p \<Longrightarrow> marked w' q = marked w q" using marked_cong [OF k, of q] by simp
    with mark show ?thesis by auto
  qed
qed

lemma onlyStarted_marked: "onlyStarted p w w' \<Longrightarrow> marked w' q = marked w q"
  by (rule marked_cong [OF onlyStarted_sameKeys]) (assumption, simp add: onlyStarted_def)

lemma run_runPhase_marks:
  assumes r: "runProg (runPhase pick host True ws p (lifecycleCommandsFor (ws_Config ws) p)) (boxHandler world) w
      = (res, w', tr)"
    and c: "hooksClean ws" and d: "describes ws w" and p: "p \<in> set orderedPhases"
  shows "sameKeys w w' \<and> (marked w q \<longrightarrow> marked w' q)
    \<and> (res = None \<longrightarrow> p \<in> set markedPhases \<longrightarrow> lifecycleCommandsFor (ws_Config ws) p \<noteq> [] \<longrightarrow> marked w' p)"
proof (cases "p \<in> set markedPhases")
  case True
  then show ?thesis
    using phaseEffect_marks phaseEffect_sameKeys run_runPhase_marked [OF r c d True] by blast
next
  case False
  then have "onlyStarted p w w'" using run_runPhase_unmarked [OF r c] ordered_cases [OF p] by blast
  then show ?thesis using onlyStarted_marked onlyStarted_sameKeys False by blast
qed

lemma run_runPhases_settled:
  "runProg (runPhases pick host runInit True ws ps) (boxHandler world) w = (None, w', tr) \<Longrightarrow>
     hooksClean ws \<Longrightarrow> describes ws w \<Longrightarrow> set ps \<subseteq> set orderedPhases \<Longrightarrow>
     settled ws ps w' \<and> sameKeys w w' \<and> (\<forall>q. marked w q \<longrightarrow> marked w' q)"
proof (induction ps arbitrary: w tr)
  case Nil
  then show ?case by (simp add: settled_def sameKeys_def)
next
  case (Cons p ps)
  have p: "p \<in> set orderedPhases" "set ps \<subseteq> set orderedPhases" using Cons.prems(4) by auto
  from Cons.prems(1) show ?case
  proof (cases rule: run_runPhases_Cons)
    case skip
    then have "p \<notin> set markedPhases" using marked_phase_names by blast
    with Cons.IH [OF skip(3) Cons.prems(2,3) p(2)] show ?thesis by (auto simp: settled_def)
  next
    case (fail e)
    then show ?thesis by simp
  next
    case (go v t1 t2)
    note 1 = run_runPhase_marks [OF go(1) Cons.prems(2,3) p(1)]
    then have "describes ws v" using describes_sameKeys Cons.prems(3) by blast
    note 2 = Cons.IH [OF go(2) Cons.prems(2) this p(2)]
    with 1 show ?thesis by (auto simp: settled_def sameKeys_def)
  qed
qed

lemma run_runPhase_settled:
  assumes r: "runProg (runPhase pick host True ws p (lifecycleCommandsFor (ws_Config ws) p)) (boxHandler world) w
      = (res, w', tr)"
    and c: "hooksClean ws" and d: "describes ws w" and p: "p \<in> set orderedPhases" "p \<noteq> LifecycleInitialize"
    and s: "settled ws [p] w"
  shows "onlyStarted LifecyclePostAttach w w'"
proof (cases "p = LifecyclePostAttach")
  case True
  with run_runPhase_unmarked [OF r c] show ?thesis by simp
next
  case False
  then have m: "p \<in> set markedPhases" using ordered_cases [OF p(1)] p(2) by blast
  show ?thesis
  proof (cases "lifecycleCommandsFor (ws_Config ws) p = []")
    case True
    with r show ?thesis by (simp add: runPhase_def onlyStarted_refl)
  next
    case False
    then have "marked w p" using s m by (simp add: settled_def)
    then have "sameBox w w'" using run_runPhase_marked [OF r c d m] by (auto simp: phaseEffect_def)
    then show ?thesis by (auto simp: sameBox_def onlyStarted_def intro: exI [of _ 0])
  qed
qed

lemma settled_cong: "(\<And>q. marked w' q = marked w q) \<Longrightarrow> settled ws ps w' = settled ws ps w"
  by (simp add: settled_def)

lemma run_runPhases_again:
  "runProg (runPhases pick host runInit True ws ps) (boxHandler world) w = (res, w', tr) \<Longrightarrow>
     hooksClean ws \<Longrightarrow> describes ws w \<Longrightarrow> set ps \<subseteq> set orderedPhases \<Longrightarrow> settled ws ps w \<Longrightarrow>
     LifecycleInitialize \<notin> set ps \<or> \<not> runInit \<Longrightarrow> onlyStarted LifecyclePostAttach w w'"
proof (induction ps arbitrary: w tr)
  case Nil
  then show ?case by (simp add: onlyStarted_refl)
next
  case (Cons p ps)
  have p: "p \<in> set orderedPhases" "set ps \<subseteq> set orderedPhases" using Cons.prems(4) by auto
  have s: "settled ws [p] w" "settled ws ps w" using Cons.prems(5) by (auto simp: settled_def)
  have i: "LifecycleInitialize \<notin> set ps \<or> \<not> runInit" using Cons.prems(6) by auto
  show ?case
  proof (cases "p = LifecycleInitialize")
    case True
    then have "\<not> runInit" using Cons.prems(6) by auto
    with True Cons.prems(1) have "runProg (runPhases pick host runInit True ws ps) (boxHandler world) w = (res, w', tr)"
      by (simp del: LifecycleInitialize_def)
    then show ?thesis using Cons.IH Cons.prems(2,3) p(2) s(2) i by blast
  next
    case False
    from Cons.prems(1) show ?thesis
    proof (cases rule: run_runPhases_Cons)
      case skip
      with False show ?thesis by blast
    next
      case (fail e)
      then show ?thesis using run_runPhase_settled Cons.prems(2,3) p(1) False s(1) by blast
    next
      case (go v t1 t2)
      have os: "onlyStarted LifecyclePostAttach w v"
        by (rule run_runPhase_settled [OF go(1) Cons.prems(2,3) p(1) False s(1)])
      have "settled ws ps v" using s(2) settled_cong [of v w] onlyStarted_marked [OF os] by simp
      with Cons.IH [OF go(2) Cons.prems(2) describes_same [OF Cons.prems(3) os] p(2)] os i
      show ?thesis using onlyStarted_trans by blast
    qed
  qed
qed

text \<open>All phases again: the host's hooks come first, and only when asked for.\<close>

lemma run_orderedPhases_again:
  assumes r: "runProg (runPhases pick host runInit True ws orderedPhases) (boxHandler world) w = (res, w', tr)"
    and c: "hooksClean ws" and d: "describes ws w" and s: "settled ws orderedPhases w"
  shows "\<exists>v. onlyStarted LifecycleInitialize w v \<and> onlyStarted LifecyclePostAttach v w' \<and> (runInit \<or> v = w)"
proof -
  obtain ps where ps: "orderedPhases = LifecycleInitialize # ps" "LifecycleInitialize \<notin> set ps"
    by (simp add: orderedPhases_def)
  have sub: "set ps \<subseteq> set orderedPhases" "settled ws ps w" using s by (auto simp: ps(1) settled_def)
  show ?thesis
  proof (cases runInit)
    case False
    then have "runProg (runPhases pick host runInit True ws ps) (boxHandler world) w = (res, w', tr)"
      using r by (simp add: ps(1) del: LifecycleInitialize_def)
    from run_runPhases_again [OF this c d sub] ps(2) show ?thesis using onlyStarted_refl by blast
  next
    case True
    from r [unfolded ps(1)] show ?thesis
    proof (cases rule: run_runPhases_Cons)
      case skip
      with True show ?thesis by simp
    next
      case (fail e)
      from run_runPhase_unmarked [OF fail(2) c disjI1 [OF refl]] True show ?thesis using onlyStarted_refl by blast
    next
      case (go v t1 t2)
      have os: "onlyStarted LifecycleInitialize w v" by (rule run_runPhase_unmarked [OF go(1) c disjI1 [OF refl]])
      have "settled ws ps v" using sub(2) settled_cong [of v w] onlyStarted_marked [OF os] by simp
      from run_runPhases_again [OF go(2) c describes_same [OF d os] sub(1) this] ps(2) os True show ?thesis by blast
    qed
  qed
qed

end
