(* ===== verification/Lifecycle_Events.thy ===== *)
theory Lifecycle_Events
  imports Lifecycle_Correct
begin

text \<open>
  The lifecycle properties: markers make a phase run once per container or start, a second Up runs
  only the attach hooks, and the events of a run show every phase in order up to the first failure.
\<close>

section \<open>Events of a run\<close>

definition eventsOf :: "(call \<times> resp) list \<Rightarrow> event list" where
  "eventsOf tr = concat (map (\<lambda>(c, r). case c of Emit ev \<Rightarrow> [ev] | _ \<Rightarrow> []) tr)"

lemma eventsOf_simps [simp]:
  "eventsOf [] = []" "eventsOf (s @ t) = eventsOf s @ eventsOf t"
  "eventsOf ((Emit ev, r) # t) = ev # eventsOf t" "eventsOf ((Now, r) # t) = eventsOf t"
  "eventsOf ((ExecContainer cid xo, r) # t) = eventsOf t"
  by (simp_all add: eventsOf_def)

definition eventPhase :: "event \<Rightarrow> string" where
  "eventPhase ev = (case ev of
     LifecycleStartEvent p d \<Rightarrow> p | LifecycleSkippedEvent p r \<Rightarrow> p | LifecycleCompletedEvent p ec ms \<Rightarrow> p | _ \<Rightarrow> [])"

definition failedPhase :: "engine_error \<Rightarrow> string" where
  "failedPhase e = (case e of
     LifecycleError p ec so se c \<Rightarrow> p | ReadMarkerFailed p re \<Rightarrow> p | MarshalMarkerFailed p \<Rightarrow> p
   | ExecWriteMarkerFailed p re \<Rightarrow> p | WriteMarkerExit p ec se \<Rightarrow> p | _ \<Rightarrow> [])"

definition phaseIndex :: "string \<Rightarrow> nat" where
  "phaseIndex p = (case sliceIndex orderedPhases p of Some i \<Rightarrow> i | None \<Rightarrow> 6)"

text \<open>Every hook of a phase started and completed with exit code 0, in order.\<close>

fun hookEvents :: "string \<Rightarrow> lifecycle_command list \<Rightarrow> event list \<Rightarrow> bool" where
  "hookEvents p [] evs \<longleftrightarrow> evs = []"
| "hookEvents p (c # cs) evs \<longleftrightarrow>
     (case evs of
        LifecycleStartEvent q d # LifecycleCompletedEvent r ec ms # rest \<Rightarrow>
          q = p \<and> d = lifecycleCommandDisplay c \<and> r = p \<and> ec = 0 \<and> hookEvents p cs rest
      | _ \<Rightarrow> False)"

text \<open>One hook failed: those before it went well, it started and completed with another exit code, and nothing came after.\<close>

fun hookFails :: "string \<Rightarrow> lifecycle_command list \<Rightarrow> event list \<Rightarrow> bool" where
  "hookFails p [] evs \<longleftrightarrow> False"
| "hookFails p (c # cs) evs \<longleftrightarrow>
     (case evs of
        LifecycleStartEvent q d # LifecycleCompletedEvent r ec ms # rest \<Rightarrow>
          q = p \<and> d = lifecycleCommandDisplay c \<and> r = p
          \<and> (ec \<noteq> 0 \<and> rest = [] \<or> ec = 0 \<and> hookFails p cs rest)
      | _ \<Rightarrow> False)"

text \<open>
  The events of the phase that failed: a hook failed; or its marker could not be read, and no hook
  started; or its marker could not be written, after all hooks went well.
\<close>

definition failedEvents :: "string \<Rightarrow> lifecycle_command list \<Rightarrow> engine_error \<Rightarrow> event list \<Rightarrow> bool" where
  "failedEvents p cs e evs \<longleftrightarrow> failedPhase e = p \<and> (case e of
     LifecycleError q ec so se c \<Rightarrow> hookFails p cs evs
   | ReadMarkerFailed q re \<Rightarrow> p \<in> set markedPhases \<and> evs = []
   | _ \<Rightarrow> p \<in> set markedPhases \<and> hookEvents p cs evs)"

definition phaseCall :: "string \<Rightarrow> call \<Rightarrow> bool" where
  "phaseCall p c = (case c of Emit ev \<Rightarrow> eventPhase ev = p | _ \<Rightarrow> True)"

definition silent :: "call \<Rightarrow> bool" where
  "silent c = (case c of Emit ev \<Rightarrow> False | _ \<Rightarrow> True)"

lemma eventsOf_silent: "trace p tr x \<Longrightarrow> allCalls silent p \<Longrightarrow> eventsOf tr = []"
  by (induction rule: trace.induct) (auto simp: silent_def eventsOf_def split: call.splits)

lemma eventsOf_phase: "trace q tr x \<Longrightarrow> allCalls (phaseCall p) q \<Longrightarrow> ev \<in> set (eventsOf tr) \<Longrightarrow> eventPhase ev = p"
  by (induction rule: trace.induct) (auto simp: phaseCall_def eventsOf_def split: call.splits)

lemma silent_execLifecycleCommand: "allCalls silent (execLifecycleCommand pick ws l)"
  by (rule allCalls_execLifecycleCommand) (simp_all add: silent_def)

lemma silent_runInitialize: "allCalls silent (runInitialize pick host ws l)"
  by (rule allCalls_runInitialize) (simp add: silent_def)

lemma silent_readMarker: "allCalls silent (readMarker ws p)"
  by (simp add: readMarker_def silent_def)

lemma silent_writeMarker: "allCalls silent (writeMarker ws m)"
  by (simp add: writeMarker_def silent_def split: option.splits)

lemma allCalls_mono: "allCalls P q \<Longrightarrow> (\<And>c. P c \<Longrightarrow> Q c) \<Longrightarrow> allCalls Q q"
  by (induction q) auto

lemma phaseCall_silent: "silent c \<Longrightarrow> phaseCall p c"
  by (simp add: silent_def phaseCall_def split: call.splits)

lemma trace_emit: "trace (emit True ev q) tr x \<longleftrightarrow> (\<exists>r t. tr = (Emit ev, r) # t \<and> trace q t x)"
  by (auto simp: emit_def trace_Do_iff)

lemma trace_since: "trace (since t0 f) tr x \<longleftrightarrow> (\<exists>r t. tr = (Now, r) # t \<and> trace (f (millis t0 (asTime r))) t x)"
  by (auto simp: since_def trace_Do_iff)

lemma outcomeError_None: "outcomeError p (ec, so, se, er) = None \<longleftrightarrow> er = None \<and> ec = 0"
  by (auto simp: outcomeError_def split: option.splits)

text \<open>The errors of hooks.\<close>

definition hookError :: "string \<Rightarrow> engine_error \<Rightarrow> bool" where
  "hookError p e \<longleftrightarrow> (case e of LifecycleError q ec so se c \<Rightarrow> q = p | _ \<Rightarrow> False)"

lemma hookError_failed: "hookError p e \<Longrightarrow> hookFails p cs evs \<Longrightarrow> failedEvents p cs e evs"
  by (auto simp: hookError_def failedEvents_def failedPhase_def split: engine_error.splits)

lemma outcomeError_Some:
  "outcomeError p (ec, so, se, er) = Some e \<Longrightarrow> hookError p e \<and> (if er \<noteq> None then - 1 else ec) \<noteq> 0"
  by (auto simp: outcomeError_def hookError_def split: option.splits if_splits)

lemma trace_runHooks:
  "trace (runHooks pick True ws p cs) tr res \<Longrightarrow>
     (res = None \<longrightarrow> hookEvents p cs (eventsOf tr))
     \<and> (\<forall>e. res = Some e \<longrightarrow> hookError p e \<and> hookFails p cs (eventsOf tr))"
proof (induction cs arbitrary: tr)
  case Nil
  then show ?case by simp
next
  case (Cons c cs)
  from Cons.prems obtain r1 r2 t1 t2 r3 r4 t4 ec so se er where
      tr: "tr = (Emit (LifecycleStartEvent p (lifecycleCommandDisplay c)), r1) # (Now, r2) # t1 @
        (Now, r3) # (Emit (LifecycleCompletedEvent p (if er \<noteq> None then - 1 else ec)
           (millis (asTime r2) (asTime r3))), r4) # t4"
      and x: "trace (execLifecycleCommand pick ws c) t1 (ec, so, se, er)"
      and k: "trace (case outcomeError p (ec, so, se, er) of
           Some e \<Rightarrow> Ret (Some e) | None \<Rightarrow> runHooks pick True ws p cs) t4 res"
    by (auto simp: trace_emit trace_since trace_andThen trace_Do_iff split: prod.splits)
  have s: "eventsOf t1 = []" using x silent_execLifecycleCommand by (rule eventsOf_silent)
  show ?case
  proof (cases "outcomeError p (ec, so, se, er)")
    case None
    with Cons.IH [of t4] k s tr show ?thesis by (auto simp: outcomeError_None)
  next
    case (Some e)
    with k have "res = Some e" "t4 = []" by simp_all
    with outcomeError_Some [OF Some] s tr show ?thesis by simp
  qed
qed

lemma failed_outcomeError: "outcomeError p r = Some e \<Longrightarrow> hookError p e"
  by (auto simp: outcomeError_def hookError_def split: prod.splits option.splits if_splits)

lemma firstOf_Some: "firstOf f xs = Some y \<Longrightarrow> \<exists>x \<in> set xs. f x = Some y"
  by (induction xs) (auto split: option.splits)

lemma firstOf_None: "firstOf f xs = None \<Longrightarrow> x \<in> set xs \<Longrightarrow> f x = None"
  by (induction xs) (auto split: option.splits)

lemma failed_runInitialize:
  "allRets (\<lambda>x. \<forall>e. x = Some e \<longrightarrow> hookError LifecycleInitialize e) (runInitialize pick host ws c)"
proof -
  let ?Q = "\<lambda>x. \<forall>e. x = Some e \<longrightarrow> hookError LifecycleInitialize e"
  have par: "allRets ?Q (runInitializeParallel pick ws m)" for m
    unfolding runInitializeParallel_def allRets_andThen
    by (rule allRets_mono [OF allRets_True])
      (auto simp: hookError_def [of _ "LifecycleError _ _ _ _ _"] failed_outcomeError dest!: firstOf_Some
         split: option.splits simp del: LifecycleInitialize_def)
  have single: "allRets ?Q (runInitializeSingle ws s)" for s
    by (auto simp: runInitializeSingle_def failed_outcomeError simp del: LifecycleInitialize_def)
  show ?thesis using par single
    by (auto simp: runInitialize_def hookError_def simp del: LifecycleInitialize_def split: option.splits)
qed

lemma trace_runInitializeHooks:
  "trace (runInitializeHooks pick host True ws cs) tr res \<Longrightarrow>
     (res = None \<longrightarrow> hookEvents LifecycleInitialize cs (eventsOf tr))
     \<and> (\<forall>e. res = Some e \<longrightarrow> hookError LifecycleInitialize e \<and> hookFails LifecycleInitialize cs (eventsOf tr))"
proof (induction cs arbitrary: tr)
  case Nil
  then show ?case by simp
next
  case (Cons c cs)
  from Cons.prems obtain r1 r2 t1 t2 r3 err where
      tr: "tr = (Emit (LifecycleStartEvent LifecycleInitialize (lifecycleCommandDisplay c)), r1) # (Now, r2) # t1 @
        (Now, r3) # t2"
      and x: "trace (runInitialize pick host ws c) t1 err"
      and k: "trace (case err of
            Some e \<Rightarrow> emit True (LifecycleCompletedEvent LifecycleInitialize (exitCodeFromErr err) (millis (asTime r2) (asTime r3)))
                        (Ret (Some e))
          | None \<Rightarrow> emit True (LifecycleCompletedEvent LifecycleInitialize 0 (millis (asTime r2) (asTime r3)))
                      (runInitializeHooks pick host True ws cs)) t2 res"
    by (auto simp: trace_emit trace_since trace_andThen trace_Do_iff simp del: LifecycleInitialize_def split: prod.splits)
  have s: "eventsOf t1 = []" using x silent_runInitialize by (rule eventsOf_silent)
  show ?case
  proof (cases err)
    case None
    with k obtain r4 t4 where t2: "t2 = (Emit (LifecycleCompletedEvent LifecycleInitialize 0
        (millis (asTime r2) (asTime r3))), r4) # t4" "trace (runInitializeHooks pick host True ws cs) t4 res"
      by (auto simp: trace_emit simp del: LifecycleInitialize_def)
    with Cons.IH [OF t2(2)] s tr show ?thesis by (simp del: LifecycleInitialize_def)
  next
    case (Some e)
    have e: "hookError LifecycleInitialize e" using allRets_trace [OF x failed_runInitialize] Some by blast
    have ec: "exitCodeFromErr (Some e) \<noteq> 0" by (simp add: exitCodeFromErr_def split: engine_error.split)
    from Some k obtain r4 where "t2 = [(Emit (LifecycleCompletedEvent LifecycleInitialize (exitCodeFromErr (Some e))
        (millis (asTime r2) (asTime r3))), r4)]" "res = Some e"
      by (auto simp: trace_emit simp del: LifecycleInitialize_def)
    with e ec s tr show ?thesis by (simp del: LifecycleInitialize_def)
  qed
qed

definition writeError :: "string \<Rightarrow> engine_error \<Rightarrow> bool" where
  "writeError p e \<longleftrightarrow> failedPhase e = p \<and>
     (case e of LifecycleError q ec so se c \<Rightarrow> False | ReadMarkerFailed q re \<Rightarrow> False | _ \<Rightarrow> True)"

lemma writeError_failed: "writeError p e \<Longrightarrow> p \<in> set markedPhases \<Longrightarrow> hookEvents p cs evs \<Longrightarrow> failedEvents p cs e evs"
  by (auto simp: writeError_def failedEvents_def split: engine_error.splits)

lemma trace_writeMarker:
  assumes "trace (writeMarker ws m) tr res"
  shows "eventsOf tr = [] \<and> (\<forall>e. res = Some e \<longrightarrow> writeError (mk_Phase m) e)"
proof
  show "eventsOf tr = []" using assms silent_writeMarker by (rule eventsOf_silent)
  have "allRets (\<lambda>x. \<forall>e. x = Some e \<longrightarrow> writeError (mk_Phase m) e) (writeMarker ws m)"
    by (simp add: writeMarker_def writeError_def failedPhase_def split: option.split sum.split)
  with assms show "\<forall>e. res = Some e \<longrightarrow> writeError (mk_Phase m) e" by (rule allRets_trace)
qed

lemma trace_runMarked:
  assumes "trace (runMarked pick True ws p cs) tr res" and p: "p = LifecyclePostAttach \<or> p \<in> set markedPhases"
  shows "(res = None \<longrightarrow> hookEvents p cs (eventsOf tr)) \<and> (\<forall>e. res = Some e \<longrightarrow> failedEvents p cs e (eventsOf tr))"
proof -
  from assms(1) obtain r0 t1 t2 err where tr: "tr = (Now, r0) # t1 @ t2"
      and h: "trace (runHooks pick True ws p cs) t1 err"
      and k: "trace (case err of Some e \<Rightarrow> Ret (Some e)
         | None \<Rightarrow> if p = LifecyclePostAttach then Ret None
             else since (asTime r0) (\<lambda>ms. writeMarker ws (freshMarker ws p (asTime r0) ms))) t2 res"
    unfolding runMarked_def by (auto simp: trace_andThen trace_Do_iff simp del: LifecyclePostAttach_def)
  note rh = trace_runHooks [OF h]
  show ?thesis
  proof (cases "err = None \<and> p \<noteq> LifecyclePostAttach")
    case True
    with k obtain r3 t3 where t3: "t2 = (Now, r3) # t3"
        "trace (writeMarker ws (freshMarker ws p (asTime r0) (millis (asTime r0) (asTime r3)))) t3 res"
      by (auto simp: trace_since)
    have "\<forall>e. res = Some e \<longrightarrow> writeError p e" "eventsOf t3 = []"
      using trace_writeMarker [OF t3(2)] by (simp_all add: freshMarker_def)
    with t3(1) rh True tr p show ?thesis by (auto intro: writeError_failed)
  next
    case False
    with k have "t2 = []" "res = err" by (auto split: option.splits)
    with rh tr show ?thesis by (auto intro: hookError_failed)
  qed
qed

text \<open>The events of a phase that did not fail.\<close>

definition phaseEvents :: "string \<Rightarrow> lifecycle_command list \<Rightarrow> event list \<Rightarrow> bool" where
  "phaseEvents p cs evs \<longleftrightarrow>
     hookEvents p cs evs
     \<or> cs \<noteq> [] \<and> p \<in> set markedPhases \<and> evs = [LifecycleSkippedEvent p ''marker_present'']"

lemma trace_runPhase:
  assumes t: "trace (runPhase pick host True ws p cs) tr res" and p: "p \<in> set orderedPhases"
  shows "(res = None \<longrightarrow> phaseEvents p cs (eventsOf tr)) \<and> (\<forall>e. res = Some e \<longrightarrow> failedEvents p cs e (eventsOf tr))"
proof -
  consider (none) "cs = []" | (init) "cs \<noteq> []" "p = LifecycleInitialize"
    | (attach) "cs \<noteq> []" "p = LifecyclePostAttach"
    | (mark) "cs \<noteq> []" "p \<in> set markedPhases" using ordered_cases [OF p] by blast
  then show ?thesis
  proof cases
    case none
    with t show ?thesis by (simp add: runPhase_def phaseEvents_def)
  next
    case init
    with t have "trace (runInitializeHooks pick host True ws cs) tr res"
      by (simp add: runPhase_def del: LifecycleInitialize_def)
    from trace_runInitializeHooks [OF this] init show ?thesis
      unfolding phaseEvents_def by (blast intro: hookError_failed)
  next
    case attach
    with t have "trace (runMarked pick True ws p cs) tr res" by (simp add: runPhase_def)
    from trace_runMarked [OF this disjI1 [OF attach(2)]] show ?thesis unfolding phaseEvents_def by blast
  next
    case mark
    let ?k = "\<lambda>r. case r of Inl e \<Rightarrow> Ret (Some (ReadMarkerFailed p e))
     | Inr m \<Rightarrow> if \<not> shouldRun p m (ws_Container ws)
               then emit True (LifecycleSkippedEvent p ''marker_present'') (Ret None)
               else runMarked pick True ws p cs"
    have "runPhase pick host True ws p cs = andThen (readMarker ws p) ?k"
      using mark marked_phase_names [OF mark(2)]
      by (simp add: runPhase_def del: LifecycleInitialize_def LifecyclePostAttach_def)
    with t obtain t1 t2 x where tr: "tr = t1 @ t2" and rd: "trace (readMarker ws p) t1 x" and k: "trace (?k x) t2 res"
      by (auto simp: trace_andThen)
    have s: "eventsOf t1 = []" using rd silent_readMarker by (rule eventsOf_silent)
    consider (err) e where "x = Inl e" | (skip) m where "x = Inr m" "\<not> shouldRun p m (ws_Container ws)"
      | (run) m where "x = Inr m" "shouldRun p m (ws_Container ws)" by (cases x) auto
    then show ?thesis
    proof cases
      case err
      with k have "t2 = []" "res = Some (ReadMarkerFailed p e)" by simp_all
      with s tr mark show ?thesis by (simp add: failedPhase_def failedEvents_def)
    next
      case skip
      with k mark s tr show ?thesis by (auto simp: trace_emit phaseEvents_def)
    next
      case run
      with k have "trace (runMarked pick True ws p cs) t2 res" by simp
      from trace_runMarked [OF this disjI2 [OF mark(2)]] s tr show ?thesis by (auto simp: phaseEvents_def)
    qed
  qed
qed

lemma phaseCall_runPhase: "p \<in> set orderedPhases \<Longrightarrow> allCalls (phaseCall p) (runPhase pick host bus ws p cs)"
proof -
  have s: "allCalls silent q \<Longrightarrow> allCalls (phaseCall p) q" for q :: "'b prog"
    using allCalls_mono phaseCall_silent by blast
  have h: "allCalls (phaseCall p) (runHooks pick bus ws p cs)"
    by (rule allCalls_runHooks) (simp_all add: phaseCall_def eventPhase_def)
  have m: "allCalls (phaseCall p) (runMarked pick bus ws p cs)"
    using h s [OF silent_writeMarker] unfolding runMarked_def
    by (auto intro!: allCalls_andThenI split: option.splits simp: phaseCall_def [of _ Now])
  have i: "allCalls (phaseCall p) (runInitializeHooks pick host bus ws cs)" if "p = LifecycleInitialize"
    by (rule allCalls_runInitializeHooks) (simp_all add: phaseCall_def eventPhase_def that)
  show ?thesis
    unfolding runPhase_def using m i s [OF silent_readMarker [of ws p]]
    by (auto intro!: allCalls_andThenI split: sum.splits simp: phaseCall_def eventPhase_def)
qed

section \<open>Order\<close>

text \<open>The phases a run goes through: all, without the host's one unless it was asked for.\<close>

definition phasesOf :: "bool \<Rightarrow> string list \<Rightarrow> string list" where
  "phasesOf runInit ps = filter (\<lambda>p. p \<noteq> LifecycleInitialize \<or> runInit) ps"

text \<open>The phases before the failed one went well, the failed one did not, and nothing came after.\<close>

definition failsAfter :: "workspace \<Rightarrow> engine_error \<Rightarrow> string list \<Rightarrow> event list \<Rightarrow> bool" where
  "failsAfter ws e ps evs \<longleftrightarrow> (\<exists>before after Es failing. ps = before @ failedPhase e # after
     \<and> evs = concat Es @ failing
     \<and> list_all2 (\<lambda>p. phaseEvents p (lifecycleCommandsFor (ws_Config ws) p)) before Es
     \<and> failedEvents (failedPhase e) (lifecycleCommandsFor (ws_Config ws) (failedPhase e)) e failing)"

lemma failsAfter_here:
  "failedEvents p (lifecycleCommandsFor (ws_Config ws) p) e evs \<Longrightarrow> failsAfter ws e (p # ps) evs"
  unfolding failsAfter_def
  by (rule exI [of _ "[]"], rule exI [of _ ps], rule exI [of _ "[]"], rule exI [of _ evs])
    (simp add: failedEvents_def)

lemma failsAfter_later:
  assumes "failsAfter ws e ps evs" "phaseEvents p (lifecycleCommandsFor (ws_Config ws) p) E"
  shows "failsAfter ws e (p # ps) (E @ evs)"
proof -
  from assms(1) obtain before after Es failing where f: "ps = before @ failedPhase e # after" "evs = concat Es @ failing"
    "list_all2 (\<lambda>p. phaseEvents p (lifecycleCommandsFor (ws_Config ws) p)) before Es"
    "failedEvents (failedPhase e) (lifecycleCommandsFor (ws_Config ws) (failedPhase e)) e failing"
    unfolding failsAfter_def by (elim exE conjE) (rule that)
  with assms(2) show ?thesis
    unfolding failsAfter_def
    by (intro exI [of _ "p # before"] exI [of _ after] exI [of _ "E # Es"] exI [of _ failing]) simp
qed

lemma trace_runPhases:
  "trace (runPhases pick host runInit True ws ps) tr res \<Longrightarrow>
   set ps \<subseteq> set orderedPhases \<Longrightarrow> sorted (map phaseIndex ps) \<Longrightarrow>
     sorted (map (phaseIndex \<circ> eventPhase) (eventsOf tr))
     \<and> (\<forall>ev \<in> set (eventsOf tr). eventPhase ev \<in> set ps)
     \<and> (\<forall>e. res = Some e \<longrightarrow> failedPhase e \<in> set ps
          \<and> (\<forall>ev \<in> set (eventsOf tr). phaseIndex (eventPhase ev) \<le> phaseIndex (failedPhase e))
          \<and> failsAfter ws e (phasesOf runInit ps) (eventsOf tr))
     \<and> (res = None \<longrightarrow> (\<exists>Es. eventsOf tr = concat Es
          \<and> list_all2 (\<lambda>p. phaseEvents p (lifecycleCommandsFor (ws_Config ws) p)) (phasesOf runInit ps) Es))"
proof (induction ps arbitrary: tr)
  case Nil
  then show ?case by (simp add: phasesOf_def)
next
  case (Cons p ps)
  have p: "p \<in> set orderedPhases" "set ps \<subseteq> set orderedPhases" "sorted (map phaseIndex ps)"
    "\<And>q. q \<in> set ps \<Longrightarrow> phaseIndex p \<le> phaseIndex q"
    using Cons.prems(2,3) by auto
  show ?case
  proof (cases "p = LifecycleInitialize \<and> \<not> runInit")
    case True
    then have "(p = LifecycleInitialize \<and> \<not> runInit) = True" by blast
    with Cons.prems(1) have "trace (runPhases pick host runInit True ws ps) tr res"
      by (simp only: runPhases.simps if_True)
    from Cons.IH [OF this p(2,3)] True show ?thesis
      by (auto simp: phasesOf_def simp del: LifecycleInitialize_def)
  next
    case False
    let ?cs = "lifecycleCommandsFor (ws_Config ws) p"
    from Cons.prems(1) obtain t1 t2 err where tr: "tr = t1 @ t2" and h: "trace (runPhase pick host True ws p ?cs) t1 err"
        and k: "trace (case err of Some e \<Rightarrow> Ret (Some e) | None \<Rightarrow> runPhases pick host runInit True ws ps) t2 res"
      by (auto simp only: runPhases.simps False if_False trace_andThen)
    note ph = trace_runPhase [OF h p(1)]
    have ev: "ev \<in> set (eventsOf t1) \<Longrightarrow> eventPhase ev = p" for ev
      by (rule eventsOf_phase [OF h phaseCall_runPhase [OF p(1)]])
    then have m1: "map (phaseIndex \<circ> eventPhase) (eventsOf t1) = replicate (length (eventsOf t1)) (phaseIndex p)"
      by (intro nth_equalityI) simp_all
    then have s1: "sorted (map (phaseIndex \<circ> eventPhase) (eventsOf t1))" by (simp only: sorted_replicate)
    show ?thesis
    proof (cases err)
      case (Some e)
      with k have t2: "t2 = []" "res = Some e" by simp_all
      have fe: "failedEvents p ?cs e (eventsOf t1)" using ph Some by blast
      then have fp: "failedPhase e = p" by (simp add: failedEvents_def)
      have "phasesOf runInit (p # ps) = p # phasesOf runInit ps"
        using False by (auto simp: phasesOf_def simp del: LifecycleInitialize_def)
      then have "failsAfter ws e (phasesOf runInit (p # ps)) (eventsOf t1)" using failsAfter_here [OF fe] by simp
      with t2 tr ev s1 fp show ?thesis by (auto simp: comp_def simp del: LifecycleInitialize_def)
    next
      case None
      with k have "trace (runPhases pick host runInit True ws ps) t2 res" by simp
      note ih = Cons.IH [OF this p(2,3)]
      have so: "sorted (map (phaseIndex \<circ> eventPhase) (eventsOf tr))"
        using ih s1 ev p(4) by (auto simp: tr sorted_append comp_def)
      have pe: "phaseEvents p ?cs (eventsOf t1)" using ph None by simp
      have ps: "phasesOf runInit (p # ps) = p # phasesOf runInit ps"
        using False by (auto simp: phasesOf_def simp del: LifecycleInitialize_def)
      have "res = None \<longrightarrow> (\<exists>Es. eventsOf tr = concat Es
          \<and> list_all2 (\<lambda>p. phaseEvents p (lifecycleCommandsFor (ws_Config ws) p)) (phasesOf runInit (p # ps)) Es)"
      proof
        assume "res = None"
        with ih obtain Es where "eventsOf t2 = concat Es"
            "list_all2 (\<lambda>p. phaseEvents p (lifecycleCommandsFor (ws_Config ws) p)) (phasesOf runInit ps) Es" by blast
        with pe show "\<exists>Es. eventsOf tr = concat Es
          \<and> list_all2 (\<lambda>p. phaseEvents p (lifecycleCommandsFor (ws_Config ws) p)) (phasesOf runInit (p # ps)) Es"
          by (intro exI [of _ "eventsOf t1 # Es"]) (simp add: tr ps)
      qed
      moreover have "failsAfter ws e (phasesOf runInit (p # ps)) (eventsOf tr)" if "res = Some e" for e
        using failsAfter_later [OF _ pe] ih that unfolding ps tr eventsOf_simps by blast
      ultimately show ?thesis using so ih ev p(4) by (auto simp: tr comp_def)
    qed
  qed
qed

lemma orderedPhases_sorted: "sorted (map phaseIndex orderedPhases)"
  by (simp add: orderedPhases_def phaseIndex_def)

section \<open>A container with two hooks\<close>

definition demoHook :: "string \<Rightarrow> lifecycle_command" where
  "demoHook sh = \<lparr>lc_Single = Some \<lparr>cm_Shell = sh, cm_Exec = []\<rparr>, lc_Parallel = []\<rparr>"

definition demoDetails :: container_details where
  "demoDetails = \<lparr>cd_Container = \<lparr>ct_ID = ''c1'', ct_Name = [], ct_Image = [], ct_State = StateRunning, ct_Labels = []\<rparr>,
     cd_Created = 7000000000, cd_StartedAt = 9000000000, cd_User = [], cd_Env = [],
     cd_Mounts = [], cd_Labels = [], cd_ImageRef = [], cd_Privileged = False, cd_CapAdd = [],
     cd_SecurityOpt = [], cd_ExitCode = 0, cd_FinishedAt = 0, cd_Health = []\<rparr>"

definition demoWorkspace :: workspace where
  "demoWorkspace = (let cfg = emptyConfig\<lparr>cfg_Lifecycle := \<lparr>lcs_Initialize = [], lcs_OnCreate = [demoHook ''make''],
       lcs_UpdateContent = [], lcs_PostCreate = [], lcs_PostStart = [], lcs_PostAttach = [demoHook ''motd'']\<rparr>\<rparr> in
     \<lparr>ws_ID = ''d'', ws_Config = cfg, ws_Container = demoDetails,
      ws_subst = newSubstituter cfg demoDetails [], ws_probedEnv = []\<rparr>)"

definition demoBox :: box where
  "demoBox = \<lparr>bx_Created = 7000000000, bx_StartedAt = 9000000000, bx_Files = [], bx_Log = [], bx_Calls = 0\<rparr>"

definition demoWorld :: "nat \<Rightarrow> call \<Rightarrow> resp" where
  "demoWorld n c = (case c of
     ExecContainer cid xo \<Rightarrow> RExec \<lparr>er_ExitCode = 0, er_Stdout = [], er_Stderr = []\<rparr>
   | Now \<Rightarrow> RTime 9000000000 | _ \<Rightarrow> RUnit)"

definition demoUp :: "bool \<Rightarrow> box \<Rightarrow> engine_error option \<times> box \<times> (call \<times> resp) list" where
  "demoUp runInit w =
     runProg (runAllLifecycle (\<lambda>n. n) True demoWorkspace runInit True) (boxHandler demoWorld) w"

definition demoRun :: "string \<Rightarrow> box \<Rightarrow> engine_error option \<times> box \<times> (call \<times> resp) list" where
  "demoRun p w = runProg (runPhase (\<lambda>n. n) True True demoWorkspace p
     (lifecycleCommandsFor (ws_Config demoWorkspace) p)) (boxHandler demoWorld) w"

lemma demoUp_eq [code]:
  "demoUp runInit w =
     (case demoRun LifecycleOnCreate w of
        (Some e, w1, t1) \<Rightarrow> (Some e, w1, t1)
      | (None, w1, t1) \<Rightarrow> (case demoRun LifecyclePostAttach w1 of (x, w2, t2) \<Rightarrow> (x, w2, t1 @ t2)))"
proof -
  let ?c = "lifecycleCommandsFor (ws_Config demoWorkspace)"
  have n: "runPhase pick host bus ws p [] = Ret None" for pick host bus ws p
    by (simp add: runPhase_def)
  have c: "?c ''initialize'' = []" "?c ''updateContent'' = []" "?c ''postCreate'' = []" "?c ''postStart'' = []"
    by code_simp+
  let ?stop = "\<lambda>p err. case err of Some e \<Rightarrow> Ret (Some e) | None \<Rightarrow> p"
  have "runAllLifecycle pick True demoWorkspace runInit True =
      andThen (runPhase pick True True demoWorkspace ''onCreate'' (?c ''onCreate''))
        (?stop (andThen (runPhase pick True True demoWorkspace ''postAttach'' (?c ''postAttach'')) (?stop (Ret None))))"
    for pick
    by (simp add: runAllLifecycle_def orderedPhases_def c n)
  then show ?thesis
    unfolding demoUp_def demoRun_def
    by (simp add: runProg_andThen split: prod.splits option.splits)
qed

lemma demo_hooks: "hooksClean demoWorkspace \<and> describes demoWorkspace demoBox"
  by code_simp

definition demoBox1 :: box where "demoBox1 = fst (snd (demoUp True demoBox))"
definition demoBox2 :: box where "demoBox2 = fst (snd (demoUp False demoBox1))"

lemma demo_first: "demoUp True demoBox = (None, demoBox1, snd (snd (demoUp True demoBox)))"
proof -
  have "fst (demoUp True demoBox) = None" by code_simp
  then show ?thesis by (simp add: demoBox1_def prod_eq_iff)
qed

lemma demo_log: "bx_Log demoBox1 =
    [Started LifecyclePostAttach 7000000000, Marked LifecycleOnCreate 7000000000, Started LifecycleOnCreate 7000000000]"
  by code_simp

lemma demo_second: "demoUp False demoBox1 = (None, demoBox2, snd (snd (demoUp False demoBox1)))"
proof -
  have "fst (demoUp False demoBox1) = None" by code_simp
  then show ?thesis by (simp add: demoBox2_def prod_eq_iff)
qed

lemma demo_reach: "boxReach demoBox1"
proof -
  have "boxReach demoBox" unfolding demoBox_def by (rule boxReach.fresh)
  then show ?thesis using demo_hooks demo_first by (auto simp: demoUp_def intro: boxReach.up)
qed

section \<open>The properties\<close>

text \<open>
  C37. A phase that was marked is not run again. In every state of a container reached by Ups (with any
  workspace that describes the container, any scheduling, any results of hooks and any failures of
  the daemon), restarts and recreations, the log has no start and no second mark of a phase after
  its mark under the same key: the creation time, or the start time for \<^verbatim>\<open>postStart\<close>.
\<close>

theorem lifecycle_no_rerun:
  assumes "boxReach w" and "bx_Log w = later @ e # earlier" and "e \<in> {Started p k, Marked p k}"
  shows "Marked p k \<notin> set earlier"
proof -
  have "noRerun (later @ e # earlier)" using boxReach_inv [OF assms(1)] assms(2) by (simp add: boxInv_def)
  then show ?thesis by (rule noRerun_split) (use assms(3) in auto)
qed

theorem lifecycle_no_rerun_witness:
  "Marked LifecycleOnCreate 7000000000 \<notin> set [Started LifecycleOnCreate 7000000000]"
  by (rule lifecycle_no_rerun [OF demo_reach,
        of "[Started LifecyclePostAttach 7000000000]" "Marked LifecycleOnCreate 7000000000"])
    (simp_all add: demo_log del: LifecycleOnCreate_def LifecyclePostAttach_def)

text \<open>
  C38. A second Up runs only the attach hooks, and the host's hooks when it is asked to. After an Up that
  returned no error, every phase with hooks that keeps a marker (\<^verbatim>\<open>onCreate\<close>, \<^verbatim>\<open>updateContent\<close>, \<^verbatim>\<open>postCreate\<close>,
  \<^verbatim>\<open>postStart\<close>) is marked, and the next Up of the same container starts nothing but \<^verbatim>\<open>initialize\<close> hooks, only when it is
  asked to run them, and after them \<^verbatim>\<open>postAttach\<close> hooks, and leaves the marker files as they are, whatever
  it returns.
\<close>

theorem lifecycle_second_up:
  assumes "hooksClean ws" and "describes ws w"
    and "runProg (runAllLifecycle pick host ws runInit True) (boxHandler world) w = (None, w1, tr1)"
    and "runProg (runAllLifecycle pick' host' ws runInit' True) (boxHandler world') w1 = (res, w2, tr2)"
  shows "settled ws orderedPhases w1 \<and> bx_Files w2 = bx_Files w1
    \<and> (\<exists>n m. bx_Log w2 = replicate n (Started LifecyclePostAttach (bx_Created w1))
           @ replicate m (Started LifecycleInitialize (bx_Created w1)) @ bx_Log w1
         \<and> (\<not> runInit' \<longrightarrow> m = 0))"
proof -
  have 1: "settled ws orderedPhases w1 \<and> sameKeys w w1"
    using run_runPhases_settled [OF assms(3) [unfolded runAllLifecycle_def] assms(1,2)] by blast
  then obtain v where v: "onlyStarted LifecycleInitialize w1 v" "onlyStarted LifecyclePostAttach v w2" "runInit' \<or> v = w1"
    using run_orderedPhases_again [OF assms(4) [unfolded runAllLifecycle_def] assms(1)]
      describes_sameKeys assms(2) by blast
  have k: "boxKey LifecycleInitialize w1 = bx_Created w1" "boxKey LifecyclePostAttach v = bx_Created w1"
    using v(1) by (simp_all add: boxKey_def onlyStarted_def)
  from v(1) obtain m where m: "bx_Log v = replicate m (Started LifecycleInitialize (bx_Created w1)) @ bx_Log w1"
    unfolding onlyStarted_def k by blast
  from v(2) obtain n where n: "bx_Log w2 = replicate n (Started LifecyclePostAttach (bx_Created w1)) @ bx_Log v"
    unfolding onlyStarted_def k by blast
  have "bx_Files w2 = bx_Files w1" using v(1,2) by (simp add: onlyStarted_def)
  moreover have "\<exists>n m. bx_Log w2 = replicate n (Started LifecyclePostAttach (bx_Created w1))
      @ replicate m (Started LifecycleInitialize (bx_Created w1)) @ bx_Log w1 \<and> (\<not> runInit' \<longrightarrow> m = 0)"
  proof (cases runInit')
    case True
    with m n show ?thesis by auto
  next
    case False
    with v(3) have "v = w1" by simp
    with n have "bx_Log w2 = replicate n (Started LifecyclePostAttach (bx_Created w1))
        @ replicate 0 (Started LifecycleInitialize (bx_Created w1)) @ bx_Log w1" by simp
    then show ?thesis by blast
  qed
  ultimately show ?thesis using 1 by blast
qed

theorem lifecycle_second_up_witness:
  "settled demoWorkspace orderedPhases demoBox1 \<and> bx_Files demoBox2 = bx_Files demoBox1
    \<and> (\<exists>n. bx_Log demoBox2 = replicate n (Started LifecyclePostAttach 7000000000) @ bx_Log demoBox1)"
proof -
  have "bx_Created demoBox1 = 7000000000" by code_simp
  with lifecycle_second_up [OF conjunct1 [OF demo_hooks] conjunct2 [OF demo_hooks]
      demo_first [unfolded demoUp_def [of True]] demo_second [unfolded demoUp_def [of False]]]
  show ?thesis by simp
qed

text \<open>
  C39. Phases run in the order of the specification and stop at the first failure. Whatever the
  runtime answers, the events of a run are ordered by phase. A run without an error is, phase by phase, either every hook started
  and completed with exit code 0, in order, or the single event that the marker was present. A run
  with an error has such events for every phase before the one the error names, and then those of that
  phase: when a hook failed, the hooks before it completed with exit code 0, this one with another, and
  no event after that; when its marker could not be read, none; when it could not be written, all
  its hooks completed with exit code 0.
\<close>

theorem lifecycle_events:
  assumes "trace (runAllLifecycle pick host ws runInit True) tr res"
  shows "sorted (map (phaseIndex \<circ> eventPhase) (eventsOf tr))
    \<and> (case res of
         Some e \<Rightarrow> failedPhase e \<in> set orderedPhases
           \<and> list_all (\<lambda>ev. phaseIndex (eventPhase ev) \<le> phaseIndex (failedPhase e)) (eventsOf tr)
           \<and> (\<exists>before after Es failing. phasesOf runInit orderedPhases = before @ failedPhase e # after
                \<and> eventsOf tr = concat Es @ failing
                \<and> list_all2 (\<lambda>p. phaseEvents p (lifecycleCommandsFor (ws_Config ws) p)) before Es
                \<and> failedEvents (failedPhase e) (lifecycleCommandsFor (ws_Config ws) (failedPhase e)) e failing)
       | None \<Rightarrow> \<exists>Es. eventsOf tr = concat Es
           \<and> list_all2 (\<lambda>p. phaseEvents p (lifecycleCommandsFor (ws_Config ws) p))
               (phasesOf runInit orderedPhases) Es)"
  using trace_runPhases [OF assms [unfolded runAllLifecycle_def] order.refl orderedPhases_sorted]
  unfolding failsAfter_def by (auto simp: list_all_iff split: option.splits)

theorem lifecycle_events_witness:
  "sorted (map (phaseIndex \<circ> eventPhase) (eventsOf (snd (snd (demoUp True demoBox)))))
    \<and> eventsOf (snd (snd (demoUp True demoBox))) =
        [LifecycleStartEvent ''onCreate'' ''make'', LifecycleCompletedEvent ''onCreate'' 0 0,
         LifecycleStartEvent ''postAttach'' ''motd'', LifecycleCompletedEvent ''postAttach'' 0 0]"
proof
  show "sorted (map (phaseIndex \<circ> eventPhase) (eventsOf (snd (snd (demoUp True demoBox)))))"
    using lifecycle_events [OF runProg_trace [OF demo_first [unfolded demoUp_def [of True]]]]
    by (simp only: demoUp_def)
  show "eventsOf (snd (snd (demoUp True demoBox))) =
        [LifecycleStartEvent ''onCreate'' ''make'', LifecycleCompletedEvent ''onCreate'' 0 0,
         LifecycleStartEvent ''postAttach'' ''motd'', LifecycleCompletedEvent ''postAttach'' 0 0]"
    by code_simp
qed

end
