(* ===== verification/Config_Parse.thy ===== *)
theory Config_Parse
  imports Config_Normalize Go_Path
begin

text \<open>
  One \<^verbatim>\<open>devcontainer.json\<close> as the source decodes it: the raw document of \<^verbatim>\<open>config/raw.go\<close>, its
  decoding with the warnings about unknown fields of \<^verbatim>\<open>config/parse.go\<close>, and the errors of
  \<^verbatim>\<open>config/errors.go\<close>. \<^verbatim>\<open>jsonc.ToJSON\<close> is the parameter \<open>toJSON\<close>; a field of type \<^verbatim>\<open>json.RawMessage\<close> is
  its text, empty when it is absent.
\<close>

section \<open>The raw document\<close>

record raw_build =
  rb_Dockerfile :: string
  rb_Context :: string
  rb_Args :: "string gomap"
  rb_Target :: string
  rb_CacheFrom :: string
  rb_Options :: "string list"

record raw_port_attrs =
  rp_Label :: string
  rp_Protocol :: string
  rp_OnAutoForward :: string
  rp_ElevateIfNeeded :: "bool option"
  rp_RequireLocalPort :: "bool option"

record raw_host_requirements =
  rhr_CPUs :: int
  rhr_Memory :: string
  rhr_Storage :: string
  rhr_GPU :: string

record raw_config =
  raw_Name :: string
  raw_Image :: string
  raw_Build :: "raw_build option"
  raw_DockerComposeFile :: string
  raw_Service :: string
  raw_RunServices :: "string list"
  raw_WorkspaceFolder :: string
  raw_WorkspaceMount :: string
  raw_Mounts :: string
  raw_ContainerEnv :: "string gomap"
  raw_RemoteEnv :: "string gomap"
  raw_ContainerUser :: string
  raw_RemoteUser :: string
  raw_UpdateRemoteUserUID :: "bool option"
  raw_UserEnvProbe :: string
  raw_RunArgs :: "string list"
  raw_Init :: "bool option"
  raw_Privileged :: "bool option"
  raw_CapAdd :: "string list"
  raw_SecurityOpt :: "string list"
  raw_OverrideCommand :: "bool option"
  raw_ShutdownAction :: string
  raw_Features :: "string gomap"
  raw_OverrideFeatureInstallOrder :: "string list"
  raw_InitializeCommand :: string
  raw_SecretsCommand :: string
  raw_OnCreateCommand :: string
  raw_UpdateContentCommand :: string
  raw_PostCreateCommand :: string
  raw_PostStartCommand :: string
  raw_PostAttachCommand :: string
  raw_WaitFor :: string
  raw_ForwardPorts :: string
  raw_PortsAttributes :: "raw_port_attrs gomap"
  raw_OtherPortsAttributes :: "raw_port_attrs option"
  raw_AppPort :: string
  raw_HostRequirements :: "raw_host_requirements option"
  raw_Customizations :: "string gomap"

section \<open>Errors\<close>

text \<open>The reasons a parsed document is refused; a field is named by its path.\<close>

datatype invalid_reason = ExactlyOneSource | InvalidField string

datatype config_error = ConfigParseError string | ConfigInvalidError string invalid_reason

section \<open>Decoding\<close>

text \<open>
  A pointer to a struct: \<^verbatim>\<open>null\<close> resets it, and the objects of several members of that name are
  decoded into the same struct, which then has the members of all of them.
\<close>

fun foldObject :: "(string \<times> string) list option \<Rightarrow> string list \<Rightarrow> (string \<times> string) list option option" where
  "foldObject acc [] = Some acc"
| "foldObject acc (t # ts) =
     (if jsonParse t = Some JNull then foldObject None ts
      else case rawMembers t of
             None \<Rightarrow> None
           | Some ms \<Rightarrow> foldObject (Some ((case acc of None \<Rightarrow> [] | Some old \<Rightarrow> old) @ ms)) ts)"

definition objectField ::
    "((string \<times> string) list \<Rightarrow> 'a option) \<Rightarrow> string \<Rightarrow> (string \<times> string) list \<Rightarrow> 'a option option" where
  "objectField dec k ms =
     (case foldObject None (fieldVals k ms) of
        None \<Rightarrow> None
      | Some None \<Rightarrow> Some None
      | Some (Some os) \<Rightarrow> map_option Some (dec os))"

text \<open>A map whose elements are structs: every member is decoded into a fresh one.\<close>

fun putObjects ::
    "((string \<times> string) list \<Rightarrow> 'a option) \<Rightarrow> (string \<times> string) list \<Rightarrow> 'a gomap \<Rightarrow> 'a gomap option" where
  "putObjects dec [] m = Some m"
| "putObjects dec ((k, t) # kts) m =
     (case Option.bind (rawMembers t) dec of
        None \<Rightarrow> None
      | Some x \<Rightarrow> putObjects dec kts (mput k x m))"

fun foldObjectMap ::
    "((string \<times> string) list \<Rightarrow> 'a option) \<Rightarrow> 'a gomap \<Rightarrow> string list \<Rightarrow> 'a gomap option" where
  "foldObjectMap dec acc [] = Some acc"
| "foldObjectMap dec acc (t # ts) =
     (case rawMembers t of
        None \<Rightarrow> None
      | Some ms \<Rightarrow>
          (case putObjects dec ms (if jsonParse t = Some JNull then [] else acc) of
             None \<Rightarrow> None
           | Some m \<Rightarrow> foldObjectMap dec m ts))"

definition objectMapField ::
    "((string \<times> string) list \<Rightarrow> 'a option) \<Rightarrow> string \<Rightarrow> (string \<times> string) list \<Rightarrow> 'a gomap option" where
  "objectMapField dec k ms = foldObjectMap dec [] (fieldVals k ms)"

definition decodeBuild :: "(string \<times> string) list \<Rightarrow> raw_build option" where
  "decodeBuild ms =
     do { dockerfile \<leftarrow> stringField ''dockerfile'' ms;
          ctx \<leftarrow> stringField ''context'' ms;
          args \<leftarrow> stringMapField ''args'' ms;
          target \<leftarrow> stringField ''target'' ms;
          options \<leftarrow> stringsField ''options'' ms;
          Some \<lparr>rb_Dockerfile = dockerfile, rb_Context = ctx, rb_Args = args, rb_Target = target,
            rb_CacheFrom = rawField ''cachefrom'' ms, rb_Options = options\<rparr> }"

definition decodePortAttrs :: "(string \<times> string) list \<Rightarrow> raw_port_attrs option" where
  "decodePortAttrs ms =
     do { label \<leftarrow> stringField ''label'' ms;
          proto \<leftarrow> stringField ''protocol'' ms;
          auto_fwd \<leftarrow> stringField ''onautoforward'' ms;
          elevate \<leftarrow> boolPtrField ''elevateifneeded'' ms;
          loc \<leftarrow> boolPtrField ''requirelocalport'' ms;
          Some \<lparr>rp_Label = label, rp_Protocol = proto, rp_OnAutoForward = auto_fwd,
            rp_ElevateIfNeeded = elevate, rp_RequireLocalPort = loc\<rparr> }"

definition decodeHostRequirements :: "(string \<times> string) list \<Rightarrow> raw_host_requirements option" where
  "decodeHostRequirements ms =
     do { cpus \<leftarrow> intField ''cpus'' ms;
          mem \<leftarrow> stringField ''memory'' ms;
          sto \<leftarrow> stringField ''storage'' ms;
          Some \<lparr>rhr_CPUs = cpus, rhr_Memory = mem, rhr_Storage = sto, rhr_GPU = rawField ''gpu'' ms\<rparr> }"

definition decodeConfig :: "(string \<times> string) list \<Rightarrow> raw_config option" where
  "decodeConfig ms =
     do { name \<leftarrow> stringField ''name'' ms;
          image \<leftarrow> stringField ''image'' ms;
          build \<leftarrow> objectField decodeBuild ''build'' ms;
          service \<leftarrow> stringField ''service'' ms;
          runServices \<leftarrow> stringsField ''runservices'' ms;
          folder \<leftarrow> stringField ''workspacefolder'' ms;
          cenv \<leftarrow> stringMapField ''containerenv'' ms;
          renv \<leftarrow> stringMapField ''remoteenv'' ms;
          containerUser \<leftarrow> stringField ''containeruser'' ms;
          remoteUser \<leftarrow> stringField ''remoteuser'' ms;
          uid \<leftarrow> boolPtrField ''updateremoteuseruid'' ms;
          probe \<leftarrow> stringField ''userenvprobe'' ms;
          runArgs \<leftarrow> stringsField ''runargs'' ms;
          ini \<leftarrow> boolPtrField ''init'' ms;
          priv \<leftarrow> boolPtrField ''privileged'' ms;
          cap \<leftarrow> stringsField ''capadd'' ms;
          secopt \<leftarrow> stringsField ''securityopt'' ms;
          over \<leftarrow> boolPtrField ''overridecommand'' ms;
          shutdown \<leftarrow> stringField ''shutdownaction'' ms;
          features \<leftarrow> rawMapField ''features'' ms;
          install \<leftarrow> stringsField ''overridefeatureinstallorder'' ms;
          waitFor \<leftarrow> stringField ''waitfor'' ms;
          ports \<leftarrow> objectMapField decodePortAttrs ''portsattributes'' ms;
          other \<leftarrow> objectField decodePortAttrs ''otherportsattributes'' ms;
          host \<leftarrow> objectField decodeHostRequirements ''hostrequirements'' ms;
          cust \<leftarrow> rawMapField ''customizations'' ms;
          Some \<lparr>raw_Name = name, raw_Image = image, raw_Build = build,
            raw_DockerComposeFile = rawField ''dockercomposefile'' ms,
            raw_Service = service, raw_RunServices = runServices, raw_WorkspaceFolder = folder,
            raw_WorkspaceMount = rawField ''workspacemount'' ms, raw_Mounts = rawField ''mounts'' ms,
            raw_ContainerEnv = cenv, raw_RemoteEnv = renv, raw_ContainerUser = containerUser,
            raw_RemoteUser = remoteUser, raw_UpdateRemoteUserUID = uid, raw_UserEnvProbe = probe,
            raw_RunArgs = runArgs, raw_Init = ini, raw_Privileged = priv, raw_CapAdd = cap,
            raw_SecurityOpt = secopt, raw_OverrideCommand = over, raw_ShutdownAction = shutdown,
            raw_Features = features, raw_OverrideFeatureInstallOrder = install,
            raw_InitializeCommand = rawField ''initializecommand'' ms,
            raw_SecretsCommand = rawField ''secretscommand'' ms,
            raw_OnCreateCommand = rawField ''oncreatecommand'' ms,
            raw_UpdateContentCommand = rawField ''updatecontentcommand'' ms,
            raw_PostCreateCommand = rawField ''postcreatecommand'' ms,
            raw_PostStartCommand = rawField ''poststartcommand'' ms,
            raw_PostAttachCommand = rawField ''postattachcommand'' ms,
            raw_WaitFor = waitFor, raw_ForwardPorts = rawField ''forwardports'' ms,
            raw_PortsAttributes = ports, raw_OtherPortsAttributes = other,
            raw_AppPort = rawField ''appport'' ms, raw_HostRequirements = host,
            raw_Customizations = cust\<rparr> }"

section \<open>Unknown fields\<close>

definition knownTopLevelFields :: "string list" where
  "knownTopLevelFields =
     [''name'', ''image'', ''build'', ''dockercomposefile'', ''service'', ''runservices'',
      ''workspacefolder'', ''workspacemount'', ''mounts'', ''containerenv'', ''remoteenv'',
      ''containeruser'', ''remoteuser'', ''updateremoteuseruid'', ''userenvprobe'', ''runargs'',
      ''init'', ''privileged'', ''capadd'', ''securityopt'', ''overridecommand'', ''shutdownaction'',
      ''features'', ''overridefeatureinstallorder'', ''initializecommand'', ''secretscommand'',
      ''oncreatecommand'', ''updatecontentcommand'', ''postcreatecommand'', ''poststartcommand'',
      ''postattachcommand'', ''waitfor'', ''forwardports'', ''portsattributes'',
      ''otherportsattributes'', ''appport'', ''hostrequirements'', ''customizations'']"

definition knownBuildFields :: "string list" where
  "knownBuildFields = [''dockerfile'', ''context'', ''args'', ''target'', ''cachefrom'', ''options'']"

definition knownHostRequirementsFields :: "string list" where
  "knownHostRequirementsFields = [''cpus'', ''memory'', ''storage'', ''gpu'']"

definition knownGPUFields :: "string list" where
  "knownGPUFields = [''optional'']"

definition unknownField :: "string \<Rightarrow> string \<Rightarrow> warning" where
  "unknownField pathPrefix k =
     fieldWarning (''unknown field '' @ goQuote k @ ''; ignored'') (pathPrefix @ ''/'' @ k)"

definition unknownKeyWarnings :: "string gomap \<Rightarrow> string list \<Rightarrow> string \<Rightarrow> warning list" where
  "unknownKeyWarnings obj known pathPrefix =
     map (unknownField pathPrefix) (filter (\<lambda>k. toLower k \<notin> set known) (sortedKeys obj))"

definition getRawCI :: "string gomap \<Rightarrow> string \<Rightarrow> string option" where
  "getRawCI m key = map_option snd (find (\<lambda>(k, v). toLower k = toLower key) m)"

text \<open>A member that is an object, as a map; \<^verbatim>\<open>null\<close> is the empty one.\<close>

definition nestedObject :: "string gomap \<Rightarrow> string \<Rightarrow> string gomap option" where
  "nestedObject m key =
     (case getRawCI m key of
        None \<Rightarrow> None
      | Some b \<Rightarrow> if b = [] then None else map_option (mputall []) (rawMembers b))"

definition nestedWarnings :: "string gomap \<Rightarrow> string \<Rightarrow> string list \<Rightarrow> string \<Rightarrow> warning list" where
  "nestedWarnings m key known path =
     (case nestedObject m key of None \<Rightarrow> [] | Some nested \<Rightarrow> unknownKeyWarnings nested known path)"

definition parseWarnings :: "string gomap \<Rightarrow> warning list" where
  "parseWarnings topLevel =
     unknownKeyWarnings topLevel knownTopLevelFields []
     @ nestedWarnings topLevel ''build'' knownBuildFields ''/build''
     @ (case nestedObject topLevel ''hostRequirements'' of
          None \<Rightarrow> []
        | Some nested \<Rightarrow>
            unknownKeyWarnings nested knownHostRequirementsFields ''/hostRequirements''
            @ nestedWarnings nested ''gpu'' knownGPUFields ''/hostRequirements/gpu'')"

definition parseRaw ::
    "(string \<Rightarrow> string) \<Rightarrow> string \<Rightarrow> string \<Rightarrow> config_error + raw_config \<times> warning list" where
  "parseRaw toJSON src path =
     (case rawMembers (toJSON src) of
        None \<Rightarrow> Inl (ConfigParseError path)
      | Some ms \<Rightarrow>
          (case decodeConfig ms of
             None \<Rightarrow> Inl (ConfigParseError path)
           | Some raw \<Rightarrow> Inr (raw, parseWarnings (mputall [] ms))))"

section \<open>The fields that are not reported are the fields that are decoded\<close>

lemma filter_toLower_sortedKeys:
  "wf_map m \<Longrightarrow> set (filter (\<lambda>k. toLower k \<notin> set known) (sortedKeys m)) =
     {k \<in> fst ` set m. toLower k \<notin> set known}"
  by (auto simp: sortedKeys_def)

lemma unknownKeyWarnings_paths:
  "wf_map m \<Longrightarrow> w_Path ` set (unknownKeyWarnings m known p) =
     (\<lambda>k. p @ ''/'' @ k) ` {k \<in> fst ` set m. toLower k \<notin> set known}"
  unfolding unknownKeyWarnings_def set_map filter_toLower_sortedKeys [symmetric] image_image
  by (simp add: unknownField_def fieldWarning_def)

text \<open>A member with an unknown name has no influence on the decoded document.\<close>

lemma fieldVals_unknown:
  "toLower k \<noteq> f \<Longrightarrow> fieldVals f (a @ (k, t) # b) = fieldVals f (a @ b)"
  by (simp add: fieldVals_def)

lemma decodeConfig_ignores_unknown:
  assumes "toLower k \<notin> set knownTopLevelFields"
  shows "decodeConfig (a @ (k, t) # b) = decodeConfig (a @ b)"
proof -
  have *: "fieldVals f (a @ (k, t) # b) = fieldVals f (a @ b)" if "f \<in> set knownTopLevelFields" for f
    using assms that by (intro fieldVals_unknown) blast
  show ?thesis
    unfolding decodeConfig_def stringField_def boolPtrField_def stringsField_def stringMapField_def
      rawMapField_def rawField_def objectField_def objectMapField_def
    by (simp only: * knownTopLevelFields_def list.set insert_iff simp_thms)
qed

end
