(* ===== verification/Config_Resolve.thy ===== *)
theory Config_Resolve
  imports Config_Parse Merge_Metadata
begin

text \<open>
  From the raw document to the resolved configuration (\<^verbatim>\<open>config/resolve.go\<close>, \<^verbatim>\<open>config/env.go\<close>,
  \<^verbatim>\<open>config/devcontainer_id.go\<close>): the source, the polymorphic fields, the host substitution and the
  features. A step that only collects warnings returns them beside its value.
\<close>

section \<open>Identifiers and inputs\<close>

text \<open>\<^verbatim>\<open>base32.StdEncoding\<close> without padding, lower-cased, of the first ten bytes of the hash.\<close>

definition base32Digit :: "nat \<Rightarrow> char" where
  "base32Digit n = ''abcdefghijklmnopqrstuvwxyz234567'' ! n"

fun base32Groups :: "nat \<Rightarrow> nat \<Rightarrow> string" where
  "base32Groups 0 n = []"
| "base32Groups (Suc k) n = base32Groups k (n div 32) @ [base32Digit (n mod 32)]"

definition bytesNat :: "string \<Rightarrow> nat" where
  "bytesNat bs = foldl (\<lambda>acc b. acc * 256 + of_char b) 0 bs"

definition DevcontainerID :: "(string \<Rightarrow> string) \<Rightarrow> string \<Rightarrow> string \<Rightarrow> string" where
  "DevcontainerID sha256 localWorkspaceFolder configPath =
     base32Groups 16 (bytesNat (take 10 (sha256 (localWorkspaceFolder @ [CHR 0x00] @ configPath))))"

record resolve_input =
  ri_LocalWorkspaceFolder :: string
  ri_ConfigPath :: string
  ri_DevcontainerID :: string
  ri_LocalEnv :: "string gomap"

definition addSource :: "warning list \<Rightarrow> string \<Rightarrow> warning list" where
  "addSource ws src = map (\<lambda>w. w\<lparr>w_Source := src\<rparr>) ws"

definition taggedWarnings :: "warning list \<Rightarrow> string \<Rightarrow> string \<Rightarrow> warning list" where
  "taggedWarnings ws src path = map (\<lambda>w. w\<lparr>w_Source := src, w_Path := path\<rparr>) ws"

definition WarnDeprecatedKey :: string where
  "WarnDeprecatedKey = ''deprecated_key''"

definition WarnComposePortsIgnored :: string where
  "WarnComposePortsIgnored = ''compose_ports_ignored''"

section \<open>The source\<close>

definition absFrom :: "string \<Rightarrow> string \<Rightarrow> string" where
  "absFrom dir f = (if isAbsPath f then f else pathJoin [dir, f])"

definition buildSourceOf :: "raw_build \<Rightarrow> string \<Rightarrow> build_source" where
  "buildSourceOf b configDir =
     (let ctxPath = (if rb_Context b = [] then ''.'' else rb_Context b) in
      \<lparr>bs_Dockerfile = rb_Dockerfile b, bs_Context = absFrom configDir ctxPath, bs_Args = rb_Args b,
       bs_Target = rb_Target b,
       bs_CacheFrom = (case decodeStringOrStringArray (rb_CacheFrom b) of None \<Rightarrow> [] | Some c \<Rightarrow> c),
       bs_Options = []\<rparr>)"

definition determineSource :: "raw_config \<Rightarrow> string \<Rightarrow> invalid_reason + source" where
  "determineSource raw configDir =
     (let hasImage = raw_Image raw \<noteq> [];
          hasBuild = raw_Build raw \<noteq> None;
          hasCompose = raw_DockerComposeFile raw \<noteq> [];
          count = length (filter id [hasImage, hasBuild, hasCompose])
      in if count \<noteq> 1 then Inl ExactlyOneSource
         else if hasImage then Inr (ImageSource (raw_Image raw))
         else case raw_Build raw of
                Some b \<Rightarrow> Inr (BuildSource (buildSourceOf b configDir))
              | None \<Rightarrow>
                  (case decodeStringOrStringArray (raw_DockerComposeFile raw) of
                     None \<Rightarrow> Inl (InvalidField ''dockerComposeFile'')
                   | Some files \<Rightarrow>
                       Inr (ComposeSource \<lparr>cs_Files = map (absFrom configDir) files,
                         cs_Service = raw_Service raw, cs_RunServices = raw_RunServices raw\<rparr>)))"

section \<open>Lifecycle commands and attributes\<close>

definition hookOf :: "string \<Rightarrow> string \<Rightarrow> invalid_reason + lifecycle_command list" where
  "hookOf path data =
     (case decodeLifecycleCommand data of
        None \<Rightarrow> Inl (InvalidField path)
      | Some cmd \<Rightarrow> Inr (if lifecycleCommand_IsEmpty cmd then [] else [cmd]))"

definition andThenE :: "'e + 'a \<Rightarrow> ('a \<Rightarrow> 'e + 'b) \<Rightarrow> 'e + 'b" where
  "andThenE m f = (case m of Inl e \<Rightarrow> Inl e | Inr x \<Rightarrow> f x)"

definition decodeLifecycleCommands :: "raw_config \<Rightarrow> invalid_reason + lifecycle_commands" where
  "decodeLifecycleCommands raw =
     andThenE (hookOf ''/initializeCommand'' (raw_InitializeCommand raw)) (\<lambda>ini.
     andThenE (hookOf ''/onCreateCommand'' (raw_OnCreateCommand raw)) (\<lambda>onCreate.
     andThenE (hookOf ''/updateContentCommand'' (raw_UpdateContentCommand raw)) (\<lambda>update.
     andThenE (hookOf ''/postCreateCommand'' (raw_PostCreateCommand raw)) (\<lambda>postCreate.
     andThenE (hookOf ''/postStartCommand'' (raw_PostStartCommand raw)) (\<lambda>postStart.
     andThenE (hookOf ''/postAttachCommand'' (raw_PostAttachCommand raw)) (\<lambda>postAttach.
     Inr \<lparr>lcs_Initialize = ini, lcs_OnCreate = onCreate, lcs_UpdateContent = update,
       lcs_PostCreate = postCreate, lcs_PostStart = postStart, lcs_PostAttach = postAttach\<rparr>))))))"

definition convertPortAttributes :: "raw_port_attrs \<Rightarrow> port_attributes" where
  "convertPortAttributes r =
     \<lparr>pa_Label = rp_Label r, pa_Protocol = rp_Protocol r, pa_OnAutoForward = rp_OnAutoForward r,
      pa_ElevateIfNeeded = BoolOr (rp_ElevateIfNeeded r) False,
      pa_RequireLocalPort = BoolOr (rp_RequireLocalPort r) False\<rparr>"

definition convertPortsAttributes :: "raw_port_attrs gomap \<Rightarrow> port_attributes gomap" where
  "convertPortsAttributes m = map (\<lambda>(k, v). (k, convertPortAttributes v)) m"

definition convertHostRequirements :: "raw_host_requirements \<Rightarrow> host_requirements" where
  "convertHostRequirements r =
     \<lparr>hr_CPUs = rhr_CPUs r, hr_Memory = rhr_Memory r, hr_Storage = rhr_Storage r, hr_GPU = None\<rparr>"

section \<open>Ports\<close>

text \<open>The entries of \<^verbatim>\<open>appPort\<close> whose container port is not declared yet, in order.\<close>

fun foldAppPorts :: "port_spec list \<Rightarrow> port_spec list \<Rightarrow> port_spec list" where
  "foldAppPorts declared [] = []"
| "foldAppPorts declared (p # ps) =
     (if ps_Container p \<in> ps_Container ` set declared then foldAppPorts declared ps
      else p # foldAppPorts (p # declared) ps)"

definition deprecatedAppPort :: "nat \<Rightarrow> string \<Rightarrow> warning" where
  "deprecatedAppPort added src =
     \<lparr>w_Code = WarnDeprecatedKey,
      w_Message = ''appPort is deprecated; use forwardPorts'' @
        (if added = 0 then []
         else '' (translated '' @ itoaNat added @ '' entr'' @ (if added = 1 then ''y'' else ''ies'')
              @ '' into forwardPorts)''),
      w_Path = ''/appPort'', w_Source = src\<rparr>"

definition composePortsIgnored :: "string \<Rightarrow> warning" where
  "composePortsIgnored src =
     \<lparr>w_Code = WarnComposePortsIgnored,
      w_Message = ''forwardPorts is informational on compose source; declare ports in your compose file'' @ [CHR 0x27]
        @ ''s ports: directive'',
      w_Path = ''/forwardPorts'', w_Source = src\<rparr>"

definition isCompose :: "source \<Rightarrow> bool" where
  "isCompose s = (case s of ComposeSource _ \<Rightarrow> True | _ \<Rightarrow> False)"

text \<open>The ports of the configuration and the warnings of this stage.\<close>

definition resolvePorts :: "raw_config \<Rightarrow> source \<Rightarrow> string \<Rightarrow> invalid_reason + port_spec list \<times> warning list" where
  "resolvePorts raw src path =
     (case decodeForwardPorts (raw_ForwardPorts raw) of
        None \<Rightarrow> Inl (InvalidField ''/forwardPorts'')
      | Some (ports, ws) \<Rightarrow>
          andThenE
            (if raw_AppPort raw = [] then Inr (ports, addSource ws path)
             else case decodeAppPort (raw_AppPort raw) of
                    None \<Rightarrow> Inl (InvalidField ''/appPort'')
                  | Some (appPorts, appWarns) \<Rightarrow>
                      let added = foldAppPorts ports appPorts in
                      Inr (ports @ added,
                           addSource ws path @ addSource appWarns path @ [deprecatedAppPort (length added) path]))
            (\<lambda>(all, ws').
               Inr (all, ws' @ (if isCompose src \<and> all \<noteq> [] then [composePortsIgnored path] else []))))"

section \<open>Substitution\<close>

type_synonym 'a warned = "'a \<times> warning list"

definition subStr :: "substitution_context \<Rightarrow> string \<Rightarrow> string \<Rightarrow> string \<Rightarrow> string warned" where
  "subStr ctx source path s = (let (v, ws) = ResolveString s ctx in (v, taggedWarnings ws source path))"

fun subItems :: "(string \<Rightarrow> string \<Rightarrow> string warned) \<Rightarrow> string \<Rightarrow> nat \<Rightarrow> string list \<Rightarrow> string list warned" where
  "subItems sub pfx i [] = ([], [])"
| "subItems sub pfx i (x # xs) =
     (let (v, w) = sub (pfx @ ''/'' @ itoaNat i) x; (vs, ws) = subItems sub pfx (Suc i) xs
      in (v # vs, w @ ws))"

definition subSlice :: "(string \<Rightarrow> string \<Rightarrow> string warned) \<Rightarrow> string \<Rightarrow> string list \<Rightarrow> string list warned" where
  "subSlice sub pfx xs = subItems sub pfx 0 xs"

fun subMap :: "(string \<Rightarrow> string \<Rightarrow> string warned) \<Rightarrow> string \<Rightarrow> string gomap \<Rightarrow> string gomap warned" where
  "subMap sub pfx [] = ([], [])"
| "subMap sub pfx ((k, v) # m) =
     (let (x, w) = sub (pfx @ ''/'' @ k) v; (ms, ws) = subMap sub pfx m in ((k, x) # ms, w @ ws))"

definition subCommand :: "(string \<Rightarrow> string \<Rightarrow> string warned) \<Rightarrow> string \<Rightarrow> command \<Rightarrow> command warned" where
  "subCommand sub path c =
     (let (sh, w1) = (if cm_Shell c = [] then ([], []) else sub path (cm_Shell c));
          (ex, w2) = subSlice sub path (cm_Exec c)
      in (\<lparr>cm_Shell = sh, cm_Exec = ex\<rparr>, w1 @ w2))"

fun subParallel :: "(string \<Rightarrow> string \<Rightarrow> string warned) \<Rightarrow> string \<Rightarrow> command gomap \<Rightarrow> command gomap warned" where
  "subParallel sub path [] = ([], [])"
| "subParallel sub path ((name, c) # m) =
     (let (c', w) = subCommand sub (path @ ''/'' @ name) c; (ms, ws) = subParallel sub path m
      in ((name, c') # ms, w @ ws))"

definition subLifecycleCommand ::
    "(string \<Rightarrow> string \<Rightarrow> string warned) \<Rightarrow> string \<Rightarrow> lifecycle_command \<Rightarrow> lifecycle_command warned" where
  "subLifecycleCommand sub path l =
     (let (s, w1) = (case lc_Single l of
                       None \<Rightarrow> (None, [])
                     | Some c \<Rightarrow> let (c', w) = subCommand sub path c in (Some c', w));
          (p, w2) = subParallel sub path (lc_Parallel l)
      in (\<lparr>lc_Single = s, lc_Parallel = p\<rparr>, w1 @ w2))"

fun subHooks ::
    "(string \<Rightarrow> string \<Rightarrow> string warned) \<Rightarrow> string \<Rightarrow> lifecycle_command list \<Rightarrow> lifecycle_command list warned" where
  "subHooks sub path [] = ([], [])"
| "subHooks sub path (l # ls) =
     (let (l', w) = subLifecycleCommand sub path l; (ls', ws) = subHooks sub path ls in (l' # ls', w @ ws))"

definition substituteLifecycle ::
    "(string \<Rightarrow> string \<Rightarrow> string warned) \<Rightarrow> lifecycle_commands \<Rightarrow> lifecycle_commands warned" where
  "substituteLifecycle sub lc =
     (let (ini, w1) = subHooks sub ''/initializeCommand'' (lcs_Initialize lc);
          (onCreate, w2) = subHooks sub ''/onCreateCommand'' (lcs_OnCreate lc);
          (update, w3) = subHooks sub ''/updateContentCommand'' (lcs_UpdateContent lc);
          (postCreate, w4) = subHooks sub ''/postCreateCommand'' (lcs_PostCreate lc);
          (postStart, w5) = subHooks sub ''/postStartCommand'' (lcs_PostStart lc);
          (postAttach, w6) = subHooks sub ''/postAttachCommand'' (lcs_PostAttach lc)
      in (\<lparr>lcs_Initialize = ini, lcs_OnCreate = onCreate, lcs_UpdateContent = update,
           lcs_PostCreate = postCreate, lcs_PostStart = postStart, lcs_PostAttach = postAttach\<rparr>,
          w1 @ w2 @ w3 @ w4 @ w5 @ w6))"

definition subMount :: "(string \<Rightarrow> string \<Rightarrow> string warned) \<Rightarrow> string \<Rightarrow> mount \<Rightarrow> mount warned" where
  "subMount sub pfx m =
     (let (s, w1) = sub (pfx @ ''/source'') (m_Source m); (t, w2) = sub (pfx @ ''/target'') (m_Target m)
      in (m\<lparr>m_Source := s, m_Target := t\<rparr>, w1 @ w2))"

fun subMounts :: "(string \<Rightarrow> string \<Rightarrow> string warned) \<Rightarrow> nat \<Rightarrow> mount list \<Rightarrow> mount list warned" where
  "subMounts sub i [] = ([], [])"
| "subMounts sub i (m # ms) =
     (let (m', w) = subMount sub (''/mounts/'' @ itoaNat i) m; (ms', ws) = subMounts sub (Suc i) ms
      in (m' # ms', w @ ws))"

definition substituteSource :: "(string \<Rightarrow> string \<Rightarrow> string warned) \<Rightarrow> source \<Rightarrow> source warned" where
  "substituteSource sub src =
     (case src of
        ImageSource i \<Rightarrow> (let (v, w) = sub ''/image'' i in (ImageSource v, w))
      | BuildSource b \<Rightarrow>
          (let (d, w1) = sub ''/build/dockerfile'' (bs_Dockerfile b);
               (c, w2) = sub ''/build/context'' (bs_Context b);
               (t, w3) = sub ''/build/target'' (bs_Target b);
               (a, w4) = subMap sub ''/build/args'' (bs_Args b);
               (f, w5) = subSlice sub ''/build/cacheFrom'' (bs_CacheFrom b)
           in (BuildSource (b\<lparr>bs_Dockerfile := d, bs_Context := c, bs_Target := t, bs_Args := a, bs_CacheFrom := f\<rparr>),
               w1 @ w2 @ w3 @ w4 @ w5))
      | ComposeSource s \<Rightarrow>
          (let (f, w1) = subSlice sub ''/dockerComposeFile'' (cs_Files s);
               (sv, w2) = sub ''/service'' (cs_Service s);
               (r, w3) = subSlice sub ''/runServices'' (cs_RunServices s)
           in (ComposeSource \<lparr>cs_Files = f, cs_Service = sv, cs_RunServices = r\<rparr>, w1 @ w2 @ w3)))"

text \<open>
  \<^verbatim>\<open>substituteAll\<close> in the order of the source: the scalar fields and environments, the lists, the
  mounts, the commands, the source.
\<close>

definition substituteScalars :: "(string \<Rightarrow> string \<Rightarrow> string warned) \<Rightarrow> resolved_config \<Rightarrow> resolved_config warned" where
  "substituteScalars sub c =
     (let (n, w1) = sub ''/name'' (cfg_Name c);
          (cu, w2) = sub ''/containerUser'' (cfg_ContainerUser c);
          (ru, w3) = sub ''/remoteUser'' (cfg_RemoteUser c);
          (ce, w4) = subMap sub ''/containerEnv'' (cfg_ContainerEnv c);
          (re, w5) = subMap sub ''/remoteEnv'' (cfg_RemoteEnv c)
      in (c\<lparr>cfg_Name := n, cfg_ContainerUser := cu, cfg_RemoteUser := ru, cfg_ContainerEnv := ce,
           cfg_RemoteEnv := re\<rparr>, w1 @ w2 @ w3 @ w4 @ w5))"

definition substituteLists :: "(string \<Rightarrow> string \<Rightarrow> string warned) \<Rightarrow> resolved_config \<Rightarrow> resolved_config warned" where
  "substituteLists sub c =
     (let (ra, w1) = subSlice sub ''/runArgs'' (cfg_RunArgs c);
          (ca, w2) = subSlice sub ''/capAdd'' (cfg_CapAdd c);
          (so, w3) = subSlice sub ''/securityOpt'' (cfg_SecurityOpt c)
      in (c\<lparr>cfg_RunArgs := ra, cfg_CapAdd := ca, cfg_SecurityOpt := so\<rparr>, w1 @ w2 @ w3))"

definition substituteMounts :: "(string \<Rightarrow> string \<Rightarrow> string warned) \<Rightarrow> resolved_config \<Rightarrow> resolved_config warned" where
  "substituteMounts sub c =
     (let (ms, w1) = subMounts sub 0 (cfg_Mounts c);
          (wm, w2) = (case cfg_WorkspaceMount c of
                        None \<Rightarrow> (None, [])
                      | Some m \<Rightarrow> let (m', w) = subMount sub ''/workspaceMount'' m in (Some m', w))
      in (c\<lparr>cfg_Mounts := ms, cfg_WorkspaceMount := wm\<rparr>, w1 @ w2))"

definition substituteCommands :: "(string \<Rightarrow> string \<Rightarrow> string warned) \<Rightarrow> resolved_config \<Rightarrow> resolved_config warned" where
  "substituteCommands sub c =
     (let (lc, w1) = substituteLifecycle sub (cfg_Lifecycle c);
          (sc, w2) = subLifecycleCommand sub ''/secretsCommand'' (cfg_SecretsCommand c);
          (src, w3) = (case cfg_Source c of
                         None \<Rightarrow> (None, [])
                       | Some s \<Rightarrow> let (s', w) = substituteSource sub s in (Some s', w))
      in (c\<lparr>cfg_Lifecycle := lc, cfg_SecretsCommand := sc, cfg_Source := src\<rparr>, w1 @ w2 @ w3))"

definition substituteAll :: "resolved_config \<Rightarrow> substitution_context \<Rightarrow> string \<Rightarrow> resolved_config" where
  "substituteAll c ctx source =
     (let sub = subStr ctx source;
          (c1, w1) = substituteScalars sub c;
          (c2, w2) = substituteLists sub c1;
          (c3, w3) = substituteMounts sub c2;
          (c4, w4) = substituteCommands sub c3
      in c4\<lparr>cfg_Warnings := cfg_Warnings c @ w1 @ w2 @ w3 @ w4\<rparr>)"

section \<open>Features\<close>

definition FeatureSourceOCI :: string where "FeatureSourceOCI = ''oci''"
definition FeatureSourceHTTPS :: string where "FeatureSourceHTTPS = ''https''"
definition FeatureSourceLocal :: string where "FeatureSourceLocal = ''local''"

definition ClassifyFeatureRef :: "string \<Rightarrow> string" where
  "ClassifyFeatureRef ref =
     (if hasPrefix ref ''./'' \<or> hasPrefix ref ''../'' \<or> hasPrefix ref ''/'' then FeatureSourceLocal
      else if hasPrefix ref ''https://'' \<or> hasPrefix ref ''http://'' then FeatureSourceHTTPS
      else FeatureSourceOCI)"

definition stripDigest :: "string \<Rightarrow> string" where
  "stripDigest ref = (case cutLast (CHR ''@'') ref of None \<Rightarrow> ref | Some (a, d) \<Rightarrow> a)"

definition featureID :: "string \<Rightarrow> string" where
  "featureID ref0 =
     (let ref = stripDigest ref0 in
      case cutLast (CHR '':'') ref of
        None \<Rightarrow> ref
      | Some (a, tag) \<Rightarrow> if \<not> containsSub a ''://'' \<or> CHR ''/'' \<in> set tag then a else ref)"

definition featureIDMatch :: "string \<Rightarrow> string \<Rightarrow> bool" where
  "featureIDMatch ref override \<longleftrightarrow> featureID ref = featureID override"

definition badFeatureValue :: "string \<Rightarrow> string \<Rightarrow> warning" where
  "badFeatureValue ref source =
     \<lparr>w_Code = WarnUnknownField,
      w_Message = ''features['' @ goQuote ref @ '']: value must be an object, string, or null'',
      w_Path = ''/features/'' @ ref, w_Source = source\<rparr>"

definition parseFeatureOptions :: "string \<Rightarrow> string \<Rightarrow> string \<Rightarrow> json gomap option \<times> warning list" where
  "parseFeatureOptions raw ref source =
     (case (if raw = [] then Some JNull else jsonParse raw) of
        Some JNull \<Rightarrow> (None, [])
      | Some (JObj ms) \<Rightarrow> (setMap (\<lambda>x. Some (toAny x)) [] (JObj ms), [])
      | Some (JStr s) \<Rightarrow> (Some [(''version'', JStr s)], [])
      | _ \<Rightarrow> (None, [badFeatureValue ref source]))"

definition partialFeature :: "string \<Rightarrow> json gomap option \<Rightarrow> resolved_feature" where
  "partialFeature ref opts =
     \<lparr>rf_Ref = ref, rf_ResolvedRef = [], rf_Dir = [], rf_Metadata = emptyMetadata, rf_Options = opts,
      rf_SourceKind = ClassifyFeatureRef ref, rf_AlreadyInstalled = False\<rparr>"

text \<open>The loop over the override order: \<open>free\<close> are the features not taken yet.\<close>

fun installOrder :: "string list \<Rightarrow> resolved_feature list \<Rightarrow> resolved_feature list" where
  "installOrder [] free = free"
| "installOrder (ord # ords) free =
     filter (\<lambda>f. featureIDMatch (rf_Ref f) ord) free
     @ installOrder ords (filter (\<lambda>f. \<not> featureIDMatch (rf_Ref f) ord) free)"

definition buildPartialFeatures ::
    "string gomap \<Rightarrow> string list \<Rightarrow> string \<Rightarrow> resolved_feature list \<times> warning list" where
  "buildPartialFeatures rawFeatures overrideOrder source =
     (let feats = map (\<lambda>(ref, raw). partialFeature ref (fst (parseFeatureOptions raw ref source))) rawFeatures;
          warnings = concat (map (\<lambda>(ref, raw). snd (parseFeatureOptions raw ref source)) rawFeatures)
      in (installOrder overrideOrder (sort_key rf_Ref feats), warnings))"

section \<open>The whole document\<close>

definition baseConfig :: "raw_config \<Rightarrow> resolve_input \<Rightarrow> source \<Rightarrow> resolved_config" where
  "baseConfig raw input src = emptyConfig\<lparr>
     cfg_DevcontainerID := ri_DevcontainerID input, cfg_Name := raw_Name raw,
     cfg_LocalWorkspaceFolder := ri_LocalWorkspaceFolder input,
     cfg_ContainerUser := raw_ContainerUser raw, cfg_RemoteUser := raw_RemoteUser raw,
     cfg_ContainerEnv := raw_ContainerEnv raw, cfg_RemoteEnv := raw_RemoteEnv raw,
     cfg_RunArgs := raw_RunArgs raw, cfg_CapAdd := raw_CapAdd raw, cfg_SecurityOpt := raw_SecurityOpt raw,
     cfg_Customizations := raw_Customizations raw, cfg_Source := Some src,
     cfg_UpdateRemoteUserUID := raw_UpdateRemoteUserUID raw, cfg_Init := raw_Init raw,
     cfg_Privileged := raw_Privileged raw, cfg_OverrideCommand := raw_OverrideCommand raw,
     cfg_UserEnvProbe := raw_UserEnvProbe raw, cfg_ShutdownAction := raw_ShutdownAction raw,
     cfg_PortsAttributes := convertPortsAttributes (raw_PortsAttributes raw),
     cfg_OtherPortsAttributes := map_option convertPortAttributes (raw_OtherPortsAttributes raw),
     cfg_HostRequirements := map_option convertHostRequirements (raw_HostRequirements raw),
     cfg_WaitFor := raw_WaitFor raw\<rparr>"

text \<open>The fields that can be refused, in the order they are decoded.\<close>

definition decodeFields :: "raw_config \<Rightarrow> resolve_input \<Rightarrow> invalid_reason + resolved_config" where
  "decodeFields raw input =
     (let path = ri_ConfigPath input in
      andThenE (determineSource raw (pathDir path)) (\<lambda>src.
      case decodeWorkspaceMount (raw_WorkspaceMount raw) of None \<Rightarrow> Inl (InvalidField ''/workspaceMount'')
      | Some wsMount \<Rightarrow>
      (case decodeMounts (raw_Mounts raw) of None \<Rightarrow> Inl (InvalidField ''/mounts'')
      | Some (mounts, mountWarns) \<Rightarrow>
      andThenE (resolvePorts raw src path) (\<lambda>(ports, portWarns).
      andThenE (decodeLifecycleCommands raw) (\<lambda>lifecycle.
      (case decodeLifecycleCommand (raw_SecretsCommand raw) of None \<Rightarrow> Inl (InvalidField ''/secretsCommand'')
      | Some secretsCmd \<Rightarrow>
      Inr ((baseConfig raw input src)\<lparr>cfg_WorkspaceMount := wsMount, cfg_Mounts := mounts,
        cfg_ForwardPorts := ports, cfg_Lifecycle := lifecycle, cfg_SecretsCommand := secretsCmd,
        cfg_Warnings := addSource mountWarns path @ portWarns\<rparr>)))))))"

definition folderContext :: "resolve_input \<Rightarrow> substitution_context" where
  "folderContext input =
     \<lparr>sc_LocalWorkspaceFolder = ri_LocalWorkspaceFolder input, sc_ContainerWorkspaceFolder = [],
      sc_DevcontainerID = ri_DevcontainerID input, sc_LocalEnv = ri_LocalEnv input, sc_ContainerEnv = None\<rparr>"

definition workspaceFolderOf :: "raw_config \<Rightarrow> resolve_input \<Rightarrow> string" where
  "workspaceFolderOf raw input =
     (if raw_WorkspaceFolder raw = [] then ''/workspaces/'' @ pathBase (ri_LocalWorkspaceFolder input)
      else raw_WorkspaceFolder raw)"

definition substituteConfig :: "raw_config \<Rightarrow> resolve_input \<Rightarrow> resolved_config \<Rightarrow> resolved_config" where
  "substituteConfig raw input c =
     (let (folder, ws) = ResolveString (workspaceFolderOf raw input) (folderContext input) in
      substituteAll (c\<lparr>cfg_ContainerWorkspaceFolder := folder,
          cfg_Warnings := cfg_Warnings c @ taggedWarnings ws (ri_ConfigPath input) ''/workspaceFolder''\<rparr>)
        ((folderContext input)\<lparr>sc_ContainerWorkspaceFolder := folder\<rparr>) (ri_ConfigPath input))"

definition withFeatures :: "raw_config \<Rightarrow> resolve_input \<Rightarrow> resolved_config \<Rightarrow> resolved_config" where
  "withFeatures raw input c =
     (let (feats, ws) =
        buildPartialFeatures (raw_Features raw) (raw_OverrideFeatureInstallOrder raw) (ri_ConfigPath input)
      in c\<lparr>cfg_Features := feats, cfg_Warnings := cfg_Warnings c @ ws\<rparr>)"

definition resolveFromRaw :: "raw_config \<Rightarrow> resolve_input \<Rightarrow> config_error + resolved_config" where
  "resolveFromRaw raw input =
     (case decodeFields raw input of
        Inl e \<Rightarrow> Inl (ConfigInvalidError (ri_ConfigPath input) e)
      | Inr c \<Rightarrow> Inr (withFeatures raw input (substituteConfig raw input c)))"

definition ResolveBytes :: "(string \<Rightarrow> string) \<Rightarrow> string \<Rightarrow> resolve_input \<Rightarrow> config_error + resolved_config" where
  "ResolveBytes toJSON src input =
     andThenE (parseRaw toJSON src (ri_ConfigPath input)) (\<lambda>(raw, parseWarns).
     andThenE (resolveFromRaw raw input) (\<lambda>cfg.
     Inr (cfg\<lparr>cfg_Warnings := addSource parseWarns (ri_ConfigPath input) @ cfg_Warnings cfg\<rparr>)))"

section \<open>The order of the features\<close>

text \<open>The position of the first override entry that names the feature.\<close>

definition installRank :: "string list \<Rightarrow> resolved_feature \<Rightarrow> nat" where
  "installRank ords f = length (takeWhile (\<lambda>ord. \<not> featureIDMatch (rf_Ref f) ord) ords)"

lemma installRank_Cons:
  "installRank (ord # ords) f = (if featureIDMatch (rf_Ref f) ord then 0 else Suc (installRank ords f))"
  by (simp add: installRank_def)

lemma installOrder_rank_filter:
  "filter (\<lambda>f. installRank ords f = k) (installOrder ords fs) = filter (\<lambda>f. installRank ords f = k) fs"
proof (induction ords fs arbitrary: k rule: installOrder.induct)
  case (1 free)
  then show ?case by simp
next
  case (2 ord ords free)
  show ?case
  proof (cases k)
    case 0
    have "filter (\<lambda>f. featureIDMatch (rf_Ref f) ord)
        (installOrder ords (filter (\<lambda>f. \<not> featureIDMatch (rf_Ref f) ord) free)) = []"
    proof (rule filter_False, intro ballI)
      fix f assume "f \<in> set (installOrder ords (filter (\<lambda>f. \<not> featureIDMatch (rf_Ref f) ord) free))"
      then have "f \<in> set (filter (\<lambda>g. installRank ords g = installRank ords f)
          (installOrder ords (filter (\<lambda>f. \<not> featureIDMatch (rf_Ref f) ord) free)))" by simp
      then show "\<not> featureIDMatch (rf_Ref f) ord" unfolding 2 by simp
    qed
    with 0 show ?thesis by (simp add: installRank_Cons cong: conj_cong)
  next
    case (Suc j)
    let ?left = "filter (\<lambda>f. \<not> featureIDMatch (rf_Ref f) ord) free"
    have "filter (\<lambda>f. installRank (ord # ords) f = k) (installOrder ords ?left) =
        filter (\<lambda>f. \<not> featureIDMatch (rf_Ref f) ord) (filter (\<lambda>f. installRank ords f = j) (installOrder ords ?left))"
      using Suc by (auto simp: installRank_Cons intro!: filter_cong)
    also have "\<dots> = filter (\<lambda>f. installRank (ord # ords) f = k) free"
      unfolding 2 using Suc by (auto simp: installRank_Cons intro!: filter_cong)
    finally show ?thesis using Suc by (simp add: installRank_Cons cong: conj_cong)
  qed
qed

lemma mset_installOrder: "mset (installOrder ords fs) = mset fs"
proof (induction ords fs rule: installOrder.induct)
  case (2 ord ords free)
  then show ?case by (simp add: multiset_partition [symmetric])
qed simp

lemma installOrder_sorted: "sorted (map (installRank ords) (installOrder ords fs))"
proof (induction ords fs rule: installOrder.induct)
  case (1 free)
  then show ?case by (auto simp: installRank_def map_replicate_const)
next
  case (2 ord ords free)
  let ?left = "filter (\<lambda>f. \<not> featureIDMatch (rf_Ref f) ord) free"
  have "set (installOrder ords ?left) = set ?left" by (metis mset_installOrder set_mset_mset)
  then have "map (installRank (ord # ords)) (installOrder ords ?left) =
      map Suc (map (installRank ords) (installOrder ords ?left))"
    by (auto simp: installRank_Cons)
  moreover have "sorted (map Suc (map (installRank ords) (installOrder ords ?left)))"
    using 2 by (simp add: sorted_map sorted_wrt_map)
  ultimately have "sorted (map (installRank (ord # ords)) (installOrder ords ?left))" by (simp only:)
  moreover have "map (installRank (ord # ords)) (filter (\<lambda>f. featureIDMatch (rf_Ref f) ord) free) =
      map (\<lambda>f. 0) (filter (\<lambda>f. featureIDMatch (rf_Ref f) ord) free)"
    by (auto simp: installRank_Cons)
  ultimately show ?case
    unfolding installOrder.simps map_append sorted_append by (auto simp: map_replicate_const)
qed

text \<open>The features are sorted by rank and, within a rank, stay in their order.\<close>

lemma installOrder_rank_filter':
  "filter (\<lambda>f. k = installRank ords f) (installOrder ords fs) = filter (\<lambda>f. k = installRank ords f) fs"
  by (rule trans [OF _ trans [OF installOrder_rank_filter [of ords k]]]) (auto intro!: filter_cong)

lemma installOrder_sort: "installOrder ords fs = sort_key (installRank ords) fs"
  by (rule properties_for_sort_key [symmetric, OF mset_installOrder installOrder_rank_filter' installOrder_sorted])

lemma insort_key_map: "insort_key k (g x) (map g xs) = map g (insort_key (\<lambda>y. k (g y)) x xs)"
  by (induction xs) auto

lemma sort_key_map: "sort_key k (map g xs) = map g (sort_key (\<lambda>y. k (g y)) xs)"
  by (induction xs) (auto simp: insort_key_map)

definition requestedFeature :: "string gomap \<Rightarrow> string \<Rightarrow> string \<Rightarrow> resolved_feature" where
  "requestedFeature m src ref = partialFeature ref (fst (parseFeatureOptions (the (map_of m ref)) ref src))"

lemma rf_Ref_requested [simp]: "rf_Ref (requestedFeature m src ref) = ref"
  by (simp add: requestedFeature_def partialFeature_def)

lemma buildPartialFeatures_sort:
  assumes "wf_map m"
  shows "fst (buildPartialFeatures m ord src) =
    sort_key (installRank ord) (map (requestedFeature m src) (sortedKeys m))"
proof -
  have "map (\<lambda>(ref, raw). partialFeature ref (fst (parseFeatureOptions raw ref src))) m =
      map (requestedFeature m src) (map fst m)"
    using assms by (auto simp: requestedFeature_def wf_map_def)
  then show ?thesis
    by (simp only: buildPartialFeatures_def installOrder_sort sortedKeys_def Let_def fst_conv)
      (simp only: sort_key_map rf_Ref_requested)
qed

lemma sort_key_stable_wrt:
  assumes "sorted_wrt R xs"
  shows "sorted_wrt (\<lambda>x y. k x < k y \<or> k x = k y \<and> R x y) (sort_key k xs :: 'a list)"
    (is "sorted_wrt ?L (sort_key k xs)")
  using assms
proof (induction xs)
  case Nil
  then show ?case by simp
next
  case (Cons x xs)
  have ins: "sorted_wrt ?L (insort_key k x ys)" if "sorted_wrt ?L ys" "\<forall>y\<in>set ys. R x y" for ys
    using that
  proof (induction ys)
    case (Cons y ys)
    then show ?case by (fastforce simp: set_insort_key)
  qed simp
  show ?case unfolding sort_key_simps using Cons by (intro ins) auto
qed

section \<open>The substituted configuration\<close>

text \<open>What \<open>substituteAll\<close> does to the fields, without the order of the walk and its warnings.\<close>

definition mapHooks :: "(string \<Rightarrow> string) \<Rightarrow> lifecycle_command list \<Rightarrow> lifecycle_command list" where
  "mapHooks h ls = map (\<lambda>l. substituteLifecycleCommand l h) ls"

definition mapMount :: "(string \<Rightarrow> string) \<Rightarrow> mount \<Rightarrow> mount" where
  "mapMount h m = m\<lparr>m_Source := h (m_Source m), m_Target := h (m_Target m)\<rparr>"

definition mapValues :: "('a \<Rightarrow> 'b) \<Rightarrow> 'a gomap \<Rightarrow> 'b gomap" where
  "mapValues h m = map (\<lambda>(k, v). (k, h v)) m"

definition mapSource :: "(string \<Rightarrow> string) \<Rightarrow> source \<Rightarrow> source" where
  "mapSource h s =
     (case s of
        ImageSource i \<Rightarrow> ImageSource (h i)
      | BuildSource b \<Rightarrow> BuildSource (b\<lparr>bs_Dockerfile := h (bs_Dockerfile b), bs_Context := h (bs_Context b),
          bs_Target := h (bs_Target b), bs_Args := mapValues h (bs_Args b), bs_CacheFrom := map h (bs_CacheFrom b)\<rparr>)
      | ComposeSource c \<Rightarrow> ComposeSource \<lparr>cs_Files = map h (cs_Files c), cs_Service = h (cs_Service c),
          cs_RunServices = map h (cs_RunServices c)\<rparr>)"

definition mapLifecycle :: "(string \<Rightarrow> string) \<Rightarrow> lifecycle_commands \<Rightarrow> lifecycle_commands" where
  "mapLifecycle h l =
     \<lparr>lcs_Initialize = mapHooks h (lcs_Initialize l), lcs_OnCreate = mapHooks h (lcs_OnCreate l),
      lcs_UpdateContent = mapHooks h (lcs_UpdateContent l), lcs_PostCreate = mapHooks h (lcs_PostCreate l),
      lcs_PostStart = mapHooks h (lcs_PostStart l), lcs_PostAttach = mapHooks h (lcs_PostAttach l)\<rparr>"

definition mapConfig :: "(string \<Rightarrow> string) \<Rightarrow> resolved_config \<Rightarrow> resolved_config" where
  "mapConfig h c = c\<lparr>
     cfg_Name := h (cfg_Name c), cfg_ContainerUser := h (cfg_ContainerUser c),
     cfg_RemoteUser := h (cfg_RemoteUser c), cfg_ContainerEnv := mapValues h (cfg_ContainerEnv c),
     cfg_RemoteEnv := mapValues h (cfg_RemoteEnv c), cfg_RunArgs := map h (cfg_RunArgs c),
     cfg_CapAdd := map h (cfg_CapAdd c), cfg_SecurityOpt := map h (cfg_SecurityOpt c),
     cfg_Mounts := map (mapMount h) (cfg_Mounts c),
     cfg_WorkspaceMount := map_option (mapMount h) (cfg_WorkspaceMount c),
     cfg_Lifecycle := mapLifecycle h (cfg_Lifecycle c),
     cfg_SecretsCommand := substituteLifecycleCommand (cfg_SecretsCommand c) h,
     cfg_Source := map_option (mapSource h) (cfg_Source c)\<rparr>"

definition sourced :: "string \<Rightarrow> warning list \<Rightarrow> bool" where
  "sourced src ws \<longleftrightarrow> (\<forall>w\<in>set ws. w_Source w = src)"

lemma sourced_simps [simp]:
  "sourced src []" "sourced src (w # ws) \<longleftrightarrow> w_Source w = src \<and> sourced src ws"
  "sourced src (ws @ vs) \<longleftrightarrow> sourced src ws \<and> sourced src vs"
  "sourced src (addSource ws src)" "sourced src (taggedWarnings ws src p)"
  by (auto simp: sourced_def addSource_def taggedWarnings_def)

locale substituter =
  fixes sub :: "string \<Rightarrow> string \<Rightarrow> string warned" and h :: "string \<Rightarrow> string" and src :: string
  assumes image: "fst (sub p s) = h s"
    and from_source: "sourced src (snd (sub p s))"
    and blank: "h [] = []"
begin

lemma items: "fst (subItems sub p i xs) = map h xs" "sourced src (snd (subItems sub p i xs))"
  by (induction xs arbitrary: i) (simp_all add: Let_def case_prod_unfold image from_source)

lemma slice: "fst (subSlice sub p xs) = map h xs" "sourced src (snd (subSlice sub p xs))"
  by (simp_all add: subSlice_def items)

lemma entries: "fst (subMap sub p m) = mapValues h m" "sourced src (snd (subMap sub p m))"
  by (induction m) (auto simp: mapValues_def Let_def case_prod_unfold image from_source)

lemma command: "fst (subCommand sub p c) = substituteCommand h c" "sourced src (snd (subCommand sub p c))"
  by (simp_all add: subCommand_def substituteCommand_def Let_def case_prod_unfold image from_source slice blank)

lemma parallel:
  "fst (subParallel sub p m) = map (\<lambda>(k, c). (k, substituteCommand h c)) m"
  "sourced src (snd (subParallel sub p m))"
  by (induction m) (auto simp: Let_def case_prod_unfold command)

lemma lifecycleCommand:
  "fst (subLifecycleCommand sub p l) = substituteLifecycleCommand l h"
  "sourced src (snd (subLifecycleCommand sub p l))"
  by (simp_all add: subLifecycleCommand_def substituteLifecycleCommand_def Let_def case_prod_unfold
      command parallel split: option.splits)

lemma hooks: "fst (subHooks sub p ls) = mapHooks h ls" "sourced src (snd (subHooks sub p ls))"
  by (induction ls) (simp_all add: mapHooks_def Let_def case_prod_unfold lifecycleCommand)

lemma lifecycle:
  "fst (substituteLifecycle sub l) = mapLifecycle h l" "sourced src (snd (substituteLifecycle sub l))"
  by (simp_all add: substituteLifecycle_def mapLifecycle_def Let_def case_prod_unfold hooks)

lemma mount: "fst (subMount sub p m) = mapMount h m" "sourced src (snd (subMount sub p m))"
  by (simp_all add: subMount_def mapMount_def Let_def case_prod_unfold image from_source)

lemma mounts: "fst (subMounts sub i ms) = map (mapMount h) ms" "sourced src (snd (subMounts sub i ms))"
  by (induction ms arbitrary: i) (simp_all add: Let_def case_prod_unfold mount)

lemma source:
  "fst (substituteSource sub s) = mapSource h s" "sourced src (snd (substituteSource sub s))"
  by (cases s; simp add: substituteSource_def mapSource_def Let_def case_prod_unfold image from_source
      slice entries)+

text \<open>The four stages of \<open>substituteAll\<close> together.\<close>

lemma scalars:
  "fst (substituteScalars sub c) = c\<lparr>cfg_Name := h (cfg_Name c), cfg_ContainerUser := h (cfg_ContainerUser c),
     cfg_RemoteUser := h (cfg_RemoteUser c), cfg_ContainerEnv := mapValues h (cfg_ContainerEnv c),
     cfg_RemoteEnv := mapValues h (cfg_RemoteEnv c)\<rparr>"
  "sourced src (snd (substituteScalars sub c))"
  by (simp_all add: substituteScalars_def Let_def case_prod_unfold image from_source entries)

lemma lists:
  "fst (substituteLists sub c) = c\<lparr>cfg_RunArgs := map h (cfg_RunArgs c), cfg_CapAdd := map h (cfg_CapAdd c),
     cfg_SecurityOpt := map h (cfg_SecurityOpt c)\<rparr>"
  "sourced src (snd (substituteLists sub c))"
  by (simp_all add: substituteLists_def Let_def case_prod_unfold slice)

lemma allMounts:
  "fst (substituteMounts sub c) = c\<lparr>cfg_Mounts := map (mapMount h) (cfg_Mounts c),
     cfg_WorkspaceMount := map_option (mapMount h) (cfg_WorkspaceMount c)\<rparr>"
  "sourced src (snd (substituteMounts sub c))"
  by (simp_all add: substituteMounts_def Let_def case_prod_unfold mount mounts split: option.splits)

lemma commands:
  "fst (substituteCommands sub c) = c\<lparr>cfg_Lifecycle := mapLifecycle h (cfg_Lifecycle c),
     cfg_SecretsCommand := substituteLifecycleCommand (cfg_SecretsCommand c) h,
     cfg_Source := map_option (mapSource h) (cfg_Source c)\<rparr>"
  "sourced src (snd (substituteCommands sub c))"
  by (simp_all add: substituteCommands_def Let_def case_prod_unfold lifecycle lifecycleCommand source
      split: option.splits)

lemmas stages = scalars lists allMounts commands

end

interpretation hostSub: substituter "subStr ctx src" "\<lambda>s. fst (ResolveString s ctx)" src for ctx src
  by unfold_locales (simp_all add: subStr_def Let_def case_prod_unfold)

lemma substituteAll_map:
  "\<exists>ws. substituteAll c ctx src =
      (mapConfig (\<lambda>s. fst (ResolveString s ctx)) c)\<lparr>cfg_Warnings := cfg_Warnings c @ ws\<rparr> \<and> sourced src ws"
proof -
  let ?sub = "subStr ctx src"
  let ?c1 = "fst (substituteScalars ?sub c)"
  let ?c2 = "fst (substituteLists ?sub ?c1)"
  let ?c3 = "fst (substituteMounts ?sub ?c2)"
  let ?ws = "snd (substituteScalars ?sub c) @ snd (substituteLists ?sub ?c1) @ snd (substituteMounts ?sub ?c2)
    @ snd (substituteCommands ?sub ?c3)"
  have "substituteAll c ctx src = (fst (substituteCommands ?sub ?c3))\<lparr>cfg_Warnings := cfg_Warnings c @ ?ws\<rparr>"
    by (simp only: substituteAll_def Let_def case_prod_unfold)
  moreover have "sourced src ?ws" by (simp only: sourced_simps hostSub.stages simp_thms)
  ultimately show ?thesis
    by (intro exI [of _ ?ws]) (simp add: hostSub.stages(1,3,5,7) mapConfig_def)
qed

section \<open>The whole resolution\<close>

lemma wf_map_foldRawMap: "foldRawMap acc ts = Some m \<Longrightarrow> wf_map acc \<Longrightarrow> wf_map m"
  by (induction acc ts rule: foldRawMap.induct) (auto split: option.splits if_splits)

lemma wf_map_rawMapField: "rawMapField k ms = Some m \<Longrightarrow> wf_map m"
  by (auto simp: rawMapField_def intro: wf_map_foldRawMap)

lemma decodeConfig_features: "decodeConfig ms = Some raw \<Longrightarrow> wf_map (raw_Features raw)"
  by (auto simp: decodeConfig_def bind_eq_Some_conv intro: wf_map_rawMapField)

lemma parseRaw_features: "parseRaw toJSON doc path = Inr (raw, ws) \<Longrightarrow> wf_map (raw_Features raw)"
  by (auto simp: parseRaw_def split: option.splits intro: decodeConfig_features)

lemma andThenE_Inr: "andThenE m f = Inr y \<longleftrightarrow> (\<exists>x. m = Inr x \<and> f x = Inr y)"
  by (cases m) (auto simp: andThenE_def)

lemma case_option_Inr:
  "(case x of None \<Rightarrow> Inl e | Some y \<Rightarrow> f y) = Inr z \<longleftrightarrow> (\<exists>y. x = Some y \<and> f y = Inr z)"
  by (cases x) auto

lemma resolvePorts_sourced: "resolvePorts raw src path = Inr (ps, ws) \<Longrightarrow> sourced path ws"
  by (auto simp: resolvePorts_def andThenE_Inr Let_def deprecatedAppPort_def composePortsIgnored_def
      split: option.splits if_splits)

lemma decodeFields_sourced: "decodeFields raw input = Inr c \<Longrightarrow> sourced (ri_ConfigPath input) (cfg_Warnings c)"
  by (auto simp: decodeFields_def Let_def andThenE_Inr case_option_Inr dest: resolvePorts_sourced)

lemma parseFeatureOptions_sourced: "sourced src (snd (parseFeatureOptions raw ref src))"
  by (auto simp: parseFeatureOptions_def badFeatureValue_def split: option.splits json.splits)

lemma sourced_concat: "sourced src (concat xss) \<longleftrightarrow> (\<forall>xs\<in>set xss. sourced src xs)"
  by (auto simp: sourced_def)

lemma buildPartialFeatures_sourced: "sourced src (snd (buildPartialFeatures m ord src))"
  by (auto simp: buildPartialFeatures_def sourced_concat parseFeatureOptions_sourced)

lemma substituteConfig_map:
  assumes "substituteConfig raw input c = d"
    and "folder = fst (ResolveString (workspaceFolderOf raw input) (folderContext input))"
    and "h = (\<lambda>s. fst (ResolveString s ((folderContext input)\<lparr>sc_ContainerWorkspaceFolder := folder\<rparr>)))"
    and "sourced (ri_ConfigPath input) (cfg_Warnings c)"
  shows "d = (mapConfig h c)\<lparr>cfg_ContainerWorkspaceFolder := folder, cfg_Warnings := cfg_Warnings d\<rparr>
      \<and> sourced (ri_ConfigPath input) (cfg_Warnings d)"
proof -
  let ?ctx = "(folderContext input)\<lparr>sc_ContainerWorkspaceFolder := folder\<rparr>"
  let ?c = "c\<lparr>cfg_ContainerWorkspaceFolder := folder, cfg_Warnings := cfg_Warnings c @
      taggedWarnings (snd (ResolveString (workspaceFolderOf raw input) (folderContext input)))
        (ri_ConfigPath input) ''/workspaceFolder''\<rparr>"
  obtain ws where ws: "substituteAll ?c ?ctx (ri_ConfigPath input) =
      (mapConfig h ?c)\<lparr>cfg_Warnings := cfg_Warnings ?c @ ws\<rparr>" "sourced (ri_ConfigPath input) ws"
    using substituteAll_map [of ?c ?ctx "ri_ConfigPath input"] assms(3) by blast
  have "d = substituteAll ?c ?ctx (ri_ConfigPath input)"
    using assms(1,2) by (simp add: substituteConfig_def Let_def case_prod_unfold)
  then show ?thesis using ws assms(4) by (simp add: mapConfig_def)
qed

text \<open>
  C22: A document that resolves gives exactly its decoded fields with every string replaced by its host
  substitution in the context of the resolved workspace folder, whatever the order of the walk; its
  features are the requested ones, sorted by the position of the first override entry that names them
  and then by reference; every warning names the configuration file.
\<close>

theorem ResolveBytes_spec:
  assumes "ResolveBytes toJSON doc input = Inr cfg"
  shows "\<exists>raw ws c folder.
    parseRaw toJSON doc (ri_ConfigPath input) = Inr (raw, ws) \<and> decodeFields raw input = Inr c \<and>
    folder = fst (ResolveString (workspaceFolderOf raw input) (folderContext input)) \<and>
    cfg = (mapConfig (\<lambda>s. fst (ResolveString s ((folderContext input)\<lparr>sc_ContainerWorkspaceFolder := folder\<rparr>))) c)
      \<lparr>cfg_ContainerWorkspaceFolder := folder,
       cfg_Features := sort_key (installRank (raw_OverrideFeatureInstallOrder raw))
         (map (requestedFeature (raw_Features raw) (ri_ConfigPath input)) (sortedKeys (raw_Features raw))),
       cfg_Warnings := cfg_Warnings cfg\<rparr> \<and>
    sourced (ri_ConfigPath input) (cfg_Warnings cfg)"
proof -
  obtain raw ws d where raw: "parseRaw toJSON doc (ri_ConfigPath input) = Inr (raw, ws)"
    and d: "resolveFromRaw raw input = Inr d"
    and cfg: "cfg = d\<lparr>cfg_Warnings := addSource ws (ri_ConfigPath input) @ cfg_Warnings d\<rparr>"
    using assms by (auto simp: ResolveBytes_def andThenE_Inr)
  obtain c where c: "decodeFields raw input = Inr c"
    and d: "d = withFeatures raw input (substituteConfig raw input c)"
    using d by (auto simp: resolveFromRaw_def split: sum.splits)
  let ?folder = "fst (ResolveString (workspaceFolderOf raw input) (folderContext input))"
  let ?d = "substituteConfig raw input c"
  note sub = substituteConfig_map [OF refl refl refl decodeFields_sourced [OF c], of raw]
  have "cfg = ?d\<lparr>cfg_Features := fst (buildPartialFeatures (raw_Features raw)
        (raw_OverrideFeatureInstallOrder raw) (ri_ConfigPath input)), cfg_Warnings := cfg_Warnings cfg\<rparr>"
    by (simp add: cfg d withFeatures_def Let_def case_prod_unfold)
  moreover have "sourced (ri_ConfigPath input) (cfg_Warnings cfg)"
    using sub by (simp add: cfg d withFeatures_def Let_def case_prod_unfold buildPartialFeatures_sourced)
  ultimately show ?thesis
    using raw c arg_cong [OF sub [THEN conjunct1], of "\<lambda>d. d\<lparr>cfg_Features := _, cfg_Warnings := _\<rparr>"]
    by (intro exI [of _ raw] exI [of _ ws] exI [of _ c] exI [of _ ?folder] conjI)
      (simp_all add: buildPartialFeatures_sort [OF parseRaw_features [OF raw]])
qed

text \<open>A document with a feature, a substituted name and an unknown field.\<close>

definition demoDoc :: string where
  "demoDoc = ''{\"image\":\"a\",\"name\":\"${localEnv:N}\",\"features\":{\"y\":{},\"x\":\"1\"},\"zz\":1}''"

definition demoInput :: resolve_input where
  "demoInput = \<lparr>ri_LocalWorkspaceFolder = ''/p'', ri_ConfigPath = ''/p/d.json'', ri_DevcontainerID = ''i'',
     ri_LocalEnv = [(''N'', ''n'')]\<rparr>"

definition demoSummary :: "config_error + resolved_config \<Rightarrow> (string \<times> string list \<times> string list) option" where
  "demoSummary r = (case r of Inl e \<Rightarrow> None | Inr c \<Rightarrow>
     Some (cfg_Name c, map rf_Ref (cfg_Features c), map w_Path (cfg_Warnings c)))"

lemma demo_resolves:
  "demoSummary (ResolveBytes id demoDoc demoInput) = Some (''n'', [''x'', ''y''], [''/zz''])"
  by code_simp

theorem ResolveBytes_spec_witness:
  "\<exists>cfg. ResolveBytes id demoDoc demoInput = Inr cfg \<and> cfg_Name cfg = ''n'' \<and>
     sourced ''/p/d.json'' (cfg_Warnings cfg) \<and> map w_Path (cfg_Warnings cfg) = [''/zz'']"
proof -
  from demo_resolves obtain cfg where cfg: "ResolveBytes id demoDoc demoInput = Inr cfg"
      "cfg_Name cfg = ''n''" "map w_Path (cfg_Warnings cfg) = [''/zz'']"
    by (auto simp: demoSummary_def split: sum.splits)
  from ResolveBytes_spec [OF cfg(1)] have "sourced (ri_ConfigPath demoInput) (cfg_Warnings cfg)"
    by (elim exE conjE)
  then have "sourced ''/p/d.json'' (cfg_Warnings cfg)" by (simp add: demoInput_def)
  with cfg show ?thesis by (intro exI [of _ cfg] conjI)
qed

section \<open>Identifiers of references\<close>

lemma featureID_tag: "CHR '':'' \<notin> set tag \<Longrightarrow> CHR ''/'' \<notin> set tag \<Longrightarrow> CHR ''@'' \<notin> set (a @ tag) \<Longrightarrow>
    \<not> containsSub a ''://'' \<Longrightarrow> featureID (a @ '':'' @ tag) = a"
  using cutLast_Some [of "CHR '':''" "a @ '':'' @ tag" a tag] cutLast_None [of "CHR ''@''" "a @ '':'' @ tag"]
  by (simp add: featureID_def stripDigest_def)

text \<open>The scheme of a URL is taken for a reference with a tag: every such feature has the same identifier.\<close>

lemma featureID_https:
  assumes "CHR '':'' \<notin> set rest" "CHR ''@'' \<notin> set rest"
  shows "featureID (''https://'' @ rest) = ''https''"
proof -
  have "cutLast (CHR '':'') (''https://'' @ rest) = Some (''https'', ''//'' @ rest)"
    unfolding cutLast_Some using assms by simp
  moreover have "cutLast (CHR ''@'') (''https://'' @ rest) = None"
    unfolding cutLast_None using assms by simp
  ultimately show ?thesis by (simp add: featureID_def stripDigest_def)
qed

end
