(* ===== verification/Json_Indent.thy ===== *)
theory Json_Indent
  imports Json_Raw
begin

text \<open>
  \<^verbatim>\<open>json.MarshalIndent\<close> with an indentation of two spaces, and the decoding of structs without raw fields
  from the parsed document. An indented document parses back to its value.
\<close>

section \<open>Printing\<close>

definition lineBreak :: "nat \<Rightarrow> string" where
  "lineBreak n = CHR 0x0A # replicate (2 * n) (CHR '' '')"

fun indentPrint :: "nat \<Rightarrow> json \<Rightarrow> string" where
  "indentPrint n (JArr xs) =
     (if xs = [] then ''[]''
      else ''['' @ joinWith '','' (map (\<lambda>x. lineBreak (Suc n) @ indentPrint (Suc n) x) xs) @ lineBreak n @ '']'')"
| "indentPrint n (JObj kvs) =
     (if kvs = [] then ''{}''
      else ''{'' @ joinWith '','' (map (\<lambda>kv. lineBreak (Suc n) @ jsonQuote (fst kv) @ '': '' @ indentPrint (Suc n) (snd kv)) kvs)
        @ lineBreak n @ ''}'')"
| "indentPrint n v = jsonPrint v"

section \<open>Decoding\<close>

text \<open>A struct field from the members that name it, in order.\<close>

definition jvals :: "string \<Rightarrow> (string \<times> json) list \<Rightarrow> json list" where
  "jvals k kvs = map snd (filter (\<lambda>kv. toLower (fst kv) = k) kvs)"

fun foldVals :: "('a \<Rightarrow> json \<Rightarrow> 'a option) \<Rightarrow> 'a \<Rightarrow> json list \<Rightarrow> 'a option" where
  "foldVals dec acc [] = Some acc"
| "foldVals dec acc (v # vs) = (case dec acc v of None \<Rightarrow> None | Some a \<Rightarrow> foldVals dec a vs)"

section \<open>White space\<close>

definition blankText :: "string \<Rightarrow> bool" where
  "blankText w \<longleftrightarrow> (\<forall>c\<in>set w. isSpaceJ c)"

lemma blankText_lineBreak [simp]: "blankText (lineBreak n)"
  by (simp add: blankText_def lineBreak_def isSpaceJ_def)

lemma skipWs_blank [simp]: "blankText w \<Longrightarrow> skipWs (w @ s) = skipWs s"
  by (induction w) (auto simp: blankText_def skipWs_def)

lemma parseValue_blank [simp]: "blankText w \<Longrightarrow> parseValue n (w @ s) = parseValue n s"
  by (cases n) (simp_all add: valueStep_def)

lemma keyOf_blank [simp]: "blankText w \<Longrightarrow> keyOf (w @ s) = keyOf s"
  by (simp add: keyOf_def)

lemma numStop_lineBreak [simp]: "numStop (lineBreak n @ s)"
  by (simp add: lineBreak_def numStop_def isDecDigit_iff)

lemma moreOf_comma: "moreOf close rest x (CHR '','' # w) = map_option (\<lambda>(xs, r). (x # xs, r)) (rest w)"
  by (simp add: moreOf_def skipWs_Cons isSpaceJ_def)

lemma moreOf_close:
  "blankText w \<Longrightarrow> \<not> isSpaceJ close \<Longrightarrow> close \<noteq> CHR '','' \<Longrightarrow> moreOf close rest x (w @ close # r) = Some ([x], r)"
  by (simp add: moreOf_def skipWs_Cons)

section \<open>Round trip\<close>

lemma parseElems_indent:
  assumes "xs \<noteq> []"
    and "\<And>x r. x \<in> set xs \<Longrightarrow> numStop r \<Longrightarrow> \<exists>n. parseValue n (f x @ r) = Some (x, r)"
  shows "\<exists>n. parseElems n (joinWith '','' (map (\<lambda>x. lineBreak m @ f x) xs) @ lineBreak k @ CHR '']'' # r) = Some (xs, r)"
  using assms
proof (induction xs)
  case Nil
  then show ?case by simp
next
  case (Cons x xs)
  show ?case
  proof (cases xs)
    case Nil
    obtain n where "parseValue n (f x @ lineBreak k @ CHR '']'' # r) = Some (x, lineBreak k @ CHR '']'' # r)"
      using Cons.prems(2) [of x "lineBreak k @ CHR '']'' # r"] by auto
    then have "parseElems (Suc n) (lineBreak m @ f x @ lineBreak k @ CHR '']'' # r) = Some ([x], r)"
      by (simp add: moreOf_close isSpaceJ_def)
    with Nil show ?thesis by (intro exI [of _ "Suc n"]) simp
  next
    case (Cons y ys)
    let ?rest = "joinWith '','' (map (\<lambda>x. lineBreak m @ f x) xs) @ lineBreak k @ CHR '']'' # r"
    obtain n where n: "parseElems n ?rest = Some (xs, r)"
      using Cons.IH Cons.prems(2) Cons by (metis list.distinct(1) list.set_intros(2))
    obtain j where j: "parseValue j (f x @ CHR '','' # ?rest) = Some (x, CHR '','' # ?rest)"
      using Cons.prems(2) [of x "CHR '','' # ?rest"] by auto
    have "parseElems (Suc (max j n)) (lineBreak m @ f x @ CHR '','' # ?rest) = Some (x # xs, r)"
      using parseValue_mono [OF max.cobounded1 j, of n] parseElems_mono [OF max.cobounded2 n, of j]
      by (simp add: moreOf_comma)
    moreover have "joinWith '','' (map (\<lambda>x. lineBreak m @ f x) (x # xs)) @ lineBreak k @ CHR '']'' # r
        = lineBreak m @ f x @ CHR '','' # ?rest"
      using Cons by simp
    ultimately show ?thesis by metis
  qed
qed

lemma parseMembers_indent:
  assumes "kvs \<noteq> []"
    and "\<And>kv r. kv \<in> set kvs \<Longrightarrow> numStop r \<Longrightarrow> \<exists>n. parseValue n (f (snd kv) @ r) = Some (snd kv, r)"
  shows "\<exists>n. parseMembers n (joinWith '','' (map (\<lambda>kv. lineBreak m @ jsonQuote (fst kv) @ '': '' @ f (snd kv)) kvs)
    @ lineBreak k @ CHR ''}'' # r) = Some (kvs, r)"
  using assms
proof (induction kvs)
  case Nil
  then show ?case by simp
next
  case (Cons kv kvs)
  obtain key x where kv: "kv = (key, x)" by fastforce
  let ?line = "\<lambda>kv. lineBreak m @ jsonQuote (fst kv) @ '': '' @ f (snd kv)"
  have sp: "parseValue n (CHR '' '' # s) = parseValue n s" for n s
    using parseValue_blank [of "'' ''" n s] by (simp add: blankText_def isSpaceJ_def)
  have key: "keyOf (jsonQuote key @ CHR '':'' # s) = Some (key, s)" for s by (rule keyOf_quote)
  show ?case
  proof (cases kvs)
    case Nil
    obtain n where "parseValue n (f x @ lineBreak k @ CHR ''}'' # r) = Some (x, lineBreak k @ CHR ''}'' # r)"
      using Cons.prems(2) [of kv "lineBreak k @ CHR ''}'' # r"] kv by auto
    then have "parseMembers (Suc n) (?line kv @ lineBreak k @ CHR ''}'' # r) = Some ([kv], r)"
      using kv by (simp add: key sp moreOf_close isSpaceJ_def)
    with Nil show ?thesis by (intro exI [of _ "Suc n"]) simp
  next
    case (Cons y ys)
    let ?rest = "joinWith '','' (map ?line kvs) @ lineBreak k @ CHR ''}'' # r"
    obtain n where n: "parseMembers n ?rest = Some (kvs, r)"
      using Cons.IH Cons.prems(2) Cons by (metis list.distinct(1) list.set_intros(2))
    obtain j where j: "parseValue j (f x @ CHR '','' # ?rest) = Some (x, CHR '','' # ?rest)"
      using Cons.prems(2) [of kv "CHR '','' # ?rest"] kv by auto
    have "parseMembers (Suc (max j n)) (?line kv @ CHR '','' # ?rest) = Some (kv # kvs, r)"
      using parseValue_mono [OF max.cobounded1 j, of n] parseMembers_mono [OF max.cobounded2 n, of j] kv
      by (simp add: key sp moreOf_comma)
    moreover have "joinWith '','' (map ?line (kv # kvs)) @ lineBreak k @ CHR ''}'' # r = ?line kv @ CHR '','' # ?rest"
      using Cons by simp
    ultimately show ?thesis by (intro exI [of _ "Suc (max j n)"]) (simp only:)
  qed
qed

lemma indentPrint_starts: "wfRaw v \<Longrightarrow> startsValue (indentPrint n v @ r)"
proof (cases v)
  case (JArr xs)
  then show ?thesis by (simp add: startsValue_def isSpaceJ_def)
next
  case (JObj kvs)
  then show ?thesis by (simp add: startsValue_def isSpaceJ_def)
qed (use jsonPrint_starts [of v r] in \<open>simp_all del: jsonPrint.simps\<close>)

lemma skipWs_joined:
  assumes "xs \<noteq> []" "\<And>x r. x \<in> set xs \<Longrightarrow> startsValue (f x @ r)"
  shows "\<exists>c t. skipWs (joinWith '','' (map (\<lambda>x. lineBreak m @ f x) xs) @ r) = c # t \<and> c \<noteq> CHR '']'' \<and> c \<noteq> CHR ''}''"
proof -
  obtain x ys where xs: "xs = x # ys" using assms(1) by (cases xs) auto
  obtain u where u: "joinWith '','' (map (\<lambda>x. lineBreak m @ f x) xs) @ r = lineBreak m @ f x @ u"
    using xs by (cases ys) auto
  have st: "startsValue (f x @ u)" using assms(2) xs by simp
  then obtain c t where c: "f x @ u = c # t" by (cases "f x @ u") (auto simp: startsValue_def)
  with st have "skipWs (lineBreak m @ f x @ u) = c # t" "c \<noteq> CHR '']''" "c \<noteq> CHR ''}''"
    by (auto simp: skipWs_starts startsValue_def)
  with u show ?thesis by metis
qed

lemma parse_indent:
  "wfRaw v \<Longrightarrow> numStop r \<Longrightarrow> \<exists>n. parseValue n (indentPrint k v @ r) = Some (v, r)"
proof (induction v arbitrary: k r)
  case (JArr xs)
  show ?case
  proof (cases "xs = []")
    case True
    with parse_print [OF JArr.prems] show ?thesis by simp
  next
    case False
    let ?body = "joinWith '','' (map (\<lambda>x. lineBreak (Suc k) @ indentPrint (Suc k) x) xs) @ lineBreak k @ CHR '']'' # r"
    have "\<exists>n. parseElems n ?body = Some (xs, r)"
      using False JArr by (intro parseElems_indent) auto
    then obtain n where n: "parseElems n ?body = Some (xs, r)" by blast
    obtain c t where "skipWs ?body = c # t" "c \<noteq> CHR '']''"
      using skipWs_joined [OF False, of "indentPrint (Suc k)" "Suc k" "lineBreak k @ CHR '']'' # r"]
        indentPrint_starts JArr.prems(1) by (metis wfRaw.simps(2))
    with n False have "parseValue (Suc n) (indentPrint k (JArr xs) @ r) = Some (JArr xs, r)"
      by (simp add: valueStep_def skipWs_Cons isSpaceJ_def)
    then show ?thesis by blast
  qed
next
  case (JObj kvs)
  show ?case
  proof (cases "kvs = []")
    case True
    with parse_print [OF JObj.prems] show ?thesis by simp
  next
    case False
    let ?f = "\<lambda>kv. jsonQuote (fst kv) @ '': '' @ indentPrint (Suc k) (snd kv)"
    let ?body = "joinWith '','' (map (\<lambda>kv. lineBreak (Suc k) @ ?f kv) kvs) @ lineBreak k @ CHR ''}'' # r"
    have "\<exists>n. parseMembers n ?body = Some (kvs, r)"
    proof (rule parseMembers_indent [OF False])
      fix kv r
      assume "kv \<in> set kvs" "numStop r"
      moreover have "snd kv \<in> Basic_BNFs.snds kv" by (simp add: prod_set_defs)
      ultimately show "\<exists>n. parseValue n (indentPrint (Suc k) (snd kv) @ r) = Some (snd kv, r)"
        using JObj.prems(1) by (intro JObj.IH) auto
    qed
    then obtain n where n: "parseMembers n ?body = Some (kvs, r)" by blast
    have "startsValue (?f kv @ r)" for kv r by (simp add: startsValue_def jsonQuote_def isSpaceJ_def)
    then obtain c t where "skipWs ?body = c # t" "c \<noteq> CHR ''}''"
      using skipWs_joined [OF False, of ?f "Suc k" "lineBreak k @ CHR ''}'' # r"] by metis
    with n False have "parseValue (Suc n) (indentPrint k (JObj kvs) @ r) = Some (JObj kvs, r)"
      by (simp add: valueStep_def skipWs_Cons isSpaceJ_def)
    then show ?thesis by blast
  qed
next
  case JNull
  then show ?case using parse_print [of JNull r] by (simp del: jsonPrint.simps)
next
  case (JBool b)
  then show ?case using parse_print [of "JBool b" r] by (simp del: jsonPrint.simps)
next
  case (JNum t)
  then show ?case using parse_print [of "JNum t" r] by (simp del: jsonPrint.simps)
next
  case (JStr s)
  then show ?case using parse_print [of "JStr s" r] by (simp del: jsonPrint.simps)
qed

lemma jsonParse_indent: "wfRaw v \<Longrightarrow> blankText w \<Longrightarrow> jsonParse (indentPrint k v @ w) = Some v"
proof -
  assume v: "wfRaw v" and w: "blankText w"
  then have r: "skipWs w = []" by (simp add: blankText_def skipWs_def)
  have "numStop (c # t)" if "isSpaceJ c" for c t
    using that unfolding isSpaceJ_def by (elim disjE) (simp_all add: numStop_def isDecDigit_iff)
  moreover have "numStop []" by (simp add: numStop_def)
  ultimately have "numStop w" using w by (cases w) (simp_all add: blankText_def)
  then obtain n where "parseValue n (indentPrint k v @ w) = Some (v, w)" using parse_indent [OF v] by blast
  then show ?thesis using r by (rule jsonParse_fuel)
qed

end
