(* ===== verification/Feature_Lock.thy ===== *)
theory Feature_Lock
  imports Json_Indent Config_Resolve Runtime_Prog
begin

text \<open>
  The feature lockfile: its entries, files and comparison (\<^verbatim>\<open>feature/lockfile.go\<close>) and its use by one Up
  or Build (\<^verbatim>\<open>lockfile.go\<close>). A \<^verbatim>\<open>*Lockfile\<close> is an \<open>option\<close>; \<^verbatim>\<open>DependsOn\<close> tells a nil slice from an empty one,
  because \<^verbatim>\<open>reflect.DeepEqual\<close> does. \<^verbatim>\<open>name.ParseReference\<close> is the parameter \<open>repoOf\<close>.
\<close>

section \<open>Entries\<close>

record locked_feature =
  lk_Version :: string
  lk_Resolved :: string
  lk_Integrity :: string
  lk_DependsOn :: "string list option"

type_synonym lockfile = "locked_feature gomap"

datatype lock_error =
    ReadLockfileFailed runtime_error
  | ParseLockfileFailed string
  | WriteLockfileFailed runtime_error
  | LockfileMissing string
  | LockfileMismatch string "string list"
  | FeatureIntegrityError string string string
  | BadOCIReference string

definition integrity :: "string \<Rightarrow> string \<Rightarrow> string" where
  "integrity kind resolvedRef =
     (if kind = FeatureSourceOCI
      then (case cutLast (CHR ''@'') resolvedRef of None \<Rightarrow> resolvedRef | Some (a, d) \<Rightarrow> d)
      else resolvedRef)"

definition dependsOnKeys :: "feature_metadata \<Rightarrow> string list" where
  "dependsOnKeys m = (case fm_DependsOn m of None \<Rightarrow> [] | Some d \<Rightarrow> sortedKeys d)"

definition Lock :: "resolved_feature \<Rightarrow> locked_feature option" where
  "Lock f =
     (let entry = (\<lambda>resolved. \<lparr>lk_Version = fm_Version (rf_Metadata f), lk_Resolved = resolved,
            lk_Integrity = integrity (rf_SourceKind f) (rf_ResolvedRef f),
            lk_DependsOn = (let ks = dependsOnKeys (rf_Metadata f) in if ks = [] then None else Some ks)\<rparr>)
      in if rf_SourceKind f = FeatureSourceOCI then Some (entry (rf_ResolvedRef f))
         else if rf_SourceKind f = FeatureSourceHTTPS then Some (entry (rf_Ref f))
         else None)"

definition PinnedRef ::
    "(string \<Rightarrow> string option) \<Rightarrow> resolved_feature \<Rightarrow> locked_feature \<Rightarrow> lock_error + string" where
  "PinnedRef repoOf f entry =
     (if rf_SourceKind f \<noteq> FeatureSourceOCI then Inr (rf_Ref f)
      else case repoOf (toLower (rf_Ref f)) of
             None \<Rightarrow> Inl (BadOCIReference (rf_Ref f))
           | Some repo \<Rightarrow> Inr (repo @ ''@'' @ lk_Integrity entry))"

definition CheckIntegrity :: "resolved_feature \<Rightarrow> string \<Rightarrow> locked_feature \<Rightarrow> lock_error option" where
  "CheckIntegrity f fetchedRef entry =
     (let got = integrity (rf_SourceKind f) fetchedRef in
      if got \<noteq> lk_Integrity entry then Some (FeatureIntegrityError (rf_Ref f) (lk_Integrity entry) got) else None)"

section \<open>Comparison\<close>

definition entriesOf :: "lockfile option \<Rightarrow> lockfile" where
  "entriesOf l = (case l of None \<Rightarrow> [] | Some m \<Rightarrow> m)"

definition lockEntry :: "lockfile option \<Rightarrow> string \<Rightarrow> locked_feature option" where
  "lockEntry l ref = map_of (entriesOf l) ref"

definition ChangedKeys :: "lockfile option \<Rightarrow> lockfile option \<Rightarrow> string list" where
  "ChangedKeys l other =
     sort (map fst (filter (\<lambda>(k, v). lockEntry other k \<noteq> Some v) (entriesOf l))
           @ map fst (filter (\<lambda>(k, v). lockEntry l k = None) (entriesOf other)))"

definition lockEqual :: "lockfile option \<Rightarrow> lockfile option \<Rightarrow> bool" where
  "lockEqual l other =
     (if l = None \<or> other = None then l = None \<and> other = None else ChangedKeys l other = [])"

section \<open>Files\<close>

definition LockfilePath :: "string \<Rightarrow> string" where
  "LockfilePath configPath =
     (let base = ''devcontainer-lock.json'' in
      pathJoin [pathDir configPath, if hasPrefix (pathBase configPath) ''.'' then ''.'' @ base else base])"

definition lockedJson :: "locked_feature \<Rightarrow> json" where
  "lockedJson e =
     JObj ([(''version'', JStr (lk_Version e)), (''resolved'', JStr (lk_Resolved e)),
            (''integrity'', JStr (lk_Integrity e))]
       @ (case lk_DependsOn e of None \<Rightarrow> [] | Some [] \<Rightarrow> []
          | Some (d # ds) \<Rightarrow> [(''dependsOn'', JArr (map JStr (d # ds)))]))"

definition lockfileJson :: "lockfile \<Rightarrow> json" where
  "lockfileJson m = JObj [(''features'', JObj (map (\<lambda>(k, e). (k, lockedJson e)) (sortedMap m)))]"

definition lockText :: "lockfile \<Rightarrow> string" where
  "lockText m = indentPrint 0 (lockfileJson m) @ [CHR 0x0A]"

definition zeroLocked :: locked_feature where
  "zeroLocked = \<lparr>lk_Version = [], lk_Resolved = [], lk_Integrity = [], lk_DependsOn = None\<rparr>"

definition setLockDeps :: "string list option \<Rightarrow> json \<Rightarrow> string list option option" where
  "setLockDeps acc v = (if v = JNull then Some None else map_option Some (unmarshalStrings v))"

definition decodeLocked :: "json \<Rightarrow> locked_feature option" where
  "decodeLocked v =
     (case v of
        JNull \<Rightarrow> Some zeroLocked
      | JObj kvs \<Rightarrow>
          do { ver \<leftarrow> foldVals setString [] (jvals ''version'' kvs);
               res \<leftarrow> foldVals setString [] (jvals ''resolved'' kvs);
               int \<leftarrow> foldVals setString [] (jvals ''integrity'' kvs);
               deps \<leftarrow> foldVals setLockDeps None (jvals ''dependson'' kvs);
               Some \<lparr>lk_Version = ver, lk_Resolved = res, lk_Integrity = int, lk_DependsOn = deps\<rparr> }
      | _ \<Rightarrow> None)"

definition decodeLockfile :: "string \<Rightarrow> lockfile option" where
  "decodeLockfile t =
     (case jsonParse t of
        Some JNull \<Rightarrow> Some []
      | Some (JObj kvs) \<Rightarrow> foldVals (setMap decodeLocked) [] (jvals ''features'' kvs)
      | _ \<Rightarrow> None)"

text \<open>\<^verbatim>\<open>bytes.TrimSpace\<close> of ASCII text leaves nothing.\<close>

definition isBlankFile :: "string \<Rightarrow> bool" where
  "isBlankFile t \<longleftrightarrow> list_all (\<lambda>c. c = CHR '' '' \<or> (9 \<le> (of_char c :: nat) \<and> (of_char c :: nat) \<le> 13)) t"

definition lockfileOf :: "string \<Rightarrow> string \<Rightarrow> lock_error + lockfile option" where
  "lockfileOf path t =
     (if isBlankFile t then Inr None
      else case decodeLockfile t of None \<Rightarrow> Inl (ParseLockfileFailed path) | Some m \<Rightarrow> Inr (Some m))"

definition ReadLockfile :: "string \<Rightarrow> (lock_error + lockfile option) prog" where
  "ReadLockfile path =
     Do (ReadFile path) (\<lambda>r. Ret (case asFile r of
       Inl e \<Rightarrow> Inl (ReadLockfileFailed e)
     | Inr None \<Rightarrow> Inr None
     | Inr (Some t) \<Rightarrow> lockfileOf path t))"

definition WriteLockfile :: "string \<Rightarrow> lockfile \<Rightarrow> lock_error option prog" where
  "WriteLockfile path m =
     Do (WriteFile path (lockText m)) (\<lambda>r. Ret (map_option WriteLockfileFailed (errOf r)))"

section \<open>One run's view of the lockfile\<close>

definition LockfileDefault :: string where "LockfileDefault = []"
definition LockfileFrozen :: string where "LockfileFrozen = ''frozen''"
definition LockfileDisabled :: string where "LockfileDisabled = ''disabled''"
definition LockfileUpgrade :: string where "LockfileUpgrade = ''upgrade''"

lemmas lock_modes = LockfileDefault_def LockfileFrozen_def LockfileDisabled_def LockfileUpgrade_def

record feature_lock =
  fl_mode :: string
  fl_path :: string
  fl_existing :: "lockfile option"

definition loadFeatureLock :: "string \<Rightarrow> string \<Rightarrow> (lock_error + feature_lock) prog" where
  "loadFeatureLock mode configPath =
     (let path = LockfilePath configPath; l = \<lparr>fl_mode = mode, fl_path = path, fl_existing = None\<rparr> in
      if mode = LockfileDisabled then Ret (Inr l)
      else andThen (ReadLockfile path) (\<lambda>r. Ret (case r of
             Inl e \<Rightarrow> Inl e
           | Inr existing \<Rightarrow>
               if existing = None \<and> mode = LockfileFrozen then Inl (LockfileMissing path)
               else Inr (l\<lparr>fl_existing := existing\<rparr>))))"

definition pin :: "feature_lock \<Rightarrow> resolved_feature \<Rightarrow> locked_feature option" where
  "pin l f =
     (if fl_mode l = LockfileUpgrade \<or> rf_SourceKind f = FeatureSourceLocal then None
      else lockEntry (fl_existing l) (rf_Ref f))"

definition acceptsBaked :: "feature_lock \<Rightarrow> resolved_feature \<Rightarrow> feature_metadata \<Rightarrow> bool" where
  "acceptsBaked l f baked =
     (if fl_mode l = LockfileDisabled then True
      else if fl_mode l = LockfileUpgrade then False
      else if fm_ResolvedRef baked = [] then False
      else case pin l f of None \<Rightarrow> True | Some p \<Rightarrow> CheckIntegrity f (fm_ResolvedRef baked) p = None)"

definition commitEntry :: "feature_lock \<Rightarrow> resolved_feature \<Rightarrow> locked_feature option" where
  "commitEntry l f =
     (case (if rf_AlreadyInstalled f then pin l f else None) of Some p \<Rightarrow> Some p | None \<Rightarrow> Lock f)"

fun nextLock :: "feature_lock \<Rightarrow> resolved_feature list \<Rightarrow> lockfile \<Rightarrow> lockfile" where
  "nextLock l [] nxt = nxt"
| "nextLock l (f # fs) nxt =
     (case commitEntry l f of
        Some e \<Rightarrow> nextLock l fs (mput (rf_Ref f) e nxt)
      | None \<Rightarrow> nextLock l fs nxt)"

definition commit :: "feature_lock \<Rightarrow> resolved_feature list \<Rightarrow> lock_error option prog" where
  "commit l features =
     (if fl_mode l = LockfileDisabled then Ret None
      else let nxt = nextLock l features [] in
           if lockEqual (Some nxt) (fl_existing l) then Ret None
           else if fl_mode l = LockfileFrozen
                then Ret (Some (LockfileMismatch (fl_path l) (ChangedKeys (Some nxt) (fl_existing l))))
           else WriteLockfile (fl_path l) nxt)"

definition commitNoFeatures :: "string \<Rightarrow> string \<Rightarrow> lock_error option prog" where
  "commitNoFeatures mode configPath =
     (if mode = LockfileDisabled then Ret None
      else let path = LockfilePath configPath in
           andThen (ReadLockfile path) (\<lambda>r. case r of
             Inl e \<Rightarrow> Ret (Some e)
           | Inr None \<Rightarrow> Ret None
           | Inr (Some m) \<Rightarrow> commit \<lparr>fl_mode = mode, fl_path = path, fl_existing = Some m\<rparr> []))"

section \<open>Comparison of lockfiles is equality of maps\<close>

lemma wf_nextLock [simp]: "wf_map nxt \<Longrightarrow> wf_map (nextLock l fs nxt)"
  by (induction l fs nxt rule: nextLock.induct) (auto split: option.splits)

lemma ChangedKeys_Nil:
  assumes "wf_map m"
  shows "ChangedKeys (Some m) (Some n) = [] \<longleftrightarrow> map_of m = map_of n"
proof
  assume "ChangedKeys (Some m) (Some n) = []"
  then have 1: "\<forall>(k, v)\<in>set m. map_of n k = Some v" and 2: "\<forall>(k, v)\<in>set n. map_of m k \<noteq> None"
    by (auto simp: ChangedKeys_def lockEntry_def entriesOf_def filter_empty_conv)
  show "map_of m = map_of n"
  proof
    fix k
    show "map_of m k = map_of n k"
    proof (cases "map_of m k")
      case None
      have "map_of n k \<noteq> Some v" for v
        using bspec [OF 2, of "(k, v)"] None map_of_SomeD [of n k v] by auto
      with None show ?thesis by (cases "map_of n k") auto
    next
      case (Some v)
      then have "(k, v) \<in> set m" by (rule map_of_SomeD)
      with 1 Some show ?thesis by auto
    qed
  qed
next
  assume eq: "map_of m = map_of n"
  have "map_of n k = Some v" if "(k, v) \<in> set m" for k v
    using that assms eq by (metis map_of_is_SomeI wf_map_def)
  moreover have "map_of m k \<noteq> None" if "(k, v) \<in> set n" for k v
    using that eq by (metis domIff dom_map_of_conv_image_fst image_eqI fst_conv)
  ultimately show "ChangedKeys (Some m) (Some n) = []"
    by (auto simp: ChangedKeys_def lockEntry_def entriesOf_def filter_empty_conv)
qed

lemma lockEqual_iff: "wf_map m \<Longrightarrow> lockEqual (Some m) (Some n) \<longleftrightarrow> map_of m = map_of n"
  by (simp add: lockEqual_def ChangedKeys_Nil)

section \<open>A written lockfile is read back\<close>

text \<open>An empty list of dependencies is written like none.\<close>

definition readBack :: "locked_feature \<Rightarrow> locked_feature" where
  "readBack e = (if lk_DependsOn e = Some [] then e\<lparr>lk_DependsOn := None\<rparr> else e)"

lemma wfRaw_lockfileJson: "wfRaw (lockfileJson m)"
  by (auto simp: lockfileJson_def lockedJson_def split: option.splits list.splits)

lemma lock_keys [simp]:
  "toLower ''version'' = ''version''" "toLower ''resolved'' = ''resolved''"
  "toLower ''integrity'' = ''integrity''" "toLower ''dependsOn'' = ''dependson''"
  "toLower ''features'' = ''features''"
  by code_simp+

lemma decodeLocked_json: "decodeLocked (lockedJson e) = Some (readBack e)"
  by (cases e) (auto simp: decodeLocked_def lockedJson_def jvals_def setString_def unmarshalString_def
      setLockDeps_def unmarshalStrings_def readBack_def list_all_iff comp_def
      split: option.splits list.splits)

lemma putMembers_locked:
  "putMembers decodeLocked (map (\<lambda>(k, e). (k, lockedJson e)) kvs) acc =
     Some (mputall acc (map (\<lambda>(k, e). (k, readBack e)) kvs))"
  by (induction kvs arbitrary: acc) (auto simp: decodeLocked_json)

lemma wf_sortedMap: "wf_map m \<Longrightarrow> wf_map (sortedMap m)"
  by (simp add: sortedMap_def wf_map_def comp_def sortedKeys_def)

lemma map_of_sortedMap: "map_of (sortedMap m) k = map_of m k"
proof -
  have *: "map_of (map (\<lambda>k. (k, the (map_of m k))) ks) k = (if k \<in> set ks then Some (the (map_of m k)) else None)" for ks
    by (induction ks) auto
  show ?thesis
  proof (cases "map_of m k")
    case None
    then have "k \<notin> fst ` set m" by (simp add: map_of_eq_None_iff)
    with None show ?thesis by (simp add: sortedMap_def *)
  next
    case (Some v)
    then have "k \<in> fst ` set m" by (metis map_of_eq_None_iff option.distinct(1))
    with Some show ?thesis by (simp add: sortedMap_def *)
  qed
qed

lemma map_of_mapValues: "map_of (map (\<lambda>(k, e). (k, g e)) m) k = map_option g (map_of m k)"
  by (induction m) auto

lemma decodeLockfile_text:
  assumes "wf_map m"
  obtains n where "decodeLockfile (lockText m) = Some n" "wf_map n"
    "\<And>k. map_of n k = map_option readBack (map_of m k)"
proof -
  let ?n = "mputall [] (map (\<lambda>(k, e). (k, readBack e)) (sortedMap m))"
  have "jsonParse (lockText m) = Some (lockfileJson m)"
    unfolding lockText_def by (rule jsonParse_indent [OF wfRaw_lockfileJson]) (simp add: blankText_def isSpaceJ_def)
  then have "decodeLockfile (lockText m) = Some ?n"
    by (simp add: decodeLockfile_def lockfileJson_def jvals_def setMap_def putMembers_locked)
  moreover have wf: "wf_map (map (\<lambda>(k, e). (k, readBack e)) (sortedMap m))"
    using wf_sortedMap [OF assms] by (simp add: wf_map_def case_prod_unfold comp_def)
  then have "map_of ?n k = map_option readBack (map_of m k)" for k
    by (simp add: map_of_mputall map_of_mapValues map_of_sortedMap)
  ultimately show ?thesis using that [of ?n] by simp
qed

section \<open>A committed lockfile is stable\<close>

text \<open>The entries of a commit only grow; a key without an entry has no feature that yields one.\<close>

lemma nextLock_None:
  "map_of (nextLock l fs acc) k = None \<Longrightarrow>
     map_of acc k = None \<and> (\<forall>f\<in>set fs. rf_Ref f = k \<longrightarrow> commitEntry l f = None)"
proof (induction fs arbitrary: acc)
  case Nil
  then show ?case by simp
next
  case (Cons f fs)
  show ?case
  proof (cases "commitEntry l f")
    case None
    with Cons.IH [of acc] Cons.prems show ?thesis by simp
  next
    case (Some e)
    with Cons.prems have "map_of (nextLock l fs (mput (rf_Ref f) e acc)) k = None" by simp
    from Cons.IH [OF this] show ?thesis by (cases "k = rf_Ref f") simp_all
  qed
qed

text \<open>
  Two commits of the same features, the second with the entries \<open>N\<close> of the first as its pins, up to a
  map \<open>g\<close> of entries that fixes those of fetched features.
\<close>

lemma nextLock_again:
  assumes N: "\<And>k. N k = map_option g (F k)"
    and g: "\<And>f e. Lock f = Some e \<Longrightarrow> g e = e"
    and pinned: "\<And>f p. pin l' f = Some p \<Longrightarrow> N (rf_Ref f) = Some p"
    and unpinned: "\<And>f p. pin l f = Some p \<Longrightarrow> pin l' f = None \<Longrightarrow> N (rf_Ref f) = None"
    and "\<And>k. map_of acc' k = map_option g (map_of acc k) \<or> map_of acc' k = N k"
    and "\<And>k f. F k = None \<Longrightarrow> f \<in> set fs \<Longrightarrow> rf_Ref f = k \<Longrightarrow> commitEntry l f = None"
  shows "map_of (nextLock l' fs acc') k = map_option g (map_of (nextLock l fs acc) k)
    \<or> map_of (nextLock l' fs acc') k = N k"
  using assms(5,6)
proof (induction fs arbitrary: acc acc')
  case Nil
  then show ?case by simp
next
  case (Cons f fs)
  let ?a = "case commitEntry l f of Some e \<Rightarrow> mput (rf_Ref f) e acc | None \<Rightarrow> acc"
  let ?a' = "case commitEntry l' f of Some e \<Rightarrow> mput (rf_Ref f) e acc' | None \<Rightarrow> acc'"
  have step: "map_of ?a' k = map_option g (map_of ?a k) \<or> map_of ?a' k = N k" for k
  proof (cases "k = rf_Ref f")
    case False
    then show ?thesis using Cons.prems(1) [of k] by (auto split: option.splits)
  next
    case k: True
    show ?thesis
    proof (cases "rf_AlreadyInstalled f \<and> pin l' f \<noteq> None")
      case True
      then obtain p where "pin l' f = Some p" "commitEntry l' f = Some p" by (auto simp: commitEntry_def)
      with k pinned show ?thesis by (auto simp del: commitEntry_def)
    next
      case False
      then have e': "commitEntry l' f = Lock f" by (auto simp: commitEntry_def split: option.splits)
      show ?thesis
      proof (cases "rf_AlreadyInstalled f \<and> pin l f \<noteq> None")
        case True
        with False have "N k = None" using unpinned k by auto
        then have "F k = None" using N by simp
        then have "commitEntry l f = None" using Cons.prems(2) k by (metis list.set_intros(1))
        with True show ?thesis by (auto simp: commitEntry_def)
      next
        case False
        then have "commitEntry l f = Lock f" by (auto simp: commitEntry_def split: option.splits)
        with e' k g Cons.prems(1) [of k] show ?thesis by (auto split: option.splits)
      qed
    qed
  qed
  have "map_of (nextLock l' fs ?a') k = map_option g (map_of (nextLock l fs ?a) k)
      \<or> map_of (nextLock l' fs ?a') k = N k"
    by (rule Cons.IH [OF step]) (metis Cons.prems(2) list.set_intros(2))
  then show ?case by (auto split: option.splits)
qed

text \<open>The lock of a later run that found the lockfile \<open>e\<close>.\<close>

definition laterLock :: "string \<Rightarrow> string \<Rightarrow> lockfile \<Rightarrow> feature_lock" where
  "laterLock mode path e = \<lparr>fl_mode = mode, fl_path = path, fl_existing = Some e\<rparr>"

lemma readBack_Lock: "Lock f = Some e \<Longrightarrow> readBack e = e"
  by (auto simp: Lock_def readBack_def Let_def split: if_splits)

lemma nextLock_stable:
  assumes mode: "mode \<noteq> LockfileUpgrade"
    and e: "\<And>k. map_of e k = map_option g (map_of (nextLock l fs []) k)"
    and g: "\<And>f x. Lock f = Some x \<Longrightarrow> g x = x"
  shows "map_of (nextLock (laterLock mode path e) fs []) = map_of e"
proof
  fix k
  let ?l = "laterLock mode path e"
  have p: "pin ?l f = (if rf_SourceKind f = FeatureSourceLocal then None else map_of e (rf_Ref f))" for f
    using mode by (simp add: pin_def laterLock_def lockEntry_def entriesOf_def)
  have "map_of (nextLock ?l fs []) k = map_option g (map_of (nextLock l fs []) k)
      \<or> map_of (nextLock ?l fs []) k = map_of e k"
  proof (rule nextLock_again [where F = "map_of (nextLock l fs [])"])
    show "pin l f = Some q \<Longrightarrow> pin ?l f = None \<Longrightarrow> map_of e (rf_Ref f) = None" for f q
      unfolding p by (auto simp: pin_def split: if_splits)
  qed (use e g nextLock_None [of l fs "[]"] in \<open>auto simp: p split: if_splits\<close>)
  with e show "map_of (nextLock ?l fs []) k = map_of e k" by simp
qed

lemma commit_stable:
  assumes "mode \<noteq> LockfileUpgrade"
    and "\<And>k. map_of e k = map_option g (map_of (nextLock l fs []) k)"
    and "\<And>f x. Lock f = Some x \<Longrightarrow> g x = x"
  shows "commit (laterLock mode path e) fs = Ret None"
  using nextLock_stable [OF assms]
  by (simp add: commit_def Let_def laterLock_def lockEqual_iff)

lemma not_blank_lockText: "\<not> isBlankFile (lockText m)"
  by (simp add: lockText_def lockfileJson_def isBlankFile_def)

text \<open>
  C11. A commit that reports no error leaves a lockfile (the one it found, or the one it wrote as its only
  call) that reads back, and every later run in a mode that honours it and resolves to the same
  features, the frozen mode included, commits without an error and without a call.
\<close>

theorem commit_then_frozen:
  assumes "trace (commit l fs) tr None" "fl_mode l \<noteq> LockfileDisabled"
  shows "\<exists>e. (tr = [] \<and> fl_existing l = Some e
        \<or> (\<exists>r. tr = [(WriteFile (fl_path l) (lockText (nextLock l fs [])), r)]
            \<and> lockfileOf (fl_path l) (lockText (nextLock l fs [])) = Inr (Some e)))
     \<and> (\<forall>mode. mode \<noteq> LockfileUpgrade \<longrightarrow> commit (laterLock mode (fl_path l) e) fs = Ret None)"
proof (cases "lockEqual (Some (nextLock l fs [])) (fl_existing l)")
  case True
  then obtain e where e: "fl_existing l = Some e" by (auto simp: lockEqual_def split: if_splits)
  with True have "map_of (nextLock l fs []) = map_of e" by (simp add: lockEqual_iff)
  then have "commit (laterLock mode (fl_path l) e) fs = Ret None" if "mode \<noteq> LockfileUpgrade" for mode
    using that by (intro commit_stable [where g = id and l = l]) (auto simp: option.map_id)
  moreover have "tr = []" using True assms by (auto simp: commit_def Let_def)
  ultimately show ?thesis using e by blast
next
  case False
  have wf: "wf_map (nextLock l fs [])" by simp
  from decodeLockfile_text [OF wf] obtain e where e: "decodeLockfile (lockText (nextLock l fs [])) = Some e"
      "\<And>k. map_of e k = map_option readBack (map_of (nextLock l fs []) k)" by metis
  then have "commit (laterLock mode (fl_path l) e) fs = Ret None" if "mode \<noteq> LockfileUpgrade" for mode
    using that by (intro commit_stable [where g = readBack and l = l] readBack_Lock)
  moreover have "\<exists>r. tr = [(WriteFile (fl_path l) (lockText (nextLock l fs [])), r)]"
    using False assms by (auto simp: commit_def Let_def WriteLockfile_def trace_Do_iff split: if_splits)
  ultimately show ?thesis using e by (auto simp: lockfileOf_def not_blank_lockText)
qed

definition demoLocked :: resolved_feature where
  "demoLocked = (partialFeature ''r/a:1'' None)\<lparr>rf_ResolvedRef := ''r/a@d'', rf_Metadata :=
     emptyMetadata\<lparr>fm_Version := ''1.2'', fm_DependsOn := Some [(''r/b'', [])]\<rparr>\<rparr>"

definition demoLock :: feature_lock where
  "demoLock = \<lparr>fl_mode = LockfileDefault, fl_path = ''l'', fl_existing = None\<rparr>"

theorem commit_then_frozen_witness:
  "\<exists>e. lockfileOf ''l'' (lockText (nextLock demoLock [demoLocked] [])) = Inr (Some e)
     \<and> commit (laterLock LockfileFrozen ''l'' e) [demoLocked] = Ret None"
proof -
  have "nextLock demoLock [demoLocked] [] \<noteq> []"
    by (simp add: demoLocked_def partialFeature_def commitEntry_def Lock_def Let_def
        ClassifyFeatureRef_def FeatureSourceLocal_def FeatureSourceHTTPS_def FeatureSourceOCI_def mput_def)
  then have "trace (commit demoLock [demoLocked]) [(WriteFile ''l'' (lockText (nextLock demoLock [demoLocked] [])), RUnit)] None"
    by (simp add: commit_def Let_def demoLock_def lock_modes lockEqual_def WriteLockfile_def errOf_def)
  from commit_then_frozen [OF this] obtain e where
    "lockfileOf ''l'' (lockText (nextLock demoLock [demoLocked] [])) = Inr (Some e)"
    "\<forall>mode. mode \<noteq> LockfileUpgrade \<longrightarrow> commit (laterLock mode ''l'' e) [demoLocked] = Ret None"
    by (auto simp: demoLock_def lock_modes)
  then show ?thesis by (auto simp: lock_modes)
qed

text \<open>The frozen and the disabled mode write nothing.\<close>

definition isWrite :: "call \<Rightarrow> bool" where
  "isWrite c = (case c of WriteFile p t \<Rightarrow> True | _ \<Rightarrow> False)"

lemma commit_frozen_no_write:
  "fl_mode l = LockfileFrozen \<or> fl_mode l = LockfileDisabled \<Longrightarrow> allCalls (\<lambda>c. \<not> isWrite c) (commit l fs)"
  by (auto simp: commit_def Let_def lock_modes)

end
