(* ===== verification/Feature_Build.thy ===== *)
theory Feature_Build
  imports Metadata_Label Config_Parse Feature_Options Runtime_Prog
begin

text \<open>
  The metadata of a fetched feature (\<^verbatim>\<open>feature/parse.go\<close>), and the build context that layers features on a
  base image (\<^verbatim>\<open>feature/dockerfile.go\<close>, \<^verbatim>\<open>feature/wrapper.go\<close>): the Dockerfile, the script and the
  environment file of every feature. Copying the directory of a feature is one call.
\<close>

section \<open>Metadata of a feature\<close>

definition setAny :: "json option \<Rightarrow> json \<Rightarrow> json option option" where
  "setAny acc v = Some (if v = JNull then None else Some (toAny v))"

definition setAnys :: "json list \<Rightarrow> json \<Rightarrow> json list option" where
  "setAnys acc v = (case v of JNull \<Rightarrow> Some [] | JArr xs \<Rightarrow> Some (map toAny xs) | _ \<Rightarrow> None)"

definition decodeFeatureOption :: "(string \<times> string) list \<Rightarrow> feature_option option" where
  "decodeFeatureOption ms =
     do { ty \<leftarrow> stringField ''type'' ms;
          def \<leftarrow> foldField setAny None (fieldVals ''default'' ms);
          enum \<leftarrow> foldField setAnys [] (fieldVals ''enum'' ms);
          prop \<leftarrow> foldField setAnys [] (fieldVals ''proposals'' ms);
          desc \<leftarrow> stringField ''description'' ms;
          Some \<lparr>fo_Type = ty, fo_Default = def, fo_Enum = enum, fo_Proposals = prop, fo_Description = desc\<rparr> }"

text \<open>\<^verbatim>\<open>rawFeatureMetadata\<close> and \<^verbatim>\<open>toResolved\<close>.\<close>

definition decodeFeatureFields :: "(string \<times> string) list \<Rightarrow> feature_metadata option" where
  "decodeFeatureFields ms =
     do { i \<leftarrow> stringField ''id'' ms;
          version \<leftarrow> stringField ''version'' ms;
          name \<leftarrow> stringField ''name'' ms;
          desc \<leftarrow> stringField ''description'' ms;
          doc \<leftarrow> stringField ''documentationurl'' ms;
          license \<leftarrow> stringField ''licenseurl'' ms;
          options \<leftarrow> objectMapField decodeFeatureOption ''options'' ms;
          cenv \<leftarrow> stringMapField ''containerenv'' ms;
          ini \<leftarrow> boolPtrField ''init'' ms;
          priv \<leftarrow> boolPtrField ''privileged'' ms;
          cap \<leftarrow> stringsField ''capadd'' ms;
          secopt \<leftarrow> stringsField ''securityopt'' ms;
          entry \<leftarrow> stringField ''entrypoint'' ms;
          installs \<leftarrow> stringsField ''installsafter'' ms;
          deps \<leftarrow> foldField setDependsOn None (fieldVals ''dependson'' ms);
          cust \<leftarrow> rawMapField ''customizations'' ms;
          Some (emptyMetadata\<lparr>fm_ID := i, fm_Version := version, fm_Name := name, fm_Description := desc,
            fm_DocumentationURL := doc, fm_LicenseURL := license, fm_Options := options,
            fm_ContainerEnv := cenv, fm_Init := ini, fm_Privileged := priv, fm_CapAdd := cap,
            fm_SecurityOpt := secopt, fm_Entrypoint := entry, fm_InstallsAfter := installs,
            fm_DependsOn := deps, fm_Customizations := cust\<rparr>) }"

definition decodeFeatureDoc :: "string \<Rightarrow> feature_metadata option" where
  "decodeFeatureDoc t =
     do { ms \<leftarrow> rawMembers t;
          m \<leftarrow> decodeFeatureFields ms;
          mounts \<leftarrow> mountsOf (rawField ''mounts'' ms);
          onCreate \<leftarrow> decodeLifecycleCommand (rawField ''oncreatecommand'' ms);
          updateContent \<leftarrow> decodeLifecycleCommand (rawField ''updatecontentcommand'' ms);
          postCreate \<leftarrow> decodeLifecycleCommand (rawField ''postcreatecommand'' ms);
          postStart \<leftarrow> decodeLifecycleCommand (rawField ''poststartcommand'' ms);
          postAttach \<leftarrow> decodeLifecycleCommand (rawField ''postattachcommand'' ms);
          Some (m\<lparr>fm_Mounts := mounts, fm_OnCreateCommand := onCreate, fm_UpdateContentCommand := updateContent,
            fm_PostCreateCommand := postCreate, fm_PostStartCommand := postStart,
            fm_PostAttachCommand := postAttach\<rparr>) }"

datatype metadata_error = ReadMetadataFailed string | ParseMetadataFailed string

definition ParseMetadata :: "string \<Rightarrow> (metadata_error + feature_metadata) prog" where
  "ParseMetadata dir =
     (let path = pathJoin [dir, ''devcontainer-feature.json''] in
      Do (ReadFile path) (\<lambda>r. Ret (case asFile r of
        Inr (Some t) \<Rightarrow> (case decodeFeatureDoc t of None \<Rightarrow> Inl (ParseMetadataFailed path) | Some m \<Rightarrow> Inr m)
      | _ \<Rightarrow> Inl (ReadMetadataFailed path))))"

section \<open>The Dockerfile\<close>

definition newLine :: string where "newLine = [CHR 0x0A]"

definition HasWork :: "build_plan \<Rightarrow> bool" where
  "HasWork plan \<longleftrightarrow> list_ex (\<lambda>f. \<not> rf_AlreadyInstalled f) (bp_Features plan)"

definition dockerfileLiteral :: "string \<Rightarrow> string" where
  "dockerfileLiteral s = concat (map (\<lambda>c. if c = CHR ''$'' then [CHR 0x5C, c] else [c]) (goQuote s))"

definition generateRunScript :: "string \<Rightarrow> string" where
  "generateRunScript featureRef =
     ''#!/bin/sh'' @ newLine @ ''set -e'' @ newLine
     @ ''trap '' @ [CHR 0x27] @ ''rc=$?; if [ $rc -ne 0 ]; then echo \"ERROR: feature '' @ goQuote featureRef
     @ '' failed: exit $rc\" >&2; fi'' @ [CHR 0x27] @ '' EXIT'' @ newLine
     @ ''set -a'' @ newLine @ ''. ../builtin.env'' @ newLine @ ''. ./feature.env'' @ newLine @ ''set +a'' @ newLine
     @ ''chmod +x ./install.sh'' @ newLine @ ''./install.sh'' @ newLine"

definition envInstruction :: "string gomap \<Rightarrow> string" where
  "envInstruction env =
     (if env = [] then []
      else ''ENV '' @ joinWith '' '' (map (\<lambda>k. k @ ''='' @ goQuote (mget env k)) (sortedKeys env)) @ newLine)"

definition featureSection :: "nat \<Rightarrow> resolved_feature \<Rightarrow> string" where
  "featureSection i f =
     (if rf_AlreadyInstalled f
      then ''# Feature '' @ itoaNat i @ '': '' @ rf_Ref f @ '' (already installed in base image; skipped)'' @ newLine @ newLine
      else ''# Feature '' @ itoaNat i @ '': '' @ rf_Ref f @ newLine
           @ envInstruction (fm_ContainerEnv (rf_Metadata f))
           @ ''RUN cd /tmp/dc-features/'' @ itoaNat i @ '' && chmod +x ./run.sh && ./run.sh'' @ newLine @ newLine)"

fun featureSections :: "nat \<Rightarrow> resolved_feature list \<Rightarrow> string" where
  "featureSections i [] = []"
| "featureSections i (f # fs) = featureSection i f @ featureSections (Suc i) fs"

definition dockerfileHead :: "string \<Rightarrow> string" where
  "dockerfileHead base =
     ''ARG _DEV_CONTAINERS_BASE_IMAGE='' @ base @ newLine
     @ ''FROM $_DEV_CONTAINERS_BASE_IMAGE AS devcontainer_target'' @ newLine @ newLine
     @ ''USER root'' @ newLine @ newLine
     @ ''COPY ./build-context/ /tmp/dc-features/'' @ newLine
     @ ''RUN chmod -R 0755 /tmp/dc-features'' @ newLine @ newLine
     @ ''RUN echo \"_CONTAINER_USER_HOME=$(getent passwd root | cut -d: -f6)\" >> /tmp/dc-features/builtin.env && '' @ [CHR 0x5C] @ newLine
     @ ''    echo \"_REMOTE_USER_HOME=$(getent passwd $(whoami) | cut -d: -f6)\" >> /tmp/dc-features/builtin.env'' @ newLine @ newLine"

definition MetadataLabel :: string where
  "MetadataLabel = ''devcontainer.metadata''"

definition labelInstruction :: "string \<Rightarrow> string" where
  "labelInstruction label = ''LABEL '' @ MetadataLabel @ ''='' @ dockerfileLiteral label @ newLine @ newLine"

definition generateDockerfile :: "build_plan \<Rightarrow> string option" where
  "generateDockerfile plan =
     (case buildMetadataLabel plan of
        None \<Rightarrow> None
      | Some label \<Rightarrow>
          Some (dockerfileHead (bp_BaseImage plan) @ featureSections 0 (bp_Features plan)
            @ labelInstruction label
            @ ''ARG _DEV_CONTAINERS_IMAGE_USER='' @ (if bp_RemoteUser plan = [] then ''root'' else bp_RemoteUser plan) @ newLine
            @ ''USER $_DEV_CONTAINERS_IMAGE_USER'' @ newLine))"

section \<open>The build context\<close>

datatype context_error =
    FeatureNotFetched string
  | ContextFileFailed runtime_error
  | CopyFeatureFailed string runtime_error
  | LabelFailed

text \<open>A call whose error ends the function.\<close>

definition orElse :: "call \<Rightarrow> (runtime_error \<Rightarrow> 'e) \<Rightarrow> 'e option prog \<Rightarrow> 'e option prog" where
  "orElse c wrap p = Do c (\<lambda>r. case errOf r of Some e \<Rightarrow> Ret (Some (wrap e)) | None \<Rightarrow> p)"

fun contextFeatures :: "string \<Rightarrow> nat \<Rightarrow> resolved_feature list \<Rightarrow> context_error option prog \<Rightarrow> context_error option prog" where
  "contextFeatures bc i [] k = k"
| "contextFeatures bc i (f # fs) k =
     (if rf_AlreadyInstalled f then contextFeatures bc (Suc i) fs k
      else if rf_Dir f = [] \<or> fm_ID (rf_Metadata f) = [] then Ret (Some (FeatureNotFetched (rf_Ref f)))
      else let idxDir = pathJoin [bc, itoaNat i] in
        orElse (CopyDir (rf_Dir f) idxDir) (CopyFeatureFailed (rf_Ref f))
          (orElse (WriteFile (pathJoin [idxDir, ''run.sh'']) (generateRunScript (rf_Ref f))) ContextFileFailed
            (orElse (WriteFile (pathJoin [idxDir, ''feature.env''])
                (SerializeEnvFile (case rf_Options f of None \<Rightarrow> [] | Some m \<Rightarrow> m))) ContextFileFailed
              (contextFeatures bc (Suc i) fs k))))"

definition GenerateBuildContext :: "build_plan \<Rightarrow> string \<Rightarrow> context_error option prog" where
  "GenerateBuildContext plan dst =
     (let bc = pathJoin [dst, ''build-context''] in
      orElse (MkdirAll dst) ContextFileFailed
        (orElse (MkdirAll bc) ContextFileFailed
          (contextFeatures bc 0 (bp_Features plan)
            (case generateDockerfile plan of
               None \<Rightarrow> Ret (Some LabelFailed)
             | Some df \<Rightarrow> orElse (WriteFile (pathJoin [dst, ''Dockerfile'']) df) ContextFileFailed (Ret None)))))"

section \<open>What the image stores as the label\<close>

text \<open>
  The value of a double-quoted word of a Dockerfile, from after the opening quote, as the Dockerfile
  reference has it: a backslash escapes a quote, a backslash or a dollar sign and stands for itself
  before anything else; an unescaped dollar sign would be expanded.
\<close>

fun dockerWord :: "string \<Rightarrow> (string \<times> string) option" where
  "dockerWord [] = None"
| "dockerWord [c] = (if c = CHR 0x22 then Some ([], []) else None)"
| "dockerWord (c # d # s) =
     (if c = CHR 0x22 then Some ([], d # s)
      else if c = CHR ''$'' then None
      else if c = CHR 0x5C \<and> d \<in> {CHR 0x22, CHR 0x5C, CHR ''$''}
      then map_option (\<lambda>(v, r). (d # v, r)) (dockerWord s)
      else map_option (\<lambda>(v, r). (c # v, r)) (dockerWord (d # s)))"

definition isControl :: "char \<Rightarrow> bool" where
  "isControl c \<longleftrightarrow> (of_char c :: nat) < 32 \<or> (of_char c :: nat) = 127"

definition storedChar :: "char \<Rightarrow> string" where
  "storedChar c = (if isControl c then quoteChar c else [c])"

lemma dockerWord_plain:
  "c \<noteq> CHR 0x22 \<Longrightarrow> c \<noteq> CHR ''$'' \<Longrightarrow> c \<noteq> CHR 0x5C \<Longrightarrow> s \<noteq> [] \<Longrightarrow>
     dockerWord (c # s) = map_option (\<lambda>(v, r). (c # v, r)) (dockerWord s)"
  by (cases s) auto

lemma dockerWord_escape:
  "d \<in> {CHR 0x22, CHR 0x5C, CHR ''$''} \<Longrightarrow>
     dockerWord (CHR 0x5C # d # s) = map_option (\<lambda>(v, r). (d # v, r)) (dockerWord s)"
  by auto

lemma dockerWord_backslash:
  "d \<notin> {CHR 0x22, CHR 0x5C, CHR ''$''} \<Longrightarrow>
     dockerWord (CHR 0x5C # d # s) = map_option (\<lambda>(v, r). (CHR 0x5C # v, r)) (dockerWord (d # s))"
  by auto

lemma hexDigit_plain: "n < 16 \<Longrightarrow> hexDigit n \<notin> {CHR 0x22, CHR 0x5C, CHR ''$''}"
proof -
  have "\<forall>n\<in>set [0..<16]. hexDigit n \<notin> {CHR 0x22, CHR 0x5C, CHR ''$''}" by code_simp
  then show "n < 16 \<Longrightarrow> hexDigit n \<notin> {CHR 0x22, CHR 0x5C, CHR ''$''}" by simp
qed

definition dollarEscape :: "char \<Rightarrow> string" where
  "dollarEscape c = (if c = CHR ''$'' then [CHR 0x5C, c] else [c])"

lemma dockerWord_char:
  assumes "t \<noteq> []"
  shows "dockerWord (concat (map dollarEscape (quoteChar c)) @ t) =
    map_option (\<lambda>(v, r). (storedChar c @ v, r)) (dockerWord t)"
proof -
  let ?n = "of_char c :: nat"
  consider (q) "c = CHR 0x22 \<or> c = CHR 0x5C" | (d) "c = CHR ''$''"
    | (l) "?n \<in> {7, 8, 9, 10, 11, 12, 13}" "isControl c"
    | (x) "?n \<notin> {7, 8, 9, 10, 11, 12, 13}" "isControl c" "c \<noteq> CHR 0x22" "c \<noteq> CHR 0x5C"
    | (p) "\<not> isControl c" "c \<noteq> CHR 0x22" "c \<noteq> CHR 0x5C" "c \<noteq> CHR ''$''"
    by (auto simp: isControl_def)
  then show ?thesis
  proof cases
    case q
    then show ?thesis using assms
      by (auto simp: quoteChar_def dollarEscape_def storedChar_def isControl_def dockerWord_escape)
  next
    case d
    then show ?thesis using assms
      by (simp add: quoteChar_def dollarEscape_def storedChar_def isControl_def dockerWord_escape)
  next
    case l
    then have "c \<noteq> CHR 0x22" "c \<noteq> CHR 0x5C" by auto
    then have "\<exists>e\<in>set ''abfnrtv''. quoteChar c = [CHR 0x5C, e]"
      using l by (simp add: quoteChar_def Let_def) (elim disjE; simp)
    then obtain e where e: "quoteChar c = [CHR 0x5C, e]" "e \<notin> {CHR 0x22, CHR 0x5C, CHR ''$''}" by auto
    with l assms show ?thesis
      by (simp add: dollarEscape_def storedChar_def dockerWord_backslash dockerWord_plain option.map_comp
          comp_def case_prod_unfold)
  next
    case x
    let ?h = "hexDigit (?n div 16)" and ?k = "hexDigit (?n mod 16)"
    have "?n < 256" using nat_of_char_less_256 by simp
    then have "?n div 16 < 16" "?n mod 16 < 16" by (simp_all add: less_mult_imp_div_less)
    then have hk: "?h \<notin> {CHR 0x22, CHR 0x5C, CHR ''$''}" "?k \<notin> {CHR 0x22, CHR 0x5C, CHR ''$''}"
      using hexDigit_plain by blast+
    have "quoteChar c = [CHR 0x5C, CHR ''x'', ?h, ?k]"
      using x by (simp add: quoteChar_def Let_def isControl_def)
    with x hk assms show ?thesis
      by (simp add: dollarEscape_def storedChar_def dockerWord_backslash dockerWord_plain option.map_comp
          comp_def case_prod_unfold)
  next
    case p
    then have "quoteChar c = [c]" by (auto simp: quoteChar_def Let_def isControl_def)
    with p assms show ?thesis by (simp add: dollarEscape_def storedChar_def dockerWord_plain)
  qed
qed

lemma dockerWord_quoted:
  "dockerWord (concat (map dollarEscape (concat (map quoteChar s))) @ CHR 0x22 # t) =
     Some (concat (map storedChar s), t)"
proof (induction s)
  case Nil
  then show ?case by (cases t) auto
next
  case (Cons c s)
  then show ?case
    using dockerWord_char [of "concat (map dollarEscape (concat (map quoteChar s))) @ CHR 0x22 # t" c] by simp
qed

lemma storedChar_length: "length (storedChar c) \<ge> 1" "isControl c \<Longrightarrow> length (storedChar c) > 1"
  by (auto simp: storedChar_def isControl_def quoteChar_def Let_def)

lemma stored_exact: "concat (map storedChar s) = s \<longleftrightarrow> (\<forall>c\<in>set s. \<not> isControl c)"
proof
  have ge: "length s \<le> length (concat (map storedChar s))" for s
  proof (induction s)
    case (Cons d s)
    then show ?case using storedChar_length(1) [of d] by simp
  qed simp
  have gt: "length s < length (concat (map storedChar s))" if "c \<in> set s" "isControl c" for c s
    using that
  proof (induction s)
    case (Cons d s)
    then show ?case using ge [of s] storedChar_length [of d] by auto
  qed simp
  assume "concat (map storedChar s) = s"
  then show "\<forall>c\<in>set s. \<not> isControl c" using gt by fastforce
next
  assume "\<forall>c\<in>set s. \<not> isControl c"
  then show "concat (map storedChar s) = s" by (induction s) (auto simp: storedChar_def)
qed

theorem dockerfileLiteral_value:
  "\<exists>body. dockerfileLiteral s = CHR 0x22 # body
     \<and> dockerWord (body @ rest) = Some (concat (map storedChar s), rest)
     \<and> (concat (map storedChar s) = s \<longleftrightarrow> \<not> list_ex isControl s)"
proof -
  let ?body = "concat (map dollarEscape (concat (map quoteChar s))) @ [CHR 0x22]"
  have "dockerfileLiteral s = CHR 0x22 # ?body"
    by (simp add: dockerfileLiteral_def goQuote_def dollarEscape_def [abs_def])
  then show ?thesis using dockerWord_quoted [of s rest] stored_exact [of s] 
    by (intro exI [of _ ?body]) (simp add: list_ex_iff)
qed

end
