(* ===== verification/Engine_Types.thy ===== *)
theory Engine_Types
  imports Feature_Build Feature_Lock Feature_Order Orchestrator Lifecycle Merge_Metadata Compose_Override
begin

text \<open>
  The engine: its options (\<^verbatim>\<open>engine.go\<close>), the options of \<^verbatim>\<open>Up\<close> and \<^verbatim>\<open>Build\<close> (\<^verbatim>\<open>up.go\<close>, \<^verbatim>\<open>build.go\<close>), its errors
  as values, the search for the configuration file (\<^verbatim>\<open>devcontainer.go\<close>), labels and mounts.
\<close>

section \<open>The engine and its options\<close>

text \<open>What \<^verbatim>\<open>composeInputsHash\<close> marshals; the loaded project is the one of the compose loader.\<close>

record hashed_feature =
  hf_Ref :: string
  hf_SourceKind :: string
  hf_Options :: "json gomap option"
  hf_LocalContent :: string

record hashed_config =
  hg_DevcontainerID :: string
  hg_Source :: compose_source
  hg_LocalWorkspaceFolder :: string
  hg_ContainerWorkspaceFolder :: string
  hg_WorkspaceMount :: "mount option"
  hg_ContainerUser :: string
  hg_RemoteUser :: string
  hg_UpdateRemoteUserUID :: "bool option"
  hg_ContainerEnv :: "string gomap"
  hg_Mounts :: "mount list"
  hg_RunArgs :: "string list"
  hg_Init :: "bool option"
  hg_Privileged :: "bool option"
  hg_CapAdd :: "string list"
  hg_SecurityOpt :: "string list"
  hg_OverrideCommand :: "bool option"
  hg_Features :: "hashed_feature list"

record hash_input =
  hi_Version :: int
  hi_Config :: hashed_config
  hi_Services :: "service_config gomap"
  hi_Networks :: "string gomap"
  hi_Volumes :: "string gomap"
  hi_Secrets :: "string gomap"
  hi_Configs :: "string gomap"
  hi_BaseImageID :: string
  hi_ComposeBackend :: int
  hi_DisableHostPortPublishing :: bool
  hi_StrictFeatureVersionMatch :: bool
  hi_HostOwner :: string

text \<open>
  The engine with what it is built on: the environment of the process, third-party functions
  (\<^verbatim>\<open>jsonc.ToJSON\<close>, SHA-256, \<^verbatim>\<open>name.ParseReference\<close>, the YAML and JSON encoders of loader types), the
  abilities of the runtime and the schedulers of its goroutines. \<open>en_fuel\<close> bounds the loops whose
  length the code does not bound.
\<close>

record engine =
  en_environ :: "string list"
  en_toJSON :: "string \<Rightarrow> string"
  en_sha256 :: "string \<Rightarrow> string"
  en_repoOf :: "string \<Rightarrow> string option"
  en_marshalYaml :: "yaml \<Rightarrow> string"
  en_marshalInputs :: "hash_input \<Rightarrow> string option"
  en_linux :: bool
  en_host :: bool
  en_ComposeRuntime :: bool
  en_caps :: capabilities
  en_orch :: orch_env
  en_schedule :: "string list \<Rightarrow> nat \<Rightarrow> nat"
  en_pick :: "nat \<Rightarrow> nat"
  en_fuel :: nat
  en_ComposeBackend :: int
  en_DisableHostPortPublishing :: bool
  en_StrictFeatureVersionMatch :: bool

definition ComposeBackendShellout :: int where [simp]: "ComposeBackendShellout = 0"
definition ComposeBackendNative :: int where [simp]: "ComposeBackendNative = 1"

record build_override =
  br_FinalTag :: string
  br_BaseIsFinal :: bool
  br_NoCache :: bool
  br_Platform :: string
  br_ExtraCacheFrom :: "string list"

record up_options =
  uo_LocalWorkspaceFolder :: string
  uo_ConfigPath :: string
  uo_LocalEnv :: "string gomap option"
  uo_Recreate :: bool
  uo_AdoptExisting :: bool
  uo_PullPolicy :: string
  uo_Lockfile :: string
  uo_SkipLifecycle :: bool
  uo_RunInitializeCommand :: bool
  uo_RunSecretsCommand :: bool
  uo_ExtraMounts :: "mount_spec list"
  uo_ExtraContainerEnv :: "string gomap"
  uo_override :: "build_override option"

definition PullIfNotPresent :: string where [simp]: "PullIfNotPresent = []"
definition PullAlways :: string where [simp]: "PullAlways = ''always''"
definition PullNever :: string where [simp]: "PullNever = ''never''"

section \<open>Errors and sequencing\<close>

datatype up_error =
    UpContext runtime_error
  | OptionRequired string
  | NoConfigFound string
  | FolderNotAbsolute string
  | ReadConfigFailed string
  | ConfigFailed config_error
  | UnknownSource
  | RuntimeCall string runtime_error
  | LockFailed lock_error
  | FeatureOptionsFailed string option_error
  | DependencyRefused string string string
  | FeatureOrderFailed feature_error
  | FeatureContextFailed context_error
  | ComposeNotSupported
  | ServiceUnknown string
  | NeitherImageNorBuild
  | PlanRefused plan_error
  | OverrideFailed override_error
  | OrchestratorFailed orch_error
  | UnknownBackend int
  | HostPortsNeedNative
  | NotStarted string
  | ReattachMiss string
  | InputsNotHashed string
  | ReattachLabel string
  | EngineFailed engine_error
  | LoopFuel

type_synonym 'a result = "(up_error + 'a) prog"

text \<open>\<^verbatim>\<open>if err != nil { return err }\<close> after a function and after a call.\<close>

definition andTry :: "'a result \<Rightarrow> ('a \<Rightarrow> 'b result) \<Rightarrow> 'b result" where
  "andTry p f = andThen p (\<lambda>r. case r of Inl e \<Rightarrow> Ret (Inl e) | Inr x \<Rightarrow> f x)"

definition tryCall :: "call \<Rightarrow> string \<Rightarrow> (resp \<Rightarrow> 'a result) \<Rightarrow> 'a result" where
  "tryCall c what k =
     Do c (\<lambda>r. case errOf r of Some e \<Rightarrow> Ret (Inl (RuntimeCall what e)) | None \<Rightarrow> k r)"

definition tryValue :: "call \<Rightarrow> (resp \<Rightarrow> runtime_error + 'a) \<Rightarrow> string \<Rightarrow> ('a \<Rightarrow> 'b result) \<Rightarrow> 'b result" where
  "tryValue c decode what k =
     Do c (\<lambda>r. case decode r of Inl e \<Rightarrow> Ret (Inl (RuntimeCall what e)) | Inr x \<Rightarrow> k x)"

text \<open>\<^verbatim>\<open>opts.bus.Emit\<close>; the bus of \<^verbatim>\<open>Up\<close>, \<^verbatim>\<open>Build\<close> and \<^verbatim>\<open>Down\<close> always exists.\<close>

definition say :: "event \<Rightarrow> 'a prog \<Rightarrow> 'a prog" where
  "say ev p = Do (Emit ev) (\<lambda>_. p)"

fun sayAll :: "event list \<Rightarrow> 'a prog \<Rightarrow> 'a prog" where
  "sayAll [] p = p"
| "sayAll (ev # evs) p = say ev (sayAll evs p)"

text \<open>\<^verbatim>\<open>defer os.RemoveAll(tmp)\<close>.\<close>

definition thenRemove :: "string \<Rightarrow> 'a prog \<Rightarrow> 'a prog" where
  "thenRemove tmp p = andThen p (\<lambda>x. Do (RemoveAll tmp) (\<lambda>_. Ret x))"

definition ctxIfDone :: "'a result \<Rightarrow> 'a result" where
  "ctxIfDone p = Do CtxErr (\<lambda>r. case errOf r of Some e \<Rightarrow> Ret (Inl (UpContext e)) | None \<Rightarrow> p)"

section \<open>Finding the configuration\<close>

definition environAsMap :: "string list \<Rightarrow> string gomap" where
  "environAsMap env = putEntries (cutc (CHR ''='')) [] env"

fun firstExisting :: "string \<Rightarrow> string list \<Rightarrow> string result" where
  "firstExisting folder [] = Ret (Inl (NoConfigFound folder))"
| "firstExisting folder (p # ps) =
     Do (StatPath p) (\<lambda>r. if errOf r = None then Ret (Inr p) else firstExisting folder ps)"

definition lookupConfigPath :: "string \<Rightarrow> string result" where
  "lookupConfigPath workspaceFolder = firstExisting workspaceFolder
     [pathJoin [workspaceFolder, ''.devcontainer'', ''devcontainer.json''],
      pathJoin [workspaceFolder, ''.devcontainer.json'']]"

definition configPathFor :: "string \<Rightarrow> string \<Rightarrow> string result" where
  "configPathFor workspaceFolder configPath =
     (if configPath = [] then lookupConfigPath workspaceFolder
      else if \<not> isAbsPath configPath then Ret (Inr (pathJoin [workspaceFolder, configPath]))
      else Ret (Inr configPath))"

text \<open>\<^verbatim>\<open>LocalEnv\<close>, or the environment of the process when it is nil.\<close>

definition localEnvOf :: "engine \<Rightarrow> string gomap option \<Rightarrow> string gomap" where
  "localEnvOf en localEnv = (case localEnv of Some m \<Rightarrow> m | None \<Rightarrow> environAsMap (en_environ en))"

text \<open>\<^verbatim>\<open>Resolve\<close> as \<^verbatim>\<open>Up\<close> and \<^verbatim>\<open>Build\<close> call it, without a \<^verbatim>\<open>DevcontainerIDFunc\<close>.\<close>

definition Resolve :: "engine \<Rightarrow> string \<Rightarrow> string \<Rightarrow> string gomap option \<Rightarrow> resolved_config result" where
  "Resolve en folder path0 localEnv =
     ctxIfDone
       (if folder = [] then Ret (Inl (OptionRequired ''LocalWorkspaceFolder''))
        else if \<not> isAbsPath folder then Ret (Inl (FolderNotAbsolute folder))
        else andTry (configPathFor folder path0) (\<lambda>configPath.
          Do (ReadFile configPath) (\<lambda>r.
            case asFile r of
              Inr (Some src) \<Rightarrow>
                Ret (case ResolveBytes (en_toJSON en) src
                       \<lparr>ri_LocalWorkspaceFolder = folder, ri_ConfigPath = configPath,
                        ri_DevcontainerID = DevcontainerID (en_sha256 en) folder configPath,
                        ri_LocalEnv = localEnvOf en localEnv\<rparr> of
                     Inl e \<Rightarrow> Inl (ConfigFailed e)
                   | Inr cfg \<Rightarrow> Inr cfg)
            | _ \<Rightarrow> Ret (Inl (ReadConfigFailed configPath)))))"

section \<open>Labels, names and mounts\<close>

definition LabelDevcontainerID :: string where "LabelDevcontainerID = ''dev.containers.id''"
definition LabelLocalWorkspaceFolder :: string where
  "LabelLocalWorkspaceFolder = ''dev.containers.localWorkspaceFolder''"
definition engineIdent :: string where "engineIdent = ''devcontainer-go/0.1''"

definition containerName :: "string \<Rightarrow> string" where
  "containerName i = ''devcontainer-'' @ i"

definition mountSpecOf :: "mount \<Rightarrow> mount_spec" where
  "mountSpecOf m = \<lparr>ms_Type = m_Type m, ms_Source = m_Source m, ms_Target = m_Target m,
     ms_ReadOnly = m_ReadOnly m, ms_Propagation = []\<rparr>"

definition defaultWorkspaceMount :: "bool \<Rightarrow> resolved_config \<Rightarrow> mount_spec" where
  "defaultWorkspaceMount isLinux cfg =
     (case cfg_WorkspaceMount cfg of
        Some m \<Rightarrow> mountSpecOf m
      | None \<Rightarrow> \<lparr>ms_Type = MountBind, ms_Source = cfg_LocalWorkspaceFolder cfg,
          ms_Target = cfg_ContainerWorkspaceFolder cfg, ms_ReadOnly = False,
          ms_Propagation = (if isLinux then [] else ''consistent'')\<rparr>)"

definition buildMounts :: "bool \<Rightarrow> resolved_config \<Rightarrow> mount_spec list" where
  "buildMounts isLinux cfg = defaultWorkspaceMount isLinux cfg # map mountSpecOf (cfg_Mounts cfg)"

text \<open>\<^verbatim>\<open>nil\<close> and the empty map are the same to the callers.\<close>

definition mergeEnv :: "string gomap \<Rightarrow> string gomap \<Rightarrow> string gomap" where
  "mergeEnv base extras = mputall (mputall [] base) extras"

definition buildRunSpec ::
    "bool \<Rightarrow> resolved_config \<Rightarrow> string \<Rightarrow> mount_spec list \<Rightarrow> string gomap \<Rightarrow> run_spec" where
  "buildRunSpec isLinux cfg img extraMounts extraEnv =
     \<lparr>rs_Image = img, rs_Name = containerName (cfg_DevcontainerID cfg), rs_Cmd = [],
      rs_Entrypoint = [], rs_User = cfg_ContainerUser cfg,
      rs_WorkingDir = cfg_ContainerWorkspaceFolder cfg,
      rs_Env = mergeEnv (cfg_ContainerEnv cfg) extraEnv,
      rs_Labels = [(LabelDevcontainerID, cfg_DevcontainerID cfg),
        (LabelLocalWorkspaceFolder, cfg_LocalWorkspaceFolder cfg), (LabelEngine, engineIdent)],
      rs_Mounts = buildMounts isLinux cfg @ extraMounts, rs_RunArgs = cfg_RunArgs cfg,
      rs_Init = BoolOr (cfg_Init cfg) False, rs_Privileged = BoolOr (cfg_Privileged cfg) False,
      rs_CapAdd = cfg_CapAdd cfg, rs_SecurityOpt = cfg_SecurityOpt cfg, rs_HealthCheck = None,
      rs_Networks = [], rs_NetworkMode = [], rs_PidMode = [], rs_IpcMode = [], rs_Ports = [],
      rs_RestartPolicy = RestartNo, rs_OverrideCommand = BoolOr (cfg_OverrideCommand cfg) True,
      rs_MemoryBytes = 0, rs_NanoCPUs = 0\<rparr>"

fun bindOf :: "mount_inspect list \<Rightarrow> string \<Rightarrow> string" where
  "bindOf [] folder = []"
| "bindOf (m # ms) folder = (if mi_Type m = ''bind'' \<and> mi_Source m = folder then mi_Target m else bindOf ms folder)"

definition workingDirFromInspect :: "container_details \<Rightarrow> string" where
  "workingDirFromInspect d = bindOf (cd_Mounts d) (mget (cd_Labels d) LabelLocalWorkspaceFolder)"

definition configFromContainerLabels :: "container_details \<Rightarrow> resolved_config" where
  "configFromContainerLabels d = emptyConfig\<lparr>
     cfg_LocalWorkspaceFolder := mget (cd_Labels d) LabelLocalWorkspaceFolder,
     cfg_ContainerUser := cd_User d, cfg_ContainerWorkspaceFolder := workingDirFromInspect d\<rparr>"

section \<open>Metadata of images\<close>

text \<open>The layers of the \<^verbatim>\<open>devcontainer.metadata\<close> label of an inspected image, none when it cannot be read.\<close>

definition labelLayers :: "resp \<Rightarrow> feature_metadata list" where
  "labelLayers r =
     (case asImage r of
        None \<Rightarrow> []
      | Some d \<Rightarrow>
          let label = mget (im_Labels d) MetadataLabel in
          if label = [] then []
          else (case ParseMetadataLabel label of None \<Rightarrow> [] | Some layers \<Rightarrow> layers))"

definition mergeContext :: "resolved_config \<Rightarrow> string gomap \<Rightarrow> substitution_context" where
  "mergeContext cfg localEnv =
     \<lparr>sc_LocalWorkspaceFolder = cfg_LocalWorkspaceFolder cfg,
      sc_ContainerWorkspaceFolder = cfg_ContainerWorkspaceFolder cfg,
      sc_DevcontainerID = cfg_DevcontainerID cfg, sc_LocalEnv = localEnv, sc_ContainerEnv = None\<rparr>"

text \<open>The local environment is passed on as it is: a nil one has no variables.\<close>

definition applyMetadataMerge ::
    "resolved_config \<Rightarrow> feature_metadata list \<Rightarrow> string gomap option \<Rightarrow> resolved_config" where
  "applyMetadataMerge cfg baseLayers localEnv =
     (let chain = baseLayers @ map rf_Metadata (filter (\<lambda>f. \<not> rf_AlreadyInstalled f) (cfg_Features cfg))
      in Finalize (MergeMetadata cfg (mergeContext cfg (case localEnv of None \<Rightarrow> [] | Some m \<Rightarrow> m)) chain))"

end
