(* ===== verification/Engine_Features.thy ===== *)
theory Engine_Features
  imports Engine_Types Feature_Match
begin

text \<open>
  Features in \<^verbatim>\<open>Up\<close> and \<^verbatim>\<open>Build\<close> (\<^verbatim>\<open>up.go\<close>): which of them the base image already has, the fetch loop
  with the dependencies it discovers, the lockfile and the image build that layers them.
\<close>

section \<open>Features of the base image\<close>

text \<open>The strings of length one are found with \<open>cutLast\<close>, as \<^verbatim>\<open>lastIndex\<close> does.\<close>

definition ociRefBareID :: "string \<Rightarrow> string" where
  "ociRefBareID ref0 =
     (let ref1 = (case cutLast (CHR ''@'') ref0 of None \<Rightarrow> ref0 | Some (a, d) \<Rightarrow> a);
          ref2 = (case cutLast (CHR '':'') ref1 of
                    None \<Rightarrow> ref1
                  | Some (a, tag) \<Rightarrow> if \<not> containsSub a ''://'' \<or> CHR ''/'' \<in> set tag then a else ref1)
      in case cutLast (CHR ''/'') ref2 of None \<Rightarrow> ref2 | Some (a, b) \<Rightarrow> b)"

definition optionVersionString :: "json gomap option \<Rightarrow> string" where
  "optionVersionString opts =
     (case map_of (mergedOrEmpty opts) ''version'' of Some (JStr v) \<Rightarrow> v | _ \<Rightarrow> [])"

fun findBaked ::
    "match_mode \<Rightarrow> feature_lock \<Rightarrow> resolved_feature \<Rightarrow> feature_metadata \<Rightarrow> feature_metadata list \<Rightarrow>
       feature_metadata option" where
  "findBaked mode lock f req [] = None"
| "findBaked mode lock f req (b # bs) =
     (if Matches b req mode \<and> acceptsBaked lock f b then Some b else findBaked mode lock f req bs)"

definition bakedFeature ::
    "bool \<Rightarrow> resolved_feature \<Rightarrow> feature_metadata list \<Rightarrow> feature_lock \<Rightarrow> feature_metadata option" where
  "bakedFeature strict f baked lock =
     (if rf_SourceKind f \<noteq> FeatureSourceOCI then None
      else let req = emptyMetadata\<lparr>fm_ID := ociRefBareID (rf_Ref f),
                 fm_Version := optionVersionString (rf_Options f)\<rparr>
           in if fm_ID req = [] then None
              else findBaked (if strict then MatchStrict else MatchPermissive) lock f req baked)"

definition markFeature ::
    "bool \<Rightarrow> feature_metadata list \<Rightarrow> feature_lock \<Rightarrow> resolved_feature \<Rightarrow> resolved_feature" where
  "markFeature strict baked lock f =
     (if rf_AlreadyInstalled f then f
      else case bakedFeature strict f baked lock of
             None \<Rightarrow> f
           | Some meta \<Rightarrow> f\<lparr>rf_AlreadyInstalled := True, rf_Metadata := meta,
               rf_ResolvedRef := fm_ResolvedRef meta\<rparr>)"

definition markAlreadyInstalled ::
    "bool \<Rightarrow> feature_metadata list \<Rightarrow> feature_lock \<Rightarrow> resolved_feature list \<Rightarrow> resolved_feature list" where
  "markAlreadyInstalled strict baked lock fs = map (markFeature strict baked lock) fs"

definition skippedFromLabel :: "resolved_feature list \<Rightarrow> event list" where
  "skippedFromLabel fs =
     map (\<lambda>f. FeatureSkippedEvent (rf_Ref f) ''base_image_label'') (filter rf_AlreadyInstalled fs)"

section \<open>Dependencies\<close>

definition ResolveLocalRef :: "string \<Rightarrow> string \<Rightarrow> string" where
  "ResolveLocalRef configDir ref =
     (if isAbsPath ref then pathClean ref else pathClean (pathJoin [configDir, ref]))"

definition requested :: "resolved_feature list \<Rightarrow> string \<Rightarrow> json gomap \<Rightarrow> bool" where
  "requested fs key opts \<longleftrightarrow> list_ex (\<lambda>g. rf_Ref g = key \<and> SameOptions g opts) fs"

definition sameOptionMaps :: "json gomap option \<Rightarrow> json gomap option \<Rightarrow> bool" where
  "sameOptionMaps a b =
     (case (a, b) of (None, None) \<Rightarrow> True | (Some m, Some n) \<Rightarrow> deepEqualMaps m n | _ \<Rightarrow> False)"

definition duplicateFeature :: "resolved_feature list \<Rightarrow> resolved_feature \<Rightarrow> bool" where
  "duplicateFeature earlier f \<longleftrightarrow>
     list_ex (\<lambda>g. rf_ResolvedRef g \<noteq> [] \<and> rf_ResolvedRef g = rf_ResolvedRef f
       \<and> sameOptionMaps (rf_Options g) (rf_Options f)) earlier"

text \<open>\<^verbatim>\<open>filepath.Rel\<close> on Unix, on the elements of the two clean paths.\<close>

definition wordsOf :: "string \<Rightarrow> string list" where
  "wordsOf p = (if p = [] then [] else splitc (CHR ''/'') p)"

fun dropCommon :: "string list \<Rightarrow> string list \<Rightarrow> string list \<times> string list" where
  "dropCommon (a # as) (b # bs) = (if a = b then dropCommon as bs else (a # as, b # bs))"
| "dropCommon as bs = (as, bs)"

definition pathRel :: "string \<Rightarrow> string \<Rightarrow> string option" where
  "pathRel basepath targpath =
     (let base = pathClean basepath; targ = pathClean targpath in
      if base = targ then Some ''.''
      else let base' = (if base = ''.'' then [] else base) in
      if isAbsPath base' \<noteq> isAbsPath targ then None
      else case dropCommon (wordsOf base') (wordsOf targ) of (bs, ts) \<Rightarrow>
        let b = joinWith ''/'' bs; t = joinWith ''/'' ts in
        if b \<noteq> [] \<and> ts \<noteq> [] \<and> t \<noteq> [] \<and> hd bs = ''..'' then None
        else if b = [] then Some t
        else Some (joinWith ''/'' (map (\<lambda>_. ''..'') bs @ (if t = [] then [] else [t]))))"

definition outsideOf :: "string \<Rightarrow> string \<Rightarrow> bool" where
  "outsideOf folder path \<longleftrightarrow>
     (case pathRel folder path of None \<Rightarrow> True | Some rel \<Rightarrow> rel = ''..'' \<or> hasPrefix rel ''../'')"

definition checkLocalDependency :: "string \<Rightarrow> resolved_feature \<Rightarrow> string \<Rightarrow> unit result" where
  "checkLocalDependency configDir f key =
     (if rf_SourceKind f \<noteq> FeatureSourceLocal
      then Ret (Inl (DependencyRefused (rf_Ref f) key ''only a local feature may depend on a local path''))
      else if isAbsPath key
      then Ret (Inl (DependencyRefused (rf_Ref f) key ''a local dependency must be a relative path''))
      else tryValue (EvalSymlinks configDir) asStr ''dependsOn'' (\<lambda>folder.
        tryValue (EvalSymlinks (ResolveLocalRef configDir key)) asStr ''dependsOn'' (\<lambda>path.
          Ret (if outsideOf folder path then Inl (DependencyRefused (rf_Ref f) key path) else Inr ()))))"

definition newDependency :: "string \<Rightarrow> json gomap \<Rightarrow> resolved_feature" where
  "newDependency key opts =
     \<lparr>rf_Ref = key, rf_ResolvedRef = [], rf_Dir = [], rf_Metadata = emptyMetadata,
      rf_Options = Some opts, rf_SourceKind = ClassifyFeatureRef key, rf_AlreadyInstalled = False\<rparr>"

definition dependencyOptions :: "resolved_feature \<Rightarrow> string \<Rightarrow> json gomap" where
  "dependencyOptions f key =
     (case map_of (case fm_DependsOn (rf_Metadata f) of None \<Rightarrow> [] | Some d \<Rightarrow> d) key of
        None \<Rightarrow> [] | Some opts \<Rightarrow> opts)"

fun dependencyLoop ::
    "string \<Rightarrow> resolved_feature list \<Rightarrow> resolved_feature \<Rightarrow> string list \<Rightarrow> resolved_feature list \<Rightarrow>
       resolved_feature list result" where
  "dependencyLoop configDir fs f [] out = Ret (Inr out)"
| "dependencyLoop configDir fs f (key # ks) out =
     (let opts = dependencyOptions f key; dep = newDependency key opts in
      if requested fs key opts \<or> requested out key opts then dependencyLoop configDir fs f ks out
      else andTry (if rf_SourceKind dep = FeatureSourceLocal then checkLocalDependency configDir f key
                   else Ret (Inr ()))
             (\<lambda>_. dependencyLoop configDir fs f ks (out @ [dep])))"

definition dependencies ::
    "resolved_feature list \<Rightarrow> resolved_feature \<Rightarrow> string \<Rightarrow> resolved_feature list result" where
  "dependencies fs f configDir = dependencyLoop configDir fs f (dependsOnKeys (rf_Metadata f)) []"

definition bakedDependsOn :: "resolved_feature \<Rightarrow> json gomap gomap result" where
  "bakedDependsOn f =
     (let ref = (if rf_ResolvedRef f \<noteq> [] \<and> rf_SourceKind f = FeatureSourceOCI then rf_ResolvedRef f else rf_Ref f)
      in tryValue (FetchFeature ref (rf_SourceKind f)) asFetched ''read dependsOn of baked feature'' (\<lambda>fetched.
        Ret (Inr (case fm_DependsOn (fe_Metadata fetched) of None \<Rightarrow> [] | Some d \<Rightarrow> d))))"

section \<open>The fetch loop\<close>

definition fetchRef ::
    "engine \<Rightarrow> string \<Rightarrow> resolved_feature \<Rightarrow> locked_feature option \<Rightarrow> lock_error + string" where
  "fetchRef en configDir f pinned =
     (case pinned of
        Some p \<Rightarrow> PinnedRef (en_repoOf en) f p
      | None \<Rightarrow> Inr (if rf_SourceKind f = FeatureSourceLocal then ResolveLocalRef configDir (rf_Ref f) else rf_Ref f))"

text \<open>One fetch: the pin, the download, the integrity check and the options.\<close>

definition fetchFeature ::
    "engine \<Rightarrow> feature_lock \<Rightarrow> string \<Rightarrow> resolved_feature \<Rightarrow> (resolved_feature \<times> warning list) result" where
  "fetchFeature en lock configDir f =
     (let pinned = pin lock f in
      case fetchRef en configDir f pinned of
        Inl e \<Rightarrow> Ret (Inl (LockFailed e))
      | Inr ref \<Rightarrow>
          say (FeatureResolveStartEvent (rf_Ref f))
            (tryValue (FetchFeature ref (rf_SourceKind f)) asFetched ''fetch feature'' (\<lambda>fetched.
              case (case pinned of None \<Rightarrow> None | Some p \<Rightarrow> CheckIntegrity f (fe_ResolvedRef fetched) p) of
                Some e \<Rightarrow> Ret (Inl (LockFailed e))
              | None \<Rightarrow>
                  say (FeatureResolvedEvent (rf_Ref f) (fe_ResolvedRef fetched))
                    (Ret (case MergeOptions (fe_Metadata fetched) (mergedOrEmpty (rf_Options f)) of
                       (ws, Inl e) \<Rightarrow> Inl (FeatureOptionsFailed (rf_Ref f) e)
                     | (ws, Inr merged) \<Rightarrow>
                         Inr (f\<lparr>rf_Dir := fe_Dir fetched, rf_ResolvedRef := fe_ResolvedRef fetched,
                                rf_Metadata := fe_Metadata fetched, rf_Options := Some merged\<rparr>, ws))))))"

text \<open>A feature the image installs: its dependencies are read when its label does not record them.\<close>

definition knownDependsOn :: "resolved_feature \<Rightarrow> resolved_feature result" where
  "knownDependsOn f =
     (if fm_DependsOn (rf_Metadata f) = None
      then andTry (bakedDependsOn f) (\<lambda>deps.
             Ret (Inr (f\<lparr>rf_Metadata := (rf_Metadata f)\<lparr>fm_DependsOn := Some deps\<rparr>\<rparr>)))
      else Ret (Inr f))"

text \<open>
  \<^verbatim>\<open>cfg.Features\<close> is \<open>before @ after\<close>, with the index of the loop at the first of \<open>after\<close>. Dependencies
  are appended as long as fetched metadata names new ones, so the loop runs on fuel.
\<close>

fun fetchLoop ::
    "engine \<Rightarrow> feature_lock \<Rightarrow> string \<Rightarrow> nat \<Rightarrow> resolved_feature list \<Rightarrow> resolved_feature list \<Rightarrow>
       resolved_feature list \<Rightarrow> warning list \<Rightarrow>
       (resolved_feature list \<times> resolved_feature list \<times> warning list) result" where
  "fetchLoop en lock configDir fuel before [] aliases ws = Ret (Inr (before, aliases, ws))"
| "fetchLoop en lock configDir 0 before (f # after) aliases ws = Ret (Inl LoopFuel)"
| "fetchLoop en lock configDir (Suc fuel) before (f # after) aliases ws =
     (if rf_AlreadyInstalled f
      then andTry (knownDependsOn f) (\<lambda>f'.
        andTry (dependencies (before @ f' # after) f' configDir) (\<lambda>deps.
          fetchLoop en lock configDir fuel (before @ [f']) (after @ deps) aliases ws))
      else if rf_Dir f \<noteq> [] then fetchLoop en lock configDir fuel (before @ [f]) after aliases ws
      else andTry (fetchFeature en lock configDir f) (\<lambda>(f', mwarns).
        if duplicateFeature before f'
        then fetchLoop en lock configDir fuel before after (aliases @ [f']) (ws @ mwarns)
        else andTry (dependencies (before @ f' # after) f' configDir) (\<lambda>deps.
          fetchLoop en lock configDir fuel (before @ [f']) (after @ deps) aliases (ws @ mwarns))))"

section \<open>Layering\<close>

definition lockResult :: "lock_error option prog \<Rightarrow> unit result" where
  "lockResult p = andThen p (\<lambda>r. Ret (case r of Some e \<Rightarrow> Inl (LockFailed e) | None \<Rightarrow> Inr ()))"

definition finalTagOf :: "resolved_config \<Rightarrow> build_override option \<Rightarrow> string" where
  "finalTagOf cfg ov =
     (case ov of
        Some b \<Rightarrow> if \<not> br_BaseIsFinal b \<and> br_FinalTag b \<noteq> [] then br_FinalTag b
                  else ''dc-go-final-'' @ cfg_DevcontainerID cfg @ '':latest''
      | None \<Rightarrow> ''dc-go-final-'' @ cfg_DevcontainerID cfg @ '':latest'')"

definition featureBuildSpec :: "string \<Rightarrow> string \<Rightarrow> string \<Rightarrow> build_override option \<Rightarrow> build_spec" where
  "featureBuildSpec tmp tag baseImage ov =
     \<lparr>bd_ContextPath = tmp, bd_Dockerfile = ''Dockerfile'', bd_Tag = tag,
      bd_Args = [(''_DEV_CONTAINERS_BASE_IMAGE'', baseImage)], bd_Target = [],
      bd_CacheFrom = (case ov of None \<Rightarrow> [] | Some b \<Rightarrow> br_ExtraCacheFrom b),
      bd_NoCache = (case ov of None \<Rightarrow> False | Some b \<Rightarrow> br_NoCache b),
      bd_Platform = (case ov of None \<Rightarrow> [] | Some b \<Rightarrow> br_Platform b)\<rparr>"

definition buildFeatures ::
    "resolved_config \<Rightarrow> build_plan \<Rightarrow> build_override option \<Rightarrow> string result" where
  "buildFeatures cfg plan ov =
     (let tag = finalTagOf cfg ov in
      tryValue (MkdirTemp ''dc-go-build-*'') asStr ''create build context tmpdir'' (\<lambda>tmp.
        thenRemove tmp (andThen (GenerateBuildContext plan tmp) (\<lambda>ce.
          case ce of
            Some e \<Rightarrow> Ret (Inl (FeatureContextFailed e))
          | None \<Rightarrow>
              say (BuildStartEvent ''features'' tag)
                (tryCall (BuildImage (featureBuildSpec tmp tag (bp_BaseImage plan) ov))
                   ''build feature-extended image'' (\<lambda>_. Ret (Inr tag)))))))"

definition planOf :: "resolved_config \<Rightarrow> string \<Rightarrow> feature_metadata list \<Rightarrow> build_plan" where
  "planOf cfg baseImage baseMeta =
     \<lparr>bp_BaseImage = baseImage, bp_Features = cfg_Features cfg, bp_RemoteUser = cfg_RemoteUser cfg,
      bp_ContainerUser = cfg_ContainerUser cfg, bp_BaseImageMetadata = baseMeta\<rparr>"

text \<open>Fetching, locking and ordering the features of the configuration.\<close>

definition settleFeatures ::
    "engine \<Rightarrow> up_options \<Rightarrow> resolved_config \<Rightarrow> feature_metadata list \<Rightarrow> resolved_config result" where
  "settleFeatures en opts cfg baseMeta =
     andTry (andThen (loadFeatureLock (uo_Lockfile opts) (uo_ConfigPath opts)) (\<lambda>r.
         Ret (case r of Inl e \<Rightarrow> Inl (LockFailed e) | Inr l \<Rightarrow> Inr l))) (\<lambda>lock.
       let marked = markAlreadyInstalled (en_StrictFeatureVersionMatch en) baseMeta lock (cfg_Features cfg) in
       sayAll (skippedFromLabel marked)
         (andTry (fetchLoop en lock (pathDir (uo_ConfigPath opts)) (en_fuel en) [] marked [] [])
           (\<lambda>(features, aliases, mwarns).
             andTry (lockResult (commit lock (features @ aliases))) (\<lambda>_.
               Ret (case Order features [] of
                      Inl e \<Rightarrow> Inl (FeatureOrderFailed e)
                    | Inr (fs, owarns) \<Rightarrow>
                        Inr (cfg\<lparr>cfg_Features := fs,
                          cfg_Warnings := cfg_Warnings cfg @ mwarns @ owarns\<rparr>))))))"

text \<open>The configuration, the image and the layers of the base image's label.\<close>

definition layerFeatures ::
    "engine \<Rightarrow> up_options \<Rightarrow> resolved_config \<Rightarrow> string \<Rightarrow>
       (resolved_config \<times> string \<times> feature_metadata list) result" where
  "layerFeatures en opts cfg baseImage =
     Do (InspectImage baseImage) (\<lambda>r.
       let baseMeta = labelLayers r in
       if cfg_Features cfg = []
       then andTry (lockResult (commitNoFeatures (uo_Lockfile opts) (uo_ConfigPath opts)))
              (\<lambda>_. Ret (Inr (cfg, baseImage, baseMeta)))
       else andTry (settleFeatures en opts cfg baseMeta) (\<lambda>cfg'.
         let plan = planOf cfg' baseImage baseMeta in
         if \<not> HasWork plan then Ret (Inr (cfg', baseImage, baseMeta))
         else andTry (buildFeatures cfg' plan (uo_override opts)) (\<lambda>tag. Ret (Inr (cfg', tag, baseMeta)))))"

end
