(* ===== verification/Engine_Image.thy ===== *)
theory Engine_Image
  imports Engine_Features
begin

text \<open>
  Image and build sources (\<^verbatim>\<open>up.go\<close>): the base image, the layer that matches the user id of the host
  (\<^verbatim>\<open>useruid.go\<close>), creating or attaching the container, and \<^verbatim>\<open>Engine.Build\<close> (\<^verbatim>\<open>build.go\<close>).
\<close>

section \<open>The base image\<close>

definition ensureImage :: "string \<Rightarrow> string \<Rightarrow> unit result" where
  "ensureImage ref policy =
     (if policy = PullAlways then tryCall (PullImage ref) ''pull'' (\<lambda>_. Ret (Inr ()))
      else if policy = PullNever then Ret (Inr ())
      else Do (InspectImage ref) (\<lambda>r.
        if errOf r = None then Ret (Inr ())
        else tryCall (PullImage ref) ''pull'' (\<lambda>_. Ret (Inr ()))))"

definition baseTagOf :: "resolved_config \<Rightarrow> build_override option \<Rightarrow> string" where
  "baseTagOf cfg ov =
     (case ov of
        Some b \<Rightarrow> if br_BaseIsFinal b \<and> br_FinalTag b \<noteq> [] then br_FinalTag b
                  else ''dc-go-base-'' @ cfg_DevcontainerID cfg @ '':latest''
      | None \<Rightarrow> ''dc-go-base-'' @ cfg_DevcontainerID cfg @ '':latest'')"

definition baseBuildSpec :: "build_source \<Rightarrow> string \<Rightarrow> build_override option \<Rightarrow> build_spec" where
  "baseBuildSpec s tag ov =
     \<lparr>bd_ContextPath = bs_Context s, bd_Dockerfile = bs_Dockerfile s, bd_Tag = tag, bd_Args = bs_Args s,
      bd_Target = bs_Target s,
      bd_CacheFrom = bs_CacheFrom s @ (case ov of None \<Rightarrow> [] | Some b \<Rightarrow> br_ExtraCacheFrom b),
      bd_NoCache = (case ov of None \<Rightarrow> False | Some b \<Rightarrow> br_NoCache b),
      bd_Platform = (case ov of None \<Rightarrow> [] | Some b \<Rightarrow> br_Platform b)\<rparr>"

definition prepareBaseImage :: "resolved_config \<Rightarrow> up_options \<Rightarrow> string result" where
  "prepareBaseImage cfg opts =
     (case cfg_Source cfg of
        Some (ImageSource img) \<Rightarrow>
          say (BuildStartEvent ''image'' img)
            (andTry (ensureImage img (uo_PullPolicy opts)) (\<lambda>_. Ret (Inr img)))
      | Some (BuildSource s) \<Rightarrow>
          let tag = baseTagOf cfg (uo_override opts) in
          say (BuildStartEvent ''dockerfile'' tag)
            (tryCall (BuildImage (baseBuildSpec s tag (uo_override opts))) ''build base image''
              (\<lambda>_. Ret (Inr tag)))
      | _ \<Rightarrow> Ret (Inl UnknownSource))"

section \<open>The user id of the host\<close>

definition WarnUIDReconcileSkipped :: string where "WarnUIDReconcileSkipped = ''uid_reconcile_skipped''"

definition effectiveContainerUser :: "resolved_config \<Rightarrow> string \<Rightarrow> (runtime_error + string) prog" where
  "effectiveContainerUser cfg img =
     (if cfg_RemoteUser cfg \<noteq> [] then Ret (Inr (cfg_RemoteUser cfg))
      else if cfg_ContainerUser cfg \<noteq> [] then Ret (Inr (cfg_ContainerUser cfg))
      else Do (InspectImage img) (\<lambda>r.
        Ret (case errOf r of
               Some e \<Rightarrow> Inl e
             | None \<Rightarrow> Inr (case asImage r of None \<Rightarrow> [] | Some d \<Rightarrow> im_User d))))"

definition uidSkipped :: "resolved_config \<Rightarrow> string \<Rightarrow> resolved_config" where
  "uidSkipped cfg img = cfg\<lparr>cfg_Warnings := cfg_Warnings cfg @
     [(mkWarning WarnUIDReconcileSkipped
        ''updateRemoteUserUID: could not determine effective container user; skipping reconciliation'')
        \<lparr>w_Source := img\<rparr>]\<rparr>"

definition generateUIDDockerfile :: "string \<Rightarrow> string \<Rightarrow> int \<Rightarrow> int \<Rightarrow> string" where
  "generateUIDDockerfile baseImage user hostUID hostGID =
     ''ARG _DEV_CONTAINERS_BASE_IMAGE='' @ baseImage @ newLine
     @ ''FROM $_DEV_CONTAINERS_BASE_IMAGE'' @ newLine
     @ ''USER root'' @ newLine
     @ ''ARG _REMOTE_USER='' @ user @ newLine
     @ ''ARG _REMOTE_USER_UID='' @ itoa hostUID @ newLine
     @ ''ARG _REMOTE_USER_GID='' @ itoa hostGID @ newLine
     @ ''COPY uid-fix.sh /tmp/uid-fix.sh'' @ newLine
     @ ''RUN chmod +x /tmp/uid-fix.sh && /bin/sh /tmp/uid-fix.sh && rm /tmp/uid-fix.sh'' @ newLine"

definition uidReconcileScript :: string where
  \<open>uidReconcileScript = concat (map (\<lambda>line. line @ newLine) [
      ''#!/bin/sh'',
      ''set -eu'',
      [],
      ''rewrite_file() {'',
      ''    # $1 = path. Reads stdin, writes back to $1 in place.'',
      ''    tmp=$1.dc-uid-tmp'',
      ''    cat > "$tmp"'',
      ''    cat "$tmp" > "$1"'',
      ''    rm "$tmp"'',
      ''}'',
      [],
      ''USER_LINE=$(awk -F: -v u="$_REMOTE_USER" '$1==u {print; exit}' /etc/passwd)'',
      ''if [ -z "$USER_LINE" ]; then'',
      ''    echo "updateRemoteUserUID: user $_REMOTE_USER not found in /etc/passwd; skipping" >&2'',
      ''    exit 0'',
      ''fi'',
      ''CUR_UID=$(echo "$USER_LINE" | awk -F: '{print $3}')'',
      ''CUR_GID=$(echo "$USER_LINE" | awk -F: '{print $4}')'',
      ''HOME_DIR=$(echo "$USER_LINE" | awk -F: '{print $6}')'',
      [],
      ''if [ "$CUR_UID" = "$_REMOTE_USER_UID" ] && [ "$CUR_GID" = "$_REMOTE_USER_GID" ]; then'',
      ''    exit 0'',
      ''fi'',
      [],
      ''# Re-map the user's primary group to the target GID, but only if no'',
      ''# other group already owns that GID (avoid duplicate-GID conflicts;'',
      ''# fall through to just re-pointing the user instead).'',
      ''if [ "$CUR_GID" != "$_REMOTE_USER_GID" ]; then'',
      ''    if ! awk -F: -v g="$_REMOTE_USER_GID" '$3==g {found=1} END {exit !found+0}' /etc/group; then'',
      ''        awk -F: -v OFS=: -v cg="$CUR_GID" -v ng="$_REMOTE_USER_GID" '' @ [CHR 0x27],
      ''            $3==cg { $3=ng } { print }'',
      ''        ' /etc/group | rewrite_file /etc/group'',
      ''    fi'',
      ''fi'',
      [],
      ''# Rewrite the user's row in /etc/passwd, swapping just UID and GID.'',
      ''awk -F: -v OFS=: -v u="$_REMOTE_USER" -v nu="$_REMOTE_USER_UID" -v ng="$_REMOTE_USER_GID" '' @ [CHR 0x27],
      ''    $1==u { $3=nu; $4=ng } { print }'',
      [CHR 0x27] @ '' /etc/passwd | rewrite_file /etc/passwd'',
      [],
      ''if [ -n "$HOME_DIR" ] && [ -d "$HOME_DIR" ]; then'',
      ''    chown -R "$_REMOTE_USER_UID:$_REMOTE_USER_GID" "$HOME_DIR"'',
      ''fi''])\<close>

text \<open>The build of the derived image.\<close>

definition buildUIDImage ::
    "resolved_config \<Rightarrow> string \<Rightarrow> string \<Rightarrow> int \<Rightarrow> int \<Rightarrow> string result" where
  "buildUIDImage cfg img user uid gid =
     (let tag = ''dc-go-uid-'' @ cfg_DevcontainerID cfg @ '':latest'' in
      tryValue (MkdirTemp ''dc-go-uid-*'') asStr ''create uid build context'' (\<lambda>tmp.
        thenRemove tmp
          (let fix = pathJoin [tmp, ''uid-fix.sh'']; df = pathJoin [tmp, ''Dockerfile''] in
           tryCall (WriteFile fix uidReconcileScript) ''write'' (\<lambda>_.
           tryCall (Chtimes fix) ''chtimes'' (\<lambda>_.
           tryCall (WriteFile df (generateUIDDockerfile img user uid gid)) ''write'' (\<lambda>_.
           tryCall (Chtimes df) ''chtimes'' (\<lambda>_.
             say (BuildStartEvent ''uid_reconcile'' tag)
               (tryCall (BuildImage \<lparr>bd_ContextPath = tmp, bd_Dockerfile = ''Dockerfile'', bd_Tag = tag,
                    bd_Args = [], bd_Target = [], bd_CacheFrom = [], bd_NoCache = False, bd_Platform = []\<rparr>)
                 ''build uid-reconciled image'' (\<lambda>_. Ret (Inr tag))))))))))"

definition reconcileRemoteUserUID ::
    "engine \<Rightarrow> resolved_config \<Rightarrow> string \<Rightarrow> (resolved_config \<times> string) result" where
  "reconcileRemoteUserUID en cfg finalImage =
     (if cfg_UpdateRemoteUserUID cfg = Some False \<or> \<not> en_linux en then Ret (Inr (cfg, finalImage))
      else Do (StatOwner (cfg_LocalWorkspaceFolder cfg)) (\<lambda>so.
        case asOwner so of
          None \<Rightarrow> Ret (Inr (cfg, finalImage))
        | Some (uid, gid) \<Rightarrow>
            if uid = 0 then Ret (Inr (cfg, finalImage))
            else andThen (effectiveContainerUser cfg finalImage) (\<lambda>ur.
              case ur of
                Inl e \<Rightarrow> Ret (Inr (uidSkipped cfg finalImage, finalImage))
              | Inr user \<Rightarrow>
                  if user \<in> {[], ''root'', ''0''} then Ret (Inr (cfg, finalImage))
                  else andTry (buildUIDImage cfg finalImage user uid gid)
                         (\<lambda>tag. Ret (Inr (cfg, tag))))))"

section \<open>The workspace of a container\<close>

text \<open>Up to five looks at the container, with a pause that doubles from 50ms while below a second.\<close>

fun inspectLoop :: "nat \<Rightarrow> int \<Rightarrow> string \<Rightarrow> container_details option \<Rightarrow> container_details result" where
  "inspectLoop 0 backoff i seen =
     Ret (case seen of None \<Rightarrow> Inl (RuntimeCall ''inspect container'' badShape) | Some d \<Rightarrow> Inr d)"
| "inspectLoop (Suc n) backoff i seen =
     Do (InspectContainer i) (\<lambda>r.
       case asDetails r of
         None \<Rightarrow> Ret (Inl (RuntimeCall ''inspect container'' (case errOf r of Some e \<Rightarrow> e | None \<Rightarrow> badShape)))
       | Some d \<Rightarrow>
           if ct_State (cd_Container d) = StateRunning then Ret (Inr d)
           else Do (Sleep backoff) (\<lambda>sr.
             case errOf sr of
               Some e \<Rightarrow> Ret (Inl (RuntimeCall ''inspect container'' e))
             | None \<Rightarrow> inspectLoop n (if backoff < 1000000000 then 2 * backoff else backoff) i (Some d)))"

definition inspectStable :: "string \<Rightarrow> container_details result" where
  "inspectStable i = inspectLoop 5 50000000 i None"

definition buildWorkspace ::
    "engine \<Rightarrow> string \<Rightarrow> resolved_config \<Rightarrow> string gomap option \<Rightarrow> workspace result" where
  "buildWorkspace en i cfg localEnv =
     andTry (inspectStable i) (\<lambda>details.
       Ret (Inr \<lparr>ws_ID = cfg_DevcontainerID cfg, ws_Config = cfg, ws_Container = details,
         ws_subst = newSubstituter cfg details (localEnvOf en localEnv), ws_probedEnv = []\<rparr>))"

definition startedEvent :: "string \<Rightarrow> 'a prog \<Rightarrow> 'a prog" where
  "startedEvent i p = Do Now (\<lambda>t. say (ContainerStartedEvent i (asTime t)) p)"

section \<open>Attaching and creating\<close>

definition attachExisting ::
    "engine \<Rightarrow> container \<Rightarrow> resolved_config \<Rightarrow> up_options \<Rightarrow> workspace result" where
  "attachExisting en c cfg opts =
     (let rest = Do (InspectImage (ct_Image c)) (\<lambda>r.
            buildWorkspace en (ct_ID c) (applyMetadataMerge cfg (labelLayers r) (uo_LocalEnv opts))
              (uo_LocalEnv opts))
      in if ct_State c = StateRunning then rest
         else tryCall (StartContainer (ct_ID c)) ''start existing container'' (\<lambda>_.
           startedEvent (ct_ID c) rest))"

definition secretsEnv :: "engine \<Rightarrow> resolved_config \<Rightarrow> up_options \<Rightarrow> string gomap result" where
  "secretsEnv en cfg opts =
     andThen (collectSecretsEnv (en_host en) cfg (uo_RunSecretsCommand opts) (uo_ExtraContainerEnv opts))
       (\<lambda>r. Ret (case r of Inl e \<Rightarrow> Inl (EngineFailed e) | Inr env \<Rightarrow> Inr env))"

text \<open>From the specification of the container to the workspace.\<close>

definition runFresh :: "engine \<Rightarrow> resolved_config \<Rightarrow> up_options \<Rightarrow> run_spec \<Rightarrow> workspace result" where
  "runFresh en cfg opts spec =
     say (ContainerCreatingEvent (rs_Name spec))
       (tryValue (RunContainer spec) asContainer ''create container'' (\<lambda>c.
         say (ContainerCreatedEvent (ct_ID c) (rs_Name spec))
           (Do (StartContainer (ct_ID c)) (\<lambda>r.
              case errOf r of
                Some e \<Rightarrow> Do (RemoveContainer (ct_ID c)) (\<lambda>_. Ret (Inl (RuntimeCall ''start container'' e)))
              | None \<Rightarrow> startedEvent (ct_ID c)
                  (buildWorkspace en (ct_ID c) cfg (uo_LocalEnv opts))))))"

definition createFresh :: "engine \<Rightarrow> resolved_config \<Rightarrow> up_options \<Rightarrow> workspace result" where
  "createFresh en cfg opts =
     andTry (prepareBaseImage cfg opts) (\<lambda>baseImage.
     andTry (layerFeatures en opts cfg baseImage) (\<lambda>(cfg1, image1, baseLayers).
     andTry (reconcileRemoteUserUID en (applyMetadataMerge cfg1 baseLayers (uo_LocalEnv opts)) image1)
       (\<lambda>(cfg2, image2).
     andTry (secretsEnv en cfg2 opts) (\<lambda>extraEnv.
       runFresh en cfg2 opts (buildRunSpec (en_linux en) cfg2 image2 (uo_ExtraMounts opts) extraEnv)))))"

text \<open>The container is stopped, whatever that gives, and removed by force.\<close>

definition removeExisting :: "string \<Rightarrow> unit result" where
  "removeExisting i =
     Do (StopContainer i) (\<lambda>_. tryCall (RemoveContainer i) ''remove existing container'' (\<lambda>_. Ret (Inr ())))"

section \<open>Build\<close>

record build_options =
  ub_LocalWorkspaceFolder :: string
  ub_ConfigPath :: string
  ub_LocalEnv :: "string gomap option"
  ub_ImageName :: string
  ub_NoCache :: bool
  ub_PullPolicy :: string
  ub_Lockfile :: string
  ub_Platform :: string
  ub_CacheFrom :: "string list"

definition retagSpec :: "string \<Rightarrow> string \<Rightarrow> build_override \<Rightarrow> build_spec" where
  "retagSpec tmp target b =
     \<lparr>bd_ContextPath = tmp, bd_Dockerfile = ''Dockerfile'', bd_Tag = target, bd_Args = [], bd_Target = [],
      bd_CacheFrom = br_ExtraCacheFrom b, bd_NoCache = br_NoCache b, bd_Platform = br_Platform b\<rparr>"

definition retagImage :: "string \<Rightarrow> string \<Rightarrow> build_override \<Rightarrow> string result" where
  "retagImage srcImage target b =
     tryValue (MkdirTemp ''dc-go-retag-*'') asStr ''retag: create tmpdir'' (\<lambda>tmp.
       thenRemove tmp
         (tryCall (WriteFile (pathJoin [tmp, ''Dockerfile'']) (''FROM '' @ srcImage @ newLine))
            ''retag: write Dockerfile'' (\<lambda>_.
            say (BuildStartEvent ''dockerfile'' target)
              (tryCall (BuildImage (retagSpec tmp target b)) ''retag'' (\<lambda>_. Ret (Inr target))))))"

definition isBuildSource :: "resolved_config \<Rightarrow> bool" where
  "isBuildSource cfg = (case cfg_Source cfg of Some (BuildSource s) \<Rightarrow> True | _ \<Rightarrow> False)"

definition overrideOf :: "build_options \<Rightarrow> resolved_config \<Rightarrow> build_override" where
  "overrideOf opts cfg =
     \<lparr>br_FinalTag = ub_ImageName opts,
      br_BaseIsFinal = (isBuildSource cfg \<and> cfg_Features cfg = []),
      br_NoCache = ub_NoCache opts, br_Platform = ub_Platform opts, br_ExtraCacheFrom = ub_CacheFrom opts\<rparr>"

definition upOptionsOf :: "build_options \<Rightarrow> string \<Rightarrow> build_override \<Rightarrow> up_options" where
  "upOptionsOf opts path b =
     \<lparr>uo_LocalWorkspaceFolder = ub_LocalWorkspaceFolder opts, uo_ConfigPath = path,
      uo_LocalEnv = ub_LocalEnv opts, uo_Recreate = False, uo_AdoptExisting = False,
      uo_PullPolicy = ub_PullPolicy opts, uo_Lockfile = ub_Lockfile opts, uo_SkipLifecycle = False,
      uo_RunInitializeCommand = False, uo_RunSecretsCommand = False, uo_ExtraMounts = [],
      uo_ExtraContainerEnv = [], uo_override = Some b\<rparr>"

definition resolvedEvents :: "resolved_config \<Rightarrow> event list" where
  "resolvedEvents cfg =
     ConfigResolvedEvent cfg # map (\<lambda>w. ConfigWarningEvent (w_Code w) (w_Message w)) (cfg_Warnings cfg)"

definition isComposeSource :: "resolved_config \<Rightarrow> bool" where
  "isComposeSource cfg = (case cfg_Source cfg of Some (ComposeSource s) \<Rightarrow> True | _ \<Rightarrow> False)"

definition EngineBuild :: "engine \<Rightarrow> build_options \<Rightarrow> string result" where
  "EngineBuild en opts =
     ctxIfDone
       (if ub_LocalWorkspaceFolder opts = [] then Ret (Inl (OptionRequired ''LocalWorkspaceFolder''))
        else andTry (configPathFor (ub_LocalWorkspaceFolder opts) (ub_ConfigPath opts)) (\<lambda>path.
          andTry (Resolve en (ub_LocalWorkspaceFolder opts) path (ub_LocalEnv opts)) (\<lambda>cfg.
            sayAll (resolvedEvents cfg)
              (if isComposeSource cfg then Ret (Inl ComposeNotSupported)
               else let b = overrideOf opts cfg; up = upOptionsOf opts path b in
                 andTry (prepareBaseImage cfg up) (\<lambda>baseImage.
                 andTry (layerFeatures en up cfg baseImage) (\<lambda>(cfg1, finalImage, baseLayers).
                   if ub_ImageName opts \<noteq> [] \<and> finalImage = baseImage \<and> finalImage \<noteq> ub_ImageName opts
                   then retagImage baseImage (ub_ImageName opts) b
                   else Ret (Inr finalImage)))))))"

end
