(* ===== verification/Engine_Compose.thy ===== *)
theory Engine_Compose
  imports Engine_Image
begin

text \<open>
  Compose sources (\<^verbatim>\<open>up.go\<close>, \<^verbatim>\<open>compose/load.go\<close>) and the reattach to a project whose inputs have not
  changed (\<^verbatim>\<open>up_compose_reattach.go\<close>). A \<^verbatim>\<open>*types.Project\<close> the code updates in place is passed on.
\<close>

section \<open>Loading\<close>

definition composeProjectName :: "resolved_config \<Rightarrow> string" where
  "composeProjectName cfg = ''dc-'' @ cfg_DevcontainerID cfg"

definition composeWorkingDir :: "up_options \<Rightarrow> string" where
  "composeWorkingDir opts = pathDir (uo_ConfigPath opts)"

text \<open>A nil and an empty map give no entries; the entries come in the order of the map.\<close>

definition mapToEnvList :: "string gomap \<Rightarrow> string list" where
  "mapToEnvList m = map (\<lambda>(k, v). k @ ''='' @ v) m"

text \<open>\<^verbatim>\<open>v == nil\<close> entries are dropped.\<close>

fun flattenStringMap :: "string option gomap \<Rightarrow> string gomap" where
  "flattenStringMap [] = []"
| "flattenStringMap ((k, v) # m) =
     (case v of None \<Rightarrow> flattenStringMap m | Some s \<Rightarrow> (k, s) # flattenStringMap m)"

definition Load :: "load_options \<Rightarrow> project result" where
  "Load opts =
     (if lo_Files opts = [] then Ret (Inl (OptionRequired ''Files''))
      else if lo_WorkingDir opts = [] then Ret (Inl (OptionRequired ''WorkingDir''))
      else if lo_ProjectName opts = [] then Ret (Inl (OptionRequired ''ProjectName''))
      else tryValue (LoadProject opts) asProject ''compose load'' (\<lambda>p. Ret (Inr p)))"

definition PrimaryService :: "project \<Rightarrow> string \<Rightarrow> up_error + service_config" where
  "PrimaryService p name =
     (case map_of (pj_Services p) name of None \<Rightarrow> Inl (ServiceUnknown name) | Some svc \<Rightarrow> Inr svc)"

definition loadOptionsOf :: "compose_source \<Rightarrow> resolved_config \<Rightarrow> up_options \<Rightarrow> load_options" where
  "loadOptionsOf src cfg opts =
     \<lparr>lo_Files = cs_Files src, lo_WorkingDir = composeWorkingDir opts,
      lo_ProjectName = composeProjectName cfg,
      lo_Env = mapToEnvList (case uo_LocalEnv opts of None \<Rightarrow> [] | Some m \<Rightarrow> m)\<rparr>"

definition refuseUnsupportedComposeProject :: "engine \<Rightarrow> project \<Rightarrow> string \<Rightarrow> up_error option" where
  "refuseUnsupportedComposeProject en p projectName =
     (if en_ComposeBackend en \<noteq> ComposeBackendNative then None
      else map_option PlanRefused (Validate (en_caps en)
        (Some \<lparr>plan_Project = Some p, plan_ProjectName = projectName, plan_Services = [],
               plan_Labels = [], plan_AdoptExisting = False\<rparr>)))"

section \<open>Mounts of the primary service\<close>

definition composeBindMounts :: "resolved_config \<Rightarrow> up_options \<Rightarrow> bind_mount list" where
  "composeBindMounts cfg opts =
     \<lparr>bm_Source = cfg_LocalWorkspaceFolder cfg, bm_Target = cfg_ContainerWorkspaceFolder cfg,
      bm_ReadOnly = False\<rparr>
     # map (\<lambda>m. \<lparr>bm_Source = m_Source m, bm_Target = m_Target m, bm_ReadOnly = m_ReadOnly m\<rparr>)
         (filter (\<lambda>m. m_Type m = MountBind \<and> m_Source m \<noteq> [] \<and> m_Target m \<noteq> []) (cfg_Mounts cfg))
     @ map (\<lambda>m. \<lparr>bm_Source = ms_Source m, bm_Target = ms_Target m, bm_ReadOnly = ms_ReadOnly m\<rparr>)
         (filter (\<lambda>m. ms_Type m = MountBind \<and> ms_Source m \<noteq> [] \<and> ms_Target m \<noteq> []) (uo_ExtraMounts opts))"

definition volumeMount :: "string \<Rightarrow> string \<Rightarrow> string \<Rightarrow> bool \<Rightarrow> omount" where
  "volumeMount ty src target ro =
     \<lparr>om_Type = ty, om_Source = src, om_Target = target, om_ReadOnly = ro, om_NoCopy = False,
      om_TmpfsSize = 0, om_TmpfsMode = 0\<rparr>"

text \<open>The tmpfs mode of the configuration is a \<^verbatim>\<open>uint32\<close>.\<close>

definition composeMount :: "mount \<Rightarrow> omount list" where
  "composeMount m =
     (if m_Target m = [] then []
      else if m_Type m = MountVolume then
        [(volumeMount ''volume'' (m_Source m) (m_Target m) (m_ReadOnly m))
           \<lparr>om_NoCopy := (case m_VolumeOptions m of None \<Rightarrow> False | Some v \<Rightarrow> vo_NoCopy v)\<rparr>]
      else if m_Type m = MountTmpfs then
        [(volumeMount ''tmpfs'' [] (m_Target m) (m_ReadOnly m))
           \<lparr>om_TmpfsSize := (case m_TmpfsOptions m of None \<Rightarrow> 0 | Some t \<Rightarrow> to_SizeBytes t),
            om_TmpfsMode := (case m_TmpfsOptions m of None \<Rightarrow> 0 | Some t \<Rightarrow> nat (to_Mode t))\<rparr>]
      else [])"

definition composeExtraMount :: "mount_spec \<Rightarrow> omount list" where
  "composeExtraMount m =
     (if ms_Target m = [] then []
      else if ms_Type m = MountVolume then [volumeMount ''volume'' (ms_Source m) (ms_Target m) (ms_ReadOnly m)]
      else if ms_Type m = MountTmpfs then [volumeMount ''tmpfs'' [] (ms_Target m) (ms_ReadOnly m)]
      else [])"

definition composeMounts :: "resolved_config \<Rightarrow> up_options \<Rightarrow> omount list" where
  "composeMounts cfg opts =
     concat (map composeMount (cfg_Mounts cfg)) @ concat (map composeExtraMount (uo_ExtraMounts opts))"

section \<open>The run override\<close>

definition overrideLabels :: "resolved_config \<Rightarrow> string \<Rightarrow> string gomap" where
  "overrideLabels cfg inputsHash =
     [(LabelDevcontainerID, cfg_DevcontainerID cfg),
      (LabelLocalWorkspaceFolder, cfg_LocalWorkspaceFolder cfg), (LabelEngine, engineIdent)]
     @ (if inputsHash = [] then [] else [(''dev.containers.compose-inputs-hash'', inputsHash)])"

definition runOverrideOf ::
    "resolved_config \<Rightarrow> up_options \<Rightarrow> compose_source \<Rightarrow> string gomap \<Rightarrow> string \<Rightarrow> string list \<Rightarrow> override" where
  "runOverrideOf cfg opts src extraEnv inputsHash origEntrypoint =
     \<lparr>ov_Service = cs_Service src, ov_Image = [], ov_ExtraBindMounts = composeBindMounts cfg opts,
      ov_ExtraMounts = composeMounts cfg opts,
      ov_ExtraEnvironment = mergeEnv (cfg_ContainerEnv cfg) extraEnv,
      ov_Labels = overrideLabels cfg inputsHash, ov_Privileged = cfg_Privileged cfg,
      ov_Init = cfg_Init cfg, ov_CapAdd = cfg_CapAdd cfg, ov_SecurityOpt = cfg_SecurityOpt cfg,
      ov_Entrypoints = cfg_Entrypoints cfg, ov_OriginalEntrypoint = origEntrypoint\<rparr>"

text \<open>
  The entrypoint under the wrapper: the service's own, else the image's; a failed inspection is a
  warning only.
\<close>

definition composeRunOverride ::
    "resolved_config \<Rightarrow> up_options \<Rightarrow> project \<Rightarrow> compose_source \<Rightarrow> string \<Rightarrow> string gomap \<Rightarrow> string \<Rightarrow>
       override result" where
  "composeRunOverride cfg opts p src finalImage extraEnv inputsHash =
     (let done = (\<lambda>orig. Ret (Inr (runOverrideOf cfg opts src extraEnv inputsHash orig)));
          own = (case map_of (pj_Services p) (cs_Service src) of None \<Rightarrow> [] | Some svc \<Rightarrow> svc_Entrypoint svc)
      in if cfg_Entrypoints cfg = [] then done []
         else if own \<noteq> [] then done own
         else Do (InspectImage finalImage) (\<lambda>r.
           case errOf r of
             Some e \<Rightarrow> say (WarnEvent ''compose_entrypoint_image_inspect_failed'' finalImage) (done [])
           | None \<Rightarrow> done (case asImage r of None \<Rightarrow> [] | Some d \<Rightarrow> im_Entrypoint d)))"

section \<open>Images of the services\<close>

definition contextPath :: "string \<Rightarrow> build_config \<Rightarrow> string" where
  "contextPath workingDir b =
     (let p = (if bc_Context b = [] then workingDir else bc_Context b)
      in if isAbsPath p then p else pathJoin [workingDir, p])"

definition serviceBuildSpec :: "string \<Rightarrow> build_config \<Rightarrow> string \<Rightarrow> build_spec" where
  "serviceBuildSpec workingDir b tag =
     \<lparr>bd_ContextPath = contextPath workingDir b, bd_Dockerfile = bc_Dockerfile b, bd_Tag = tag,
      bd_Args = flattenStringMap (bc_Args b), bd_Target = bc_Target b, bd_CacheFrom = [],
      bd_NoCache = False, bd_Platform = []\<rparr>"

definition composeBaseTag :: "resolved_config \<Rightarrow> string" where
  "composeBaseTag cfg = ''dc-go-compose-base-'' @ cfg_DevcontainerID cfg @ '':latest''"

definition prepareComposeServiceImage ::
    "resolved_config \<Rightarrow> service_config \<Rightarrow> string \<Rightarrow> up_options \<Rightarrow> string result" where
  "prepareComposeServiceImage cfg svc workingDir opts =
     (case svc_Build svc of
        None \<Rightarrow>
          if svc_Image svc = [] then Ret (Inl NeitherImageNorBuild)
          else say (BuildStartEvent ''image'' (svc_Image svc))
            (andTry (ensureImage (svc_Image svc) (uo_PullPolicy opts)) (\<lambda>_. Ret (Inr (svc_Image svc))))
      | Some b \<Rightarrow>
          let tag = composeBaseTag cfg in
          say (BuildStartEvent ''dockerfile'' tag)
            (tryCall (BuildImage (serviceBuildSpec workingDir b tag)) ''build compose primary service image''
              (\<lambda>_. Ret (Inr tag))))"

definition applyBuild :: "project \<Rightarrow> string \<Rightarrow> string \<Rightarrow> project result" where
  "applyBuild p name tag =
     Ret (case ApplyBuildOverride (Some p) name tag of Inl e \<Rightarrow> Inl (OverrideFailed e) | Inr q \<Rightarrow> Inr q)"

definition sidecarTag :: "string \<Rightarrow> string \<Rightarrow> service_config \<Rightarrow> string" where
  "sidecarTag projectName name svc =
     (if svc_Image svc = [] then projectName @ ''-'' @ name else svc_Image svc)"

definition buildSidecar ::
    "string \<Rightarrow> string \<Rightarrow> build_config \<Rightarrow> string \<Rightarrow> project \<Rightarrow> project result" where
  "buildSidecar workingDir name b tag p =
     say (BuildStartEvent ''dockerfile'' tag)
       (tryCall (BuildImage (serviceBuildSpec workingDir b tag)) ''build compose service image''
         (\<lambda>_. applyBuild p name tag))"

fun sidecarLoop ::
    "compose_source \<Rightarrow> string \<Rightarrow> string \<Rightarrow> bool \<Rightarrow> (string \<Rightarrow> bool) \<Rightarrow> string list \<Rightarrow> project \<Rightarrow>
       project result" where
  "sidecarLoop src projectName workingDir skipPresent selected [] p = Ret (Inr p)"
| "sidecarLoop src projectName workingDir skipPresent selected (name # names) p =
     (case map_of (pj_Services p) name of
        None \<Rightarrow> sidecarLoop src projectName workingDir skipPresent selected names p
      | Some svc \<Rightarrow>
          (case svc_Build svc of
             None \<Rightarrow> sidecarLoop src projectName workingDir skipPresent selected names p
           | Some b \<Rightarrow>
               if name = cs_Service src \<or> \<not> selected name
               then sidecarLoop src projectName workingDir skipPresent selected names p
               else let tag = sidecarTag projectName name svc;
                        rest = sidecarLoop src projectName workingDir skipPresent selected names
                    in if skipPresent
                       then Do (InspectImage tag) (\<lambda>r.
                         if errOf r = None then andTry (applyBuild p name tag) rest
                         else andTry (buildSidecar workingDir name b tag p) rest)
                       else andTry (buildSidecar workingDir name b tag p) rest))"

definition selectedServices :: "project \<Rightarrow> compose_source \<Rightarrow> string \<Rightarrow> bool" where
  "selectedServices p src =
     (if cs_RunServices src = [] then (\<lambda>_. True)
      else (\<lambda>name. name \<in> set (ServiceClosure (Some p) (cs_RunServices src @ [cs_Service src]))))"

definition buildComposeSidecarImages ::
    "project \<Rightarrow> compose_source \<Rightarrow> string \<Rightarrow> string \<Rightarrow> bool \<Rightarrow> project result" where
  "buildComposeSidecarImages p src projectName workingDir skipPresent =
     sidecarLoop src projectName workingDir skipPresent (selectedServices p src)
       (sortedKeys (pj_Services p)) p"

section \<open>The two backends\<close>

definition droppedEvent :: "dropped_host_port \<Rightarrow> event" where
  "droppedEvent d = WarnEvent ''compose_host_port_publish_skipped'' (DroppedHostPort_String d)"

definition dropHostPortPublishes :: "engine \<Rightarrow> project \<Rightarrow> project \<times> event list" where
  "dropHostPortPublishes en p =
     (if \<not> en_DisableHostPortPublishing en then (p, [])
      else case ApplyDropHostPorts (Some p) of
             (None, ds) \<Rightarrow> (p, [])
           | (Some q, ds) \<Rightarrow> (q, map droppedEvent ds))"

definition nativePlan :: "resolved_config \<Rightarrow> up_options \<Rightarrow> project \<Rightarrow> compose_source \<Rightarrow> string \<Rightarrow> plan" where
  "nativePlan cfg opts p src projectName =
     \<lparr>plan_Project = Some p, plan_ProjectName = projectName, plan_Services = cs_RunServices src,
      plan_Labels = [(LabelDevcontainerID, cfg_DevcontainerID cfg)],
      plan_AdoptExisting = (uo_AdoptExisting opts \<and> \<not> uo_Recreate opts)\<rparr>"

definition nativeProject ::
    "engine \<Rightarrow> project \<Rightarrow> compose_source \<Rightarrow> string \<Rightarrow> string \<Rightarrow> string \<Rightarrow> override \<Rightarrow> bool \<Rightarrow> project result" where
  "nativeProject en p src projectName workingDir finalImage ov reattach =
     andTry (applyBuild p (cs_Service src) finalImage) (\<lambda>p1.
     andTry (buildComposeSidecarImages p1 src projectName workingDir reattach) (\<lambda>p2.
       case ApplyRunOverride (Some p2) (cs_Service src) ov of
         Inl e \<Rightarrow> Ret (Inl (OverrideFailed e))
       | Inr p3 \<Rightarrow> (case dropHostPortPublishes en p3 of (p4, evs) \<Rightarrow> sayAll evs (Ret (Inr p4)))))"

definition upComposeNative ::
    "engine \<Rightarrow> resolved_config \<Rightarrow> up_options \<Rightarrow> project \<Rightarrow> compose_source \<Rightarrow> string \<Rightarrow> string \<Rightarrow> string \<Rightarrow>
       override \<Rightarrow> bool \<Rightarrow> workspace result" where
  "upComposeNative en cfg opts p src projectName workingDir finalImage ov reattach =
     andTry (nativeProject en p src projectName workingDir finalImage ov reattach) (\<lambda>q.
       andThen (Orchestrator.Up (en_orch en) (en_fuel en) (en_schedule en) (en_caps en)
                  (Some (nativePlan cfg opts q src projectName))) (\<lambda>(res, err).
         case err of
           Some e \<Rightarrow> Ret (Inl (OrchestratorFailed e))
         | None \<Rightarrow>
             let i = mget (ur_ContainerIDs res) (cs_Service src) in
             if i = [] then Ret (Inl (NotStarted (cs_Service src)))
             else buildWorkspace en i cfg (uo_LocalEnv opts)))"

definition orOverride :: "override_error + string \<Rightarrow> (string \<Rightarrow> 'a result) \<Rightarrow> 'a result" where
  "orOverride r k = (case r of Inl e \<Rightarrow> Ret (Inl (OverrideFailed e)) | Inr s \<Rightarrow> k s)"

definition composeFiles :: "compose_source \<Rightarrow> string \<Rightarrow> string list" where
  "composeFiles src tmp = cs_Files src @ [pathJoin [tmp, ''dc-build.yaml''], pathJoin [tmp, ''dc-run.yaml'']]"

definition pinImage :: "compose_source \<Rightarrow> string \<Rightarrow> override" where
  "pinImage src finalImage =
     \<lparr>ov_Service = cs_Service src, ov_Image = finalImage, ov_ExtraBindMounts = [], ov_ExtraMounts = [],
      ov_ExtraEnvironment = [], ov_Labels = [], ov_Privileged = None, ov_Init = None, ov_CapAdd = [],
      ov_SecurityOpt = [], ov_Entrypoints = [], ov_OriginalEntrypoint = []\<rparr>"

definition composeUpCalls ::
    "compose_source \<Rightarrow> string \<Rightarrow> string \<Rightarrow> string \<Rightarrow> bool \<Rightarrow> string result" where
  "composeUpCalls src projectName workingDir tmp existingContainer =
     tryCall (ComposeUp \<lparr>cu_Files = composeFiles src tmp, cu_ProjectName = projectName,
         cu_Services = cs_RunServices src, cu_WorkingDir = workingDir, cu_NoRecreate = existingContainer\<rparr>)
       ''compose up'' (\<lambda>_.
       tryValue (ComposeContainerID \<lparr>cp_Files = composeFiles src tmp, cp_ProjectName = projectName,
           cp_WorkingDir = workingDir\<rparr> (cs_Service src)) asStr ''resolve compose primary container'' (\<lambda>i.
         Ret (if i = [] then Inl (NotStarted (cs_Service src)) else Inr i)))"

definition upComposeShellout ::
    "engine \<Rightarrow> resolved_config \<Rightarrow> up_options \<Rightarrow> project \<Rightarrow> compose_source \<Rightarrow> string \<Rightarrow> string \<Rightarrow> string \<Rightarrow>
       override \<Rightarrow> bool \<Rightarrow> workspace result" where
  "upComposeShellout en cfg opts p src projectName workingDir finalImage ov existingContainer =
     (if en_DisableHostPortPublishing en then Ret (Inl HostPortsNeedNative)
      else if \<not> en_ComposeRuntime en then Ret (Inl ComposeNotSupported)
      else tryValue (MkdirTemp ''dc-go-compose-*'') asStr ''create compose override tmpdir'' (\<lambda>tmp.
        thenRemove tmp
          (orOverride (WriteBuildOverride (pinImage src finalImage)) (\<lambda>buildText.
           tryCall (WriteFile (pathJoin [tmp, ''dc-build.yaml'']) buildText) ''write'' (\<lambda>_.
           orOverride (WriteRunOverride (en_marshalYaml en) (Some p) ov) (\<lambda>runText.
           tryCall (WriteFile (pathJoin [tmp, ''dc-run.yaml'']) runText) ''write'' (\<lambda>_.
             andTry (composeUpCalls src projectName workingDir tmp existingContainer) (\<lambda>i.
               buildWorkspace en i cfg (uo_LocalEnv opts)))))))))"

definition upComposeBackend ::
    "engine \<Rightarrow> resolved_config \<Rightarrow> up_options \<Rightarrow> project \<Rightarrow> compose_source \<Rightarrow> string \<Rightarrow> string \<Rightarrow> string \<Rightarrow>
       override \<Rightarrow> bool \<Rightarrow> bool \<Rightarrow> workspace result" where
  "upComposeBackend en cfg opts p src projectName workingDir finalImage ov existingContainer reattach =
     (if en_ComposeBackend en = ComposeBackendNative
      then upComposeNative en cfg opts p src projectName workingDir finalImage ov reattach
      else if en_ComposeBackend en = ComposeBackendShellout
      then upComposeShellout en cfg opts p src projectName workingDir finalImage ov existingContainer
      else Ret (Inl (UnknownBackend (en_ComposeBackend en))))"

section \<open>The hash of the inputs\<close>

definition LabelComposeInputsHash :: string where
  "LabelComposeInputsHash = ''dev.containers.compose-inputs-hash''"

definition composeInputsHashVersion :: int where "composeInputsHashVersion = 1"

definition maxLocalFeatureHashBytes :: int where "maxLocalFeatureHashBytes = 67108864"

definition hexText :: "string \<Rightarrow> string" where
  "hexText bs = concat (map (\<lambda>c. let n = of_char c :: nat in [hexDigit (n div 16), hexDigit (n mod 16)]) bs)"

fun octalText :: "nat \<Rightarrow> string" where
  "octalText n = (if n < 8 then [digitc n] else octalText (n div 8) @ [digitc (n mod 8)])"

declare octalText.simps [simp del]

definition hashHeader :: "string \<Rightarrow> file_info \<Rightarrow> string" where
  "hashHeader rel fi = rel @ [CHR 0x00] @ octalText (fi_Perm fi) @ [CHR 0x00] @ itoa (fi_Size fi) @ [CHR 0x00]"

text \<open>The bytes written to the hash; a file is read up to the size it had when it was looked at.\<close>

fun hashFiles :: "string \<Rightarrow> int \<Rightarrow> int \<Rightarrow> string list \<Rightarrow> string \<Rightarrow> string result" where
  "hashFiles folder limit sofar [] acc = Ret (Inr acc)"
| "hashFiles folder limit sofar (p # ps) acc =
     (case pathRel folder p of
        None \<Rightarrow> Ret (Inl (InputsNotHashed p))
      | Some rel \<Rightarrow>
          tryValue (StatPath p) asInfo ''stat'' (\<lambda>fi.
            if \<not> fi_Regular fi then Ret (Inl (InputsNotHashed rel))
            else if sofar + fi_Size fi > limit then Ret (Inl (InputsNotHashed rel))
            else Do (ReadFile p) (\<lambda>r.
              case asFile r of
                Inr (Some t) \<Rightarrow> hashFiles folder limit (sofar + fi_Size fi) ps
                  (acc @ hashHeader rel fi @ take (nat (fi_Size fi)) t)
              | _ \<Rightarrow> Ret (Inl (InputsNotHashed rel)))))"

definition hashDirContent :: "engine \<Rightarrow> string \<Rightarrow> int \<Rightarrow> string result" where
  "hashDirContent en folder limit =
     tryValue (WalkDir folder) asStrs ''walk'' (\<lambda>paths.
       andTry (hashFiles folder limit 0 (sort paths) []) (\<lambda>t. Ret (Inr (hexText (en_sha256 en t)))))"

fun hashRequested ::
    "engine \<Rightarrow> string \<Rightarrow> resolved_feature list \<Rightarrow> hashed_feature list \<Rightarrow> string list \<Rightarrow>
       (hashed_feature list \<times> string list) result" where
  "hashRequested en configDir [] out local = Ret (Inr (out, local))"
| "hashRequested en configDir (f # fs) out local =
     (let hf = \<lparr>hf_Ref = rf_Ref f, hf_SourceKind = rf_SourceKind f, hf_Options = rf_Options f,
           hf_LocalContent = []\<rparr> in
      if rf_SourceKind f = FeatureSourceLocal
      then andTry (hashDirContent en (ResolveLocalRef configDir (rf_Ref f)) maxLocalFeatureHashBytes) (\<lambda>digest.
             hashRequested en configDir fs (out @ [hf\<lparr>hf_LocalContent := digest\<rparr>]) (local @ [rf_Ref f]))
      else hashRequested en configDir fs (out @ [hf]) local)"

text \<open>The local dependencies of one feature that are not hashed yet.\<close>

fun hashDeps ::
    "engine \<Rightarrow> string \<Rightarrow> string list \<Rightarrow> string list \<Rightarrow> hashed_feature list \<Rightarrow> string list \<Rightarrow>
       (string list \<times> hashed_feature list \<times> string list) result" where
  "hashDeps en configDir [] hashed out local = Ret (Inr (hashed, out, local))"
| "hashDeps en configDir (dep # deps) hashed out local =
     (if dep \<in> set hashed \<or> ClassifyFeatureRef dep \<noteq> FeatureSourceLocal
      then hashDeps en configDir deps hashed out local
      else andTry (hashDirContent en (ResolveLocalRef configDir dep) maxLocalFeatureHashBytes) (\<lambda>digest.
        hashDeps en configDir deps (dep # hashed)
          (out @ [\<lparr>hf_Ref = dep, hf_SourceKind = FeatureSourceLocal, hf_Options = None,
                   hf_LocalContent = digest\<rparr>]) (local @ [dep])))"

fun hashLocals ::
    "engine \<Rightarrow> string \<Rightarrow> nat \<Rightarrow> string list \<Rightarrow> string list \<Rightarrow> hashed_feature list \<Rightarrow> hashed_feature list result" where
  "hashLocals en configDir fuel [] hashed out = Ret (Inr out)"
| "hashLocals en configDir 0 (ref # local) hashed out = Ret (Inl LoopFuel)"
| "hashLocals en configDir (Suc fuel) (ref # local) hashed out =
     andThen (ParseMetadata (ResolveLocalRef configDir ref)) (\<lambda>r.
       case r of
         Inl e \<Rightarrow> hashLocals en configDir fuel local hashed out
       | Inr meta \<Rightarrow>
           andTry (hashDeps en configDir (dependsOnKeys meta) hashed out local) (\<lambda>(hashed', out', local').
             hashLocals en configDir fuel local' hashed' out'))"

definition hashedConfig :: "resolved_config \<Rightarrow> compose_source \<Rightarrow> hashed_feature list \<Rightarrow> hashed_config" where
  "hashedConfig cfg src features =
     \<lparr>hg_DevcontainerID = cfg_DevcontainerID cfg, hg_Source = src,
      hg_LocalWorkspaceFolder = cfg_LocalWorkspaceFolder cfg,
      hg_ContainerWorkspaceFolder = cfg_ContainerWorkspaceFolder cfg,
      hg_WorkspaceMount = cfg_WorkspaceMount cfg, hg_ContainerUser = cfg_ContainerUser cfg,
      hg_RemoteUser = cfg_RemoteUser cfg, hg_UpdateRemoteUserUID = cfg_UpdateRemoteUserUID cfg,
      hg_ContainerEnv = cfg_ContainerEnv cfg, hg_Mounts = cfg_Mounts cfg, hg_RunArgs = cfg_RunArgs cfg,
      hg_Init = cfg_Init cfg, hg_Privileged = cfg_Privileged cfg, hg_CapAdd = cfg_CapAdd cfg,
      hg_SecurityOpt = cfg_SecurityOpt cfg, hg_OverrideCommand = cfg_OverrideCommand cfg,
      hg_Features = features\<rparr>"

definition hashInput ::
    "engine \<Rightarrow> resolved_config \<Rightarrow> compose_source \<Rightarrow> project \<Rightarrow> string \<Rightarrow> hashed_feature list \<Rightarrow> string \<Rightarrow> hash_input" where
  "hashInput en cfg src p baseImageID features owner =
     \<lparr>hi_Version = composeInputsHashVersion, hi_Config = hashedConfig cfg src features,
      hi_Services = pj_Services p, hi_Networks = pj_Networks p, hi_Volumes = pj_Volumes p,
      hi_Secrets = pj_Secrets p, hi_Configs = pj_Configs p, hi_BaseImageID = baseImageID,
      hi_ComposeBackend = en_ComposeBackend en,
      hi_DisableHostPortPublishing = en_DisableHostPortPublishing en,
      hi_StrictFeatureVersionMatch = en_StrictFeatureVersionMatch en, hi_HostOwner = owner\<rparr>"

definition composeInputsHash ::
    "engine \<Rightarrow> resolved_config \<Rightarrow> up_options \<Rightarrow> project \<Rightarrow> string \<Rightarrow> string result" where
  "composeInputsHash en cfg opts p baseImageID =
     (case cfg_Source cfg of
        Some (ComposeSource src) \<Rightarrow>
          if baseImageID = [] then Ret (Inl (InputsNotHashed ''base image ID unknown''))
          else let configDir = composeWorkingDir opts in
            andTry (hashRequested en configDir (cfg_Features cfg) [] []) (\<lambda>(out, local).
            andTry (hashLocals en configDir (en_fuel en) local local out) (\<lambda>features.
              Do (StatOwner (cfg_LocalWorkspaceFolder cfg)) (\<lambda>so.
                let owner = (case asOwner so of None \<Rightarrow> [] | Some (u, g) \<Rightarrow> itoa u @ '':'' @ itoa g) in
                Ret (case en_marshalInputs en (hashInput en cfg src p baseImageID features owner) of
                       None \<Rightarrow> Inl (InputsNotHashed ''marshal'')
                     | Some b \<Rightarrow> Inr (hexText (en_sha256 en b))))))
      | _ \<Rightarrow> Ret (Inl (InputsNotHashed ''not a compose source'')))"

section \<open>Reattaching\<close>

definition composePrimaryBaseRef :: "resolved_config \<Rightarrow> service_config \<Rightarrow> string" where
  "composePrimaryBaseRef cfg svc = (if svc_Build svc \<noteq> None then composeBaseTag cfg else svc_Image svc)"

definition miss :: "string \<Rightarrow> 'a result" where
  "miss why = Ret (Inl (ReattachMiss why))"

definition primaryFilter :: "resolved_config \<Rightarrow> compose_source \<Rightarrow> string \<Rightarrow> label_filter" where
  "primaryFilter cfg src projectName =
     \<lparr>lf_Match = [(LabelComposeProject, projectName), (LabelComposeService, cs_Service src),
        (LabelDevcontainerID, cfg_DevcontainerID cfg)]\<rparr>"

text \<open>The one container of the primary service, inspected, with its stored hash.\<close>

definition findPrimary ::
    "resolved_config \<Rightarrow> compose_source \<Rightarrow> string \<Rightarrow> (container_details \<times> string) result" where
  "findPrimary cfg src projectName =
     Do (ListContainers (primaryFilter cfg src projectName)) (\<lambda>lr.
       case asContainers lr of
         Inr [c] \<Rightarrow>
           Do (InspectContainer (ct_ID c)) (\<lambda>ir.
             case asDetails ir of
               None \<Rightarrow> miss ''inspect primary container''
             | Some details \<Rightarrow>
                 let stored = mget (cd_Labels details) LabelComposeInputsHash in
                 if stored = [] then miss ''no inputs hash'' else Ret (Inr (details, stored)))
       | _ \<Rightarrow> miss ''primary containers'')"

definition freshHash ::
    "engine \<Rightarrow> resolved_config \<Rightarrow> up_options \<Rightarrow> project \<Rightarrow> service_config \<Rightarrow> string result" where
  "freshHash en cfg opts p primary =
     Do (InspectImage (composePrimaryBaseRef cfg primary)) (\<lambda>r.
       case asImage r of
         None \<Rightarrow> miss ''base image not present''
       | Some base \<Rightarrow>
           if im_ID base = [] then miss ''base image not present''
           else andThen (composeInputsHash en cfg opts p (im_ID base)) (\<lambda>h.
             case h of
               Inr x \<Rightarrow> Ret (Inr x)
             | Inl e \<Rightarrow> if e = LoopFuel then Ret (Inl LoopFuel) else miss ''inputs not hashed''))"

text \<open>The image the container was created from, if its reference still names it.\<close>

definition runningImage :: "container_details \<Rightarrow> image_details result" where
  "runningImage details =
     (if cd_ImageRef details = [] then miss ''image reference unknown''
      else Do (InspectImage (cd_ImageRef details)) (\<lambda>r.
        case asImage r of
          None \<Rightarrow> miss ''image not present''
        | Some img \<Rightarrow>
            if im_ID img \<noteq> ct_Image (cd_Container details) then miss ''image re-tagged'' else Ret (Inr img)))"

definition reattachCheck ::
    "engine \<Rightarrow> resolved_config \<Rightarrow> up_options \<Rightarrow> project \<Rightarrow> compose_source \<Rightarrow> service_config \<Rightarrow> string \<Rightarrow>
       (container_details \<times> string \<times> image_details) result" where
  "reattachCheck en cfg opts p src primary projectName =
     (if uo_override opts \<noteq> None then miss ''image build requested''
      else if uo_PullPolicy opts = PullAlways then miss ''pull policy is always''
      else andTry (findPrimary cfg src projectName) (\<lambda>(details, stored).
        andTry (freshHash en cfg opts p primary) (\<lambda>current.
          if current \<noteq> stored then miss ''inputs changed''
          else andTry (runningImage details) (\<lambda>img. Ret (Inr (details, stored, img))))))"

definition reattachLayers :: "image_details \<Rightarrow> up_error + feature_metadata list" where
  "reattachLayers img =
     (let label = mget (im_Labels img) MetadataLabel in
      if label = [] then Inr []
      else case ParseMetadataLabel label of None \<Rightarrow> Inl (ReattachLabel label) | Some ls \<Rightarrow> Inr ls)"

definition reattachCompose ::
    "engine \<Rightarrow> resolved_config \<Rightarrow> up_options \<Rightarrow> project \<Rightarrow> compose_source \<Rightarrow> service_config \<Rightarrow> string \<Rightarrow> string \<Rightarrow>
       workspace result" where
  "reattachCompose en cfg opts p src primary projectName workingDir =
     andTry (reattachCheck en cfg opts p src primary projectName) (\<lambda>(details, stored, img).
       case reattachLayers img of
         Inl e \<Rightarrow> Ret (Inl e)
       | Inr layers \<Rightarrow>
           sayAll (map (\<lambda>f. FeatureSkippedEvent (rf_Ref f) ''compose_reattach'') (cfg_Features cfg))
             (let cfg' = applyMetadataMerge cfg layers (uo_LocalEnv opts) in
              andTry (composeRunOverride cfg' opts p src (cd_ImageRef details) [] stored) (\<lambda>ov.
                upComposeBackend en cfg' opts p src projectName workingDir (cd_ImageRef details) ov True True)))"

section \<open>The full path\<close>

text \<open>A hash that cannot be computed is no hash.\<close>

definition inputsHashOf ::
    "engine \<Rightarrow> resolved_config \<Rightarrow> up_options \<Rightarrow> project \<Rightarrow> string \<Rightarrow> string result" where
  "inputsHashOf en cfg opts p baseImage =
     Do (InspectImage baseImage) (\<lambda>r.
       case asImage r of
         None \<Rightarrow> Ret (Inr [])
       | Some base \<Rightarrow>
           andThen (composeInputsHash en cfg opts p (im_ID base)) (\<lambda>h.
             Ret (case h of Inr x \<Rightarrow> Inr x | Inl e \<Rightarrow> if e = LoopFuel then Inl LoopFuel else Inr [])))"

definition composeFullPath ::
    "engine \<Rightarrow> resolved_config \<Rightarrow> up_options \<Rightarrow> project \<Rightarrow> compose_source \<Rightarrow> service_config \<Rightarrow> string \<Rightarrow> string \<Rightarrow>
       bool \<Rightarrow> workspace result" where
  "composeFullPath en cfg opts p src primary projectName workingDir existingContainer =
     andTry (prepareComposeServiceImage cfg primary workingDir opts) (\<lambda>baseImage.
     andTry (inputsHashOf en cfg opts p baseImage) (\<lambda>inputsHash.
     andTry (layerFeatures en opts cfg baseImage) (\<lambda>(cfg1, image1, baseLayers).
     andTry (reconcileRemoteUserUID en (applyMetadataMerge cfg1 baseLayers (uo_LocalEnv opts)) image1)
       (\<lambda>(cfg2, image2).
     andTry (secretsEnv en cfg2 opts) (\<lambda>extraEnv.
     andTry (composeRunOverride cfg2 opts p src image2 extraEnv inputsHash) (\<lambda>ov.
       upComposeBackend en cfg2 opts p src projectName workingDir image2 ov existingContainer False))))))"

text \<open>A miss of the reattach falls through to the full path; anything else is the result.\<close>

definition orFullPath :: "workspace result \<Rightarrow> workspace result \<Rightarrow> workspace result" where
  "orFullPath reattach full =
     andThen reattach (\<lambda>r. case r of Inl (ReattachMiss why) \<Rightarrow> full | _ \<Rightarrow> Ret r)"

definition createFreshCompose ::
    "engine \<Rightarrow> resolved_config \<Rightarrow> up_options \<Rightarrow> compose_source \<Rightarrow> bool \<Rightarrow> workspace result" where
  "createFreshCompose en cfg opts src existingContainer =
     (if en_ComposeBackend en = ComposeBackendShellout \<and> \<not> en_ComposeRuntime en
      then Ret (Inl ComposeNotSupported)
      else if cs_Service src = [] then Ret (Inl (OptionRequired ''service''))
      else let workingDir = composeWorkingDir opts; projectName = composeProjectName cfg in
        andTry (Load (loadOptionsOf src cfg opts)) (\<lambda>p.
          case refuseUnsupportedComposeProject en p projectName of
            Some e \<Rightarrow> Ret (Inl e)
          | None \<Rightarrow>
              (case PrimaryService p (cs_Service src) of
                 Inl e \<Rightarrow> Ret (Inl e)
               | Inr primary \<Rightarrow>
                   let full = composeFullPath en cfg opts p src primary projectName workingDir existingContainer
                   in if existingContainer
                      then orFullPath (reattachCompose en cfg opts p src primary projectName workingDir) full
                      else full)))"

section \<open>Taking a project down for a recreate\<close>

definition composeDownExisting :: "engine \<Rightarrow> container \<Rightarrow> unit result" where
  "composeDownExisting en existing =
     Do (InspectContainer (ct_ID existing)) (\<lambda>r.
       case asDetails r of
         None \<Rightarrow> removeExisting (ct_ID existing)
       | Some details \<Rightarrow>
           let projectName = mget (cd_Labels details) LabelComposeProject in
           if projectName = [] then removeExisting (ct_ID existing)
           else if en_ComposeBackend en = ComposeBackendNative
           then andThen (Orchestrator.Down \<lparr>dp_ProjectName = projectName, dp_RemoveVolumes = False,
                    dp_RemoveImages = False, dp_Project = None\<rparr>) (\<lambda>t.
                  Ret (case t of Some e \<Rightarrow> Inl (OrchestratorFailed e) | None \<Rightarrow> Inr ()))
           else if \<not> en_ComposeRuntime en then removeExisting (ct_ID existing)
           else tryCall (ComposeDown projectName False) ''compose down for recreate'' (\<lambda>_. Ret (Inr ())))"

end
