(* ===== verification/Engine_Up.thy ===== *)
theory Engine_Up
  imports Engine_Compose
begin

text \<open>
  \<^verbatim>\<open>Engine.Up\<close> (\<^verbatim>\<open>up.go\<close>), \<^verbatim>\<open>Down\<close> and \<^verbatim>\<open>Shutdown\<close> (\<^verbatim>\<open>down.go\<close>), \<^verbatim>\<open>Attach\<close> (\<^verbatim>\<open>attach.go\<close>): whole calls of the
  engine as programs.
\<close>

section \<open>Up\<close>

text \<open>The container that is kept: none after a recreate.\<close>

definition recreateExisting ::
    "engine \<Rightarrow> up_options \<Rightarrow> resolved_config \<Rightarrow> container option \<Rightarrow> container option result" where
  "recreateExisting en opts cfg existing =
     (case existing of
        None \<Rightarrow> Ret (Inr None)
      | Some c \<Rightarrow>
          if \<not> uo_Recreate opts then Ret (Inr (Some c))
          else andTry (if isComposeSource cfg then composeDownExisting en c else removeExisting (ct_ID c))
                 (\<lambda>_. Ret (Inr None)))"

definition bringUp ::
    "engine \<Rightarrow> up_options \<Rightarrow> resolved_config \<Rightarrow> container option \<Rightarrow> workspace result" where
  "bringUp en opts cfg existing =
     (case cfg_Source cfg of
        Some (ComposeSource src) \<Rightarrow>
          createFreshCompose en cfg
            (if existing = None then opts else opts\<lparr>uo_RunSecretsCommand := False\<rparr>) src (existing \<noteq> None)
      | _ \<Rightarrow> (case existing of
                Some c \<Rightarrow> attachExisting en c cfg opts
              | None \<Rightarrow> createFresh en cfg opts))"

definition lateWarnings :: "resolved_config \<Rightarrow> workspace \<Rightarrow> event list" where
  "lateWarnings cfg ws =
     map (\<lambda>w. ConfigWarningEvent (w_Code w) (w_Message w))
       (drop (length (cfg_Warnings cfg)) (cfg_Warnings (ws_Config ws)))"

definition withProbe :: "workspace \<Rightarrow> (workspace \<Rightarrow> 'a prog) \<Rightarrow> 'a prog" where
  "withProbe ws k =
     andThen (probeUserEnv ws (cfg_UserEnvProbe (ws_Config ws))) (\<lambda>r.
       k (case r of Inl e \<Rightarrow> ws | Inr probed \<Rightarrow> ws\<lparr>ws_probedEnv := probed\<rparr>))"

definition isLifecycleError :: "engine_error \<Rightarrow> bool" where
  "isLifecycleError e = (case e of LifecycleError ph ec so se er \<Rightarrow> True | _ \<Rightarrow> False)"

text \<open>The workspace and the error \<^verbatim>\<open>Up\<close> returns.\<close>

type_synonym up_return = "workspace option \<times> up_error option"

definition runHooksOf :: "engine \<Rightarrow> up_options \<Rightarrow> workspace \<Rightarrow> engine_error option prog" where
  "runHooksOf en opts ws =
     (if uo_SkipLifecycle opts then Ret None
      else runAllLifecycle (en_pick en) (en_host en) ws (uo_RunInitializeCommand opts) True)"

definition finishUp :: "engine \<Rightarrow> up_options \<Rightarrow> resolved_config \<Rightarrow> workspace \<Rightarrow> up_return prog" where
  "finishUp en opts cfg ws =
     sayAll (lateWarnings cfg ws)
       (withProbe ws (\<lambda>ws1.
          andThen (runHooksOf en opts ws1) (\<lambda>lifecycleErr.
            withProbe ws1 (\<lambda>ws2.
              Ret (case lifecycleErr of
                     None \<Rightarrow> (Some ws2, None)
                   | Some e \<Rightarrow> if isLifecycleError e then (Some ws2, Some (EngineFailed e))
                              else (None, Some (EngineFailed e)))))))"

text \<open>From the resolved configuration to the workspace.\<close>

definition upResolved :: "engine \<Rightarrow> up_options \<Rightarrow> resolved_config \<Rightarrow> workspace result" where
  "upResolved en opts cfg =
     (if cfg_Source cfg = None then Ret (Inl UnknownSource)
      else tryValue (FindContainerByLabel LabelDevcontainerID (cfg_DevcontainerID cfg)) asFound
             ''find existing container'' (\<lambda>found.
        andTry (recreateExisting en opts cfg found) (bringUp en opts cfg)))"

definition orReturn :: "'a result \<Rightarrow> ('a \<Rightarrow> up_return prog) \<Rightarrow> up_return prog" where
  "orReturn p k = andThen p (\<lambda>r. case r of Inl e \<Rightarrow> Ret (None, Some e) | Inr x \<Rightarrow> k x)"

definition EngineUp :: "engine \<Rightarrow> up_options \<Rightarrow> up_return prog" where
  "EngineUp en opts0 =
     orReturn (ctxIfDone
         (if uo_LocalWorkspaceFolder opts0 = [] then Ret (Inl (OptionRequired ''LocalWorkspaceFolder''))
          else configPathFor (uo_LocalWorkspaceFolder opts0) (uo_ConfigPath opts0))) (\<lambda>path.
       let opts = opts0\<lparr>uo_ConfigPath := path, uo_override := None\<rparr> in
       orReturn (Resolve en (uo_LocalWorkspaceFolder opts) path (uo_LocalEnv opts)) (\<lambda>cfg.
         sayAll (resolvedEvents cfg)
           (orReturn (upResolved en opts cfg) (finishUp en opts cfg))))"

section \<open>Down\<close>

definition isComposeWorkspace :: "workspace \<Rightarrow> bool" where
  "isComposeWorkspace ws \<longleftrightarrow> map_of (cd_Labels (ws_Container ws)) LabelComposeProject \<noteq> None"

fun isNotFound :: "runtime_error \<Rightarrow> bool" where
  "isNotFound (ContainerNotFoundError i) = True"
| "isNotFound (WrappedError m e) = isNotFound e"
| "isNotFound e = False"

text \<open>Stopping a container: an event when it was stopped, nothing when it is gone.\<close>

definition stopContainer :: "string \<Rightarrow> (bool \<Rightarrow> 'a result) \<Rightarrow> 'a result" where
  "stopContainer i k =
     Do (StopContainer i) (\<lambda>r.
       case errOf r of
         Some e \<Rightarrow> if isNotFound e then k False else Ret (Inl (RuntimeCall ''stop container'' e))
       | None \<Rightarrow> k True)"

definition downContainer :: "string \<Rightarrow> bool \<Rightarrow> bool \<Rightarrow> unit result" where
  "downContainer i remove removeVolumes =
     (let finish' = (if \<not> remove then Ret (Inr ())
          else Do (RemoveContainerOpts i removeVolumes) (\<lambda>r.
            case errOf r of
              Some e \<Rightarrow> if isNotFound e then say (ContainerRemovedEvent i) (Ret (Inr ()))
                        else Ret (Inl (RuntimeCall ''remove container'' e))
            | None \<Rightarrow> say (ContainerRemovedEvent i) (Ret (Inr ()))))
      in stopContainer i (\<lambda>stopped. if stopped then say (ContainerStoppedEvent i (- 1)) finish' else finish'))"

definition downProject :: "engine \<Rightarrow> string \<Rightarrow> bool \<Rightarrow> unit result" where
  "downProject en projectName removeVolumes =
     (if en_ComposeBackend en = ComposeBackendNative
      then andThen (Orchestrator.Down \<lparr>dp_ProjectName = projectName, dp_RemoveVolumes = removeVolumes,
               dp_RemoveImages = False, dp_Project = None\<rparr>) (\<lambda>t.
             Ret (case t of Some e \<Rightarrow> Inl (OrchestratorFailed e) | None \<Rightarrow> Inr ()))
      else if \<not> en_ComposeRuntime en then Ret (Inl ComposeNotSupported)
      else tryCall (ComposeDown projectName removeVolumes) ''compose down'' (\<lambda>_. Ret (Inr ())))"

definition downCompose :: "engine \<Rightarrow> workspace \<Rightarrow> bool \<Rightarrow> bool \<Rightarrow> unit result" where
  "downCompose en ws remove removeVolumes =
     (let projectName = mget (cd_Labels (ws_Container ws)) LabelComposeProject; i = containerID ws in
      if projectName = [] then Ret (Inl (OptionRequired LabelComposeProject))
      else if \<not> remove
      then stopContainer i (\<lambda>stopped.
        if stopped then say (ContainerStoppedEvent i (- 1)) (Ret (Inr ())) else Ret (Inr ()))
      else andTry (downProject en projectName removeVolumes) (\<lambda>_.
        say (ContainerRemovedEvent i) (Ret (Inr ()))))"

definition EngineDown :: "engine \<Rightarrow> workspace option \<Rightarrow> bool \<Rightarrow> bool \<Rightarrow> unit result" where
  "EngineDown en wso remove removeVolumes =
     ctxIfDone (case wso of
        None \<Rightarrow> Ret (Inl (OptionRequired ''Workspace''))
      | Some ws \<Rightarrow> if isComposeWorkspace ws then downCompose en ws remove removeVolumes
                   else downContainer (containerID ws) remove removeVolumes)"

section \<open>Shutdown\<close>

definition ShutdownNone :: string where "ShutdownNone = ''none''"
definition ShutdownStopContainer :: string where "ShutdownStopContainer = ''stopContainer''"
definition ShutdownStopCompose :: string where "ShutdownStopCompose = ''stopCompose''"

definition effectiveShutdownAction :: "workspace \<Rightarrow> string" where
  "effectiveShutdownAction ws =
     (if cfg_ShutdownAction (ws_Config ws) \<noteq> [] then cfg_ShutdownAction (ws_Config ws)
      else if isComposeWorkspace ws then ShutdownStopCompose
      else ShutdownStopContainer)"

definition shutdownStopContainer :: "workspace \<Rightarrow> unit result" where
  "shutdownStopContainer ws = stopContainer (containerID ws) (\<lambda>_. Ret (Inr ()))"

definition shutdownStopCompose :: "workspace \<Rightarrow> unit result" where
  "shutdownStopCompose ws =
     (if \<not> isComposeWorkspace ws then shutdownStopContainer ws else shutdownStopContainer ws)"

definition Shutdown :: "workspace option \<Rightarrow> unit result" where
  "Shutdown wso =
     ctxIfDone (case wso of
        None \<Rightarrow> Ret (Inl (OptionRequired ''Workspace''))
      | Some ws \<Rightarrow>
          if containerID ws = [] then Ret (Inl (OptionRequired ''Workspace.Container''))
          else let action = effectiveShutdownAction ws in
            if action = ShutdownNone then Ret (Inr ())
            else if action = ShutdownStopCompose then shutdownStopCompose ws
            else shutdownStopContainer ws)"

section \<open>Attach\<close>

text \<open>The merge of \<^verbatim>\<open>Attach\<close>: here a nil local environment is replaced by the one of the process first.\<close>

definition attachedConfig :: "container_details \<Rightarrow> string \<Rightarrow> string gomap \<Rightarrow> feature_metadata list \<Rightarrow> resolved_config" where
  "attachedConfig details i localEnv layers =
     (let cfg = (configFromContainerLabels details)\<lparr>cfg_DevcontainerID := i\<rparr>
      in Finalize (MergeMetadata cfg (mergeContext cfg localEnv) layers))"

definition attachedWorkspace ::
    "engine \<Rightarrow> container_details \<Rightarrow> string \<Rightarrow> string gomap option \<Rightarrow> feature_metadata list \<Rightarrow> workspace" where
  "attachedWorkspace en details i localEnv layers =
     (let env = localEnvOf en localEnv; cfg = attachedConfig details i env layers
      in \<lparr>ws_ID = i, ws_Config = cfg, ws_Container = details, ws_subst = newSubstituter cfg details env,
          ws_probedEnv = []\<rparr>)"

definition reattachWorkspace ::
    "engine \<Rightarrow> container_details \<Rightarrow> string \<Rightarrow> string gomap option \<Rightarrow> workspace result" where
  "reattachWorkspace en details i localEnv =
     (let rest = (\<lambda>layers. withProbe (attachedWorkspace en details i localEnv layers) (\<lambda>ws. Ret (Inr ws)))
      in if ct_Image (cd_Container details) = [] then rest []
         else Do (InspectImage (ct_Image (cd_Container details))) (\<lambda>r. rest (labelLayers r)))"

definition AttachWith :: "engine \<Rightarrow> string \<Rightarrow> string gomap option \<Rightarrow> workspace result" where
  "AttachWith en i localEnv =
     ctxIfDone
       (if i = [] then Ret (Inl (OptionRequired ''WorkspaceID''))
        else tryValue (FindContainerByLabel LabelDevcontainerID i) asFound ''find container'' (\<lambda>found.
          case found of
            None \<Rightarrow> Ret (Inl (RuntimeCall ''attach'' (ContainerNotFoundError i)))
          | Some c \<Rightarrow>
              Do (InspectContainer (ct_ID c)) (\<lambda>r.
                case asDetails r of
                  None \<Rightarrow> Ret (Inl (RuntimeCall ''inspect'' (case errOf r of Some e \<Rightarrow> e | None \<Rightarrow> badShape)))
                | Some details \<Rightarrow> reattachWorkspace en details i localEnv)))"

definition Attach :: "engine \<Rightarrow> string \<Rightarrow> workspace result" where
  "Attach en i = AttachWith en i None"

end
