(* ===== verification/Engine_Calls.thy ===== *)
theory Engine_Calls
  imports Engine_Up Orchestrator_Correct Lifecycle_Correct
begin

text \<open>
  Which kinds of calls each step of the engine can make, whatever it is answered.
\<close>

section \<open>Kinds of calls\<close>

datatype kind = Looks | Finds | Waits | Says | Builds | Fetches | Files | Execs | Starts | Creates | Composes | Destroys

fun kindOf :: "call \<Rightarrow> kind" where
  "kindOf (ListContainers f) = Looks"
| "kindOf (InspectContainer i) = Looks"
| "kindOf (InspectImage i) = Looks"
| "kindOf (ListImages f) = Looks"
| "kindOf (ResolveContainer n) = Looks"
| "kindOf (FindContainerByLabel k v) = Finds"
| "kindOf (StatPath p) = Looks"
| "kindOf (StatOwner p) = Looks"
| "kindOf (ReadFile p) = Looks"
| "kindOf (EvalSymlinks p) = Looks"
| "kindOf (WalkDir p) = Looks"
| "kindOf CtxErr = Waits"
| "kindOf Now = Waits"
| "kindOf (Sleep t) = Waits"
| "kindOf (Emit ev) = Says"
| "kindOf (BuildImage b) = Builds"
| "kindOf (PullImage i) = Builds"
| "kindOf (FetchFeature r k) = Fetches"
| "kindOf (LoadProject l) = Fetches"
| "kindOf (WriteFile p t) = Files"
| "kindOf (MkdirTemp p) = Files"
| "kindOf (MkdirAll p) = Files"
| "kindOf (CopyDir a b) = Files"
| "kindOf (RemoveAll p) = Files"
| "kindOf (Chtimes p) = Files"
| "kindOf (ExecContainer i x) = Execs"
| "kindOf (ExecHost h) = Execs"
| "kindOf (StartContainer i) = Starts"
| "kindOf (RunContainer s) = Creates"
| "kindOf (CreateNetwork n) = Creates"
| "kindOf (CreateVolume v) = Creates"
| "kindOf (ComposeUp c) = Composes"
| "kindOf (ComposeContainerID c s) = Composes"
| "kindOf (ComposeDown p v) = Destroys"
| "kindOf (StopContainer i) = Destroys"
| "kindOf (RemoveContainer i) = Destroys"
| "kindOf (RemoveContainerOpts i v) = Destroys"
| "kindOf (RemoveNetwork n) = Destroys"
| "kindOf (RemoveVolume v) = Destroys"
| "kindOf (RemoveImage i) = Destroys"

definition only :: "kind set \<Rightarrow> 'a prog \<Rightarrow> bool" where
  "only K p \<longleftrightarrow> allCalls (\<lambda>c. kindOf c \<in> K) p"

named_theorems only_intros

lemma only_Ret [simp]: "only K (Ret x)"
  by (simp add: only_def)

lemma only_Do [simp]: "only K (Do c k) \<longleftrightarrow> kindOf c \<in> K \<and> (\<forall>r. only K (k r))"
  by (simp add: only_def)

lemma only_trace: "trace p tr x \<Longrightarrow> only K p \<Longrightarrow> (c, r) \<in> set tr \<Longrightarrow> kindOf c \<in> K"
  unfolding only_def by (rule allCalls_trace)

lemma only_gentle: "only K p \<Longrightarrow> Destroys \<notin> K \<Longrightarrow> allCalls gentle p"
  unfolding only_def
  by (erule allCalls_weaken) (auto simp: gentle_def destructive_def split: call.splits)

lemma only_andThen [only_intros]: "only K p \<Longrightarrow> (\<And>x. only K (f x)) \<Longrightarrow> only K (andThen p f)"
  unfolding only_def by (rule allCalls_andThenI)

lemma only_andTry [only_intros]: "only K p \<Longrightarrow> (\<And>x. only K (f x)) \<Longrightarrow> only K (andTry p f)"
  by (auto simp: andTry_def intro!: only_intros split: sum.split)

lemma only_tryCall [only_intros]: "kindOf c \<in> K \<Longrightarrow> (\<And>r. only K (k r)) \<Longrightarrow> only K (tryCall c what k)"
  by (auto simp: tryCall_def split: option.split)

lemma only_tryValue [only_intros]:
  "kindOf c \<in> K \<Longrightarrow> (\<And>x. only K (k x)) \<Longrightarrow> only K (tryValue c decode what k)"
  by (auto simp: tryValue_def split: sum.split)

lemma only_say [only_intros]: "Says \<in> K \<Longrightarrow> only K p \<Longrightarrow> only K (say ev p)"
  by (simp add: say_def)

lemma only_sayAll [only_intros]: "Says \<in> K \<Longrightarrow> only K p \<Longrightarrow> only K (sayAll evs p)"
  by (induction evs) (auto intro: only_intros)

lemma only_thenRemove [only_intros]: "Files \<in> K \<Longrightarrow> only K p \<Longrightarrow> only K (thenRemove tmp p)"
  by (auto simp: thenRemove_def intro!: only_intros)

lemma only_ctxIfDone [only_intros]: "Waits \<in> K \<Longrightarrow> only K p \<Longrightarrow> only K (ctxIfDone p)"
  by (auto simp: ctxIfDone_def split: option.split)

lemma only_orElse [only_intros]: "kindOf c \<in> K \<Longrightarrow> only K p \<Longrightarrow> only K (orElse c wrap p)"
  by (auto simp: orElse_def split: option.split)

lemma only_orOverride [only_intros]: "(\<And>s. only K (k s)) \<Longrightarrow> only K (orOverride r k)"
  by (auto simp: orOverride_def split: sum.split)

lemma only_orReturn [only_intros]: "only K p \<Longrightarrow> (\<And>x. only K (k x)) \<Longrightarrow> only K (orReturn p k)"
  by (auto simp: orReturn_def intro!: only_intros split: sum.split)

section \<open>Configuration, features and images\<close>

lemma only_firstExisting [only_intros]: "Looks \<in> K \<Longrightarrow> only K (firstExisting folder ps)"
  by (induction ps) auto

lemma only_configPathFor [only_intros]: "Looks \<in> K \<Longrightarrow> only K (configPathFor folder p)"
  by (simp add: configPathFor_def lookupConfigPath_def only_intros)

lemma only_Resolve [only_intros]: "{Looks, Waits} \<subseteq> K \<Longrightarrow> only K (Resolve en folder p env)"
  unfolding Resolve_def
  by (auto intro!: only_intros split: sum.split option.split)

lemma only_lockResult [only_intros]: "only K p \<Longrightarrow> only K (lockResult p)"
  by (auto simp: lockResult_def intro!: only_intros)

lemma only_ReadLockfile [only_intros]: "Looks \<in> K \<Longrightarrow> only K (ReadLockfile p)"
  by (simp add: ReadLockfile_def)

lemma only_commit [only_intros]: "Files \<in> K \<Longrightarrow> only K (commit l fs)"
  by (simp add: commit_def WriteLockfile_def Let_def)

lemma only_commitNoFeatures [only_intros]:
  "{Looks, Files} \<subseteq> K \<Longrightarrow> only K (commitNoFeatures mode p)"
  by (auto simp: commitNoFeatures_def Let_def intro!: only_intros split: sum.split option.split)

lemma only_loadFeatureLock [only_intros]: "Looks \<in> K \<Longrightarrow> only K (loadFeatureLock mode p)"
  by (auto simp: loadFeatureLock_def Let_def intro!: only_intros)

lemma only_dependencyLoop: "Looks \<in> K \<Longrightarrow> only K (dependencyLoop dir fs f ks out)"
  by (induction dir fs f ks out rule: dependencyLoop.induct)
    (auto simp: Let_def checkLocalDependency_def intro!: only_intros)

lemma only_dependencies [only_intros]: "Looks \<in> K \<Longrightarrow> only K (dependencies fs f dir)"
  by (simp add: dependencies_def only_dependencyLoop)

lemma only_fetchFeature [only_intros]: "{Says, Fetches} \<subseteq> K \<Longrightarrow> only K (fetchFeature en lock dir f)"
  unfolding fetchFeature_def Let_def
  by (auto intro!: only_intros split: sum.split option.split)

lemma only_knownDependsOn [only_intros]: "Fetches \<in> K \<Longrightarrow> only K (knownDependsOn f)"
  by (auto simp: knownDependsOn_def bakedDependsOn_def Let_def intro!: only_intros)

lemma only_fetchLoop [only_intros]:
  "{Looks, Says, Fetches} \<subseteq> K \<Longrightarrow> only K (fetchLoop en lock dir fuel before after aliases ws)"
proof (induction en lock dir fuel before after aliases ws rule: fetchLoop.induct)
  case (3 en lock dir fuel before f after aliases ws)
  then show ?case
    by (auto simp del: fetchLoop.simps simp: fetchLoop.simps(3) intro!: only_intros split: prod.splits)
qed simp_all

lemma only_contextFeatures [only_intros]: "Files \<in> K \<Longrightarrow> only K k \<Longrightarrow> only K (contextFeatures bc i fs k)"
  by (induction bc i fs k rule: contextFeatures.induct) (auto simp: Let_def intro!: only_intros)

lemma only_GenerateBuildContext [only_intros]: "Files \<in> K \<Longrightarrow> only K (GenerateBuildContext plan dst)"
  by (auto simp: GenerateBuildContext_def Let_def intro!: only_intros split: option.split)

lemma only_buildFeatures [only_intros]:
  "{Says, Files, Builds} \<subseteq> K \<Longrightarrow> only K (buildFeatures cfg plan ov)"
  unfolding buildFeatures_def Let_def by (auto intro!: only_intros split: option.split)

lemma only_settleFeatures [only_intros]:
  "{Looks, Says, Fetches, Files} \<subseteq> K \<Longrightarrow> only K (settleFeatures en opts cfg base)"
  unfolding settleFeatures_def Let_def by (auto intro!: only_intros split: prod.split)

lemma only_layerFeatures [only_intros]:
  "{Looks, Says, Fetches, Files, Builds} \<subseteq> K \<Longrightarrow> only K (layerFeatures en opts cfg base)"
  unfolding layerFeatures_def Let_def by (auto intro!: only_intros)

lemma only_ensureImage [only_intros]: "{Looks, Builds} \<subseteq> K \<Longrightarrow> only K (ensureImage ref policy)"
  by (auto simp: ensureImage_def intro!: only_intros)

lemma only_prepareBaseImage [only_intros]:
  "{Looks, Says, Builds} \<subseteq> K \<Longrightarrow> only K (prepareBaseImage cfg opts)"
  by (auto simp: prepareBaseImage_def Let_def intro!: only_intros split: option.split source.split)

lemma only_buildUIDImage [only_intros]:
  "{Says, Files, Builds} \<subseteq> K \<Longrightarrow> only K (buildUIDImage cfg img user uid gid)"
  unfolding buildUIDImage_def Let_def by (intro only_intros) auto

lemma only_effectiveContainerUser [only_intros]: "Looks \<in> K \<Longrightarrow> only K (effectiveContainerUser cfg img)"
  by (simp add: effectiveContainerUser_def)

lemma only_reconcileRemoteUserUID [only_intros]:
  "{Looks, Says, Files, Builds} \<subseteq> K \<Longrightarrow> only K (reconcileRemoteUserUID en cfg img)"
  by (auto simp: reconcileRemoteUserUID_def intro!: only_intros split: option.split sum.split)

lemma only_inspectLoop: "{Looks, Waits} \<subseteq> K \<Longrightarrow> only K (inspectLoop n backoff i seen)"
  by (induction n backoff i seen rule: inspectLoop.induct) (auto split: option.split)

lemma only_buildWorkspace [only_intros]: "{Looks, Waits} \<subseteq> K \<Longrightarrow> only K (buildWorkspace en i cfg env)"
  by (auto simp: buildWorkspace_def inspectStable_def intro!: only_intros only_inspectLoop)

lemma only_startedEvent [only_intros]: "{Waits, Says} \<subseteq> K \<Longrightarrow> only K p \<Longrightarrow> only K (startedEvent i p)"
  by (auto simp: startedEvent_def intro!: only_intros)

lemma only_attachExisting [only_intros]:
  "{Looks, Waits, Says, Starts} \<subseteq> K \<Longrightarrow> only K (attachExisting en c cfg opts)"
  by (auto simp: attachExisting_def Let_def intro!: only_intros)

lemma only_secretsEnv [only_intros]: "Execs \<in> K \<Longrightarrow> only K (secretsEnv en cfg opts)"
proof -
  assume K: "Execs \<in> K"
  then have one: "only K (execSecretsHost cfg c)" for c by (simp add: execSecretsHost_def)
  then have loop: "only K (secretsLoop cfg par ns merged)" for par ns merged
    by (induction cfg par ns merged rule: secretsLoop.induct) (auto intro!: only_intros split: sum.split)
  have "only K (runSecretsCommand host cfg)" for host
    using one loop by (auto simp: runSecretsCommand_def Let_def split: option.split)
  then show ?thesis by (auto simp: secretsEnv_def collectSecretsEnv_def intro!: only_intros)
qed

section \<open>Probe and hooks\<close>

lemma only_probeUserEnv [only_intros]: "Execs \<in> K \<Longrightarrow> only K (probeUserEnv ws probe)"
  by (auto simp: probeUserEnv_def Let_def split: sum.split)

lemma only_withProbe [only_intros]: "Execs \<in> K \<Longrightarrow> (\<And>w. only K (k w)) \<Longrightarrow> only K (withProbe ws k)"
  by (auto simp: withProbe_def intro!: only_intros)

lemma only_runHooks: "{Waits, Says, Execs} \<subseteq> K \<Longrightarrow> only K (runHooks pick bus ws p cs)"
  unfolding only_def by (rule allCalls_runHooks) auto

lemma only_runInitializeHooks: "{Waits, Says, Execs} \<subseteq> K \<Longrightarrow> only K (runInitializeHooks pick host bus ws cs)"
  unfolding only_def by (rule allCalls_runInitializeHooks) auto

lemma only_emit [only_intros]: "Says \<in> K \<Longrightarrow> only K p \<Longrightarrow> only K (emit bus ev p)"
  by (simp add: emit_def)

lemma only_since [only_intros]: "Waits \<in> K \<Longrightarrow> (\<And>ms. only K (f ms)) \<Longrightarrow> only K (since t f)"
  by (simp add: since_def)

lemma only_runMarked: "{Waits, Says, Execs} \<subseteq> K \<Longrightarrow> only K (runMarked pick bus ws p cs)"
  unfolding runMarked_def writeMarker_def
  by (auto simp: Let_def intro!: only_intros only_runHooks split: option.split)

lemma only_runPhase: "{Waits, Says, Execs} \<subseteq> K \<Longrightarrow> only K (runPhase pick host bus ws p cs)"
  unfolding runPhase_def readMarker_def
  by (auto simp: Let_def intro!: only_intros only_runHooks only_runInitializeHooks only_runMarked
      split: option.split sum.split)

lemma only_runPhases: "{Waits, Says, Execs} \<subseteq> K \<Longrightarrow> only K (runPhases pick host runInit bus ws phases)"
  by (induction phases) (auto intro!: only_intros only_runPhase split: option.split)

lemma only_runHooksOf [only_intros]: "{Waits, Says, Execs} \<subseteq> K \<Longrightarrow> only K (runHooksOf en opts ws)"
  by (simp add: runHooksOf_def runAllLifecycle_def only_runPhases)

lemma only_finishUp [only_intros]: "{Waits, Says, Execs} \<subseteq> K \<Longrightarrow> only K (finishUp en opts cfg ws)"
  unfolding finishUp_def by (auto intro!: only_intros)

section \<open>Fresh containers\<close>

lemma only_runFresh [only_intros]:
  "{Looks, Waits, Says, Creates, Starts, Destroys} \<subseteq> K \<Longrightarrow> only K (runFresh en cfg opts spec)"
  by (auto simp: runFresh_def intro!: only_intros split: option.split)

section \<open>Compose projects\<close>

lemma only_Load [only_intros]: "Fetches \<in> K \<Longrightarrow> only K (Load opts)"
  by (auto simp: Load_def intro!: only_intros)

lemma only_composeRunOverride [only_intros]:
  "{Looks, Says} \<subseteq> K \<Longrightarrow> only K (composeRunOverride cfg opts p src img env h)"
  by (auto simp: composeRunOverride_def Let_def intro!: only_intros split: option.split)

lemma only_prepareComposeServiceImage [only_intros]:
  "{Looks, Says, Builds} \<subseteq> K \<Longrightarrow> only K (prepareComposeServiceImage cfg svc dir opts)"
  by (auto simp: prepareComposeServiceImage_def Let_def intro!: only_intros split: option.split)

lemma only_applyBuild [only_intros]: "only K (applyBuild p name tag)"
  by (simp add: applyBuild_def)

lemma only_buildSidecar [only_intros]: "{Says, Builds} \<subseteq> K \<Longrightarrow> only K (buildSidecar dir name b tag p)"
  by (auto simp: buildSidecar_def intro!: only_intros)

lemma only_sidecarLoop:
  "{Looks, Says, Builds} \<subseteq> K \<Longrightarrow> only K (sidecarLoop src pn dir skip sel names p)"
  by (induction names arbitrary: p) (auto simp: Let_def intro!: only_intros split: option.split)

lemma only_nativeProject [only_intros]:
  "{Looks, Says, Builds} \<subseteq> K \<Longrightarrow> only K (nativeProject en p src pn dir img ov reattach)"
  unfolding nativeProject_def buildComposeSidecarImages_def
  by (auto intro!: only_intros only_sidecarLoop split: sum.split prod.split)

lemma only_composeUpCalls [only_intros]: "Composes \<in> K \<Longrightarrow> only K (composeUpCalls src pn dir tmp ex)"
  by (auto simp: composeUpCalls_def intro!: only_intros)

lemma only_upComposeShellout [only_intros]:
  "{Looks, Waits, Files, Composes} \<subseteq> K \<Longrightarrow> only K (upComposeShellout en cfg opts p src pn dir img ov ex)"
  unfolding upComposeShellout_def by (auto intro!: only_intros)

lemma only_hashFiles: "Looks \<in> K \<Longrightarrow> only K (hashFiles folder limit n ps acc)"
  by (induction folder limit n ps acc rule: hashFiles.induct)
    (auto intro!: only_intros split: option.split sum.split)

lemma only_hashDirContent [only_intros]: "Looks \<in> K \<Longrightarrow> only K (hashDirContent en folder limit)"
  by (auto simp: hashDirContent_def intro!: only_intros only_hashFiles)

lemma only_hashRequested [only_intros]: "Looks \<in> K \<Longrightarrow> only K (hashRequested en dir fs out local)"
  by (induction en dir fs out local rule: hashRequested.induct) (auto simp: Let_def intro!: only_intros)

lemma only_hashDeps [only_intros]: "Looks \<in> K \<Longrightarrow> only K (hashDeps en dir deps hashed out local)"
  by (induction en dir deps hashed out local rule: hashDeps.induct) (auto intro!: only_intros)

lemma only_hashLocals [only_intros]: "Looks \<in> K \<Longrightarrow> only K (hashLocals en dir fuel local hashed out)"
  by (induction en dir fuel local hashed out rule: hashLocals.induct)
    (auto simp: ParseMetadata_def Let_def intro!: only_intros split: sum.split)

lemma only_composeInputsHash [only_intros]: "Looks \<in> K \<Longrightarrow> only K (composeInputsHash en cfg opts p i)"
  unfolding composeInputsHash_def Let_def
  by (auto intro!: only_intros split: option.split source.split)

lemma only_reattachCheck [only_intros]: "Looks \<in> K \<Longrightarrow> only K (reattachCheck en cfg opts p src svc pn)"
  unfolding reattachCheck_def findPrimary_def freshHash_def runningImage_def miss_def Let_def
  by (auto intro!: only_intros split: sum.split list.split option.split)

lemma only_inputsHashOf [only_intros]: "Looks \<in> K \<Longrightarrow> only K (inputsHashOf en cfg opts p img)"
  by (auto simp: inputsHashOf_def intro!: only_intros split: option.split)

end
