(* ===== verification/Engine_Correct.thy ===== *)
theory Engine_Correct
  imports Engine_Calls
begin

text \<open>
  What a call of \<^verbatim>\<open>Up\<close> or \<^verbatim>\<open>Down\<close> does to containers, for every runtime: what is left alone when a
  container is found again, which containers are removed, what a failed reattach has done, and which
  results are possible.
\<close>

section \<open>Traces of the sequencing operators\<close>

lemma trace_andTry:
  "trace (andTry p f) tr y \<longleftrightarrow>
     (\<exists>t1 t2 r. tr = t1 @ t2 \<and> trace p t1 r
        \<and> (case r of Inl e \<Rightarrow> t2 = [] \<and> y = Inl e | Inr x \<Rightarrow> trace (f x) t2 y))"
proof -
  have "trace (case r of Inl e \<Rightarrow> Ret (Inl e) | Inr x \<Rightarrow> f x) t2 y \<longleftrightarrow>
      (case r of Inl e \<Rightarrow> t2 = [] \<and> y = Inl e | Inr x \<Rightarrow> trace (f x) t2 y)" for r t2
    by (cases r) auto
  then show ?thesis by (simp add: andTry_def trace_andThen)
qed

lemma trace_orReturn:
  "trace (orReturn p k) tr y \<longleftrightarrow>
     (\<exists>t1 t2 r. tr = t1 @ t2 \<and> trace p t1 r
        \<and> (case r of Inl e \<Rightarrow> t2 = [] \<and> y = (None, Some e) | Inr x \<Rightarrow> trace (k x) t2 y))"
proof -
  have "trace (case r of Inl e \<Rightarrow> Ret (None, Some e) | Inr x \<Rightarrow> k x) t2 y \<longleftrightarrow>
      (case r of Inl e \<Rightarrow> t2 = [] \<and> y = (None, Some e) | Inr x \<Rightarrow> trace (k x) t2 y)" for r t2
    by (cases r) auto
  then show ?thesis by (simp add: orReturn_def trace_andThen)
qed

lemma trace_sayAll:
  "trace (sayAll evs p) tr y \<longleftrightarrow> (\<exists>t1 t2. tr = t1 @ t2 \<and> map fst t1 = map Emit evs \<and> trace p t2 y)"
proof (induction evs arbitrary: tr)
  case Nil
  then show ?case by simp
next
  case (Cons ev evs)
  show ?case
  proof
    assume "trace (sayAll (ev # evs) p) tr y"
    then obtain r t where "tr = (Emit ev, r) # t" "trace (sayAll evs p) t y"
      by (auto simp: say_def trace_Do_iff)
    with Cons [of t] obtain t1 t2 where "tr = ((Emit ev, r) # t1) @ t2" "map fst t1 = map Emit evs" "trace p t2 y"
      by auto
    then show "\<exists>t1 t2. tr = t1 @ t2 \<and> map fst t1 = map Emit (ev # evs) \<and> trace p t2 y"
      by (intro exI [of _ "(Emit ev, r) # t1"] exI [of _ t2]) simp
  next
    assume "\<exists>t1 t2. tr = t1 @ t2 \<and> map fst t1 = map Emit (ev # evs) \<and> trace p t2 y"
    then obtain r t1 t2 where "tr = (Emit ev, r) # t1 @ t2" "map fst t1 = map Emit evs" "trace p t2 y"
      by (auto simp: map_eq_Cons_conv)
    with Cons [of "t1 @ t2"] show "trace (sayAll (ev # evs) p) tr y" by (auto simp: say_def)
  qed
qed

lemma said_only: "map fst t = map Emit evs \<Longrightarrow> (c, r) \<in> set t \<Longrightarrow> kindOf c = Says"
  by (metis (no_types, lifting) fst_conv imageE image_eqI kindOf.simps(15) list.set_map)

text \<open>The beginning of \<^verbatim>\<open>Up\<close>: looking, up to the search for the container.\<close>

definition upOpts :: "up_options \<Rightarrow> string \<Rightarrow> up_options" where
  "upOpts opts path = opts\<lparr>uo_ConfigPath := path, uo_override := None\<rparr>"

definition upFound :: "engine \<Rightarrow> up_options \<Rightarrow> resolved_config \<Rightarrow> container option \<Rightarrow> up_return prog" where
  "upFound en opts cfg found =
     orReturn (andTry (recreateExisting en opts cfg found) (bringUp en opts cfg)) (finishUp en opts cfg)"

lemma EngineUp_trace:
  assumes "trace (EngineUp en opts) tr res"
  obtains (early) "fst res = None" "snd res \<noteq> None"
      "\<And>c r. (c, r) \<in> set tr \<Longrightarrow> kindOf c \<in> {Looks, Waits, Says, Finds}"
      "\<And>k v c. (FindContainerByLabel k v, RFound (Some c)) \<notin> set tr"
    | (found) path cfg t0 fr found t1 where
      "tr = t0 @ (FindContainerByLabel LabelDevcontainerID (cfg_DevcontainerID cfg), fr) # t1"
      "\<And>c r. (c, r) \<in> set t0 \<Longrightarrow> kindOf c \<in> {Looks, Waits, Says}"
      "(ConfigResolvedEvent cfg) \<in> {ev. \<exists>r. (Emit ev, r) \<in> set t0}" "cfg_Source cfg \<noteq> None"
      "asFound fr = Inr found" "trace (upFound en (upOpts opts path) cfg found) t1 res"
proof -
  let ?front = "ctxIfDone (if uo_LocalWorkspaceFolder opts = [] then Ret (Inl (OptionRequired ''LocalWorkspaceFolder''))
     else configPathFor (uo_LocalWorkspaceFolder opts) (uo_ConfigPath opts))"
  have front: "only {Looks, Waits} ?front" by (intro only_intros) (simp_all add: only_intros)
  have nofind: "kindOf c \<in> {Looks, Waits, Says} \<Longrightarrow> c \<noteq> FindContainerByLabel k v" for c k v by auto
  from assms obtain ta tb ra where a: "tr = ta @ tb" "trace ?front ta ra"
    and ra: "case ra of Inl e \<Rightarrow> tb = [] \<and> res = (None, Some e) | Inr path \<Rightarrow>
      trace (let o' = upOpts opts path in orReturn (Resolve en (uo_LocalWorkspaceFolder o') path (uo_LocalEnv o'))
        (\<lambda>cfg. sayAll (resolvedEvents cfg) (orReturn (upResolved en o' cfg) (finishUp en o' cfg)))) tb res"
    unfolding EngineUp_def trace_orReturn upOpts_def Let_def by blast
  have ka: "kindOf c \<in> {Looks, Waits}" if "(c, r) \<in> set ta" for c r
    using only_trace [OF a(2) front that] .
  show ?thesis
  proof (cases ra)
    case (Inl e)
    with ra a ka show ?thesis by (intro early) (auto dest!: ka)
  next
    case (Inr path)
    let ?o = "upOpts opts path"
    from ra Inr obtain tc td rc where c: "tb = tc @ td"
        "trace (Resolve en (uo_LocalWorkspaceFolder ?o) path (uo_LocalEnv ?o)) tc rc"
      and rc: "case rc of Inl e \<Rightarrow> td = [] \<and> res = (None, Some e) | Inr cfg \<Rightarrow>
        trace (sayAll (resolvedEvents cfg) (orReturn (upResolved en ?o cfg) (finishUp en ?o cfg))) td res"
      by (auto simp: trace_orReturn Let_def)
    have kc: "kindOf c \<in> {Looks, Waits}" if "(c, r) \<in> set tc" for c r
      by (rule only_trace [OF c(2) only_Resolve that]) simp
    show ?thesis
    proof (cases rc)
      case (Inl e)
      with rc a c ka kc show ?thesis by (intro early) (auto dest!: ka kc)
    next
      case (Inr cfg)
      with rc obtain te tf where e: "td = te @ tf" "map fst te = map Emit (resolvedEvents cfg)"
          "trace (orReturn (upResolved en ?o cfg) (finishUp en ?o cfg)) tf res"
        by (auto simp: trace_sayAll)
      have ke: "kindOf c = Says" if "(c, r) \<in> set te" for c r by (rule said_only [OF e(2) that])
      have "Emit (ConfigResolvedEvent cfg) \<in> fst ` set te"
        using e(2) by (metis image_set list.set_intros(1) list.simps(9) resolvedEvents_def)
      then have ev: "ConfigResolvedEvent cfg \<in> {ev. \<exists>r. (Emit ev, r) \<in> set te}" by force
      show ?thesis
      proof (cases "cfg_Source cfg = None")
        case True
        with e(3) have "tf = []" "res = (None, Some UnknownSource)"
          by (auto simp: upResolved_def trace_orReturn)
        with a c e ka kc ke show ?thesis by (intro early) (auto dest!: ka kc ke)
      next
        case src: False
        from e(3) src obtain fr tg where f: "tf = (FindContainerByLabel LabelDevcontainerID (cfg_DevcontainerID cfg), fr) # tg"
          and g: "trace (orReturn (case asFound fr of Inl e \<Rightarrow> Ret (Inl (RuntimeCall ''find existing container'' e))
              | Inr x \<Rightarrow> andTry (recreateExisting en ?o cfg x) (bringUp en ?o cfg)) (finishUp en ?o cfg)) tg res"
          by (auto simp: upResolved_def tryValue_def orReturn_def trace_Do_iff)
        show ?thesis
        proof (cases "asFound fr")
          case (Inl e')
          with g have "tg = []" "res = (None, Some (RuntimeCall ''find existing container'' e'))"
            by (auto simp: trace_orReturn)
          moreover have "fr \<noteq> RFound x" for x using Inl by (auto simp: asFound_def)
          ultimately show ?thesis using a c e f ka kc ke by (intro early) (auto dest!: ka kc ke)
        next
          case (Inr found)
          show ?thesis
            by (rule "found" [of "ta @ tc @ te" cfg fr tg found path])
              (use a c e f g ev src Inr ka kc ke in \<open>auto simp: upFound_def\<close>)
        qed
      qed
    qed
  qed
qed

section \<open>Finding the container again\<close>

text \<open>
  The container of an image or build source that exists is used as it is: nothing is built, fetched,
  created, removed or written, and at most this container is started.
\<close>

definition reuseCall :: "container \<Rightarrow> call \<Rightarrow> bool" where
  "reuseCall c d \<longleftrightarrow> kindOf d \<in> {Looks, Finds, Waits, Says, Execs} \<or> d = StartContainer (ct_ID c)"

lemma only_reuse: "only K p \<Longrightarrow> K \<subseteq> {Looks, Finds, Waits, Says, Execs} \<Longrightarrow> allCalls (reuseCall c) p"
  unfolding only_def by (erule allCalls_weaken) (auto simp: reuseCall_def)

lemma attachExisting_reuse: "allCalls (reuseCall c) (attachExisting en c cfg opts)"
proof -
  have *: "allCalls (reuseCall c) (buildWorkspace en i cfg' env)" for i cfg' env
    by (rule only_reuse [where K = "{Looks, Waits}"]) (auto intro: only_intros)
  show ?thesis
    by (auto simp: attachExisting_def Let_def tryCall_def startedEvent_def say_def * reuseCall_def
        split: option.split)
qed

lemma upFound_reuse:
  assumes "\<not> uo_Recreate opts" "\<not> isComposeSource cfg"
  shows "allCalls (reuseCall c) (upFound en opts cfg (Some c))"
proof -
  have "bringUp en opts cfg (Some c) = attachExisting en c cfg opts"
    using assms(2) by (auto simp: bringUp_def isComposeSource_def split: option.split source.split)
  moreover have "allCalls (reuseCall c) (finishUp en opts cfg ws)" for ws
    by (rule only_reuse [where K = "{Waits, Says, Execs}"]) (auto intro: only_intros)
  ultimately show ?thesis
    using assms(1) by (auto simp: upFound_def recreateExisting_def orReturn_def andTry_def
        intro!: allCalls_andThenI attachExisting_reuse split: sum.split)
qed

text \<open>
  C8. \<^verbatim>\<open>Up\<close> without \<^verbatim>\<open>Recreate\<close>, for an image or build source whose container is found: whatever the
  runtime answers, it builds, pulls, fetches, creates, stops, removes and writes nothing on the host,
  and the only container it starts is the one it found.
\<close>

theorem Up_reuses_container:
  assumes "trace (EngineUp en opts) tr res" "\<not> uo_Recreate opts"
    and "(FindContainerByLabel k v, RFound (Some c)) \<in> set tr" "(d, r) \<in> set tr"
  shows "\<exists>cfg er. (Emit (ConfigResolvedEvent cfg), er) \<in> set tr \<and> (isComposeSource cfg \<or> reuseCall c d)"
  using assms(1)
proof (cases rule: EngineUp_trace)
  case early
  then show ?thesis using assms(3) by blast
next
  case (found path cfg t0 fr found t1)
  show ?thesis
  proof (cases "isComposeSource cfg")
    case True
    then show ?thesis using found by auto
  next
    case False
    have later: "allCalls (reuseCall x) (upFound en (upOpts opts path) cfg (Some x))" for x
      using upFound_reuse False assms(2) by (simp add: upOpts_def)
    have nofind: "only {Looks, Waits, Says, Execs, Builds, Fetches, Files, Starts, Creates, Destroys}
        (upFound en (upOpts opts path) cfg found)"
    proof -
      have "only {Looks, Waits, Says, Execs, Builds, Fetches, Files, Starts, Creates, Destroys}
          (bringUp en (upOpts opts path) cfg e)" for e
        using False unfolding bringUp_def isComposeSource_def createFresh_def
        by (auto intro!: only_intros split: option.split source.splits)
      then show ?thesis using False
        unfolding upFound_def recreateExisting_def removeExisting_def
        by (auto intro!: only_intros split: option.split)
    qed
    have "(FindContainerByLabel k v, RFound (Some c)) \<notin> set t0"
      using found(2) by fastforce
    moreover have "(FindContainerByLabel k v, RFound (Some c)) \<notin> set t1"
      using only_trace [OF found(6) nofind] by fastforce
    ultimately have "fr = RFound (Some c)" using assms(3) found(1) by auto
    with found(5) have "found = Some c" by (simp add: asFound_def)
    with found(6) have t1: "trace (upFound en (upOpts opts path) cfg (Some c)) t1 res" by simp
    have "reuseCall c d"
    proof -
      have "(d, r) \<in> set t1 \<Longrightarrow> reuseCall c d" using allCalls_trace [OF t1 later] by simp
      moreover have "(d, r) \<in> set t0 \<Longrightarrow> reuseCall c d" using found(2) by (fastforce simp: reuseCall_def)
      ultimately show ?thesis using assms(4) found(1) by (auto simp: reuseCall_def)
    qed
    then show ?thesis using found by auto
  qed
qed

section \<open>An example\<close>

definition demoEngine :: engine where
  "demoEngine = \<lparr>en_environ = [''HOME=/root''], en_toJSON = (\<lambda>s. s), en_sha256 = (\<lambda>s. []),
     en_repoOf = (\<lambda>s. Some s), en_marshalYaml = (\<lambda>y. []), en_marshalInputs = (\<lambda>i. None), en_linux = True,
     en_host = False, en_ComposeRuntime = False,
     en_caps = \<lparr>cap_Healthchecks = True, cap_ExitCodes = True, cap_ServiceNameDNS = True\<rparr>,
     en_orch = \<lparr>oe_HealthTimeout = 60, oe_PollInterval = 1, oe_hash = (\<lambda>i svc. []), oe_nanos = (\<lambda>q. 0)\<rparr>,
     en_schedule = (\<lambda>l n. n), en_pick = (\<lambda>n. n), en_fuel = 9, en_ComposeBackend = 1,
     en_DisableHostPortPublishing = False, en_StrictFeatureVersionMatch = False\<rparr>"

definition demoUpOptions :: up_options where
  "demoUpOptions = \<lparr>uo_LocalWorkspaceFolder = ''/w'', uo_ConfigPath = ''/w/d.json'', uo_LocalEnv = None,
     uo_Recreate = False, uo_AdoptExisting = True, uo_PullPolicy = [], uo_Lockfile = [],
     uo_SkipLifecycle = True, uo_RunInitializeCommand = False, uo_RunSecretsCommand = False,
     uo_ExtraMounts = [], uo_ExtraContainerEnv = [], uo_override = None\<rparr>"

definition demoContainer :: container where
  "demoContainer = \<lparr>ct_ID = ''c1'', ct_Name = ''n'', ct_Image = ''i'', ct_State = ''exited'', ct_Labels = []\<rparr>"

definition demoUpDetails :: container_details where
  "demoUpDetails = \<lparr>cd_Container = demoContainer\<lparr>ct_State := ''running''\<rparr>, cd_Created = 0, cd_StartedAt = 0,
     cd_User = [], cd_Env = [], cd_Mounts = [], cd_Labels = [], cd_ImageRef = ''i'', cd_Privileged = False,
     cd_CapAdd = [], cd_SecurityOpt = [], cd_ExitCode = 0, cd_FinishedAt = 0, cd_Health = []\<rparr>"

definition demoUpDoc :: string where
  "demoUpDoc = ''{\"image\":\"i\",\"userEnvProbe\":\"none\"}''"

text \<open>A host with one document, and a runtime where a container cannot be started when none was there.\<close>

fun upBackend :: "container option \<Rightarrow> call \<Rightarrow> unit \<Rightarrow> resp \<times> unit" where
  "upBackend found (ReadFile p) w = (if p = ''/w/d.json'' then RFile (Some demoUpDoc) else RFile None, w)"
| "upBackend found (FindContainerByLabel k v) w = (RFound found, w)"
| "upBackend found (RunContainer s) w = (RContainer demoContainer, w)"
| "upBackend found (InspectContainer i) w = (RDetails (Some demoUpDetails), w)"
| "upBackend found (StartContainer i) w = (if found = None then RErr ContextError else RUnit, w)"
| "upBackend found c w = (RUnit, w)"

definition demoUpRun :: "container option \<Rightarrow> up_return \<times> unit \<times> (call \<times> resp) list" where
  "demoUpRun found = runProg (EngineUp demoEngine demoUpOptions) (upBackend found) ()"

lemma demo_reuses:
  "(case demoUpRun (Some demoContainer) of (res, w, tr) \<Rightarrow>
      list_ex (\<lambda>(c, r). (case c of FindContainerByLabel k v \<Rightarrow> True | _ \<Rightarrow> False) \<and> r = RFound (Some demoContainer)) tr
      \<and> list_ex (\<lambda>(c, r). c = StartContainer ''c1'') tr \<and> \<not> fst res = None)"
  by code_simp

theorem Up_reuses_container_witness:
  "\<exists>res tr cfg er. trace (EngineUp demoEngine demoUpOptions) tr res \<and> (Emit (ConfigResolvedEvent cfg), er) \<in> set tr
     \<and> (isComposeSource cfg \<or> reuseCall demoContainer (StartContainer ''c1''))"
proof -
  obtain res w tr where run: "demoUpRun (Some demoContainer) = (res, w, tr)" by (cases "demoUpRun (Some demoContainer)")
  then have t: "trace (EngineUp demoEngine demoUpOptions) tr res" unfolding demoUpRun_def by (rule runProg_trace)
  from demo_reuses run obtain k v where "(FindContainerByLabel k v, RFound (Some demoContainer)) \<in> set tr"
    by (auto simp: list_ex_iff split: call.splits)
  moreover from demo_reuses run obtain r where "(StartContainer ''c1'', r) \<in> set tr"
    by (auto simp: list_ex_iff)
  moreover have "\<not> uo_Recreate demoUpOptions" by (simp add: demoUpOptions_def)
  ultimately show ?thesis using Up_reuses_container [OF t] t by blast
qed

end
