(* ===== verification/Engine_Safe.thy ===== *)
theory Engine_Safe
  imports Engine_Correct
begin

text \<open>
  Which containers \<^verbatim>\<open>Up\<close> removes, what a reattach has done when it gives up, which results \<^verbatim>\<open>Up\<close> has, and
  what \<^verbatim>\<open>Down\<close> touches.
\<close>

section \<open>Removals\<close>

text \<open>The identifiers of the containers a call and its response have created.\<close>

definition createdBy :: "call \<Rightarrow> resp \<Rightarrow> string set" where
  "createdBy c r =
     (case c of RunContainer spec \<Rightarrow> (case asContainer r of Inl e \<Rightarrow> {} | Inr ct \<Rightarrow> {ct_ID ct}) | _ \<Rightarrow> {})"

definition ownRemoval :: "string set \<Rightarrow> call \<Rightarrow> bool" where
  "ownRemoval S c \<longleftrightarrow> destructive c \<longrightarrow> (\<exists>i \<in> S. c = RemoveContainer i)"

text \<open>Nothing is stopped, and only a container the program has created itself is removed.\<close>

primrec ownRemovals :: "string set \<Rightarrow> 'a prog \<Rightarrow> bool" where
  "ownRemovals S (Ret x) = True"
| "ownRemovals S (Do c k) = (ownRemoval S c \<and> (\<forall>r. ownRemovals (S \<union> createdBy c r) (k r)))"

lemma ownRemovals_mono: "ownRemovals S p \<Longrightarrow> S \<subseteq> T \<Longrightarrow> ownRemovals T p"
proof (induction p arbitrary: S T)
  case (Do c k)
  from Do.prems(1) have "ownRemoval S c" by simp
  then have "ownRemoval T c" using Do.prems(2) by (auto simp: ownRemoval_def)
  moreover have "ownRemovals (T \<union> createdBy c r) (k r)" for r
  proof (rule Do.IH)
    show "ownRemovals (S \<union> createdBy c r) (k r)" using Do.prems(1) by simp
    show "S \<union> createdBy c r \<subseteq> T \<union> createdBy c r" by (rule Un_mono [OF Do.prems(2) subset_refl])
  qed
  ultimately show ?case by simp
qed simp

lemma gentle_own: "gentle c \<Longrightarrow> ownRemoval S c"
  by (simp add: gentle_def ownRemoval_def)

lemma own_gentle: "allCalls gentle p \<Longrightarrow> ownRemovals S p"
  by (induction p arbitrary: S) (simp_all add: gentle_own)

lemma own_only: "only K p \<Longrightarrow> Destroys \<notin> K \<Longrightarrow> ownRemovals S p"
  by (rule own_gentle [OF only_gentle])

lemma own_andThen: "ownRemovals S p \<Longrightarrow> (\<And>x. ownRemovals S (f x)) \<Longrightarrow> ownRemovals S (andThen p f)"
proof (induction p arbitrary: S)
  case (Do c k)
  have "ownRemovals (S \<union> createdBy c r) (f x)" for r x
    by (rule ownRemovals_mono [OF Do.prems(2)]) simp
  with Do show ?case by auto
qed simp

lemma own_andTry: "ownRemovals S p \<Longrightarrow> (\<And>x. ownRemovals S (f x)) \<Longrightarrow> ownRemovals S (andTry p f)"
  by (auto simp: andTry_def intro!: own_andThen split: sum.split)

lemma own_orReturn: "ownRemovals S p \<Longrightarrow> (\<And>x. ownRemovals S (f x)) \<Longrightarrow> ownRemovals S (orReturn p f)"
  by (auto simp: orReturn_def intro!: own_andThen split: sum.split)

lemma own_trace:
  "trace p tr x \<Longrightarrow> ownRemovals S p \<Longrightarrow> tr = t0 @ (d, r) # t1 \<Longrightarrow> destructive d \<Longrightarrow>
     \<exists>i. d = RemoveContainer i \<and> (i \<in> S \<or> (\<exists>c rc. (c, rc) \<in> set t0 \<and> i \<in> createdBy c rc))"
proof (induction arbitrary: S t0 rule: trace.induct)
  case (trace_Do k r' tr x c)
  show ?case
  proof (cases t0)
    case Nil
    with trace_Do.prems show ?thesis by (auto simp: ownRemoval_def)
  next
    case (Cons a t0')
    with trace_Do.prems have "ownRemovals (S \<union> createdBy c r') (k r')" "tr = t0' @ (d, r) # t1" by auto
    from trace_Do.IH [OF this trace_Do.prems(3)] obtain i where
      "d = RemoveContainer i" "i \<in> S \<union> createdBy c r' \<or> (\<exists>c rc. (c, rc) \<in> set t0' \<and> i \<in> createdBy c rc)" by auto
    with Cons trace_Do.prems(2) show ?thesis by auto
  qed
qed simp

lemma own_runFresh: "ownRemovals S (runFresh en cfg opts spec)"
proof -
  have ws: "ownRemovals T (buildWorkspace en i cfg env)" for T i env
    by (rule own_only [where K = "{Looks, Waits}"]) (auto intro: only_intros)
  show ?thesis
    by (auto simp: runFresh_def say_def tryValue_def startedEvent_def ownRemoval_def destructive_def createdBy_def ws
        split: sum.split option.split)
qed

lemma own_prepareBaseImage: "ownRemovals S (prepareBaseImage cfg opts)"
  by (rule own_only [where K = "{Looks, Says, Builds}", OF only_prepareBaseImage]) auto

lemma own_layerFeatures: "ownRemovals S (layerFeatures en opts cfg base)"
  by (rule own_only [where K = "{Looks, Says, Fetches, Files, Builds}", OF only_layerFeatures]) auto

lemma own_reconcile: "ownRemovals S (reconcileRemoteUserUID en cfg img)"
  by (rule own_only [where K = "{Looks, Says, Files, Builds}", OF only_reconcileRemoteUserUID]) auto

lemma own_secretsEnv: "ownRemovals S (secretsEnv en cfg opts)"
  by (rule own_only [where K = "{Execs}", OF only_secretsEnv]) auto

lemmas own_rules = own_andTry own_orReturn own_prepareBaseImage own_layerFeatures own_reconcile own_secretsEnv
  own_runFresh

lemma own_createFresh: "ownRemovals S (createFresh en cfg opts)"
  unfolding createFresh_def by (auto intro!: own_rules split: prod.split)

lemma orchestrator_adopt_gentle: "plan_AdoptExisting pl \<Longrightarrow> allCalls gentle (Orchestrator.Up env fuel pick caps (Some pl))"
  unfolding Orchestrator.Up_def ensureNamedVolumes_def
  by (auto intro!: allCalls_andThenI upLevels_adopt_gentle createVolumes_gentle
      simp: gentle_def [of "CreateNetwork _"] destructive_def split: option.split sum.split prod.split)

text \<open>On the native backend an existing container is adopted, or it could be replaced when it drifted.\<close>

definition adopts :: "engine \<Rightarrow> up_options \<Rightarrow> bool" where
  "adopts en opts \<longleftrightarrow> \<not> uo_Recreate opts \<and> (en_ComposeBackend en = ComposeBackendNative \<longrightarrow> uo_AdoptExisting opts)"

lemma own_upComposeBackend:
  "adopts en opts \<Longrightarrow> ownRemovals S (upComposeBackend en cfg opts p src pn dir img ov ex re)"
proof -
  assume a: "adopts en opts"
  have native: "ownRemovals S (upComposeNative en cfg opts p src pn dir img ov re)"
    if "en_ComposeBackend en = ComposeBackendNative"
    unfolding upComposeNative_def
  proof (rule own_andTry)
    show "ownRemovals S (nativeProject en p src pn dir img ov re)"
      by (rule own_only [where K = "{Looks, Says, Builds}", OF only_nativeProject]) auto
    fix q
    have "ownRemovals S (Orchestrator.Up (en_orch en) (en_fuel en) (en_schedule en) (en_caps en)
        (Some (nativePlan cfg opts q src pn)))"
      using a that by (intro own_gentle orchestrator_adopt_gentle) (simp add: nativePlan_def adopts_def)
    moreover have "ownRemovals S (buildWorkspace en i cfg env)" for i env
      by (rule own_only [where K = "{Looks, Waits}", OF only_buildWorkspace]) auto
    ultimately show "ownRemovals S (andThen (Orchestrator.Up (en_orch en) (en_fuel en) (en_schedule en) (en_caps en)
        (Some (nativePlan cfg opts q src pn))) (\<lambda>(res, err). case err of
          Some e \<Rightarrow> Ret (Inl (OrchestratorFailed e))
        | None \<Rightarrow> let i = mget (ur_ContainerIDs res) (cs_Service src) in
            if i = [] then Ret (Inl (NotStarted (cs_Service src)))
            else buildWorkspace en i cfg (uo_LocalEnv opts)))"
      by (auto simp: Let_def intro!: own_andThen split: option.split)
  qed
  have shell: "ownRemovals S (upComposeShellout en cfg opts p src pn dir img ov ex)"
    by (rule own_only [where K = "{Looks, Waits, Files, Composes}", OF only_upComposeShellout]) auto
  show ?thesis using native shell by (simp add: upComposeBackend_def)
qed

lemma own_composeRunOverride: "ownRemovals S (composeRunOverride cfg opts p src img env h)"
  by (rule own_only [where K = "{Looks, Says}", OF only_composeRunOverride]) auto

lemma own_sayAll: "ownRemovals S p \<Longrightarrow> ownRemovals S (sayAll evs p)"
  by (induction evs) (auto simp: say_def ownRemoval_def destructive_def createdBy_def)

lemma own_reattachCompose:
  "adopts en opts \<Longrightarrow> ownRemovals S (reattachCompose en cfg opts p src svc pn dir)"
  unfolding reattachCompose_def Let_def
  by (intro own_andTry own_only [where K = "{Looks}", OF only_reattachCheck])
    (auto intro!: own_andTry own_sayAll own_composeRunOverride own_upComposeBackend split: sum.split)

lemma own_composeFullPath:
  "adopts en opts \<Longrightarrow> ownRemovals S (composeFullPath en cfg opts p src svc pn dir ex)"
proof -
  assume a: "adopts en opts"
  have 1: "ownRemovals S (prepareComposeServiceImage cfg svc dir opts)"
    by (rule own_only [where K = "{Looks, Says, Builds}", OF only_prepareComposeServiceImage]) auto
  have 2: "ownRemovals S (inputsHashOf en cfg opts p img)" for img
    by (rule own_only [where K = "{Looks}", OF only_inputsHashOf]) auto
  show ?thesis unfolding composeFullPath_def
    by (auto intro!: 1 2 own_rules own_composeRunOverride own_upComposeBackend a split: prod.split)
qed

lemma own_createFreshCompose: "adopts en opts \<Longrightarrow> ownRemovals S (createFreshCompose en cfg opts src ex)"
proof -
  assume a: "adopts en opts"
  have 1: "ownRemovals S (Load lo)" for lo
    by (rule own_only [where K = "{Fetches}", OF only_Load]) auto
  have 2: "ownRemovals S (orFullPath (reattachCompose en cfg opts p src svc pn dir)
      (composeFullPath en cfg opts p src svc pn dir ex'))" for p svc pn dir ex'
    unfolding orFullPath_def
    by (auto intro!: own_andThen own_reattachCompose own_composeFullPath a split: sum.split up_error.split)
  show ?thesis unfolding createFreshCompose_def Let_def
    by (auto intro!: 1 2 own_andTry own_composeFullPath a split: option.split sum.split)
qed

lemma own_upFound:
  assumes "adopts en opts"
  shows "ownRemovals S (upFound en opts cfg found)"
proof -
  have att: "ownRemovals S (attachExisting en c cfg opts)" for c
    by (rule own_only [where K = "{Looks, Waits, Says, Starts}", OF only_attachExisting]) auto
  have fin: "ownRemovals S (finishUp en opts cfg ws)" for ws
    by (rule own_only [where K = "{Waits, Says, Execs}", OF only_finishUp]) auto
  have a': "adopts en (opts\<lparr>uo_RunSecretsCommand := False\<rparr>)" using assms by (simp add: adopts_def)
  have "ownRemovals S (bringUp en opts cfg e)" for e
    unfolding bringUp_def
    by (auto intro!: own_createFreshCompose own_createFresh att assms a' split: option.split source.split)
  moreover have "ownRemovals S (recreateExisting en opts cfg e)" for e
    using assms by (auto simp: recreateExisting_def adopts_def split: option.split)
  ultimately show ?thesis unfolding upFound_def by (intro own_orReturn own_andTry fin)
qed

section \<open>A project that is up is not recreated\<close>

text \<open>No search, and, when \<open>nr\<close> is set, no \<^verbatim>\<open>compose up\<close> without \<^verbatim>\<open>--no-recreate\<close>.\<close>

definition keepsProject :: "bool \<Rightarrow> call \<Rightarrow> bool" where
  "keepsProject nr c \<longleftrightarrow> kindOf c \<noteq> Finds \<and> (nr \<longrightarrow> (\<forall>s. c = ComposeUp s \<longrightarrow> cu_NoRecreate s))"

named_theorems keeps_intros

lemma keeps_only: "only K p \<Longrightarrow> Finds \<notin> K \<Longrightarrow> Composes \<notin> K \<Longrightarrow> allCalls (keepsProject nr) p"
  unfolding only_def by (erule allCalls_weaken) (auto simp: keepsProject_def)

lemmas [keeps_intros] = allCalls_andThenI

lemma keeps_andTry [keeps_intros]: "allCalls P p \<Longrightarrow> (\<And>x. allCalls P (f x)) \<Longrightarrow> allCalls P (andTry p f)"
  by (auto simp: andTry_def intro!: keeps_intros split: sum.split)

lemma keeps_tryCall [keeps_intros]: "P c \<Longrightarrow> (\<And>r. allCalls P (k r)) \<Longrightarrow> allCalls P (tryCall c what k)"
  by (auto simp: tryCall_def split: option.split)

lemma keeps_tryValue [keeps_intros]:
  "P c \<Longrightarrow> (\<And>x. allCalls P (k x)) \<Longrightarrow> allCalls P (tryValue c decode what k)"
  by (auto simp: tryValue_def split: sum.split)

lemma keeps_thenRemove [keeps_intros]: "P (RemoveAll tmp) \<Longrightarrow> allCalls P p \<Longrightarrow> allCalls P (thenRemove tmp p)"
  by (auto simp: thenRemove_def intro!: keeps_intros)

lemma keeps_orOverride [keeps_intros]: "(\<And>s. allCalls P (k s)) \<Longrightarrow> allCalls P (orOverride r k)"
  by (auto simp: orOverride_def split: sum.split)

lemma keeps_sayAll [keeps_intros]: "(\<And>ev. P (Emit ev)) \<Longrightarrow> allCalls P p \<Longrightarrow> allCalls P (sayAll evs p)"
  by (induction evs) (auto simp: say_def)

lemma keeps_orReturn [keeps_intros]: "allCalls P p \<Longrightarrow> (\<And>x. allCalls P (k x)) \<Longrightarrow> allCalls P (orReturn p k)"
  by (auto simp: orReturn_def intro!: keeps_intros split: sum.split)

text \<open>The orchestrator works on single containers.\<close>

lemma keeps_createService [keeps_intros]: "allCalls (keepsProject nr) (createService env plan svc labels hash dig)"
  unfolding createService_def
  by (intro allCalls_andThenI serviceToRunSpec_calls)
    (auto simp: keepsProject_def startFresh_def split: sum.split option.split)

lemma keeps_ensureService: "allCalls (keepsProject nr) (ensureService env plan svc labels)"
proof -
  have d: "allCalls (keepsProject nr) (resolveImageDigest ref)" for ref
    by (auto simp: resolveImageDigest_def keepsProject_def split: option.split)
  have u: "allCalls (keepsProject nr) (reuseContainer what c)" for what c
    by (auto simp: reuseContainer_def keepsProject_def split: option.split)
  have r: "allCalls (keepsProject nr) (recreateService env plan svc labels hash dig c)" for hash dig c
    unfolding recreateService_def
    by (auto simp: keeps_createService split: option.split, simp_all add: keepsProject_def)
  show ?thesis
    unfolding ensureService_def Let_def
    by (intro allCalls_andThenI d)
      (auto simp: keeps_createService u r split: sum.split list.split option.split, simp_all add: keepsProject_def)
qed

lemma only_gateLoop: "{Looks, Waits} \<subseteq> K \<Longrightarrow> only K (gateLoop env fuel services ids deadline reqs)"
proof -
  assume K: "{Looks, Waits} \<subseteq> K"
  have "only K (waitFor env fuel svc cid cond declares deadline unrep)" for svc cid cond declares deadline unrep
    using K by (induction env fuel svc cid cond declares deadline unrep rule: waitFor.induct)
      (auto split: option.split verdict.split)
  then show ?thesis
    by (induction env fuel services ids deadline reqs rule: gateLoop.induct)
      (auto simp: Let_def intro!: only_intros split: option.split)
qed

lemma only_gateLevel: "{Looks, Waits} \<subseteq> K \<Longrightarrow> only K (gateLevel env fuel proj level ids keep)"
  by (auto simp: gateLevel_def Let_def only_gateLoop)

lemma only_containerIP: "Looks \<in> K \<Longrightarrow> only K (containerIP cid)"
  by (auto simp: containerIP_def split: option.split)

lemma only_collectIPs: "Looks \<in> K \<Longrightarrow> only K (collectIPs ids ips)"
  by (induction ids ips rule: collectIPs.induct)
    (simp_all only: collectIPs.simps only_Ret only_andThen only_containerIP)

lemma only_patchHostsFiles: "{Looks, Execs} \<subseteq> K \<Longrightarrow> only K (patchHostsFiles ids)"
proof -
  assume K: "{Looks, Execs} \<subseteq> K"
  have "only K (appendHostsBlocks cids block)" for cids block
    using K by (induction cids block rule: appendHostsBlocks.induct)
      (auto simp: appendHostsBlock_def intro!: only_intros)
  with K show ?thesis unfolding patchHostsFiles_def by (auto intro!: only_intros only_collectIPs)
qed

lemma keeps_upLevels:
  "allCalls (keepsProject nr) (upLevels env fuel pick caps plan proj labels keep levels ids)"
proof (induction levels arbitrary: ids)
  case (Cons level levels)
  have "allCalls (keepsProject nr) (interleave (pick level) 0 (levelThreads env plan proj labels keep level) (ids, None))"
    by (rule allCalls_interleave) (auto dest!: levelThreads_set intro!: allCalls_weaken [OF keeps_ensureService])
  moreover have "allCalls (keepsProject nr) (gateLevel env fuel proj level ids' k)" for ids' k
    by (rule keeps_only [OF only_gateLevel [OF subset_refl]]) simp_all
  moreover have "allCalls (keepsProject nr) (patchHostsFiles ids')" for ids'
    by (rule keeps_only [OF only_patchHostsFiles [OF subset_refl]]) simp_all
  ultimately show ?case using Cons
    by (auto intro!: allCalls_andThenI split: option.split prod.split)
qed simp

lemma keeps_Up: "allCalls (keepsProject nr) (Orchestrator.Up env fuel pick caps pl)"
proof -
  have v: "only {Creates} (createVolumes plan proj labels names)" for plan proj labels names
    by (induction plan proj labels names rule: createVolumes.induct) (auto split: sum.split)
  have "allCalls (keepsProject nr) (ensureNamedVolumes plan proj labels)" for plan proj labels
    unfolding ensureNamedVolumes_def by (rule keeps_only [OF v]) simp_all
  moreover have "keepsProject nr (CreateNetwork n)" for n by (simp add: keepsProject_def)
  ultimately show ?thesis
    unfolding Orchestrator.Up_def
    by (auto intro!: allCalls_andThenI keeps_upLevels split: option.split sum.split prod.split)
qed

lemma keeps_upComposeBackend [keeps_intros]:
  assumes "nr \<Longrightarrow> ex"
  shows "allCalls (keepsProject nr) (upComposeBackend en cfg opts p src pn dir img ov ex re)"
proof -
  have ws: "allCalls (keepsProject nr) (buildWorkspace en i cfg env)" for i env
    by (rule keeps_only [where K = "{Looks, Waits}", OF only_buildWorkspace]) auto
  have "allCalls (keepsProject nr) (nativeProject en p src pn dir img ov re)"
    by (rule keeps_only [where K = "{Looks, Says, Builds}", OF only_nativeProject]) auto
  then have "allCalls (keepsProject nr) (upComposeNative en cfg opts p src pn dir img ov re)"
    unfolding upComposeNative_def
    by (auto simp: Let_def ws intro!: keeps_intros keeps_Up split: option.split prod.split)
  moreover have "allCalls (keepsProject nr) (upComposeShellout en cfg opts p src pn dir img ov ex)"
    unfolding upComposeShellout_def composeUpCalls_def
    using assms by (auto intro!: keeps_intros ws, simp_all add: keepsProject_def)
  ultimately show ?thesis by (simp add: upComposeBackend_def)
qed

lemma keeps_composeRunOverride [keeps_intros]:
  "allCalls (keepsProject nr) (composeRunOverride cfg opts p src img env h)"
  by (rule keeps_only [where K = "{Looks, Says}", OF only_composeRunOverride]) auto

lemma keeps_composeFullPath [keeps_intros]:
  "(nr \<Longrightarrow> ex) \<Longrightarrow> allCalls (keepsProject nr) (composeFullPath en cfg opts p src svc pn dir ex)"
proof -
  assume ex: "nr \<Longrightarrow> ex"
  have 1: "allCalls (keepsProject nr) (prepareComposeServiceImage cfg svc dir opts)"
    by (rule keeps_only [where K = "{Looks, Says, Builds}", OF only_prepareComposeServiceImage]) auto
  have 2: "allCalls (keepsProject nr) (inputsHashOf en cfg opts p img)" for img
    by (rule keeps_only [where K = "{Looks}", OF only_inputsHashOf]) auto
  have 3: "allCalls (keepsProject nr) (layerFeatures en opts cfg base)" for base
    by (rule keeps_only [where K = "{Looks, Says, Fetches, Files, Builds}", OF only_layerFeatures]) auto
  have 4: "allCalls (keepsProject nr) (reconcileRemoteUserUID en c img)" for c img
    by (rule keeps_only [where K = "{Looks, Says, Files, Builds}", OF only_reconcileRemoteUserUID]) auto
  have 5: "allCalls (keepsProject nr) (secretsEnv en c opts)" for c
    by (rule keeps_only [where K = "{Execs}", OF only_secretsEnv]) auto
  show ?thesis unfolding composeFullPath_def
    using ex by (auto intro!: 1 2 3 4 5 keeps_intros split: prod.split)
qed

lemma keeps_reattachCompose [keeps_intros]:
  "allCalls (keepsProject nr) (reattachCompose en cfg opts p src svc pn dir)"
proof -
  have "allCalls (keepsProject nr) (reattachCheck en cfg opts p src svc pn)"
    by (rule keeps_only [where K = "{Looks}", OF only_reattachCheck]) auto
  moreover have "keepsProject nr (Emit ev)" for ev by (simp add: keepsProject_def)
  ultimately show ?thesis unfolding reattachCompose_def Let_def
    by (auto intro!: keeps_intros split: sum.split prod.split)
qed

lemma keeps_createFreshCompose:
  "(nr \<Longrightarrow> ex) \<Longrightarrow> allCalls (keepsProject nr) (createFreshCompose en cfg opts src ex)"
proof -
  assume ex: "nr \<Longrightarrow> ex"
  have "allCalls (keepsProject nr) (Load lo)" for lo
    by (rule keeps_only [where K = "{Fetches}", OF only_Load]) auto
  moreover have "allCalls (keepsProject nr) (orFullPath (reattachCompose en cfg opts p src svc pn dir)
      (composeFullPath en cfg opts p src svc pn dir True))" for p svc pn dir
    unfolding orFullPath_def by (auto intro!: keeps_intros split: sum.split up_error.split)
  ultimately show ?thesis using ex unfolding createFreshCompose_def Let_def
    by (cases ex) (auto intro!: keeps_intros split: option.split sum.split)
qed

lemma keeps_upFound:
  assumes "\<not> uo_Recreate opts"
  shows "allCalls (keepsProject (found \<noteq> None)) (upFound en opts cfg found)"
proof -
  have fin: "allCalls (keepsProject nr) (finishUp en opts cfg ws)" for nr ws
    by (rule keeps_only [where K = "{Waits, Says, Execs}", OF only_finishUp]) auto
  have fresh: "allCalls (keepsProject nr) (createFresh en cfg opts)" for nr
    by (rule keeps_only [where K = "{Looks, Waits, Says, Execs, Builds, Fetches, Files, Starts, Creates, Destroys}"])
      (auto simp: createFresh_def intro!: only_intros)
  have att: "allCalls (keepsProject nr) (attachExisting en c cfg opts)" for nr c
    by (rule keeps_only [where K = "{Looks, Waits, Says, Starts}", OF only_attachExisting]) auto
  have "allCalls (keepsProject (found \<noteq> None)) (bringUp en opts cfg found)"
    unfolding bringUp_def
    by (auto intro!: keeps_createFreshCompose fresh att split: option.split source.split)
  then show ?thesis using assms unfolding upFound_def recreateExisting_def
    by (auto simp: andTry_def intro!: keeps_orReturn fin split: option.split)
qed

lemma Up_destroys_own:
  assumes "trace (EngineUp en opts) (t0 @ (d, r) # t1) res" "destructive d"
    and "\<not> uo_Recreate opts" "uo_AdoptExisting opts \<or> en_ComposeBackend en \<noteq> ComposeBackendNative"
  shows "\<exists>spec c. (RunContainer spec, RContainer c) \<in> set t0 \<and> d = RemoveContainer (ct_ID c)"
  using assms(1)
proof (cases rule: EngineUp_trace)
  case early
  then have "kindOf d \<in> {Looks, Waits, Says, Finds}" by auto
  with assms(2) show ?thesis by (auto simp: destructive_def split: call.splits)
next
  case (found path cfg s0 fr x s1)
  have a: "adopts en (upOpts opts path)" using assms(3,4) by (auto simp: adopts_def upOpts_def)
  have nd: "\<not> destructive c" if "(c, r') \<in> set s0" for c r'
    using found(2) [OF that] by (auto simp: destructive_def split: call.splits)
  let ?f = "(FindContainerByLabel LabelDevcontainerID (cfg_DevcontainerID cfg), fr)"
  have eq: "t0 @ (d, r) # t1 = s0 @ ?f # s1" by (rule found(1))
  obtain u where u: "t0 = s0 @ ?f # u" "s1 = u @ (d, r) # t1"
  proof -
    from eq obtain us where "t0 = s0 @ us \<and> us @ (d, r) # t1 = ?f # s1 \<or> t0 @ us = s0 \<and> (d, r) # t1 = us @ ?f # s1"
      by (auto simp: append_eq_append_conv2)
    then show ?thesis
    proof (elim disjE conjE)
      assume 1: "t0 = s0 @ us" "us @ (d, r) # t1 = ?f # s1"
      show ?thesis
      proof (cases us)
        case Nil
        with 1 assms(2) show ?thesis by (simp add: destructive_def)
      next
        case (Cons x u)
        with 1 show ?thesis by (intro that [of u]) simp_all
      qed
    next
      assume 2: "t0 @ us = s0" "(d, r) # t1 = us @ ?f # s1"
      show ?thesis
      proof (cases us)
        case Nil
        with 2 assms(2) show ?thesis by (simp add: destructive_def)
      next
        case (Cons x u)
        with 2 have "(d, r) \<in> set s0" by auto
        with nd assms(2) show ?thesis by simp
      qed
    qed
  qed
  from own_trace [OF found(6) own_upFound [OF a, of "{}"] u(2) assms(2)] obtain i c rc where
    i: "d = RemoveContainer i" "(c, rc) \<in> set u" "i \<in> createdBy c rc" by auto
  then obtain spec ct where "c = RunContainer spec" "rc = RContainer ct" "i = ct_ID ct"
    by (auto simp: createdBy_def asContainer_def split: call.splits resp.splits sum.splits)
  with i u show ?thesis by auto
qed

lemma Up_keeps_project:
  assumes "trace (EngineUp en opts) tr res" "\<not> uo_Recreate opts"
    and "(FindContainerByLabel k v, RFound (Some c)) \<in> set tr" "(ComposeUp s, r) \<in> set tr"
  shows "cu_NoRecreate s"
  using assms(1)
proof (cases rule: EngineUp_trace)
  case early
  then show ?thesis using assms(3) by blast
next
  case (found path cfg t0 fr x t1)
  have keeps: "allCalls (keepsProject (x \<noteq> None)) (upFound en (upOpts opts path) cfg x)"
    using assms(2) by (intro keeps_upFound) (simp add: upOpts_def)
  have "(FindContainerByLabel k v, RFound (Some c)) \<notin> set t0" using found(2) by fastforce
  moreover have "(FindContainerByLabel k v, RFound (Some c)) \<notin> set t1"
    using allCalls_trace [OF found(6) keeps] by (fastforce simp: keepsProject_def)
  ultimately have "fr = RFound (Some c)" using assms(3) found(1) by auto
  with found(5) have "x \<noteq> None" by (auto simp: asFound_def)
  moreover have "(ComposeUp s, r) \<notin> set t0" using found(2) by fastforce
  then have "(ComposeUp s, r) \<in> set t1" using assms(4) found(1) by auto
  ultimately show ?thesis using allCalls_trace [OF found(6) keeps] by (fastforce simp: keepsProject_def)
qed

text \<open>
  C6. \<^verbatim>\<open>Up\<close> without \<^verbatim>\<open>Recreate\<close>, with \<^verbatim>\<open>AdoptExisting\<close> or on the shell-out compose backend, for every
  source and every answer: it stops nothing, removes no network, volume or image, takes no project
  down, and removes no container but one this run has created itself (the one whose start failed).
  And when the search for the workspace's container found one, every \<^verbatim>\<open>compose up\<close> it runs is told not to recreate
  containers. On the native backend without \<^verbatim>\<open>AdoptExisting\<close> a drifted container is replaced, see C13.
\<close>

theorem Up_removes_only_its_own:
  assumes "trace (EngineUp en opts) tr res" "\<not> uo_Recreate opts"
    and "uo_AdoptExisting opts \<or> en_ComposeBackend en \<noteq> ComposeBackendNative"
  shows "(\<forall>t0 d r t1. tr = t0 @ (d, r) # t1 \<and> destructive d \<longrightarrow>
        (\<exists>spec c. (RunContainer spec, RContainer c) \<in> set t0 \<and> d = RemoveContainer (ct_ID c)))
    \<and> (\<forall>k v c s r. (FindContainerByLabel k v, RFound (Some c)) \<in> set tr \<and> (ComposeUp s, r) \<in> set tr \<longrightarrow>
        cu_NoRecreate s)"
  using Up_destroys_own [OF _ _ assms(2,3)] Up_keeps_project [OF assms(1,2)] assms(1) by blast

lemma demo_removes:
  "(case demoUpRun None of (res, w, tr) \<Rightarrow> list_ex (\<lambda>(c, r). c = RemoveContainer ''c1'') tr)"
  by code_simp

theorem Up_removes_only_its_own_witness:
  "\<exists>t0 r t1 res spec. trace (EngineUp demoEngine demoUpOptions) (t0 @ (RemoveContainer ''c1'', r) # t1) res
     \<and> (\<exists>c. (RunContainer spec, RContainer c) \<in> set t0 \<and> ct_ID c = ''c1'')"
proof -
  obtain res w tr where run: "demoUpRun None = (res, w, tr)" by (cases "demoUpRun None")
  then have t: "trace (EngineUp demoEngine demoUpOptions) tr res" unfolding demoUpRun_def by (rule runProg_trace)
  from demo_removes run obtain r where "(RemoveContainer ''c1'', r) \<in> set tr" by (auto simp: list_ex_iff)
  then obtain t0 t1 where tr: "tr = t0 @ (RemoveContainer ''c1'', r) # t1" by (meson split_list)
  have "\<exists>spec c. (RunContainer spec, RContainer c) \<in> set t0 \<and> RemoveContainer ''c1'' = RemoveContainer (ct_ID c)"
    using Up_removes_only_its_own [OF t, THEN conjunct1, rule_format, of t0 "RemoveContainer ''c1''" r t1] tr
    by (simp add: destructive_def demoUpOptions_def)
  with t tr show ?thesis by fastforce
qed

section \<open>A reattach that gives up\<close>

definition notMiss :: "up_error + 'a \<Rightarrow> bool" where
  "notMiss r = (case r of Inl (ReattachMiss why) \<Rightarrow> False | _ \<Rightarrow> True)"

lemma notMiss_simps [simp]:
  "notMiss (Inr x)" "\<not> notMiss (Inl (ReattachMiss why))"
  "notMiss (Inl e) \<longleftrightarrow> (\<forall>why. e \<noteq> ReattachMiss why)"
  by (auto simp: notMiss_def split: up_error.split)

named_theorems hits_intros

definition hits :: "'a result \<Rightarrow> bool" where
  "hits p = allRets notMiss p"

lemma hits_Ret [simp]: "hits (Ret r) \<longleftrightarrow> notMiss r"
  by (simp add: hits_def)

lemma hits_Do [simp]: "hits (Do c k) \<longleftrightarrow> (\<forall>r. hits (k r))"
  by (simp add: hits_def)

lemma hits_andTry [hits_intros]: "hits p \<Longrightarrow> (\<And>x. hits (f x)) \<Longrightarrow> hits (andTry p f)"
proof -
  assume f: "\<And>x. hits (f x)"
  have "notMiss r \<Longrightarrow> hits (case r of Inl e \<Rightarrow> Ret (Inl e) | Inr x \<Rightarrow> f x)" for r
    using f by (cases r) auto
  then show "hits p \<Longrightarrow> hits (andTry p f)" unfolding hits_def andTry_def by (auto elim: allRets_mono)
qed

lemma hits_andThen [hits_intros]: "(\<And>x. hits (f x)) \<Longrightarrow> hits (andThen p f)"
  unfolding hits_def by (auto intro: allRets_mono [OF allRets_True])

lemma hits_tryCall [hits_intros]: "(\<And>r. hits (k r)) \<Longrightarrow> hits (tryCall c what k)"
  by (auto simp: tryCall_def split: option.split)

lemma hits_tryValue [hits_intros]: "(\<And>x. hits (k x)) \<Longrightarrow> hits (tryValue c decode what k)"
  by (auto simp: tryValue_def split: sum.split)

lemma hits_say [hits_intros]: "hits p \<Longrightarrow> hits (say ev p)"
  by (simp add: say_def)

lemma hits_sayAll [hits_intros]: "hits p \<Longrightarrow> hits (sayAll evs p)"
  by (induction evs) (auto intro: hits_intros)

lemma hits_thenRemove [hits_intros]: "hits p \<Longrightarrow> hits (thenRemove tmp p)"
  unfolding hits_def thenRemove_def by (auto elim: allRets_mono)

lemma hits_orOverride [hits_intros]: "(\<And>s. hits (k s)) \<Longrightarrow> hits (orOverride r k)"
  by (auto simp: orOverride_def split: sum.split)

lemma hits_inspectLoop [hits_intros]: "hits (inspectLoop n backoff i seen)"
  by (induction n backoff i seen rule: inspectLoop.induct) (auto split: option.split)

lemma hits_buildWorkspace [hits_intros]: "hits (buildWorkspace en i cfg env)"
  by (auto simp: buildWorkspace_def inspectStable_def intro!: hits_intros)

lemma hits_composeRunOverride [hits_intros]: "hits (composeRunOverride cfg opts p src img env h)"
  by (auto simp: composeRunOverride_def Let_def intro!: hits_intros split: option.split)

lemma hits_applyBuild [hits_intros]: "hits (applyBuild p name tag)"
  by (auto simp: applyBuild_def split: sum.split)

lemma hits_sidecarLoop [hits_intros]: "hits (sidecarLoop src pn dir skip sel names p)"
  by (induction names arbitrary: p)
    (auto simp: Let_def buildSidecar_def intro!: hits_intros split: option.split)

lemma hits_nativeProject [hits_intros]: "hits (nativeProject en p src pn dir img ov re)"
  unfolding nativeProject_def buildComposeSidecarImages_def
  by (auto intro!: hits_intros split: sum.split prod.split)

lemma hits_upComposeBackend [hits_intros]: "hits (upComposeBackend en cfg opts p src pn dir img ov ex re)"
  unfolding upComposeBackend_def upComposeNative_def upComposeShellout_def composeUpCalls_def
  by (auto simp: Let_def intro!: hits_intros split: option.split)

text \<open>
  C9. When the reattach to a compose project gives up, so that \<^verbatim>\<open>Up\<close> falls back to the full path, it has
  only looked: every call it has made reads the state of the runtime or of the host. With an image
  build requested or images always pulled it has made no call at all.
\<close>

theorem reattach_miss_only_looks:
  assumes "trace (reattachCompose en cfg opts p src svc pn dir) tr (Inl (ReattachMiss why))"
  shows "list_all (\<lambda>(c, r). kindOf c = Looks) tr
    \<and> (tr = [] \<or> (uo_override opts = None \<and> uo_PullPolicy opts \<noteq> PullAlways))"
proof -
  let ?check = "reattachCheck en cfg opts p src svc pn"
  define rest :: "container_details \<times> string \<times> image_details \<Rightarrow> workspace result"
    where "rest = (\<lambda>(details, stored, img).
      case reattachLayers img of Inl e \<Rightarrow> Ret (Inl e)
      | Inr layers \<Rightarrow> sayAll (map (\<lambda>f. FeatureSkippedEvent (rf_Ref f) ''compose_reattach'') (cfg_Features cfg))
         (let cfg' = applyMetadataMerge cfg layers (uo_LocalEnv opts) in
          andTry (composeRunOverride cfg' opts p src (cd_ImageRef details) [] stored) (\<lambda>ov.
            upComposeBackend en cfg' opts p src pn dir (cd_ImageRef details) ov True True)))"
  have rest: "hits (rest x)" for x
    unfolding rest_def
    by (auto simp: Let_def reattachLayers_def intro!: hits_intros split: prod.split sum.split option.split_asm)
  have "reattachCompose en cfg opts p src svc pn dir = andTry ?check rest"
    by (simp only: reattachCompose_def rest_def)
  with assms have "trace (andTry ?check rest) tr (Inl (ReattachMiss why))" by (simp only:)
  then obtain t1 t2 r where t: "tr = t1 @ t2" "trace ?check t1 r"
    and r: "case r of Inl e \<Rightarrow> t2 = [] \<and> Inl (ReattachMiss why) = (Inl e :: up_error + workspace)
      | Inr x \<Rightarrow> trace (rest x) t2 (Inl (ReattachMiss why))"
    unfolding trace_andTry by (elim exE conjE) (rule that)
  have "t2 = []"
  proof (cases r)
    case (Inl e)
    with r show ?thesis by simp
  next
    case (Inr x)
    with r have "trace (rest x) t2 (Inl (ReattachMiss why))" by simp
    from allRets_trace [OF this rest [unfolded hits_def]] show ?thesis by simp
  qed
  moreover have "only {Looks} ?check" by (rule only_reattachCheck) simp
  then have "\<forall>(c, r)\<in>set t1. kindOf c = Looks" using only_trace [OF t(2)] by fastforce
  moreover have "t1 = [] \<or> (uo_override opts = None \<and> uo_PullPolicy opts \<noteq> PullAlways)"
  proof (cases "uo_override opts = None")
    case over: True
    show ?thesis
    proof (cases "uo_PullPolicy opts = PullAlways")
      case True
      with over have "?check = miss ''pull policy is always''" by (simp add: reattachCheck_def)
      with t(2) show ?thesis by (simp add: miss_def)
    qed (use over in simp)
  next
    case False
    then have "?check = miss ''image build requested''" by (simp add: reattachCheck_def)
    with t(2) show ?thesis by (simp add: miss_def)
  qed
  ultimately show ?thesis using t(1) by (auto simp: list_all_iff)
qed

text \<open>A workspace on the compose path whose primary container does not exist yet.\<close>

definition demoMissBackend :: "call \<Rightarrow> unit \<Rightarrow> resp \<times> unit" where
  "demoMissBackend c w = (case c of ListContainers f \<Rightarrow> (RContainers [], w) | _ \<Rightarrow> (RUnit, w))"

definition demoReattach :: "workspace result" where
  "demoReattach = reattachCompose demoEngine emptyConfig demoUpOptions
     \<lparr>pj_Name = ''p'', pj_Services = [], pj_Volumes = [], pj_Networks = [], pj_Secrets = [], pj_Configs = []\<rparr>
     \<lparr>cs_Files = [], cs_Service = ''app'', cs_RunServices = []\<rparr> blank_service ''p'' ''/w''"

theorem reattach_miss_only_looks_witness:
  "\<exists>c r. trace demoReattach [(c, r)] (Inl (ReattachMiss ''primary containers'')) \<and> kindOf c = Looks"
proof -
  obtain c where t: "trace demoReattach [(c, RContainers [])] (Inl (ReattachMiss ''primary containers''))"
    by (auto simp: demoReattach_def reattachCompose_def reattachCheck_def findPrimary_def miss_def andTry_def
        asContainers_def demoUpOptions_def trace_Do_iff)
  with reattach_miss_only_looks [OF this [unfolded demoReattach_def]] show ?thesis by auto
qed

section \<open>Results of Up\<close>

text \<open>
  C35. \<^verbatim>\<open>Up\<close> returns a workspace, or an error, and both only when a lifecycle hook failed: then the
  container runs and the caller can still use it.
\<close>

theorem Up_results:
  "allRets (\<lambda>res. case res of
      (None, None) \<Rightarrow> False
    | (Some ws, Some e) \<Rightarrow> (case e of EngineFailed le \<Rightarrow> isLifecycleError le | _ \<Rightarrow> False)
    | _ \<Rightarrow> True) (EngineUp en opts)" (is "allRets ?ok _")
proof -
  have or: "(\<And>x. allRets ?ok (f x)) \<Longrightarrow> allRets ?ok (orReturn p f)" for p :: "'b result" and f
    by (auto simp: orReturn_def split: sum.split intro: allRets_mono [OF allRets_True])
  have say: "allRets ?ok p \<Longrightarrow> allRets ?ok (sayAll evs p)" for evs p
    by (induction evs) (auto simp: say_def)
  have all: "(\<And>x. Q x) \<Longrightarrow> allRets Q p" for Q and p :: "'c prog" by (induction p) auto
  have fin: "?ok (case le of None \<Rightarrow> (Some ws, None)
      | Some e \<Rightarrow> if isLifecycleError e then (Some ws, Some (EngineFailed e)) else (None, Some (EngineFailed e)))"
    for le ws by (auto split: option.split)
  have "allRets ?ok (withProbe w k)" if "\<And>w. allRets ?ok (k w)" for w k
    unfolding withProbe_def allRets_andThen by (rule all) (rule that)
  then have "allRets ?ok (finishUp en o' cfg ws)" for o' cfg ws
    unfolding finishUp_def
    by (intro say) (simp only: allRets_andThen allRets.simps fin allRets_mono [OF allRets_True])
  then show ?thesis unfolding EngineUp_def Let_def by (intro or say)
qed

section \<open>Down\<close>

lemma trace_stopContainer:
  "trace (stopContainer i k) tr y \<longleftrightarrow>
     (\<exists>r t. tr = (StopContainer i, r) # t
        \<and> (case errOf r of None \<Rightarrow> trace (k True) t y
           | Some e \<Rightarrow> if isNotFound e then trace (k False) t y
                      else t = [] \<and> y = Inl (RuntimeCall ''stop container'' e)))"
proof -
  have "trace (case errOf r of Some e \<Rightarrow> if isNotFound e then k False else Ret (Inl (RuntimeCall ''stop container'' e))
        | None \<Rightarrow> k True) t y \<longleftrightarrow>
      (case errOf r of None \<Rightarrow> trace (k True) t y
       | Some e \<Rightarrow> if isNotFound e then trace (k False) t y
                  else t = [] \<and> y = Inl (RuntimeCall ''stop container'' e))" for r t
    by (cases "errOf r") auto
  then show ?thesis by (simp add: stopContainer_def trace_Do_iff)
qed

lemma errOf_Some: "errOf r = Some e \<longleftrightarrow> r = RErr e"
  by (cases r) (auto simp: errOf_def)

text \<open>What a \<^verbatim>\<open>Down\<close> of one container calls, beside its events, and which answers it goes on after.\<close>

definition downCalls :: "string \<Rightarrow> bool \<Rightarrow> bool \<Rightarrow> call list" where
  "downCalls i remove volumes =
     [CtxErr, StopContainer i] @ (if remove then [RemoveContainerOpts i volumes] else [])"

definition actions :: "(call \<times> resp) list \<Rightarrow> (call \<times> resp) list" where
  "actions tr = filter (\<lambda>e. kindOf (fst e) \<noteq> Says) tr"

definition tolerated :: "call \<times> resp \<Rightarrow> bool" where
  "tolerated e \<longleftrightarrow> (case errOf (snd e) of None \<Rightarrow> True | Some re \<Rightarrow> fst e \<noteq> CtxErr \<and> isNotFound re)"

abbreviation removeTail :: "string \<Rightarrow> bool \<Rightarrow> bool \<Rightarrow> unit result" where
  "removeTail i remove volumes \<equiv> (if \<not> remove then Ret (Inr ())
    else Do (RemoveContainerOpts i volumes) (\<lambda>r. case errOf r of
        Some e \<Rightarrow> if isNotFound e then say (ContainerRemovedEvent i) (Ret (Inr ()))
                  else Ret (Inl (RuntimeCall ''remove container'' e))
      | None \<Rightarrow> say (ContainerRemovedEvent i) (Ret (Inr ()))))"

lemma removeTail_cases:
  assumes "trace (removeTail i remove volumes) t res"
  obtains (kept) "\<not> remove" "t = []" "res = Inr ()"
    | (failed) rr where "remove" "t = [(RemoveContainerOpts i volumes, rr)]"
        "\<not> tolerated (RemoveContainerOpts i volumes, rr)" "res \<noteq> Inr ()"
    | (removed) rr er where "remove" "t = [(RemoveContainerOpts i volumes, rr), (Emit (ContainerRemovedEvent i), er)]"
        "tolerated (RemoveContainerOpts i volumes, rr)" "res = Inr ()"
proof (cases remove)
  case False
  with assms kept show thesis by simp
next
  case True
  with assms obtain rr t' where t: "t = (RemoveContainerOpts i volumes, rr) # t'"
    "trace (case errOf rr of
        Some e \<Rightarrow> if isNotFound e then say (ContainerRemovedEvent i) (Ret (Inr ()))
                  else Ret (Inl (RuntimeCall ''remove container'' e))
      | None \<Rightarrow> say (ContainerRemovedEvent i) (Ret (Inr ()))) t' res"
    by (auto simp: trace_Do_iff)
  show thesis
  proof (cases "tolerated (RemoveContainerOpts i volumes, rr)")
    case False
    then obtain e where "errOf rr = Some e" "\<not> isNotFound e"
      by (auto simp: tolerated_def split: option.splits)
    with t have "t' = []" "res \<noteq> Inr ()" by simp_all
    with t(1) True False show thesis by (intro failed) simp_all
  next
    case tol: True
    then have "errOf rr = None \<or> (\<exists>e. errOf rr = Some e \<and> isNotFound e)"
      by (auto simp: tolerated_def split: option.splits)
    with t(2) have "trace (say (ContainerRemovedEvent i) (Ret (Inr ()))) t' res" by auto
    then obtain er where "t' = [(Emit (ContainerRemovedEvent i), er)]" "res = Inr ()"
      by (auto simp: say_def trace_Do_iff)
    with t(1) True tol show thesis by (intro removed) simp_all
  qed
qed

lemma EngineDown_cases:
  assumes "trace (EngineDown en (Some ws) remove volumes) tr res" "\<not> isComposeWorkspace ws"
  obtains (cancelled) cr where "tr = [(CtxErr, cr)]" "\<not> tolerated (CtxErr, cr)" "res \<noteq> Inr ()"
    | (failed) cr sr where "tr = [(CtxErr, cr), (StopContainer (containerID ws), sr)]" "tolerated (CtxErr, cr)"
        "\<not> tolerated (StopContainer (containerID ws), sr)" "res \<noteq> Inr ()"
    | (gone) cr sr t where "tr = (CtxErr, cr) # (StopContainer (containerID ws), sr) # t" "tolerated (CtxErr, cr)"
        "tolerated (StopContainer (containerID ws), sr)" "errOf sr \<noteq> None"
        "trace (removeTail (containerID ws) remove volumes) t res"
    | (stopped) cr sr er t where "tr = (CtxErr, cr) # (StopContainer (containerID ws), sr)
          # (Emit (ContainerStoppedEvent (containerID ws) (- 1)), er) # t" "tolerated (CtxErr, cr)"
        "tolerated (StopContainer (containerID ws), sr)" "errOf sr = None"
        "trace (removeTail (containerID ws) remove volumes) t res"
proof -
  let ?i = "containerID ws"
  from assms obtain cr t where tr: "tr = (CtxErr, cr) # t"
    and cr: "case errOf cr of Some e \<Rightarrow> t = [] \<and> res = Inl (UpContext e)
      | None \<Rightarrow> trace (downContainer ?i remove volumes) t res"
    by (auto simp: EngineDown_def ctxIfDone_def trace_Do_iff split: option.splits)
  show thesis
  proof (cases "errOf cr")
    case (Some e)
    with tr cr show thesis by (intro cancelled [of cr]) (simp_all add: tolerated_def)
  next
    case None
    then have c: "tolerated (CtxErr, cr)" by (simp add: tolerated_def)
    from None cr have "trace (downContainer ?i remove volumes) t res" by simp
    then have "\<exists>r t'. t = (StopContainer ?i, r) # t'
        \<and> (case errOf r of None \<Rightarrow> trace (say (ContainerStoppedEvent ?i (- 1)) (removeTail ?i remove volumes)) t' res
        | Some e \<Rightarrow> if isNotFound e then trace (removeTail ?i remove volumes) t' res
                   else t' = [] \<and> res = Inl (RuntimeCall ''stop container'' e))"
      unfolding downContainer_def Let_def trace_stopContainer if_True if_False .
    then obtain r t' where t: "t = (StopContainer ?i, r) # t'"
      and r: "case errOf r of None \<Rightarrow> trace (say (ContainerStoppedEvent ?i (- 1)) (removeTail ?i remove volumes)) t' res
        | Some e \<Rightarrow> if isNotFound e then trace (removeTail ?i remove volumes) t' res
                   else t' = [] \<and> res = Inl (RuntimeCall ''stop container'' e)"
      by (elim exE conjE) (rule that)
    show thesis
    proof (cases "errOf r")
      case none: None
      with r have "trace (Do (Emit (ContainerStoppedEvent ?i (- 1))) (\<lambda>_. removeTail ?i remove volumes)) t' res"
        by (simp only: say_def option.case)
      then obtain er t2 where "t' = (Emit (ContainerStoppedEvent ?i (- 1)), er) # t2"
          "trace (removeTail ?i remove volumes) t2 res"
        by (rule trace_DoE)
      with tr t c none show thesis by (intro stopped [of cr r er t2]) (simp_all add: tolerated_def)
    next
      case (Some e)
      show thesis
      proof (cases "isNotFound e")
        case True
        with r Some have "trace (removeTail ?i remove volumes) t' res" by simp
        with True tr t c Some show thesis by (intro gone [of cr r t']) (simp_all add: tolerated_def)
      next
        case False
        with r Some tr t c show thesis by (intro failed [of cr r]) (simp_all add: tolerated_def)
      qed
    qed
  qed
qed

text \<open>
  C3. \<^verbatim>\<open>Down\<close> on the workspace of a single container checks the context, stops that container and, when asked
  to, removes it (with its volumes as asked), in this order and with no other call but its events. It
  succeeds exactly when all these calls were made and none failed, where a container that is gone
  already is no failure; it returns an error exactly when the last call it made failed otherwise, and makes no
  call after that one. The stopped event is emitted exactly when the stop succeeded, the removed
  event exactly when the removal did or found nothing to remove.
\<close>

theorem Down_single_container:
  assumes "trace (EngineDown en (Some ws) remove volumes) tr res" "\<not> isComposeWorkspace ws"
  shows "prefix (map fst (actions tr)) (downCalls (containerID ws) remove volumes)
    \<and> (res = Inr () \<longleftrightarrow> map fst (actions tr) = downCalls (containerID ws) remove volumes \<and> list_all tolerated (actions tr))
    \<and> (res \<noteq> Inr () \<longleftrightarrow> actions tr \<noteq> [] \<and> list_all tolerated (butlast (actions tr)) \<and> \<not> tolerated (last (actions tr)))
    \<and> list_all (\<lambda>c. kindOf c = Says \<longrightarrow> c = Emit (ContainerStoppedEvent (containerID ws) (- 1))
         \<or> c = Emit (ContainerRemovedEvent (containerID ws))) (map fst tr)
    \<and> (Emit (ContainerStoppedEvent (containerID ws) (- 1)) \<in> set (map fst tr) \<longleftrightarrow>
         list_ex (\<lambda>(c, r). c = StopContainer (containerID ws) \<and> errOf r = None) tr)
    \<and> (Emit (ContainerRemovedEvent (containerID ws)) \<in> set (map fst tr) \<longleftrightarrow>
         list_ex (\<lambda>(c, r). c = RemoveContainerOpts (containerID ws) volumes \<and> tolerated (c, r)) tr)"
  using assms
proof (cases rule: EngineDown_cases)
  case (cancelled cr)
  then show ?thesis by (simp add: actions_def downCalls_def)
next
  case (failed cr sr)
  then show ?thesis by (auto simp: actions_def downCalls_def tolerated_def split: option.splits)
next
  case (gone cr sr t)
  from gone(5) show ?thesis
    by (cases rule: removeTail_cases) (use gone(1-4) in \<open>simp_all add: actions_def downCalls_def\<close>)
next
  case (stopped cr sr er t)
  from stopped(5) show ?thesis
    by (cases rule: removeTail_cases) (use stopped(1-4) in \<open>simp_all add: actions_def downCalls_def\<close>)
qed

definition demoUpWorkspace :: workspace where
  "demoUpWorkspace = \<lparr>ws_ID = ''d'', ws_Config = emptyConfig, ws_Container = demoUpDetails,
     ws_subst = newSubstituter emptyConfig demoUpDetails [], ws_probedEnv = []\<rparr>"

lemma demo_down:
  "trace (EngineDown demoEngine (Some demoUpWorkspace) True False)
     [(CtxErr, RUnit), (StopContainer ''c1'', RErr (ContainerNotFoundError ''c1'')),
      (RemoveContainerOpts ''c1'' False, RErr ContextError)]
     (Inl (RuntimeCall ''remove container'' ContextError))"
  by (simp add: EngineDown_def demoUpWorkspace_def Let_def demoUpDetails_def demoContainer_def isComposeWorkspace_def ctxIfDone_def
      downContainer_def trace_stopContainer trace_Do_iff errOf_def)

theorem Down_single_container_witness:
  "\<exists>tr. trace (EngineDown demoEngine (Some demoUpWorkspace) True False) tr
      (Inl (RuntimeCall ''remove container'' ContextError))
    \<and> map fst (actions tr) = [CtxErr, StopContainer ''c1'', RemoveContainerOpts ''c1'' False]
    \<and> list_all tolerated (butlast (actions tr)) \<and> \<not> tolerated (last (actions tr))"
proof -
  have "\<not> isComposeWorkspace demoUpWorkspace"
    by (simp add: isComposeWorkspace_def demoUpWorkspace_def Let_def demoUpDetails_def demoContainer_def)
  from Down_single_container [OF demo_down this] demo_down show ?thesis
    by (intro exI conjI) (assumption, simp_all add: actions_def)
qed

end
