(* ===== verification/Docker_Runtime.thy ===== *)
theory Docker_Runtime
  imports Runtime_Prog Go_Time
begin

text \<open>
  The Docker implementation of the runtime interface (\<^verbatim>\<open>runtime/docker/\<close>): the translation of a run
  specification to a container, the waits after a start and a stop, inspection, the primitives of the
  compose orchestrator, the demultiplexing of an exec stream and the arguments of \<^verbatim>\<open>docker compose\<close>.

  The client library and the daemon behind it are the parameter \<open>'w docker_api\<close>: one function for
  every call the code makes, on a state \<open>'w\<close> of the daemon, of the clock and of the context. Nothing is
  assumed of them but in the premises of a theorem. Only the fields the code reads or writes are kept.
  A nil slice or map is the empty one. An error of the library is its text and the sentinels
  \<^verbatim>\<open>errors.Is\<close> finds in it.
\<close>

section \<open>The client library\<close>

datatype sentinel = ContainerSentinel | ImageSentinel

record api_error =
  ae_Text :: string
  ae_Is :: "sentinel list"

record health_config =
  hg_Test :: "string list"
  hg_Interval :: int
  hg_Timeout :: int
  hg_Retries :: int
  hg_StartPeriod :: int
  hg_StartInterval :: int

record moby_mount =
  mm_Type :: string
  mm_Source :: string
  mm_Target :: string
  mm_ReadOnly :: bool
  mm_Consistency :: string

record container_config =
  kc_Image :: string
  kc_User :: string
  kc_WorkingDir :: string
  kc_Env :: "string list"
  kc_Labels :: "string gomap"
  kc_Entrypoint :: "string list"
  kc_Cmd :: "string list"
  kc_ExposedPorts :: "unit gomap"
  kc_Healthcheck :: "health_config option"

text \<open>A host address and a host port; the zero address of \<^verbatim>\<open>netip\<close> is \<open>None\<close>.\<close>

record host_config =
  ht_Mounts :: "moby_mount list"
  ht_Privileged :: bool
  ht_CapAdd :: "string list"
  ht_SecurityOpt :: "string list"
  ht_PortBindings :: "(string option \<times> string) list gomap"
  ht_RestartPolicy :: string
  ht_Memory :: int
  ht_NanoCPUs :: int
  ht_Init :: "bool option"
  ht_NetworkMode :: string
  ht_PidMode :: string
  ht_IpcMode :: string

text \<open>The aliases of the endpoint of every network, or no networking configuration.\<close>

record create_options =
  co_Name :: string
  co_Config :: container_config
  co_HostConfig :: host_config
  co_NetworkingConfig :: "string list gomap option"

record api_state =
  as_Status :: string
  as_StartedAt :: string
  as_FinishedAt :: string
  as_ExitCode :: int
  as_Health :: "string option"

record mount_point =
  mp_Type :: string
  mp_Source :: string
  mp_Destination :: string
  mp_RW :: bool

record inspected_config =
  ic_User :: string
  ic_Env :: "string list"
  ic_Labels :: "string gomap"
  ic_Image :: string

record inspected_host =
  ih_Privileged :: bool
  ih_CapAdd :: "string list"
  ih_SecurityOpt :: "string list"

record inspected =
  in_ID :: string
  in_Name :: string
  in_Image :: string
  in_State :: "api_state option"
  in_Created :: string
  in_Mounts :: "mount_point list"
  in_Config :: "inspected_config option"
  in_HostConfig :: "inspected_host option"

record image_config =
  ig_Labels :: "string gomap"
  ig_Env :: "string list"
  ig_User :: string
  ig_Entrypoint :: "string list"

record inspected_image =
  ii_ID :: string
  ii_RepoTags :: "string list"
  ii_Config :: "image_config option"

record listed =
  ls_ID :: string
  ls_Names :: "string list"
  ls_Image :: string
  ls_State :: string
  ls_Created :: int
  ls_Labels :: "string gomap"

record net_item =
  nw_ID :: string
  nw_Name :: string
  nw_Labels :: "string gomap"

record exec_create =
  xc_User :: string
  xc_WorkingDir :: string
  xc_Env :: "string list"
  xc_Cmd :: "string list"

record pull_message =
  pm_Error :: "string option"
  pm_Status :: string
  pm_ID :: string

text \<open>
  \<^verbatim>\<open>After d\<close> is the \<^verbatim>\<open>select\<close> between \<^verbatim>\<open>time.After(d)\<close> and \<^verbatim>\<open>ctx.Done()\<close>: false when the context was done
  first. \<^verbatim>\<open>ExecStream\<close> is everything an attached exec writes, or the error of the context.
\<close>

record 'w docker_api =
  da_ParsePort :: "string \<Rightarrow> string option"
  da_ParseAddr :: "string \<Rightarrow> string option"
  da_ContainerCreate :: "create_options \<Rightarrow> 'w \<Rightarrow> (api_error + string) \<times> 'w"
  da_ContainerStart :: "string \<Rightarrow> 'w \<Rightarrow> (api_error + unit) \<times> 'w"
  da_ContainerStop :: "string \<Rightarrow> int option \<Rightarrow> 'w \<Rightarrow> (api_error + unit) \<times> 'w"
  da_ContainerRemove :: "string \<Rightarrow> bool \<Rightarrow> bool \<Rightarrow> 'w \<Rightarrow> (api_error + unit) \<times> 'w"
  da_ContainerList :: "string list \<Rightarrow> 'w \<Rightarrow> (api_error + listed list) \<times> 'w"
  da_ContainerInspect :: "string \<Rightarrow> 'w \<Rightarrow> (api_error + inspected) \<times> 'w"
  da_ImageInspect :: "string \<Rightarrow> 'w \<Rightarrow> (api_error + inspected_image) \<times> 'w"
  da_ImagePull :: "string \<Rightarrow> 'w \<Rightarrow> (api_error + (api_error + pull_message) list) \<times> 'w"
  da_ImageList :: "string list \<Rightarrow> 'w \<Rightarrow> (api_error + image_ref list) \<times> 'w"
  da_ImageRemove :: "string \<Rightarrow> 'w \<Rightarrow> (api_error + unit) \<times> 'w"
  da_NetworkList :: "string \<Rightarrow> 'w \<Rightarrow> (api_error + net_item list) \<times> 'w"
  da_NetworkCreate :: "network_spec \<Rightarrow> 'w \<Rightarrow> (api_error + string) \<times> 'w"
  da_NetworkRemove :: "string \<Rightarrow> 'w \<Rightarrow> (api_error + unit) \<times> 'w"
  da_VolumeList :: "string \<Rightarrow> 'w \<Rightarrow> (api_error + net_item list) \<times> 'w"
  da_VolumeCreate :: "volume_spec \<Rightarrow> 'w \<Rightarrow> (api_error + string) \<times> 'w"
  da_VolumeRemove :: "string \<Rightarrow> 'w \<Rightarrow> (api_error + unit) \<times> 'w"
  da_ExecCreate :: "string \<Rightarrow> exec_create \<Rightarrow> 'w \<Rightarrow> (api_error + string) \<times> 'w"
  da_ExecAttach :: "string \<Rightarrow> 'w \<Rightarrow> (api_error + unit) \<times> 'w"
  da_ExecStream :: "string \<Rightarrow> 'w \<Rightarrow> (runtime_error + string) \<times> 'w"
  da_ExecInspect :: "string \<Rightarrow> 'w \<Rightarrow> (api_error + int) \<times> 'w"
  da_Now :: "'w \<Rightarrow> int \<times> 'w"
  da_After :: "int \<Rightarrow> 'w \<Rightarrow> bool \<times> 'w"

type_synonym ('w, 'a) step = "'w \<Rightarrow> (runtime_error + 'a) \<times> 'w"

text \<open>
  \<open>api\<close> makes one call of the library, with \<open>bad\<close> the translation of its error; \<open>chain\<close> is the rest of
  the function after a call of it or of another function of the package.
\<close>

definition api :: "('w \<Rightarrow> (api_error + 'b) \<times> 'w) \<Rightarrow> (api_error \<Rightarrow> runtime_error) \<Rightarrow> ('w, 'b) step" where
  "api f bad w = (case f w of (Inl e, w') \<Rightarrow> (Inl (bad e), w') | (Inr x, w') \<Rightarrow> (Inr x, w'))"

definition chain :: "('w, 'a) step \<Rightarrow> ('a \<Rightarrow> ('w, 'b) step) \<Rightarrow> ('w, 'b) step" where
  "chain f g w = (case f w of (Inl e, w') \<Rightarrow> (Inl e, w') | (Inr x, w') \<Rightarrow> g x w')"

definition give :: "'a \<Rightarrow> ('w, 'a) step" where
  "give x w = (Inr x, w)"

definition fail :: "runtime_error \<Rightarrow> ('w, 'a) step" where
  "fail e w = (Inl e, w)"

definition wrapped :: "string \<Rightarrow> api_error \<Rightarrow> runtime_error" where
  "wrapped what e = WrappedError what (OtherError (ae_Text e))"

lemmas step_defs = api_def chain_def give_def fail_def

section \<open>Errors of the daemon\<close>

fun indexOfSub :: "string \<Rightarrow> string \<Rightarrow> int" where
  "indexOfSub [] sub = (if sub = [] then 0 else - 1)"
| "indexOfSub (c # s) sub =
     (if hasPrefix (c # s) sub then 0
      else let i = indexOfSub s sub in if i < 0 then - 1 else i + 1)"

definition containsAny :: "string \<Rightarrow> string list \<Rightarrow> bool" where
  "containsAny s subs = list_ex (\<lambda>sub. length sub \<le> length s \<and> 0 \<le> indexOfSub s sub) subs"

definition isContainerNotFound :: "api_error \<Rightarrow> bool" where
  "isContainerNotFound e \<longleftrightarrow> ContainerSentinel \<in> set (ae_Is e)
     \<or> containsAny (ae_Text e) [''No such container'', ''no such container'']"

definition isImageNotFound :: "api_error \<Rightarrow> bool" where
  "isImageNotFound e \<longleftrightarrow> ImageSentinel \<in> set (ae_Is e)
     \<or> containsAny (ae_Text e) [''No such image'', ''no such image'', ''manifest unknown'']"

definition isNotFoundErr :: "api_error \<Rightarrow> bool" where
  "isNotFoundErr e \<longleftrightarrow> containsAny (ae_Text e) [''No such'', ''no such'', ''not found'']"

definition containerErr :: "string \<Rightarrow> string \<Rightarrow> api_error \<Rightarrow> runtime_error" where
  "containerErr i what e = (if isContainerNotFound e then ContainerNotFoundError i else wrapped what e)"

definition imageErr :: "string \<Rightarrow> string \<Rightarrow> api_error \<Rightarrow> runtime_error" where
  "imageErr ref what e = (if isImageNotFound e then ImageNotFoundError ref else wrapped what e)"

text \<open>A removal that takes a missing resource for a success.\<close>

definition removed :: "(api_error \<Rightarrow> bool) \<Rightarrow> string \<Rightarrow> ('w \<Rightarrow> (api_error + unit) \<times> 'w) \<Rightarrow> ('w, unit) step" where
  "removed gone what f w =
     (case f w of
        (Inl e, w') \<Rightarrow> if gone e then (Inr (), w') else (Inl (wrapped what e), w')
      | (Inr u, w') \<Rightarrow> (Inr (), w'))"

lemma indexOfSub_nonneg: "0 \<le> indexOfSub s sub \<longleftrightarrow> containsSub s sub"
  by (induction s) (auto simp: Let_def)

lemma indexOfSub_split: "0 \<le> indexOfSub s sub \<Longrightarrow> hasPrefix (drop (nat (indexOfSub s sub)) s) sub"
proof (induction s)
  case Nil
  then show ?case by (cases "sub = []") auto
next
  case (Cons c s)
  show ?case
  proof (cases "hasPrefix (c # s) sub \<or> indexOfSub s sub < 0")
    case True
    with Cons.prems show ?thesis by (auto split: if_splits)
  next
    case False
    with Cons.IH have "hasPrefix (drop (nat (indexOfSub s sub)) s) sub" by simp
    with False show ?thesis by (simp add: nat_add_distrib)
  qed
qed

lemma containsSub_length: "containsSub s sub \<Longrightarrow> length sub \<le> length s"
proof (induction s)
  case (Cons c s)
  then show ?case by (auto simp: hasPrefix_iff dest!: prefix_length_le)
qed simp

lemma containsAny_iff: "containsAny s subs \<longleftrightarrow> (\<exists>sub \<in> set subs. containsSub s sub)"
  by (auto simp: containsAny_def list_ex_iff indexOfSub_nonneg dest: containsSub_length)

section \<open>The specification of a container\<close>

definition keepAliveCmd :: "string list" where
  "keepAliveCmd = [''tail'', ''-f'', ''/dev/null'']"

definition envMapToList :: "string gomap \<Rightarrow> string list" where
  "envMapToList env = map (\<lambda>k. k @ ''='' @ mget env k) (sortedKeys env)"

definition toMobyMounts :: "mount_spec list \<Rightarrow> moby_mount list" where
  "toMobyMounts ms = map (\<lambda>m. \<lparr>mm_Type = ms_Type m, mm_Source = ms_Source m, mm_Target = ms_Target m,
     mm_ReadOnly = ms_ReadOnly m, mm_Consistency = ms_Propagation m\<rparr>) ms"

text \<open>One port: the number and the protocol, the port of the library, then the host address.\<close>

definition bindingOf :: "'w docker_api \<Rightarrow> port_binding \<Rightarrow> string + string \<times> string option \<times> string" where
  "bindingOf a p =
     (if pb_ContainerPort p \<le> 0 then Inl ''invalid port binding''
      else let proto = (if pb_Protocol p = [] then ''tcp'' else pb_Protocol p) in
        case da_ParsePort a (itoa (pb_ContainerPort p) @ ''/'' @ proto) of
          None \<Rightarrow> Inl ''invalid port binding''
        | Some port \<Rightarrow>
            if pb_HostIP p = [] then Inr (port, None, pb_HostPort p)
            else case da_ParseAddr a (pb_HostIP p) of
                None \<Rightarrow> Inl ''invalid HostIP''
              | Some ip \<Rightarrow> Inr (port, Some ip, pb_HostPort p))"

fun portLoop ::
  "'w docker_api \<Rightarrow> port_binding list \<Rightarrow> unit gomap \<Rightarrow> (string option \<times> string) list gomap \<Rightarrow>
     string + unit gomap \<times> (string option \<times> string) list gomap" where
  "portLoop a [] exposed bindings = Inr (exposed, bindings)"
| "portLoop a (p # ps) exposed bindings =
     (case bindingOf a p of
        Inl e \<Rightarrow> Inl e
      | Inr (port, b) \<Rightarrow>
          portLoop a ps (mput port () exposed)
            (mput port ((case map_of bindings port of None \<Rightarrow> [] | Some bs \<Rightarrow> bs) @ [b]) bindings))"

definition toPortBindings ::
  "'w docker_api \<Rightarrow> port_binding list \<Rightarrow> string + unit gomap \<times> (string option \<times> string) list gomap" where
  "toPortBindings a ps = portLoop a ps [] []"

definition toHealthcheck :: "health_check_spec option \<Rightarrow> health_config option" where
  "toHealthcheck h =
     (case h of
        None \<Rightarrow> None
      | Some h \<Rightarrow>
          if hs_Disable h
          then Some \<lparr>hg_Test = [''NONE''], hg_Interval = 0, hg_Timeout = 0, hg_Retries = 0,
                     hg_StartPeriod = 0, hg_StartInterval = 0\<rparr>
          else Some \<lparr>hg_Test = hs_Test h, hg_Interval = hs_Interval h, hg_Timeout = hs_Timeout h,
                     hg_Retries = hs_Retries h, hg_StartPeriod = hs_StartPeriod h,
                     hg_StartInterval = hs_StartInterval h\<rparr>)"

definition toNetworkingConfig :: "string list \<Rightarrow> string \<Rightarrow> string gomap \<Rightarrow> string list gomap option" where
  "toNetworkingConfig networks containerName labels =
     (if networks = [] then None
      else let svc = mget labels ''com.docker.compose.service'';
               aliases = (if svc \<noteq> [] \<and> svc \<noteq> containerName then [containerName, svc] else [containerName])
           in Some (foldl (\<lambda>m n. mput n aliases m) [] networks))"

definition toRestartPolicy :: "restart_policy \<Rightarrow> string" where
  "toRestartPolicy p =
     (case p of RestartAlways \<Rightarrow> ''always'' | RestartOnFailure \<Rightarrow> ''on-failure''
      | RestartUnlessStopped \<Rightarrow> ''unless-stopped'' | RestartNo \<Rightarrow> ''no'')"

definition containerConfig :: "run_spec \<Rightarrow> unit gomap \<Rightarrow> container_config" where
  "containerConfig spec exposed =
     (let cfg = \<lparr>kc_Image = rs_Image spec, kc_User = rs_User spec, kc_WorkingDir = rs_WorkingDir spec,
            kc_Env = envMapToList (rs_Env spec), kc_Labels = rs_Labels spec,
            kc_Entrypoint = rs_Entrypoint spec, kc_Cmd = rs_Cmd spec, kc_ExposedPorts = exposed,
            kc_Healthcheck = toHealthcheck (rs_HealthCheck spec)\<rparr>
      in if rs_OverrideCommand spec then cfg\<lparr>kc_Entrypoint := [], kc_Cmd := keepAliveCmd\<rparr> else cfg)"

definition hostConfig :: "run_spec \<Rightarrow> (string option \<times> string) list gomap \<Rightarrow> host_config" where
  "hostConfig spec bindings =
     \<lparr>ht_Mounts = toMobyMounts (rs_Mounts spec), ht_Privileged = rs_Privileged spec,
      ht_CapAdd = rs_CapAdd spec, ht_SecurityOpt = rs_SecurityOpt spec, ht_PortBindings = bindings,
      ht_RestartPolicy = toRestartPolicy (rs_RestartPolicy spec), ht_Memory = rs_MemoryBytes spec,
      ht_NanoCPUs = rs_NanoCPUs spec, ht_Init = (if rs_Init spec then Some True else None),
      ht_NetworkMode = rs_NetworkMode spec, ht_PidMode = rs_PidMode spec, ht_IpcMode = rs_IpcMode spec\<rparr>"

definition dockerRunContainer :: "'w docker_api \<Rightarrow> run_spec \<Rightarrow> ('w, container) step" where
  "dockerRunContainer a spec =
     (case toPortBindings a (rs_Ports spec) of
        Inl m \<Rightarrow> fail (WrappedError ''RunContainer'' (OtherError m))
      | Inr (exposed, bindings) \<Rightarrow>
          chain (api (da_ContainerCreate a
                   \<lparr>co_Name = rs_Name spec, co_Config = containerConfig spec exposed,
                    co_HostConfig = hostConfig spec bindings,
                    co_NetworkingConfig = toNetworkingConfig (rs_Networks spec) (rs_Name spec) (rs_Labels spec)\<rparr>)
                 (imageErr (rs_Image spec) ''ContainerCreate''))
            (\<lambda>i. give \<lparr>ct_ID = i, ct_Name = rs_Name spec, ct_Image = rs_Image spec, ct_State = StateCreated,
                       ct_Labels = []\<rparr>))"

section \<open>Inspection\<close>

definition trimLeadingSlash :: "string \<Rightarrow> string" where
  "trimLeadingSlash s = trimPrefix s ''/''"

definition stateFrom :: "api_state option \<Rightarrow> string" where
  "stateFrom s = (case s of None \<Rightarrow> [] | Some s \<Rightarrow> as_Status s)"

text \<open>The zero time is 0; so is a time that does not parse.\<close>

definition instantOf :: "string \<Rightarrow> int" where
  "instantOf s = (if s = [] then 0 else case parseTime s of None \<Rightarrow> 0 | Some t \<Rightarrow> t)"

definition stateStartedAt :: "api_state option \<Rightarrow> int" where
  "stateStartedAt s = (case s of None \<Rightarrow> 0 | Some s \<Rightarrow> instantOf (as_StartedAt s))"

definition stateFinishedAt :: "api_state option \<Rightarrow> int" where
  "stateFinishedAt s = (case s of None \<Rightarrow> 0 | Some s \<Rightarrow> instantOf (as_FinishedAt s))"

definition stateHealth :: "api_state option \<Rightarrow> string" where
  "stateHealth s =
     (case s of
        None \<Rightarrow> HealthNone
      | Some s \<Rightarrow> (case as_Health s of
            None \<Rightarrow> HealthNone
          | Some h \<Rightarrow> if h = ''starting'' then HealthStarting
                      else if h = ''healthy'' then HealthHealthy
                      else if h = ''unhealthy'' then HealthUnhealthy
                      else HealthNone))"

definition stateExitCode :: "api_state option \<Rightarrow> int" where
  "stateExitCode s = (case s of None \<Rightarrow> 0 | Some s \<Rightarrow> as_ExitCode s)"

definition convertMounts :: "mount_point list \<Rightarrow> mount_inspect list" where
  "convertMounts ms = map (\<lambda>m. \<lparr>mi_Type = mp_Type m, mi_Source = mp_Source m, mi_Target = mp_Destination m,
     mi_ReadOnly = (\<not> mp_RW m)\<rparr>) ms"

text \<open>A fresh map with the same entries.\<close>

definition copyLabels :: "string gomap \<Rightarrow> string gomap" where
  "copyLabels m = mputall [] m"

definition detailsOf :: "inspected \<Rightarrow> container_details" where
  "detailsOf c =
     \<lparr>cd_Container = \<lparr>ct_ID = in_ID c, ct_Name = trimLeadingSlash (in_Name c), ct_Image = in_Image c,
        ct_State = stateFrom (in_State c), ct_Labels = []\<rparr>,
      cd_Created = instantOf (in_Created c), cd_StartedAt = stateStartedAt (in_State c),
      cd_User = (case in_Config c of None \<Rightarrow> [] | Some g \<Rightarrow> ic_User g),
      cd_Env = (case in_Config c of None \<Rightarrow> [] | Some g \<Rightarrow> ic_Env g),
      cd_Mounts = convertMounts (in_Mounts c),
      cd_Labels = (case in_Config c of None \<Rightarrow> [] | Some g \<Rightarrow> copyLabels (ic_Labels g)),
      cd_ImageRef = (case in_Config c of None \<Rightarrow> [] | Some g \<Rightarrow> ic_Image g),
      cd_Privileged = (case in_HostConfig c of None \<Rightarrow> False | Some h \<Rightarrow> ih_Privileged h),
      cd_CapAdd = (case in_HostConfig c of None \<Rightarrow> [] | Some h \<Rightarrow> ih_CapAdd h),
      cd_SecurityOpt = (case in_HostConfig c of None \<Rightarrow> [] | Some h \<Rightarrow> ih_SecurityOpt h),
      cd_ExitCode = stateExitCode (in_State c), cd_FinishedAt = stateFinishedAt (in_State c),
      cd_Health = stateHealth (in_State c)\<rparr>"

definition dockerInspectContainer :: "'w docker_api \<Rightarrow> string \<Rightarrow> ('w, container_details) step" where
  "dockerInspectContainer a i =
     chain (api (da_ContainerInspect a i) (containerErr i ''ContainerInspect'')) (\<lambda>c. give (detailsOf c))"

definition imageDetailsOf :: "inspected_image \<Rightarrow> image_details" where
  "imageDetailsOf r =
     (case ii_Config r of
        None \<Rightarrow> \<lparr>im_ID = ii_ID r, im_Tags = ii_RepoTags r, im_Labels = [], im_Env = [], im_User = [], im_Entrypoint = []\<rparr>
      | Some g \<Rightarrow> \<lparr>im_ID = ii_ID r, im_Tags = ii_RepoTags r, im_Labels = copyLabels (ig_Labels g),
                   im_Env = ig_Env g, im_User = ig_User g, im_Entrypoint = ig_Entrypoint g\<rparr>)"

definition dockerInspectImage :: "'w docker_api \<Rightarrow> string \<Rightarrow> ('w, image_details) step" where
  "dockerInspectImage a ref =
     chain (api (da_ImageInspect a ref) (imageErr ref ''ImageInspect'')) (\<lambda>r. give (imageDetailsOf r))"

section \<open>Start and stop\<close>

definition msec :: "int \<Rightarrow> int" where "msec n = n * 1000000"
definition startTimeout :: int where "startTimeout = msec 30000"
definition stopTimeout :: int where "stopTimeout = msec 30000"
definition settleDelay :: int where "settleDelay = msec 200"
definition firstBackoff :: int where "firstBackoff = msec 50"

definition StateDead :: string where "StateDead = ''dead''"

text \<open>
  The \<^verbatim>\<open>select\<close> on a delay and the context; the deadline; the doubled delay.
\<close>

definition pause :: "'w docker_api \<Rightarrow> int \<Rightarrow> ('w, unit) step" where
  "pause a d w = (case da_After a d w of (ok, w') \<Rightarrow> if ok then (Inr (), w') else (Inl ContextError, w'))"

definition overdue :: "'w docker_api \<Rightarrow> int \<Rightarrow> 'w \<Rightarrow> bool \<times> 'w" where
  "overdue a deadline w = (case da_Now a w of (t, w') \<Rightarrow> (deadline < t, w'))"

definition nextBackoff :: "int \<Rightarrow> int" where
  "nextBackoff b = (if b < msec 1000 then b * 2 else b)"

text \<open>
  The polling loops of \<^verbatim>\<open>waitForRunning\<close> and \<^verbatim>\<open>waitForStopped\<close> for at most \<open>n\<close> rounds: \<open>None\<close> when these
  are used up.
\<close>

definition staysRunning :: "'w docker_api \<Rightarrow> string \<Rightarrow> ('w, unit) step" where
  "staysRunning a i =
     chain (pause a settleDelay) (\<lambda>u.
       chain (dockerInspectContainer a i) (\<lambda>d.
         if ct_State (cd_Container d) = StateRunning then give ()
         else fail (OtherError ''reached running but exited'')))"

fun runningLoop ::
  "'w docker_api \<Rightarrow> nat \<Rightarrow> string \<Rightarrow> int \<Rightarrow> int \<Rightarrow> 'w \<Rightarrow> (runtime_error + unit) option \<times> 'w" where
  "runningLoop a 0 i deadline backoff w = (None, w)"
| "runningLoop a (Suc n) i deadline backoff w =
     (case dockerInspectContainer a i w of
        (Inl e, w1) \<Rightarrow> (Some (Inl e), w1)
      | (Inr d, w1) \<Rightarrow>
          let s = ct_State (cd_Container d) in
          if s = StateRunning then apfst Some (staysRunning a i w1)
          else if s = StateExited \<or> s = StateDead then (Some (Inl (OtherError ''in state after start'')), w1)
          else (case overdue a deadline w1 of (late, w2) \<Rightarrow>
            if late then (Some (Inl (OtherError ''did not reach running state'')), w2)
            else case pause a backoff w2 of
                (Inl e, w3) \<Rightarrow> (Some (Inl e), w3)
              | (Inr u, w3) \<Rightarrow> runningLoop a n i deadline (nextBackoff backoff) w3))"

definition waitForRunning ::
  "'w docker_api \<Rightarrow> nat \<Rightarrow> string \<Rightarrow> int \<Rightarrow> 'w \<Rightarrow> (runtime_error + unit) option \<times> 'w" where
  "waitForRunning a n i timeout w =
     (case da_Now a w of (t, w') \<Rightarrow> runningLoop a n i (t + timeout) firstBackoff w')"

definition dockerStartContainer ::
  "'w docker_api \<Rightarrow> nat \<Rightarrow> string \<Rightarrow> 'w \<Rightarrow> (runtime_error + unit) option \<times> 'w" where
  "dockerStartContainer a n i w =
     (case api (da_ContainerStart a i) (containerErr i ''ContainerStart'') w of
        (Inl e, w') \<Rightarrow> (Some (Inl e), w')
      | (Inr u, w') \<Rightarrow> waitForRunning a n i startTimeout w')"

fun stoppedLoop ::
  "'w docker_api \<Rightarrow> nat \<Rightarrow> string \<Rightarrow> int \<Rightarrow> int \<Rightarrow> 'w \<Rightarrow> (runtime_error + unit) option \<times> 'w" where
  "stoppedLoop a 0 i deadline backoff w = (None, w)"
| "stoppedLoop a (Suc n) i deadline backoff w =
     (case dockerInspectContainer a i w of
        (Inl e, w1) \<Rightarrow> (case e of ContainerNotFoundError j \<Rightarrow> (Some (Inr ()), w1) | _ \<Rightarrow> (Some (Inl e), w1))
      | (Inr d, w1) \<Rightarrow>
          let s = ct_State (cd_Container d) in
          if s = StateExited \<or> s = StateDead \<or> s = [] then (Some (Inr ()), w1)
          else (case overdue a deadline w1 of (late, w2) \<Rightarrow>
            if late then (Some (Inl (OtherError ''did not reach stopped state'')), w2)
            else case pause a backoff w2 of
                (Inl e, w3) \<Rightarrow> (Some (Inl e), w3)
              | (Inr u, w3) \<Rightarrow> stoppedLoop a n i deadline (nextBackoff backoff) w3))"

definition waitForStopped ::
  "'w docker_api \<Rightarrow> nat \<Rightarrow> string \<Rightarrow> int \<Rightarrow> 'w \<Rightarrow> (runtime_error + unit) option \<times> 'w" where
  "waitForStopped a n i timeout w =
     (case da_Now a w of (t, w') \<Rightarrow> stoppedLoop a n i (t + timeout) firstBackoff w')"

text \<open>The timeout of the options, in whole seconds when it is positive.\<close>

definition dockerStopContainer ::
  "'w docker_api \<Rightarrow> nat \<Rightarrow> string \<Rightarrow> int \<Rightarrow> 'w \<Rightarrow> (runtime_error + unit) option \<times> 'w" where
  "dockerStopContainer a n i timeout w =
     (case api (da_ContainerStop a i (if 0 < timeout then Some (timeout div nsPerSec) else None))
             (containerErr i ''ContainerStop'') w of
        (Inl e, w') \<Rightarrow> (Some (Inl e), w')
      | (Inr u, w') \<Rightarrow> waitForStopped a n i stopTimeout w')"

definition dockerRemoveContainer :: "'w docker_api \<Rightarrow> string \<Rightarrow> bool \<Rightarrow> bool \<Rightarrow> ('w, unit) step" where
  "dockerRemoveContainer a i force vols =
     api (da_ContainerRemove a i force vols) (containerErr i ''ContainerRemove'')"

end
