(* ===== verification/Docker_Streams.thy ===== *)
theory Docker_Streams
  imports Docker_Runtime
begin

text \<open>
  The framed output of an exec (\<^verbatim>\<open>runtime/docker/stdcopy.go\<close>), the exec itself, the pull of an image, the
  primitives of the compose orchestrator and the arguments of \<^verbatim>\<open>docker compose\<close>.
\<close>

section \<open>Text\<close>

text \<open>\<^verbatim>\<open>strings.TrimSpace\<close> of ASCII text.\<close>

definition asciiSpaces :: "char list" where
  "asciiSpaces = [CHR 0x09, CHR 0x0A, CHR 0x0B, CHR 0x0C, CHR 0x0D, CHR '' '']"

definition trimSpace :: "string \<Rightarrow> string" where
  "trimSpace s = trimRight asciiSpaces (trimLeft asciiSpaces s)"

section \<open>The framed stream\<close>

text \<open>
  A reader is the text still to come; \<^verbatim>\<open>io.ReadFull\<close> fails with \<^verbatim>\<open>io.EOF\<close> on an empty one and with
  \<^verbatim>\<open>io.ErrUnexpectedEOF\<close> on a short one, \<^verbatim>\<open>io.CopyN\<close> copies what there is and fails with \<^verbatim>\<open>io.EOF\<close>. The
  writers are buffers: a write is recorded with its stream and does not fail.
\<close>

datatype io_error = EOF | ErrUnexpectedEOF

datatype out_stream = Stdout | Stderr

definition headerSize :: nat where "headerSize = 8"

definition streamStdout :: nat where "streamStdout = 1"
definition streamStderr :: nat where "streamStderr = 2"

definition byteVal :: "char \<Rightarrow> nat" where
  "byteVal c = of_char c"

text \<open>\<^verbatim>\<open>binary.BigEndian.Uint32\<close>.\<close>

definition beUint32 :: "string \<Rightarrow> nat" where
  "beUint32 bs = foldl (\<lambda>n b. 256 * n + byteVal b) 0 (take 4 bs)"

definition streamOf :: "nat \<Rightarrow> out_stream option" where
  "streamOf i = (if i = streamStdout then Some Stdout else if i = streamStderr then Some Stderr else None)"

definition writeTo :: "out_stream option \<Rightarrow> string \<Rightarrow> (out_stream \<times> string) list" where
  "writeTo dst s = (case dst of None \<Rightarrow> [] | Some d \<Rightarrow> if s = [] then [] else [(d, s)])"

function stdcopy :: "string \<Rightarrow> (out_stream \<times> string) list \<times> io_error option" where
  "stdcopy src =
     (if src = [] then ([], None)
      else if length src < headerSize then ([], Some ErrUnexpectedEOF)
      else let header = take headerSize src; rest = drop headerSize src;
               size = beUint32 (drop 4 header)
           in if size = 0 then stdcopy rest
              else let dst = streamOf (byteVal (hd header)) in
                if length rest < size then (writeTo dst rest, Some EOF)
                else case stdcopy (drop size rest) of (ws, e) \<Rightarrow> (writeTo dst (take size rest) @ ws, e))"
  by pat_completeness auto
termination
  by (relation "measure length") (auto simp: headerSize_def)

declare stdcopy.simps [simp del]

text \<open>What a buffer holds after the writes.\<close>

definition written :: "out_stream \<Rightarrow> (out_stream \<times> string) list \<Rightarrow> string" where
  "written d ws = concat (map snd (filter (\<lambda>(e, s). e = d) ws))"

section \<open>Exec\<close>

text \<open>Without a terminal, input and writers of the caller, as the engine's own commands run.\<close>

definition dockerExecContainer :: "'w docker_api \<Rightarrow> string \<Rightarrow> exec_options \<Rightarrow> ('w, exec_result) step" where
  "dockerExecContainer a i opts =
     chain (api (da_ExecCreate a i \<lparr>xc_User = xo_User opts, xc_WorkingDir = xo_WorkingDir opts,
                  xc_Env = envMapToList (xo_Env opts), xc_Cmd = xo_Cmd opts\<rparr>) (containerErr i ''ExecCreate''))
       (\<lambda>x. chain (api (da_ExecAttach a x) (wrapped ''ExecAttach''))
         (\<lambda>u. chain (da_ExecStream a x)
           (\<lambda>out. case stdcopy out of
               (ws, Some e) \<Rightarrow> fail (WrappedError ''exec stdcopy'' (OtherError ''EOF''))
             | (ws, None) \<Rightarrow>
                 chain (api (da_ExecInspect a x) (wrapped ''ExecInspect''))
                   (\<lambda>code. give \<lparr>er_ExitCode = code, er_Stdout = written Stdout ws, er_Stderr = written Stderr ws\<rparr>))))"

section \<open>Pull\<close>

datatype build_event_kind = BuildEventLog | BuildEventLayer | BuildEventCompleted | BuildEventPullProgress

record build_event =
  be_Kind :: build_event_kind
  be_Message :: string
  be_LayerID :: string
  be_Digest :: string

text \<open>The events offered to the channel, which drops them when it is full, and the error of the stream.\<close>

fun pullLoop :: "(api_error + pull_message) list \<Rightarrow> build_event list \<times> runtime_error option" where
  "pullLoop [] = ([], None)"
| "pullLoop (m # ms) =
     (case m of
        Inl e \<Rightarrow> ([], Some (wrapped ''pull stream'' e))
      | Inr msg \<Rightarrow>
          (case pm_Error msg of
             Some t \<Rightarrow> ([], Some (OtherError (''pull failed: '' @ t)))
           | None \<Rightarrow>
               case pullLoop ms of (evs, e) \<Rightarrow>
                 (\<lparr>be_Kind = BuildEventPullProgress, be_Message = pm_Status msg, be_LayerID = pm_ID msg,
                   be_Digest = []\<rparr> # evs, e)))"

definition dockerPullImage :: "'w docker_api \<Rightarrow> string \<Rightarrow> ('w, image_ref) step" where
  "dockerPullImage a ref =
     chain (api (da_ImagePull a ref) (imageErr ref ''ImagePull'')) (\<lambda>ms.
       case snd (pullLoop ms) of
         Some e \<Rightarrow> fail e
       | None \<Rightarrow> chain (api (da_ImageInspect a ref) (wrapped ''ImageInspect''))
                   (\<lambda>r. give \<lparr>ir_ID = ii_ID r, ir_Tags = ii_RepoTags r\<rparr>))"

section \<open>Networks, volumes, containers and images by label\<close>

definition required :: "bool \<Rightarrow> string \<Rightarrow> ('w, 'a) step \<Rightarrow> ('w, 'a) step" where
  "required ok what f = (if ok then f else fail (OtherError what))"

definition labelsMatch :: "string gomap \<Rightarrow> string gomap \<Rightarrow> bool" where
  "labelsMatch have want = list_all (\<lambda>(k, v). map_of have k = Some v) want"

definition existingItem :: "string \<Rightarrow> string gomap \<Rightarrow> net_item list \<Rightarrow> net_item option" where
  "existingItem name labels items = find (\<lambda>n. nw_Name n = name \<and> labelsMatch (nw_Labels n) labels) items"

definition dockerCreateNetwork :: "'w docker_api \<Rightarrow> network_spec \<Rightarrow> ('w, string) step" where
  "dockerCreateNetwork a spec =
     required (ns_Name spec \<noteq> []) ''NetworkSpec.Name''
       (chain (api (da_NetworkList a (ns_Name spec)) (wrapped ''NetworkList'')) (\<lambda>items.
          case existingItem (ns_Name spec) (ns_Labels spec) items of
            Some n \<Rightarrow> give (nw_ID n)
          | None \<Rightarrow> api (da_NetworkCreate a spec) (wrapped ''NetworkCreate'')))"

definition dockerRemoveNetwork :: "'w docker_api \<Rightarrow> string \<Rightarrow> ('w, unit) step" where
  "dockerRemoveNetwork a i =
     required (i \<noteq> []) ''network id'' (removed isNotFoundErr ''NetworkRemove'' (da_NetworkRemove a i))"

definition dockerCreateVolume :: "'w docker_api \<Rightarrow> volume_spec \<Rightarrow> ('w, string) step" where
  "dockerCreateVolume a spec =
     required (vs_Name spec \<noteq> []) ''VolumeSpec.Name''
       (chain (api (da_VolumeList a (vs_Name spec)) (wrapped ''VolumeList'')) (\<lambda>items.
          case existingItem (vs_Name spec) (vs_Labels spec) items of
            Some v \<Rightarrow> give (nw_Name v)
          | None \<Rightarrow> api (da_VolumeCreate a spec) (wrapped ''VolumeCreate'')))"

definition dockerRemoveVolume :: "'w docker_api \<Rightarrow> string \<Rightarrow> ('w, unit) step" where
  "dockerRemoveVolume a n =
     required (n \<noteq> []) ''volume name'' (removed isNotFoundErr ''VolumeRemove'' (da_VolumeRemove a n))"

definition filterLabels :: "string gomap \<Rightarrow> string list" where
  "filterLabels m = map (\<lambda>(k, v). k @ ''='' @ v) m"

definition mapContainerState :: "string \<Rightarrow> string" where
  "mapContainerState s =
     (if s = ''created'' then StateCreated else if s = ''running'' then StateRunning
      else if s = ''paused'' then ''paused'' else if s = ''restarting'' then ''restarting''
      else if s = ''removing'' then ''removing'' else if s = ''exited'' then StateExited
      else if s = ''dead'' then StateDead else s)"

definition nameOf :: "string list \<Rightarrow> string" where
  "nameOf names = (case names of [] \<Rightarrow> [] | n # ns \<Rightarrow> trimLeadingSlash n)"

definition dockerListContainers :: "'w docker_api \<Rightarrow> label_filter \<Rightarrow> ('w, container list) step" where
  "dockerListContainers a f =
     required (lf_Match f \<noteq> []) ''ListContainers filter''
       (chain (api (da_ContainerList a (filterLabels (lf_Match f))) (wrapped ''ContainerList'')) (\<lambda>items.
          give (map (\<lambda>c. \<lparr>ct_ID = ls_ID c, ct_Name = nameOf (ls_Names c), ct_Image = ls_Image c,
                      ct_State = mapContainerState (ls_State c), ct_Labels = copyLabels (ls_Labels c)\<rparr>) items)))"

definition dockerListImages :: "'w docker_api \<Rightarrow> label_filter \<Rightarrow> ('w, image_ref list) step" where
  "dockerListImages a f =
     required (lf_Match f \<noteq> []) ''ListImages filter''
       (api (da_ImageList a (filterLabels (lf_Match f))) (wrapped ''ImageList''))"

definition dockerRemoveImage :: "'w docker_api \<Rightarrow> string \<Rightarrow> ('w, unit) step" where
  "dockerRemoveImage a ref =
     required (ref \<noteq> []) ''image'' (removed isImageNotFound ''ImageRemove'' (da_ImageRemove a ref))"

definition dockerCapabilities :: capabilities where
  "dockerCapabilities = \<lparr>cap_Healthchecks = True, cap_ExitCodes = True, cap_ServiceNameDNS = True\<rparr>"

text \<open>
  The most recently created container: the head of the list sorted by descending creation. \<^verbatim>\<open>sort.Slice\<close>
  leaves open which of two containers of the same second comes first; here it is the first listed.
\<close>

fun newest :: "listed list \<Rightarrow> listed option" where
  "newest [] = None"
| "newest (c # cs) =
     (case newest cs of None \<Rightarrow> Some c | Some d \<Rightarrow> if ls_Created c < ls_Created d then Some d else Some c)"

definition dockerFindContainerByLabel :: "'w docker_api \<Rightarrow> string \<Rightarrow> string \<Rightarrow> ('w, container option) step" where
  "dockerFindContainerByLabel a k v =
     chain (api (da_ContainerList a [k @ ''='' @ v]) (wrapped ''ContainerList'')) (\<lambda>items.
       give (map_option (\<lambda>c. \<lparr>ct_ID = ls_ID c, ct_Name = nameOf (ls_Names c), ct_Image = ls_Image c,
                          ct_State = ls_State c, ct_Labels = []\<rparr>) (newest items)))"

section \<open>Arguments of docker compose\<close>

record compose_down_spec =
  cw_Files :: "string list"
  cw_ProjectName :: string
  cw_WorkingDir :: string
  cw_RemoveImages :: bool
  cw_RemoveVolumes :: bool

definition composeArgs :: "string \<Rightarrow> string list \<Rightarrow> string list" where
  "composeArgs projectName files =
     ''compose'' # (if projectName \<noteq> [] then [''--project-name'', projectName] else [])
       @ concat (map (\<lambda>f. [''-f'', f]) files)"

definition buildUpArgs :: "compose_up_spec \<Rightarrow> string list" where
  "buildUpArgs spec =
     composeArgs (cu_ProjectName spec) (cu_Files spec) @ [''up'', ''-d'']
       @ (if cu_NoRecreate spec then [''--no-recreate''] else []) @ cu_Services spec"

definition buildDownArgs :: "compose_down_spec \<Rightarrow> string list" where
  "buildDownArgs spec =
     composeArgs (cw_ProjectName spec) (cw_Files spec) @ [''down'']
       @ (if cw_RemoveImages spec then [''--rmi'', ''local''] else [])
       @ (if cw_RemoveVolumes spec then [''--volumes''] else [])"

definition buildPsArgs :: "compose_ps_spec \<Rightarrow> string \<Rightarrow> string list" where
  "buildPsArgs spec service = composeArgs (cp_ProjectName spec) (cp_Files spec) @ [''ps'', ''-q'', service]"

text \<open>
  A process is run with its arguments in a directory (the empty one is the current directory) and ends
  with its output or with an exit code and its errors; \<open>-1\<close> stands for a process that did not run. The
  probe of the version is made once and its outcome kept in \<open>cs_probe\<close>.
\<close>

record run_failure =
  rf_Exit :: int
  rf_Stderr :: string

record compose_state =
  cs_probe :: "run_failure option option"

datatype compose_error =
    ComposeUnavailableError string
  | ComposeFailedError "string list" int string

type_synonym 'w runner = "string list \<Rightarrow> string \<Rightarrow> 'w \<Rightarrow> (run_failure + string) \<times> 'w"

definition probeCompose ::
  "'w runner \<Rightarrow> compose_state \<Rightarrow> 'w \<Rightarrow> compose_error option \<times> compose_state \<times> 'w" where
  "probeCompose run st w =
     (case (case cs_probe st of
              Some e \<Rightarrow> (e, st, w)
            | None \<Rightarrow>
                case run [''compose'', ''version''] [] w of
                  (Inl e, w') \<Rightarrow> (Some e, st\<lparr>cs_probe := Some (Some e)\<rparr>, w')
                | (Inr out, w') \<Rightarrow> (None, st\<lparr>cs_probe := Some None\<rparr>, w')) of
        (e, st', w') \<Rightarrow> (map_option (\<lambda>f. ComposeUnavailableError (trimSpace (rf_Stderr f))) e, st', w'))"

definition failedOf :: "string list \<Rightarrow> run_failure \<Rightarrow> compose_error" where
  "failedOf args f = ComposeFailedError args (rf_Exit f) (trimSpace (rf_Stderr f))"

definition composeRun ::
  "'w runner \<Rightarrow> string list \<Rightarrow> string \<Rightarrow> compose_state \<Rightarrow> 'w \<Rightarrow>
     (compose_error + string) \<times> compose_state \<times> 'w" where
  "composeRun run args dir st w =
     (case probeCompose run st w of
        (Some e, st', w') \<Rightarrow> (Inl e, st', w')
      | (None, st', w') \<Rightarrow>
          case run args dir w' of
            (Inl f, w'') \<Rightarrow> (Inl (failedOf args f), st', w'')
          | (Inr out, w'') \<Rightarrow> (Inr out, st', w''))"

definition dockerComposeUp ::
  "'w runner \<Rightarrow> compose_up_spec \<Rightarrow> compose_state \<Rightarrow> 'w \<Rightarrow> (compose_error + string) \<times> compose_state \<times> 'w" where
  "dockerComposeUp run spec = composeRun run (buildUpArgs spec) (cu_WorkingDir spec)"

definition dockerComposeDown ::
  "'w runner \<Rightarrow> compose_down_spec \<Rightarrow> compose_state \<Rightarrow> 'w \<Rightarrow> (compose_error + string) \<times> compose_state \<times> 'w" where
  "dockerComposeDown run spec = composeRun run (buildDownArgs spec) (cw_WorkingDir spec)"

text \<open>The first line of the trimmed output.\<close>

definition dockerComposeContainerID ::
  "'w runner \<Rightarrow> compose_ps_spec \<Rightarrow> string \<Rightarrow> compose_state \<Rightarrow> 'w \<Rightarrow>
     (compose_error + string) \<times> compose_state \<times> 'w" where
  "dockerComposeContainerID run spec service st w =
     (case composeRun run (buildPsArgs spec service) (cp_WorkingDir spec) st w of
        (Inl e, s) \<Rightarrow> (Inl e, s)
      | (Inr out, s) \<Rightarrow>
          let i = trimSpace out in
          (Inr (case cutc (CHR 0x0A) i of None \<Rightarrow> i | Some (l, r) \<Rightarrow> l), s))"

end
