(* ===== verification/Spec2Isabelle.thy ===== *)
theory Spec2Isabelle
  imports Compose_Graph Compose_Plan Compose_Override Orchestrator_Correct Orchestrator_Order Orchestrator_Down
    Merge_Metadata Feature_Match Feature_Order Feature_Extract Metadata_Label Lifecycle_Events
    Config_Resolve Feature_Lock Feature_Build Engine_Up Engine_Safe Docker_Correct
begin

text \<open>
  A model of the devcontainer engine, a Go library that reads a \<^verbatim>\<open>devcontainer.json\<close>, builds or pulls its
  image, installs the features it asks for, creates and starts its container (alone or as a service of a
  compose project), runs its lifecycle hooks and runs commands in it. This header says how the program
  is put together, which theory models which part of it, what the theorems show, and what is left out.

  \<^bold>\<open>The program.\<close> The package \<^verbatim>\<open>config\<close> turns a document into a resolved configuration: it parses and
  normalizes it, substitutes variables, derives an identifier, and later merges the metadata of the
  image and the features. The package \<^verbatim>\<open>feature\<close> fetches features, matches their versions, orders them,
  validates their options, writes the build context and the image label, and keeps a lockfile. The package
  \<^verbatim>\<open>compose\<close> validates a loaded project, orders its services, overrides the primary one and brings the
  project up and down. The package \<^verbatim>\<open>runtime\<close> is the interface to a container daemon, and \<^verbatim>\<open>runtime/docker\<close> its
  implementation. The root package, the engine, calls them all: \<^verbatim>\<open>Up\<close>, \<^verbatim>\<open>Attach\<close>, \<^verbatim>\<open>Exec\<close>, \<^verbatim>\<open>Down\<close>,
  \<^verbatim>\<open>Shutdown\<close>, the lifecycle hooks with their markers, and the probe of the user's environment.

  \<^bold>\<open>How effects are modelled.\<close> Pure Go functions are HOL functions with the source's names. Code that talks to
  a runtime, the host or the file system is a program (\<open>prog\<close> in \<open>Runtime_Prog\<close>): a tree of calls, each
  with a continuation for every answer. \<open>trace p tr x\<close> says that \<open>p\<close> can make the calls of \<open>tr\<close>, given the
  answers in it, and return \<open>x\<close>; \<open>allCalls\<close> and \<open>allRets\<close> quantify over all calls and all results. So a theorem about
  traces holds for every daemon, every file system and every failure, and a program returns for every
  sequence of answers since the tree is well founded. \<open>runProg\<close> runs a program against a backend, which
  the witnesses do. Goroutines of one wait group are programs interleaved by a schedule (\<open>interleave\<close>);
  their shared map is the state of the pool. Errors are datatypes (\<open>up_error\<close>, \<open>orch_error\<close>,
  \<open>engine_error\<close>, \<open>override_error\<close>, \<open>runtime_error\<close>) and results are sums; the texts of errors are not modelled.
  A Go map is a list of pairs in its iteration order (\<open>gomap\<close>), so that code depending on the order shows it.

  \<^bold>\<open>Shared theories.\<close>
  \<^item> \<open>Prelude\<close>: strings, slices and maps of Go, with the facts the components share. \<open>Contracts\<close> and
    \<open>Dependency_Order\<close>: the interfaces several components implement (overlay of maps, union of slices,
    topological sort) as locales, interpreted in the theories of their providers. \<open>Runtime_Prog\<close>: calls, answers, programs, traces, goroutines.
  \<^item> \<open>Go_Json\<close>, \<open>Json_Raw\<close>, \<open>Json_Indent\<close>: \<^verbatim>\<open>encoding/json\<close> as the repository uses it, over values and over
    texts, with parse and print inverse to each other; \<open>Go_Path\<close>: \<^verbatim>\<open>path/filepath\<close>; \<open>Go_Time\<close>: the text form of a time.

  \<^bold>\<open>Configuration.\<close>
  \<^item> \<open>Config_Types\<close> (\<^verbatim>\<open>config/resolved.go\<close>), \<open>Config_Normalize\<close> (\<^verbatim>\<open>config/normalize.go\<close>), \<open>Config_Parse\<close>
    (\<^verbatim>\<open>config/parse.go\<close>, \<^verbatim>\<open>config/raw.go\<close>), \<open>Config_Resolve\<close> (\<^verbatim>\<open>config/resolve.go\<close>, \<^verbatim>\<open>config/env.go\<close>,
    \<^verbatim>\<open>config/devcontainer_id.go\<close>): from the document to the resolved configuration, with every listed field
    substituted and the features in order (C22).
  \<^item> \<open>Substitute\<close> (\<^verbatim>\<open>config/substitute.go\<close>): the two passes of substitution (C23).
  \<^item> \<open>Merge_Metadata\<close> (\<^verbatim>\<open>config/merge_metadata.go\<close>): precedence of the layers, environments and mounts, and what a second
    merge does (C24 to C26).

  \<^bold>\<open>Features.\<close>
  \<^item> \<open>Feature_Options\<close> (\<^verbatim>\<open>feature/options.go\<close>): merged options and the env file, read back by a model of the
    shell (C27, C28). \<open>Feature_Match\<close> (\<^verbatim>\<open>feature/match.go\<close>): versions (C29, C30).
  \<^item> \<open>Feature_Graph\<close> and \<open>Feature_Order\<close> (\<^verbatim>\<open>feature/graph.go\<close>, \<^verbatim>\<open>feature/order.go\<close>): the install order, its errors, its
    warning and the override list (C31 to C34).
  \<^item> \<open>Feature_Extract\<close> (\<^verbatim>\<open>feature/extract.go\<close>): unpacking an archive over a file system with links and inodes; without
    links it stays in its destination (C18), and with links it need not (\<open>extract_symlink_escape\<close>).
  \<^item> \<open>Feature_Lock\<close> (\<^verbatim>\<open>feature/lockfile.go\<close>, \<^verbatim>\<open>lockfile.go\<close>): a committed lockfile reads back and is stable (C11).
    \<open>Feature_Build\<close> (\<^verbatim>\<open>feature/parse.go\<close>, \<^verbatim>\<open>feature/dockerfile.go\<close>, \<^verbatim>\<open>feature/wrapper.go\<close>): metadata, Dockerfile and
    build context. \<open>Metadata_Label\<close> (\<^verbatim>\<open>feature/metadata.go\<close>): the image label (C40).

  \<^bold>\<open>Compose.\<close>
  \<^item> \<open>Compose_Types\<close>: projects, plans and the structs of the runtime. \<open>Compose_Graph\<close> (\<^verbatim>\<open>compose/graph.go\<close>): levels,
    cycles, closure (C1, C2, C4). \<open>Compose_Plan\<close> (\<^verbatim>\<open>compose/plan.go\<close>, \<^verbatim>\<open>compose/hash.go\<close>): what is accepted (C5).
    \<open>Compose_Override\<close> (\<^verbatim>\<open>compose/override.go\<close>, \<^verbatim>\<open>compose/apply_override.go\<close>): the mounts an override adds, and
    that both ways of overriding agree on the entrypoint (C7, C10).
  \<^item> \<open>Orchestrator\<close> (\<^verbatim>\<open>compose/orchestrator.go\<close>) as programs. \<open>Orchestrator_Correct\<close>: what is destroyed
    and when (C12, C13), that a health gate ends (C15), and the set of services of an \<^verbatim>\<open>Up\<close>. \<open>Orchestrator_Order\<close>:
    that nothing is done for a service before its dependencies ran and their conditions were seen
    (C16, C17). \<open>Orchestrator_Down\<close>: the teardown, the labels and the hash (C19 to C21).

  \<^bold>\<open>Running commands.\<close>
  \<^item> \<open>Exec_Env\<close> (\<^verbatim>\<open>userenvprobe.go\<close>, \<^verbatim>\<open>secrets.go\<close>): the environment of a command (C36).
  \<^item> \<open>Lifecycle\<close> (\<^verbatim>\<open>exec.go\<close>, \<^verbatim>\<open>lifecycle.go\<close>, \<^verbatim>\<open>marker.go\<close>, \<^verbatim>\<open>workspace.go\<close>) as programs. \<open>Lifecycle_Correct\<close> runs them on a
    container that keeps its marker files (\<open>box\<close>) and gives the invariant of its reachable states (\<open>boxReach\<close>);
    \<open>Lifecycle_Events\<close>: no hook is run again, what a second \<^verbatim>\<open>Up\<close> starts, and the events of a run (C37 to C39).

  \<^bold>\<open>The engine.\<close>
  \<^item> \<open>Engine_Types\<close> (\<^verbatim>\<open>engine.go\<close>, \<^verbatim>\<open>labels.go\<close>, \<^verbatim>\<open>mount.go\<close>), \<open>Engine_Features\<close>, \<open>Engine_Image\<close> (\<^verbatim>\<open>useruid.go\<close>,
    \<^verbatim>\<open>build.go\<close>), \<open>Engine_Compose\<close> (\<^verbatim>\<open>up_compose_reattach.go\<close>, \<^verbatim>\<open>compose/load.go\<close>), \<open>Engine_Up\<close> (\<^verbatim>\<open>down.go\<close>, \<^verbatim>\<open>attach.go\<close>),
    and with them \<^verbatim>\<open>up.go\<close>: whole calls of the engine. \<open>Engine_Calls\<close> classifies the calls of every step;
    \<open>Engine_Correct\<close>: what \<^verbatim>\<open>Up\<close> does with a container it finds (C8); \<open>Engine_Safe\<close>: what it removes, a reattach
    that gives up, its results, and \<^verbatim>\<open>Down\<close> of a container (C3, C6, C9, C35).
  \<^item> \<open>Docker_Runtime\<close>, \<open>Docker_Streams\<close> (\<^verbatim>\<open>runtime/docker/\<close>): the methods of the Docker runtime over an arbitrary
    daemon API with a state. \<open>Docker_Correct\<close>: the framed output of an exec is read exactly (C14), a container that
    was started was seen running twice, and the waits end.

  \<^bold>\<open>Parameters.\<close> Code outside the repository is an argument: the daemon API (\<open>docker_api\<close>), the processes of
  \<^verbatim>\<open>docker compose\<close>, SHA-256, the YAML marshaller, \<^verbatim>\<open>jsonc.ToJSON\<close>, the reference parser, the float
  conversion of CPU counts, and in \<open>engine\<close> and \<open>orch_env\<close> the options, the schedules and these functions. A
  result of the compose loader or of a feature store is an arbitrary answer of a call.

  \<^bold>\<open>Fuel.\<close> The JSON parser gets twice the length of the text plus two, and parsing what was printed never
  runs out. A health gate gets a number of polls: C15 says which number is enough for a clock that
  advances. The loops over feature dependencies and local features get \<open>en_fuel\<close> rounds and end in
  the error \<open>LoopFuel\<close>, which no code of the repository returns and which is passed on like any other. The link
  resolution of a file system follows at most 40 links, as Linux does; an inspection that has to be repeated
  is tried five times, as in the source; the waits of the Docker runtime need at most 602 rounds (\<open>waits_return\<close>).

  \<^bold>\<open>Not modelled.\<close> The set-up of the Docker client, image builds and their trace decoder, terminal and log
  streaming, the subscribers of the event bus (an event is a call), the forwarding of build output, the feature stores
  (network, registry and archive libraries), the loader of compose-go, and the command line. Copying a directory is one
  call. A project the code updates in place is passed on as a value.

  \<^bold>\<open>Differences to keep in mind.\<close> Letters are folded and spaces trimmed for ASCII only. The JSON printer does not
  escape U+2028, U+2029 and invalid UTF-8. A nil and an empty map are one value but where the lockfile tells
  them apart. Comparing two option values that are both arrays or objects gives false, where Go panics.
\<close>

end
